(* ===== verification/Prelude.thy ===== *)
theory Prelude
  imports Main "HOL-Library.Word" "HOL-Library.Multiset"
begin

text \<open>
  Shared vocabulary of the development: the Go types the controller is written with, results
  that carry an error, and the generic lemmas on lists and words that the component theories use.

  A Go \<open>string\<close> and a Go \<open>[]byte\<close> are both a sequence of bytes, and \<^typ>\<open>char\<close> has
  exactly 256 values, so both are lists of \<^typ>\<open>char\<close>. \<open>uint64\<close> and \<open>uint32\<close> are words
  of that width, so wrap-around is the machine's. A function that returns \<open>(T, error)\<close> returns
  \<open>e + T\<close> with \<open>Inl\<close> for a non-nil error.
\<close>

type_synonym bytes = "char list"
type_synonym u64 = "64 word"
type_synonym u32 = "32 word"

text \<open>An instant: the nanoseconds since the zero \<open>time.Time\<close>, in UTC.\<close>

type_synonym time = int

named_theorems result_simps \<open>inversion of sequenced fallible steps\<close>
named_theorems text_simps \<open>byte and rune classification\<close>
named_theorems json_simps \<open>evaluation of the JSON decoder\<close>

section \<open>Sequencing fallible steps\<close>

text \<open>\<open>x, err := m; if err != nil { return err }; f x\<close>.\<close>

definition bindE :: "'e + 'a \<Rightarrow> ('a \<Rightarrow> 'e + 'b) \<Rightarrow> 'e + 'b" where
  "bindE m f = (case m of Inl e \<Rightarrow> Inl e | Inr x \<Rightarrow> f x)"

text \<open>\<open>if err != nil { return fmt.Errorf("...: %w", err) }\<close>: the error is wrapped.\<close>

definition wrapE :: "('e \<Rightarrow> 'f) \<Rightarrow> 'e + 'a \<Rightarrow> 'f + 'a" where
  "wrapE w m = (case m of Inl e \<Rightarrow> Inl (w e) | Inr x \<Rightarrow> Inr x)"

text \<open>\<open>if !cond { return err }\<close>.\<close>

definition requireE :: "bool \<Rightarrow> 'e \<Rightarrow> 'e + unit" where
  "requireE b e = (if b then Inr () else Inl e)"

lemma bindE_simps [simp]:
  "bindE (Inl e) f = Inl e"
  "bindE (Inr x) f = f x"
  by (simp_all add: bindE_def)

lemma wrapE_simps [simp]:
  "wrapE w (Inl e) = Inl (w e)"
  "wrapE w (Inr x) = Inr x"
  by (simp_all add: wrapE_def)

lemma requireE_simps [simp]:
  "requireE True e = Inr ()"
  "requireE False e = Inl e"
  by (simp_all add: requireE_def)

lemma bindE_Inr_iff [result_simps]:
  "bindE m f = Inr y \<longleftrightarrow> (\<exists>x. m = Inr x \<and> f x = Inr y)"
  by (cases m) auto

lemma bindE_Inl_iff [result_simps]:
  "bindE m f = Inl e \<longleftrightarrow> m = Inl e \<or> (\<exists>x. m = Inr x \<and> f x = Inl e)"
  by (cases m) auto

lemma wrapE_Inr_iff [result_simps]: "wrapE w m = Inr y \<longleftrightarrow> m = Inr y"
  by (cases m) auto

lemma wrapE_Inl_iff [result_simps]: "wrapE w m = Inl e \<longleftrightarrow> (\<exists>d. m = Inl d \<and> e = w d)"
  by (cases m) auto

lemma requireE_Inr_iff [result_simps]: "requireE b e = Inr u \<longleftrightarrow> b"
  by (cases b) auto

lemma requireE_Inl_iff [result_simps]: "requireE b e = Inl d \<longleftrightarrow> \<not> b \<and> d = e"
  by (cases b) auto

text \<open>A guard with an early return, and a \<open>nil\<close> check, read as one more condition.\<close>

lemma guard_Inr_iff [result_simps]: "(if b then Inl e else m) = Inr r \<longleftrightarrow> \<not> b \<and> m = Inr r"
  by simp

lemma option_Inr_iff [result_simps]:
  "(case x of None \<Rightarrow> Inl e | Some y \<Rightarrow> f y) = Inr r \<longleftrightarrow> (\<exists>y. x = Some y \<and> f y = Inr r)"
  by (cases x) auto

lemma bindE_assoc: "bindE (bindE m f) g = bindE m (\<lambda>x. bindE (f x) g)"
  by (cases m) auto

lemma not_Inl_iff: "(\<forall>e. r \<noteq> Inl e) \<longleftrightarrow> (\<exists>x. r = Inr x)"
  by (cases r) auto

section \<open>The last bytes of a sequence\<close>

definition last_n :: "nat \<Rightarrow> 'a list \<Rightarrow> 'a list" where
  "last_n n xs = drop (length xs - n) xs"

lemma length_last_n [simp]: "length (last_n n xs) = min n (length xs)"
  by (simp add: last_n_def)

lemma last_n_all [simp]: "length xs \<le> n \<Longrightarrow> last_n n xs = xs"
  by (simp add: last_n_def)

lemma last_n_append: "last_n n (xs @ ys) = last_n (n - length ys) xs @ last_n n ys"
  by (cases "length ys \<le> n") (simp_all add: last_n_def)

lemma last_n_last_n_append: "last_n n (last_n n xs @ ys) = last_n n (xs @ ys)"
proof -
  have "last_n (n - length ys) (last_n n xs) = last_n (n - length ys) xs"
    by (simp add: last_n_def) (rule arg_cong2 [where f = drop], simp_all)
  then show ?thesis by (simp add: last_n_append)
qed

lemma take_take_append: "take n (take n xs @ ys) = take n (xs @ ys)"
  by (cases "length xs \<le> n") simp_all

section \<open>Unsigned words as numbers\<close>

lemma unat_u64_less [simp]: "unat (w :: u64) < 18446744073709551616"
  using unsigned_less [where ?'a = nat, of w] by simp

lemma unat_u32_less [simp]: "unat (w :: u32) < 4294967296"
  using unsigned_less [where ?'a = nat, of w] by simp

lemma unat_of_nat_u64: "n < 18446744073709551616 \<Longrightarrow> unat (of_nat n :: u64) = n"
  by (simp add: unat_of_nat)

lemma unat_of_nat_u32: "n < 4294967296 \<Longrightarrow> unat (of_nat n :: u32) = n"
  by (simp add: unat_of_nat)

lemma unat_add_u64:
  "unat a + unat b < 18446744073709551616 \<Longrightarrow> unat (a + b :: u64) = unat a + unat b"
  by (simp add: unat_word_ariths)

lemma unat_sub_u64: "b \<le> a \<Longrightarrow> unat (a - b :: u64) = unat a - unat b"
  by (rule unat_sub)

lemma u64_eq_iff: "(a :: u64) = b \<longleftrightarrow> unat a = unat b"
  by (simp add: word_unat_eq_iff)

end
