(* ===== verification/Sinks.thy ===== *)
theory Sinks
  imports Prelude
begin

text \<open>
  The contract of the bounded writers of the controller. Each keeps a window of everything
  written to it: the first bytes of a child's standard output, the last bytes of its standard
  error. A writer is given data in pieces the child chooses; the contract says that what it holds
  depends on the data only, not on the pieces.
\<close>

locale window_sink =
  fixes empty :: "'s"
    and put :: "bytes \<Rightarrow> 's \<Rightarrow> 's"
    and contents :: "'s \<Rightarrow> bytes"
    and window :: "bytes \<Rightarrow> bytes"
    and invar :: "'s \<Rightarrow> bool"
  assumes invar_empty: "invar empty"
    and invar_put: "invar s \<Longrightarrow> invar (put d s)"
    and contents_empty: "contents empty = window []"
    and contents_put: "invar s \<Longrightarrow> contents (put d s) = window (contents s @ d)"
    and window_window: "window (window a @ b) = window (a @ b)"
begin

lemma invar_puts: "invar s \<Longrightarrow> invar (fold put ds s)"
  by (induction ds arbitrary: s) (simp_all add: invar_put)

lemma contents_puts_from:
  "invar s \<Longrightarrow> contents s = window h \<Longrightarrow> contents (fold put ds s) = window (h @ concat ds)"
proof (induction ds arbitrary: s h)
  case Nil
  then show ?case by simp
next
  case (Cons d ds)
  then have "contents (put d s) = window (h @ d)"
    by (simp add: contents_put window_window)
  with Cons.IH [of "put d s" "h @ d"] Cons.prems show ?case by (simp add: invar_put)
qed

lemma contents_puts: "contents (fold put ds empty) = window (concat ds)"
  using contents_puts_from [OF invar_empty, of "[]" ds] contents_empty by simp

lemma pieces_irrelevant:
  "concat ds = concat es \<Longrightarrow> contents (fold put ds empty) = contents (fold put es empty)"
  by (simp add: contents_puts)

end

end
