(* ===== verification/GoText.thy ===== *)
theory GoText
  imports Prelude
begin

text \<open>
  The text operations of the Go language and standard library that the controller uses: decoding
  of UTF-8 (\<open>range\<close> over a string, \<open>unicode/utf8\<close>), \<open>unicode.IsSpace\<close>, \<open>strings.TrimSpace\<close> and
  \<open>bytes.TrimSpace\<close>, \<open>strings.HasPrefix\<close>, \<open>strings.Contains\<close>, \<open>strings.Split\<close>, fixed-width
  hexadecimal printing (\<open>%016x\<close>) and \<open>strconv.ParseUint\<close>.
\<close>

section \<open>Bytes\<close>

definition byte :: "char \<Rightarrow> nat" where
  "byte c = (of_char c :: nat)"

lemma byte_less [simp]: "byte c < 256"
  by (simp add: byte_def)

lemma byte_inject [simp]: "byte c = byte d \<longleftrightarrow> c = d"
  by (simp add: byte_def)

section \<open>Runes\<close>

text \<open>\<open>utf8.DecodeRune\<close>: the first rune of a byte sequence and its width. An encoding error
  is the replacement rune 65533 with width 1, an empty sequence the same rune with width 0.\<close>

definition rune_error :: nat where
  "rune_error = 65533"

definition cont_byte :: "char \<Rightarrow> bool" where
  "cont_byte c \<longleftrightarrow> 128 \<le> byte c \<and> byte c < 192"

definition second_of_three :: "nat \<Rightarrow> char \<Rightarrow> bool" where
  "second_of_three b0 c =
     (if b0 = 224 then 160 \<le> byte c \<and> byte c < 192
      else if b0 = 237 then 128 \<le> byte c \<and> byte c < 160
      else cont_byte c)"

definition second_of_four :: "nat \<Rightarrow> char \<Rightarrow> bool" where
  "second_of_four b0 c =
     (if b0 = 240 then 144 \<le> byte c \<and> byte c < 192
      else if b0 = 244 then 128 \<le> byte c \<and> byte c < 144
      else cont_byte c)"

fun decode_two :: "nat \<Rightarrow> bytes \<Rightarrow> nat \<times> nat" where
  "decode_two b0 (c1 # cs) =
     (if cont_byte c1 then ((b0 - 192) * 64 + (byte c1 - 128), 2) else (rune_error, 1))"
| "decode_two b0 [] = (rune_error, 1)"

fun decode_three :: "nat \<Rightarrow> bytes \<Rightarrow> nat \<times> nat" where
  "decode_three b0 (c1 # c2 # cs) =
     (if second_of_three b0 c1 \<and> cont_byte c2
      then (((b0 - 224) * 64 + (byte c1 - 128)) * 64 + (byte c2 - 128), 3)
      else (rune_error, 1))"
| "decode_three b0 _ = (rune_error, 1)"

fun decode_four :: "nat \<Rightarrow> bytes \<Rightarrow> nat \<times> nat" where
  "decode_four b0 (c1 # c2 # c3 # cs) =
     (if second_of_four b0 c1 \<and> cont_byte c2 \<and> cont_byte c3
      then ((((b0 - 240) * 64 + (byte c1 - 128)) * 64 + (byte c2 - 128)) * 64
              + (byte c3 - 128), 4)
      else (rune_error, 1))"
| "decode_four b0 _ = (rune_error, 1)"

fun decode_rune :: "bytes \<Rightarrow> nat \<times> nat" where
  "decode_rune [] = (rune_error, 0)"
| "decode_rune (c # cs) =
     (let b0 = byte c in
      if b0 < 128 then (b0, 1)
      else if b0 < 194 then (rune_error, 1)
      else if b0 < 224 then decode_two b0 cs
      else if b0 < 240 then decode_three b0 cs
      else if b0 < 245 then decode_four b0 cs
      else (rune_error, 1))"

declare decode_rune.simps(2) [simp del]

text \<open>\<open>[]rune(s)\<close>, and the runes a \<open>range\<close> loop visits.\<close>

function runes :: "bytes \<Rightarrow> nat list" where
  "runes [] = []"
| "runes (c # cs) = fst (decode_rune (c # cs)) # runes (drop (snd (decode_rune (c # cs)) - 1) cs)"
  by pat_completeness auto
termination
  by (relation "measure length") (auto simp: le_imp_less_Suc)

text \<open>\<open>utf8.Valid\<close>: no position decodes to the error rune of width 1.\<close>

function utf8_valid :: "bytes \<Rightarrow> bool" where
  "utf8_valid [] = True"
| "utf8_valid (c # cs) =
     (decode_rune (c # cs) \<noteq> (rune_error, 1) \<and>
      utf8_valid (drop (snd (decode_rune (c # cs)) - 1) cs))"
  by pat_completeness auto
termination
  by (relation "measure length") (auto simp: le_imp_less_Suc)

text \<open>\<open>utf8.RuneCountInString\<close> and \<open>len([]rune(s))\<close>.\<close>

definition rune_count :: "bytes \<Rightarrow> nat" where
  "rune_count s = length (runes s)"

text \<open>\<open>unicode.IsSpace\<close>.\<close>

definition is_space :: "nat \<Rightarrow> bool" where
  "is_space r \<longleftrightarrow>
     (9 \<le> r \<and> r \<le> 13) \<or> r = 32 \<or> r = 133 \<or> r = 160 \<or> r = 5760 \<or>
     (8192 \<le> r \<and> r \<le> 8202) \<or> r = 8232 \<or> r = 8233 \<or> r = 8239 \<or> r = 8287 \<or> r = 12288"

section \<open>Trimming\<close>

function trim_left_space :: "bytes \<Rightarrow> bytes" where
  "trim_left_space [] = []"
| "trim_left_space (c # cs) =
     (if is_space (fst (decode_rune (c # cs)))
      then trim_left_space (drop (snd (decode_rune (c # cs)) - 1) cs)
      else c # cs)"
  by pat_completeness auto
termination
  by (relation "measure length") (auto simp: le_imp_less_Suc)

text \<open>\<open>utf8.DecodeLastRune\<close>, on the reversed sequence: step back over at most three
  continuation bytes, decode there, and accept only a rune that ends exactly at the end.\<close>

fun last_start :: "nat \<Rightarrow> bytes \<Rightarrow> nat" where
  "last_start k [] = 0"
| "last_start 0 (c # cs) = 0"
| "last_start (Suc k) (c # cs) = (if cont_byte c then Suc (last_start k cs) else 0)"

definition decode_last_rune :: "bytes \<Rightarrow> nat \<times> nat" where
  "decode_last_rune s =
     (case rev s of
        [] \<Rightarrow> (rune_error, 0)
      | c # cs \<Rightarrow>
          if byte c < 128 then (byte c, 1)
          else let n = 2 + last_start 2 cs;
                   (r, size) = decode_rune (last_n n s)
               in if size = length (last_n n s) then (r, size) else (rune_error, 1))"

function trim_right_space :: "bytes \<Rightarrow> bytes" where
  "trim_right_space s =
     (if s \<noteq> [] \<and> is_space (fst (decode_last_rune s)) \<and> snd (decode_last_rune s) \<noteq> 0
      then trim_right_space (take (length s - snd (decode_last_rune s)) s)
      else s)"
  by pat_completeness auto
termination
  by (relation "measure length") auto

declare trim_right_space.simps [simp del]

text \<open>\<open>strings.TrimSpace\<close> and \<open>bytes.TrimSpace\<close>.\<close>

definition trim_space :: "bytes \<Rightarrow> bytes" where
  "trim_space s = trim_right_space (trim_left_space s)"

section \<open>Prefixes, substrings, splitting\<close>

fun has_prefix :: "bytes \<Rightarrow> bytes \<Rightarrow> bool" where
  "has_prefix s [] = True"
| "has_prefix [] (p # ps) = False"
| "has_prefix (c # cs) (p # ps) = (c = p \<and> has_prefix cs ps)"

fun contains :: "bytes \<Rightarrow> bytes \<Rightarrow> bool" where
  "contains [] p = (p = [])"
| "contains (c # cs) p = (has_prefix (c # cs) p \<or> contains cs p)"

text \<open>\<open>strings.Split(s, sep)\<close> for a separator of one byte: never empty, and joining the
  pieces with the separator gives the string back.\<close>

fun split_on :: "char \<Rightarrow> bytes \<Rightarrow> bytes list" where
  "split_on d [] = [[]]"
| "split_on d (c # cs) =
     (if c = d then [] # split_on d cs
      else (case split_on d cs of [] \<Rightarrow> [[c]] | p # ps \<Rightarrow> (c # p) # ps))"

fun join_with :: "bytes \<Rightarrow> bytes list \<Rightarrow> bytes" where
  "join_with d [] = []"
| "join_with d [p] = p"
| "join_with d (p # q # ps) = p @ d @ join_with d (q # ps)"

section \<open>Hexadecimal and decimal numbers\<close>

definition hex_digit :: "nat \<Rightarrow> char" where
  "hex_digit n = ''0123456789abcdef'' ! n"

text \<open>The low \<open>k\<close> hexadecimal digits of \<open>n\<close>, most significant first. \<open>%016x\<close> of a
  \<open>uint64\<close> pads to sixteen digits, which is all it can have.\<close>

fun hex_digits :: "nat \<Rightarrow> nat \<Rightarrow> bytes" where
  "hex_digits 0 n = []"
| "hex_digits (Suc k) n = hex_digits k (n div 16) @ [hex_digit (n mod 16)]"

definition format_016x :: "u64 \<Rightarrow> bytes" where
  "format_016x w = hex_digits 16 (unat w)"

definition digit_val :: "char \<Rightarrow> nat option" where
  "digit_val c =
     (let b = byte c in
      if 48 \<le> b \<and> b \<le> 57 then Some (b - 48)
      else if 97 \<le> b \<and> b \<le> 122 then Some (b - 87)
      else if 65 \<le> b \<and> b \<le> 90 then Some (b - 55)
      else None)"

fun parse_digits :: "nat \<Rightarrow> bytes \<Rightarrow> nat \<Rightarrow> nat option" where
  "parse_digits base [] acc = Some acc"
| "parse_digits base (c # cs) acc =
     (case digit_val c of
        None \<Rightarrow> None
      | Some d \<Rightarrow> if d < base then parse_digits base cs (acc * base + d) else None)"

text \<open>\<open>strconv.ParseUint(s, base, bits)\<close> for a base other than 0: no sign, no underscore, at
  least one digit, and the value fits the width.\<close>

definition parse_uint :: "nat \<Rightarrow> nat \<Rightarrow> bytes \<Rightarrow> nat option" where
  "parse_uint base width s =
     (if s = [] then None
      else (case parse_digits base s 0 of
              None \<Rightarrow> None
            | Some n \<Rightarrow> if n < 2 ^ width then Some n else None))"

text \<open>The character class \<open>'0'..'9', 'a'..'f'\<close> that the code tests rune by rune.\<close>

definition lower_hex_rune :: "nat \<Rightarrow> bool" where
  "lower_hex_rune r \<longleftrightarrow> (48 \<le> r \<and> r \<le> 57) \<or> (97 \<le> r \<and> r \<le> 102)"

definition lower_hex :: "char \<Rightarrow> bool" where
  "lower_hex c \<longleftrightarrow> lower_hex_rune (byte c)"

text \<open>\<open>strconv.Itoa\<close>, \<open>%d\<close> of an unsigned value.\<close>

function decimal :: "nat \<Rightarrow> bytes" where
  "decimal n = (if n < 10 then [hex_digit n] else decimal (n div 10) @ [hex_digit (n mod 10)])"
  by pat_completeness auto
termination
  by (relation "measure id") auto

declare decimal.simps [simp del]

section \<open>Facts about runes\<close>

lemma decode_rune_ascii [simp]: "byte c < 128 \<Longrightarrow> decode_rune (c # cs) = (byte c, 1)"
  by (simp add: decode_rune.simps(2))

lemma decode_two_cases:
  "decode_two b0 cs = (rune_error, 1) \<or>
     (\<exists>r. decode_two b0 cs = (r, 2) \<and> 1 \<le> length cs \<and> (b0 - 192) * 64 \<le> r)"
  by (cases cs) auto

lemma decode_three_cases:
  "decode_three b0 cs = (rune_error, 1) \<or>
     (\<exists>r. decode_three b0 cs = (r, 3) \<and> 2 \<le> length cs \<and> (b0 = 224 \<longrightarrow> 2048 \<le> r) \<and>
          (b0 - 224) * 4096 \<le> r)"
  by (cases "(b0, cs)" rule: decode_three.cases) (auto simp: second_of_three_def)

lemma decode_four_cases:
  "decode_four b0 cs = (rune_error, 1) \<or>
     (\<exists>r. decode_four b0 cs = (r, 4) \<and> 3 \<le> length cs \<and> (b0 = 240 \<longrightarrow> 65536 \<le> r) \<and>
          (b0 - 240) * 262144 \<le> r)"
  by (cases "(b0, cs)" rule: decode_four.cases) (auto simp: second_of_four_def)

lemma decode_rune_high:
  assumes "\<not> byte c < 128"
  shows "128 \<le> fst (decode_rune (c # cs)) \<and> 1 \<le> snd (decode_rune (c # cs)) \<and>
         snd (decode_rune (c # cs)) \<le> Suc (length cs)"
proof -
  consider "byte c < 194 \<or> 245 \<le> byte c" | "194 \<le> byte c" "byte c < 224"
    | "224 \<le> byte c" "byte c < 240" | "240 \<le> byte c" "byte c < 245"
    by linarith
  then show ?thesis
  proof cases
    case 1
    with assms show ?thesis by (auto simp: decode_rune.simps(2) rune_error_def)
  next
    case 2
    with decode_two_cases [of "byte c" cs] show ?thesis
      by (auto simp: decode_rune.simps(2) rune_error_def)
  next
    case 3
    with decode_three_cases [of "byte c" cs] show ?thesis
      by (cases "byte c = 224") (auto simp: decode_rune.simps(2) rune_error_def)
  next
    case 4
    with decode_four_cases [of "byte c" cs] show ?thesis
      by (cases "byte c = 240") (auto simp: decode_rune.simps(2) rune_error_def)
  qed
qed

lemma runes_ascii [simp]: "byte c < 128 \<Longrightarrow> runes (c # cs) = byte c # runes cs"
  by simp

lemma utf8_valid_ascii [simp]: "byte c < 128 \<Longrightarrow> utf8_valid (c # cs) = utf8_valid cs"
  by (simp add: rune_error_def)

declare runes.simps(2) [simp del] utf8_valid.simps(2) [simp del]

lemma runes_eq_Nil [simp]: "runes s = [] \<longleftrightarrow> s = []"
  by (cases s) (simp_all add: runes.simps(2))

lemma runes_all_ascii: "list_all (\<lambda>c. byte c < 128) s \<Longrightarrow> runes s = map byte s"
  by (induction s) simp_all

lemma utf8_valid_all_ascii: "list_all (\<lambda>c. byte c < 128) s \<Longrightarrow> utf8_valid s"
  by (induction s) simp_all

lemma list_all_runes_ascii:
  assumes small: "\<And>r. P r \<Longrightarrow> r < 128"
  shows "list_all P (runes s) \<longleftrightarrow> list_all (\<lambda>c. P (byte c)) s"
proof (induction s rule: runes.induct)
  case 1
  show ?case by simp
next
  case (2 c cs)
  show ?case
  proof (cases "byte c < 128")
    case True
    with "2.IH" show ?thesis by simp
  next
    case False
    with decode_rune_high [OF False, of cs] small show ?thesis
      by (metis leD list.pred_inject(2) runes.simps(2))
  qed
qed

lemma lower_hex_rune_small: "lower_hex_rune r \<Longrightarrow> r < 128"
  by (auto simp: lower_hex_rune_def)

text \<open>The rune loop over the digits is the byte test: no multi-byte rune is a digit.\<close>

lemma list_all_lower_hex_runes [text_simps]:
  "list_all lower_hex_rune (runes s) \<longleftrightarrow> list_all lower_hex s"
  using list_all_runes_ascii [of lower_hex_rune s] lower_hex_rune_small
  by (simp add: lower_hex_def [abs_def])

lemma trim_left_space_Nil_iff: "trim_left_space s = [] \<longleftrightarrow> list_all is_space (runes s)"
  by (induction s rule: trim_left_space.induct) (simp_all add: runes.simps(2))

lemma trim_left_space_head:
  "trim_left_space s = c # cs \<Longrightarrow> \<not> is_space (fst (decode_rune (c # cs)))"
  by (induction s rule: trim_left_space.induct) (auto split: if_splits)

lemma rune_error_not_space [simp]: "\<not> is_space rune_error"
  by (simp add: is_space_def rune_error_def)

text \<open>Truncating a sequence never turns its first rune into a different valid one.\<close>

lemma decode_two_take: "decode_two b (take m cs) \<in> {decode_two b cs, (rune_error, 1)}"
  by (cases cs; cases m) auto

lemma decode_three_short: "length cs < 2 \<Longrightarrow> decode_three b cs = (rune_error, 1)"
  by (cases "(b, cs)" rule: decode_three.cases) auto

lemma decode_four_short: "length cs < 3 \<Longrightarrow> decode_four b cs = (rune_error, 1)"
  by (cases "(b, cs)" rule: decode_four.cases) auto

lemma decode_three_take: "decode_three b (take m cs) \<in> {decode_three b cs, (rune_error, 1)}"
proof (cases "2 \<le> m")
  case True
  then have "m = Suc (Suc (m - 2))" by simp
  then obtain k where "m = Suc (Suc k)" ..
  then show ?thesis by (cases "(b, cs)" rule: decode_three.cases) auto
next
  case False
  then show ?thesis by (simp add: decode_three_short)
qed

lemma decode_four_take: "decode_four b (take m cs) \<in> {decode_four b cs, (rune_error, 1)}"
proof (cases "3 \<le> m")
  case True
  then have "m = Suc (Suc (Suc (m - 3)))" by simp
  then obtain k where "m = Suc (Suc (Suc k))" ..
  then show ?thesis by (cases "(b, cs)" rule: decode_four.cases) auto
next
  case False
  then show ?thesis by (simp add: decode_four_short)
qed

lemma decode_rune_take:
  assumes "m \<noteq> 0"
  shows "decode_rune (take m s) \<in> {decode_rune s, (rune_error, 1)}"
proof (cases s)
  case Nil
  then show ?thesis by simp
next
  case (Cons c cs)
  moreover obtain k where "m = Suc k" using assms not0_implies_Suc by blast
  ultimately show ?thesis
    using decode_two_take [of "byte c" k cs] decode_three_take [of "byte c" k cs]
      decode_four_take [of "byte c" k cs]
    by (auto simp: decode_rune.simps(2) Let_def)
qed

lemma decode_last_rune_whole:
  assumes "s \<noteq> []" "is_space (fst (decode_last_rune s))" "length s \<le> snd (decode_last_rune s)"
  shows "is_space (fst (decode_rune s))"
proof -
  obtain c cs where r: "rev s = c # cs" using assms(1) by (cases "rev s") auto
  then have s: "s = rev cs @ [c]" by (metis rev.simps(2) rev_rev_ident)
  show ?thesis
  proof (cases "byte c < 128")
    case True
    with r assms s show ?thesis by (simp add: decode_last_rune_def)
  next
    case False
    define n where "n = 2 + last_start 2 cs"
    have dl: "decode_last_rune s =
        (if snd (decode_rune (last_n n s)) = length (last_n n s) then decode_rune (last_n n s)
         else (rune_error, 1))"
      using r False
      by (cases "decode_rune (last_n n s)") (simp add: decode_last_rune_def n_def Let_def)
    with assms have "length s \<le> length (last_n n s)" by (auto split: if_splits)
    then have "last_n n s = s" by simp
    with dl assms show ?thesis by (auto split: if_splits)
  qed
qed

lemma trim_right_space_Nil:
  "trim_right_space s = [] \<Longrightarrow> s = [] \<or> is_space (fst (decode_rune s))"
proof (induction s rule: trim_right_space.induct)
  case (1 s)
  let ?cut = "s \<noteq> [] \<and> is_space (fst (decode_last_rune s)) \<and> snd (decode_last_rune s) \<noteq> 0"
  let ?t = "take (length s - snd (decode_last_rune s)) s"
  show ?case
  proof (cases ?cut)
    case False
    then have "trim_right_space s = s" by (simp only: trim_right_space.simps [of s] if_False)
    with "1.prems" show ?thesis by simp
  next
    case True
    with "1.prems" have "trim_right_space ?t = []" by (simp add: trim_right_space.simps [of s])
    with "1.IH" True have "?t = [] \<or> is_space (fst (decode_rune ?t))" by simp
    then show ?thesis
    proof
      assume "?t = []"
      with True have "length s \<le> snd (decode_last_rune s)" by simp
      with True show ?thesis using decode_last_rune_whole by blast
    next
      assume sp: "is_space (fst (decode_rune ?t))"
      then have "length s - snd (decode_last_rune s) \<noteq> 0"
        by (metis decode_rune.simps(1) fst_conv rune_error_not_space take0)
      from decode_rune_take [OF this, of s] sp show ?thesis by auto
    qed
  qed
qed

text \<open>\<open>strings.TrimSpace(s) == ""\<close> holds exactly for a string of white-space runes.\<close>

lemma trim_space_Nil_iff [text_simps]: "trim_space s = [] \<longleftrightarrow> list_all is_space (runes s)"
proof -
  have "trim_left_space s = []" if "trim_right_space (trim_left_space s) = []"
    using trim_right_space_Nil [OF that] trim_left_space_head [of s]
    by (cases "trim_left_space s") auto
  then show ?thesis
    by (auto simp: trim_space_def trim_left_space_Nil_iff [symmetric] trim_right_space.simps [of "[]"])
qed

section \<open>Hexadecimal round trip\<close>

lemma length_hex_digits [simp]: "length (hex_digits k n) = k"
  by (induction k arbitrary: n) simp_all

lemma hex_digit_cases:
  assumes "(d::nat) < 16"
  shows "d \<in> {0, 1, 2, 3, 4, 5, 6, 7, 8, 9, 10, 11, 12, 13, 14, 15}"
proof -
  from assms have "d \<in> set [0..<16]" by simp
  then show ?thesis by (simp add: upt_rec numeral_eq_Suc)
qed

lemma hex_digit_facts:
  assumes "d < 16"
  shows "lower_hex (hex_digit d) \<and> digit_val (hex_digit d) = Some d"
  using hex_digit_cases [OF assms]
  by (auto simp: hex_digit_def lower_hex_def lower_hex_rune_def digit_val_def byte_def)

lemma hex_digits_lower_hex: "list_all lower_hex (hex_digits k n)"
  by (induction k arbitrary: n) (simp_all add: hex_digit_facts)

lemma parse_digits_append:
  "parse_digits base (xs @ ys) acc =
     (case parse_digits base xs acc of None \<Rightarrow> None | Some a \<Rightarrow> parse_digits base ys a)"
  by (induction xs arbitrary: acc) (simp_all split: option.splits)

lemma parse_hex_digits: "parse_digits 16 (hex_digits k n) 0 = Some (n mod 16 ^ k)"
proof (induction k arbitrary: n)
  case 0
  show ?case by simp
next
  case (Suc k)
  have "n div 16 mod 16 ^ k * 16 + n mod 16 = n mod (16 * 16 ^ k)"
    by (simp add: mod_mult2_eq mult.commute)
  with Suc show ?case by (simp add: parse_digits_append hex_digit_facts)
qed

lemma byte_hex_digit: "d < 16 \<Longrightarrow> byte (hex_digit d) = (if d < 10 then 48 + d else 87 + d)"
  by (drule hex_digit_cases) (auto simp: hex_digit_def byte_def)

lemma lower_hex_digit:
  assumes "lower_hex c"
  obtains d where "d < 16" "digit_val c = Some d" "hex_digit d = c"
proof -
  let ?d = "if byte c \<le> 57 then byte c - 48 else byte c - 87"
  have d: "?d < 16" using assms by (auto simp: lower_hex_def lower_hex_rune_def)
  moreover have "digit_val c = Some ?d"
    using assms by (auto simp: lower_hex_def lower_hex_rune_def digit_val_def)
  moreover have "byte (hex_digit ?d) = byte c"
    unfolding byte_hex_digit [OF d] using assms by (auto simp: lower_hex_def lower_hex_rune_def)
  ultimately show ?thesis using that by simp
qed

text \<open>Sixteen lower-case digits are the printed form of exactly one 64-bit value.\<close>

lemma hex_digits_parse:
  "list_all lower_hex s \<Longrightarrow>
     \<exists>n. parse_digits 16 s 0 = Some n \<and> n < 16 ^ length s \<and> hex_digits (length s) n = s"
proof (induction s rule: rev_induct)
  case Nil
  show ?case by simp
next
  case (snoc c s)
  then obtain n where n: "parse_digits 16 s 0 = Some n" "n < 16 ^ length s"
    "hex_digits (length s) n = s" by auto
  from snoc.prems obtain d where d: "d < 16" "digit_val c = Some d" "hex_digit d = c"
    by (auto elim: lower_hex_digit)
  from n d have "parse_digits 16 (s @ [c]) 0 = Some (n * 16 + d)"
    by (simp add: parse_digits_append)
  moreover from n(2) d(1) have "n * 16 + d < 16 ^ length (s @ [c])" by simp
  moreover have "hex_digits (length (s @ [c])) (n * 16 + d) = s @ [c]"
    using n(3) d by simp
  ultimately show ?case by blast
qed

lemma length_format_016x [simp]: "length (format_016x w) = 16"
  by (simp add: format_016x_def)

lemma format_016x_lower_hex [simp]: "list_all lower_hex (format_016x w)"
  by (simp add: format_016x_def hex_digits_lower_hex)

lemma hex_digits_16_nonempty [simp]: "hex_digits 16 n \<noteq> []"
  by (metis length_0_conv length_hex_digits zero_neq_numeral)

lemma parse_uint_format_016x [simp]: "parse_uint 16 64 (format_016x w) = Some (unat w)"
  by (simp add: parse_uint_def format_016x_def parse_hex_digits)

lemma parse_uint_lower_hex:
  assumes "length s = 16" "list_all lower_hex s"
  obtains n where "parse_uint 16 64 s = Some n" "format_016x (of_nat n) = s"
proof -
  from hex_digits_parse [OF assms(2)] assms(1) obtain n where
    "parse_digits 16 s 0 = Some n" "n < 16 ^ 16" "hex_digits 16 n = s" by auto
  with assms(1) show ?thesis
    by (intro that [of n]) (auto simp: parse_uint_def format_016x_def unat_of_nat_u64)
qed

lemma inj_format_016x: "format_016x v = format_016x w \<Longrightarrow> v = w"
  by (metis option.inject parse_uint_format_016x word_unat_eq_iff)

lemmas hex_digits_numeral = hex_digits.simps(2) [of "pred_numeral k" for k, folded numeral_eq_Suc]

section \<open>Splitting and joining\<close>

lemma split_on_not_Nil [simp]: "split_on d s \<noteq> []"
  by (cases s) (auto split: list.splits)

lemma join_split_on: "join_with [d] (split_on d s) = s"
proof (induction s)
  case Nil
  show ?case by simp
next
  case (Cons c s)
  obtain p ps where "split_on d s = p # ps" by (meson neq_Nil_conv split_on_not_Nil)
  with Cons show ?case by (cases ps) auto
qed

lemma split_on_pieces: "p \<in> set (split_on d s) \<Longrightarrow> d \<notin> set p"
  by (induction s arbitrary: p) (auto split: list.splits if_splits)

end
