(* ===== verification/Frame.thy ===== *)
theory Frame
  imports Sinks GoText
begin

text \<open>
  \<open>internal/worker/frame.go\<close>: reading one newline-terminated frame of bounded size from a
  buffered reader, and the bounded tail that keeps the end of the child's diagnostics. The main
  result about the reader is that its buffer is invisible: whatever the buffer size, the frame it
  returns, and the error it reports, are those of a one-pass specification over the byte stream.
\<close>

section \<open>bufio.Reader.ReadSlice\<close>

datatype read_error = EOF | ReadFailure bytes
datatype slice_error = ErrBufferFull | SourceError read_error

text \<open>A reader is what its source will still deliver and the error that follows. \<open>NewReaderSize\<close>
  rounds a buffer up to sixteen bytes. \<open>ReadSlice\<close> returns the bytes up to and including the
  first newline if it is within one buffer, a full buffer with \<open>ErrBufferFull\<close> if it is not,
  and what is left with the source's error at the end.\<close>

record reader =
  unread :: bytes
  final :: read_error

definition newline :: char where "newline = CHR 0x0A"
definition carriage_return :: char where "carriage_return = CHR 0x0D"

definition min_read_buffer :: nat where "min_read_buffer = 16"

definition ReadSlice :: "nat \<Rightarrow> reader \<Rightarrow> bytes \<times> slice_error option \<times> reader" where
  "ReadSlice bufsize rd =
     (let b = max bufsize min_read_buffer; line = takeWhile (\<lambda>c. c \<noteq> newline) (unread rd) in
      if length line < length (unread rd) \<and> length line < b
      then (line @ [newline], None, rd\<lparr>unread := drop (Suc (length line)) (unread rd)\<rparr>)
      else if b \<le> length (unread rd)
      then (take b (unread rd), Some ErrBufferFull, rd\<lparr>unread := drop b (unread rd)\<rparr>)
      else (unread rd, Some (SourceError (final rd)), rd\<lparr>unread := []\<rparr>))"

lemma ReadSlice_full_decreases:
  "ReadSlice bufsize rd = (chunk, Some ErrBufferFull, rd') \<Longrightarrow> length (unread rd') < length (unread rd)"
  by (auto simp: ReadSlice_def Let_def min_read_buffer_def split: if_splits)

section \<open>readFrame\<close>

datatype frame_error = FrameTooLarge nat | TruncatedFrame | FrameRead read_error

definition strip_cr :: "bytes \<Rightarrow> bytes" where
  "strip_cr payload =
     (if length payload \<noteq> 0 \<and> last payload = carriage_return then butlast payload else payload)"

definition possible_crlf :: "nat \<Rightarrow> bytes \<Rightarrow> bytes \<Rightarrow> bool" where
  "possible_crlf maxPayloadBytes payload fragment \<longleftrightarrow>
     length payload + length fragment = maxPayloadBytes + 1 \<and>
     ((length fragment \<noteq> 0 \<and> last fragment = carriage_return) \<or>
      (length fragment = 0 \<and> length payload \<noteq> 0 \<and> last payload = carriage_return))"

function readFrame_loop ::
  "nat \<Rightarrow> nat \<Rightarrow> bytes \<Rightarrow> reader \<Rightarrow> (frame_error + bytes) \<times> reader" where
  "readFrame_loop bufsize maxPayloadBytes payload rd =
     (let (chunk, err, rd') = ReadSlice bufsize rd;
          hasNewline = (length chunk \<noteq> 0 \<and> last chunk = newline);
          fragment = (if hasNewline then butlast chunk else chunk)
      in
      if length payload + length fragment > maxPayloadBytes \<and>
         \<not> possible_crlf maxPayloadBytes payload fragment
      then (Inl (FrameTooLarge maxPayloadBytes), rd')
      else if hasNewline then
        (let payload' = strip_cr (payload @ fragment) in
         if length payload' > maxPayloadBytes then (Inl (FrameTooLarge maxPayloadBytes), rd')
         else (Inr payload', rd'))
      else
        (case err of
           Some ErrBufferFull \<Rightarrow> readFrame_loop bufsize maxPayloadBytes (payload @ fragment) rd'
         | Some (SourceError e) \<Rightarrow>
             if e = EOF \<and> length (payload @ fragment) \<noteq> 0 then (Inl TruncatedFrame, rd')
             else (Inl (FrameRead e), rd')
         | None \<Rightarrow> (Inl TruncatedFrame, rd')))"
  by pat_completeness auto
termination
  by (relation "measure (\<lambda>(bufsize, m, payload, rd). length (unread rd))")
    (auto dest!: ReadSlice_full_decreases [OF sym])

declare readFrame_loop.simps [simp del]

definition readFrame :: "nat \<Rightarrow> nat \<Rightarrow> reader \<Rightarrow> (frame_error + bytes) \<times> reader" where
  "readFrame bufsize maxPayloadBytes rd = readFrame_loop bufsize maxPayloadBytes [] rd"

section \<open>Specification of one frame\<close>

text \<open>The line is everything before the first newline, or everything there is. One byte over the
  limit is tolerated for a carriage return that the newline turns into a terminator.\<close>

definition fits :: "nat \<Rightarrow> bytes \<Rightarrow> bool" where
  "fits m line \<longleftrightarrow> length line \<le> m \<or> (length line = m + 1 \<and> last line = carriage_return)"

definition frame_spec :: "nat \<Rightarrow> bytes \<Rightarrow> read_error \<Rightarrow> frame_error + bytes" where
  "frame_spec m stream e =
     (let line = takeWhile (\<lambda>c. c \<noteq> newline) stream in
      if \<not> fits m line then Inl (FrameTooLarge m)
      else if newline \<in> set stream then Inr (strip_cr line)
      else if e = EOF \<and> line \<noteq> [] then Inl TruncatedFrame
      else Inl (FrameRead e))"

section \<open>boundedTail\<close>

record boundedTail =
  bt_bytes :: bytes
  bt_capacity :: nat

definition newBoundedTail :: "nat \<Rightarrow> boundedTail" where
  "newBoundedTail capacity = \<lparr>bt_bytes = [], bt_capacity = capacity\<rparr>"

definition boundedTail_Write :: "bytes \<Rightarrow> boundedTail \<Rightarrow> boundedTail" where
  "boundedTail_Write data tail =
     (if length data \<ge> bt_capacity tail
      then tail\<lparr>bt_bytes := drop (length data - bt_capacity tail) data\<rparr>
      else
        (let kept = (if length (bt_bytes tail) + length data > bt_capacity tail
                     then drop (length (bt_bytes tail) + length data - bt_capacity tail) (bt_bytes tail)
                     else bt_bytes tail)
         in tail\<lparr>bt_bytes := kept @ data\<rparr>))"

definition boundedTail_String :: "boundedTail \<Rightarrow> bytes" where
  "boundedTail_String tail = bt_bytes tail"

section \<open>The buffer is invisible\<close>

text \<open>The three outcomes of \<open>ReadSlice\<close>, in terms of the line the stream starts with.\<close>

abbreviation first_line :: "bytes \<Rightarrow> bytes" where
  "first_line \<equiv> takeWhile (\<lambda>c. c \<noteq> newline)"

abbreviation after_line :: "bytes \<Rightarrow> bytes" where
  "after_line s \<equiv> drop (Suc (length (first_line s))) s"

lemma has_newline_iff: "length (first_line s) < length s \<longleftrightarrow> newline \<in> set s"
  by (induction s) auto

lemma newline_notin_first_line [simp]: "newline \<notin> set (first_line s)"
  by (auto dest: set_takeWhileD)

lemma first_line_all: "newline \<notin> set s \<Longrightarrow> first_line s = s"
  by (induction s) auto

lemma first_line_drop:
  "b \<le> length (first_line s) \<Longrightarrow>
     newline \<notin> set (take b s) \<and> first_line s = take b s @ first_line (drop b s)"
proof (induction s arbitrary: b)
  case (Cons c s)
  then show ?case by (cases b) (auto split: if_splits)
qed simp

lemma ReadSlice_cases:
  obtains
    (line) "newline \<in> set (unread rd)"
      "ReadSlice b rd = (first_line (unread rd) @ [newline], None, rd\<lparr>unread := after_line (unread rd)\<rparr>)"
  | (full) n where "n \<noteq> 0" "n \<le> length (unread rd)" "newline \<notin> set (take n (unread rd))"
      "first_line (unread rd) = take n (unread rd) @ first_line (drop n (unread rd))"
      "ReadSlice b rd = (take n (unread rd), Some ErrBufferFull, rd\<lparr>unread := drop n (unread rd)\<rparr>)"
  | (rest) "newline \<notin> set (unread rd)"
      "ReadSlice b rd = (unread rd, Some (SourceError (final rd)), rd\<lparr>unread := []\<rparr>)"
proof -
  let ?n = "max b min_read_buffer"
  have n: "?n \<noteq> 0" by (simp add: min_read_buffer_def)
  consider "newline \<in> set (unread rd)" "length (first_line (unread rd)) < ?n"
    | "?n \<le> length (unread rd)" "?n \<le> length (first_line (unread rd))"
    | "newline \<notin> set (unread rd)" "length (unread rd) < ?n"
    using has_newline_iff [of "unread rd"] length_takeWhile_le [of "\<lambda>c. c \<noteq> newline" "unread rd"]
    by linarith
  then show thesis
  proof cases
    case 1
    then show thesis by (intro line) (simp_all add: ReadSlice_def Let_def has_newline_iff)
  next
    case 2
    then show thesis
      using first_line_drop [OF 2(2)] n by (intro full [of ?n]) (simp_all add: ReadSlice_def Let_def)
  next
    case 3
    then show thesis
      by (intro rest) (auto simp: ReadSlice_def Let_def has_newline_iff max_def split: if_splits)
  qed
qed

lemma last_ne_newline: "newline \<notin> set s \<Longrightarrow> s \<noteq> [] \<Longrightarrow> last s \<noteq> newline"
  using last_in_set by fastforce

lemma fits_iff_guard:
  "(length payload + length fragment > m \<and> \<not> possible_crlf m payload fragment) \<longleftrightarrow>
     \<not> fits m (payload @ fragment)"
  by (auto simp: fits_def possible_crlf_def last_append)

lemma fits_prefix: "fits m (p @ q) \<Longrightarrow> fits m p"
  by (cases "q = []") (auto simp: fits_def Suc_le_eq [symmetric] neq_Nil_conv)

lemma strip_cr_length: "fits m s \<Longrightarrow> length (strip_cr s) \<le> m"
  by (auto simp: fits_def strip_cr_def)

lemma stream_split: "newline \<in> set s \<Longrightarrow> s = first_line s @ [newline] @ after_line s"
  by (induction s) auto

lemma strip_cr_cases:
  "strip_cr s = s \<or> s = strip_cr s @ [carriage_return]"
  by (cases s rule: rev_cases) (auto simp: strip_cr_def)

lemma strip_cr_decompose:
  assumes "newline \<in> set s"
  shows "newline \<notin> set (strip_cr (first_line s))"
    and "s = strip_cr (first_line s) @ [newline] @ after_line s \<or>
         s = strip_cr (first_line s) @ [carriage_return, newline] @ after_line s"
proof -
  show "newline \<notin> set (strip_cr (first_line s))"
    by (auto simp: strip_cr_def dest: in_set_butlastD set_takeWhileD)
  show "s = strip_cr (first_line s) @ [newline] @ after_line s \<or>
        s = strip_cr (first_line s) @ [carriage_return, newline] @ after_line s"
    using stream_split [OF assms] strip_cr_cases [of "first_line s"]
    by (metis append.assoc append_Cons append_Nil)
qed

lemma first_line_append [simp]: "newline \<notin> set p \<Longrightarrow> first_line (p @ s) = p @ first_line s"
  by (induction p) auto

lemma readFrame_loop_spec:
  assumes "newline \<notin> set payload"
  shows "fst (readFrame_loop b m payload rd) = frame_spec m (payload @ unread rd) (final rd) \<and>
         (\<forall>p. fst (readFrame_loop b m payload rd) = Inr p \<longrightarrow>
              snd (readFrame_loop b m payload rd) = rd\<lparr>unread := after_line (unread rd)\<rparr>)"
  using assms
proof (induction "length (unread rd)" arbitrary: payload rd rule: less_induct)
  case less
  note unfold = readFrame_loop.simps [of b m payload rd] Let_def fits_iff_guard frame_spec_def
  consider (line) "newline \<in> set (unread rd)"
      "ReadSlice b rd = (first_line (unread rd) @ [newline], None, rd\<lparr>unread := after_line (unread rd)\<rparr>)"
    | (full) n where "n \<noteq> 0" "n \<le> length (unread rd)" "newline \<notin> set (take n (unread rd))"
      "first_line (unread rd) = take n (unread rd) @ first_line (drop n (unread rd))"
      "ReadSlice b rd = (take n (unread rd), Some ErrBufferFull, rd\<lparr>unread := drop n (unread rd)\<rparr>)"
    | (rest) "newline \<notin> set (unread rd)"
      "ReadSlice b rd = (unread rd, Some (SourceError (final rd)), rd\<lparr>unread := []\<rparr>)"
    by (rule ReadSlice_cases)
  then show ?case
  proof cases
    case line
    then show ?thesis using less.prems by (auto simp: unfold dest: strip_cr_length)
  next
    case full
    let ?p = "payload @ take n (unread rd)" and ?rd = "rd\<lparr>unread := drop n (unread rd)\<rparr>"
    have ih: "fst (readFrame_loop b m ?p ?rd) = frame_spec m (?p @ unread ?rd) (final ?rd) \<and>
       (\<forall>p. fst (readFrame_loop b m ?p ?rd) = Inr p \<longrightarrow>
            snd (readFrame_loop b m ?p ?rd) = ?rd\<lparr>unread := after_line (unread ?rd)\<rparr>)"
      by (rule less.hyps) (use full less.prems in simp_all)
    have after: "after_line (unread rd) = after_line (drop n (unread rd))"
      using full(2,4) by (simp add: add.commute)
    show ?thesis
    proof (cases "fits m ?p")
      case True
      then show ?thesis using full ih after by (simp add: unfold last_ne_newline cong: conj_cong)
    next
      case False
      then show ?thesis
        using full less.prems fits_prefix [of m ?p]
        by (auto simp: unfold last_ne_newline cong: conj_cong)
    qed
  next
    case rest
    then show ?thesis
      using less.prems by (simp add: unfold last_ne_newline first_line_all cong: conj_cong)
  qed
qed

text \<open>
  Claim C10. For every buffer size, \<open>readFrame\<close> returns exactly the frame of the byte stream: the
  first line without its terminator, a size error if the line does not fit the limit, and the
  truncation or read error if there is no newline. After a frame the reader stands right behind
  the newline, so the next call reads the next line.
\<close>

theorem readFrame_exact:
  "fst (readFrame bufsize m rd) = frame_spec m (unread rd) (final rd) \<and>
   (case readFrame bufsize m rd of
      (Inl e, rd') \<Rightarrow> True
    | (Inr p, rd') \<Rightarrow>
        length p \<le> m \<and> newline \<notin> set p \<and> rd' = rd\<lparr>unread := after_line (unread rd)\<rparr> \<and>
        (unread rd = p @ [newline] @ unread rd' \<or> unread rd = p @ [carriage_return, newline] @ unread rd'))"
proof -
  have "case frame_spec m (unread rd) (final rd) of Inl e \<Rightarrow> True
        | Inr p \<Rightarrow> length p \<le> m \<and> newline \<notin> set p \<and>
            (unread rd = p @ [newline] @ after_line (unread rd) \<or>
             unread rd = p @ [carriage_return, newline] @ after_line (unread rd))"
    by (simp add: frame_spec_def Let_def strip_cr_length strip_cr_decompose(1)
        strip_cr_decompose(2) [simplified] split del: if_split split: sum.split if_split)
  with readFrame_loop_spec [of "[]" bufsize m rd] show ?thesis
    by (auto simp: readFrame_def split: prod.splits sum.splits)
qed

section \<open>The bounded tail\<close>

abbreviation boundedTail_ok :: "nat \<Rightarrow> boundedTail \<Rightarrow> bool" where
  "boundedTail_ok capacity tail \<equiv> bt_capacity tail = capacity \<and> length (bt_bytes tail) \<le> capacity"

interpretation tail: window_sink "newBoundedTail capacity" boundedTail_Write boundedTail_String
    "last_n capacity" "boundedTail_ok capacity" for capacity
proof unfold_locales
  show "last_n capacity (last_n capacity a @ b) = last_n capacity (a @ b)" for a b :: bytes
    by (rule last_n_last_n_append)
qed (auto simp: newBoundedTail_def boundedTail_Write_def boundedTail_String_def Let_def last_n_append last_n_def)

text \<open>
  Claim C15. Whatever pieces the child's diagnostics arrive in, the tail holds exactly the last
  \<open>capacity\<close> bytes of them.
\<close>

theorem boundedTail_exact:
  "boundedTail_String (fold boundedTail_Write ds (newBoundedTail capacity)) = last_n capacity (concat ds)"
  by (rule tail.contents_puts)

end
