(* ===== verification/Json.thy ===== *)
theory Json
  imports GoText
begin

text \<open>
  The part of \<open>encoding/json\<close> that the controller uses. A document is scanned into a tree in
  which strings keep their quoted text and arrays and objects keep their source text, because
  \<open>json.RawMessage\<close> fields hold that text and are decoded again later. Decoding into a Go value
  is a function from a tree and the value so far to the new value, as \<open>Unmarshal\<close> updates its
  target in place: an unset field keeps what it had, \<open>null\<close> leaves a non-pointer alone, and a
  key selects a struct field by its exact name or, failing that, by the name with case folded.
  All of its errors are one value here (\<open>None\<close>); no caller looks further into them.
\<close>

section \<open>Documents\<close>

text \<open>The payload of \<open>JStr\<close> and of an object key is the text between the quotes, escapes
  unresolved; that of \<open>JArr\<close> and \<open>JObj\<close> is the text of the whole value.\<close>

datatype json =
    JNull
  | JBool bool
  | JNum bytes
  | JStr bytes
  | JArr bytes "json list"
  | JObj bytes "(bytes \<times> json) list"

definition quote :: char where "quote = CHR 0x22"
definition backslash :: char where "backslash = CHR 0x5C"

fun raw_of :: "json \<Rightarrow> bytes" where
  "raw_of JNull = ''null''"
| "raw_of (JBool b) = (if b then ''true'' else ''false'')"
| "raw_of (JNum n) = n"
| "raw_of (JStr s) = quote # s @ [quote]"
| "raw_of (JArr r _) = r"
| "raw_of (JObj r _) = r"

definition json_space :: "char \<Rightarrow> bool" where
  "json_space c \<longleftrightarrow> byte c \<in> {32, 9, 10, 13}"

definition skip_space :: "bytes \<Rightarrow> bytes" where
  "skip_space s = dropWhile json_space s"

definition is_digit :: "char \<Rightarrow> bool" where
  "is_digit c \<longleftrightarrow> 48 \<le> byte c \<and> byte c \<le> 57"

definition is_hex :: "char \<Rightarrow> bool" where
  "is_hex c \<longleftrightarrow> is_digit c \<or> (97 \<le> byte c \<and> byte c \<le> 102) \<or> (65 \<le> byte c \<and> byte c \<le> 70)"

section \<open>Literals\<close>

text \<open>What may follow a backslash inside a string: a one-letter escape, or \<open>u\<close> and four
  hexadecimal digits. The result is that text and what is left.\<close>

definition scan_escape :: "bytes \<Rightarrow> (bytes \<times> bytes) option" where
  "scan_escape s =
     (case s of
        [] \<Rightarrow> None
      | e # es \<Rightarrow>
          if e \<in> set ''bfnrt/'' \<or> e = quote \<or> e = backslash then Some ([e], es)
          else if e = CHR ''u'' \<and> 4 \<le> length es \<and> list_all is_hex (take 4 es)
          then Some (e # take 4 es, drop 4 es)
          else None)"

lemma scan_escape_split: "scan_escape s = Some (e, r) \<Longrightarrow> s = e @ r \<and> e \<noteq> []"
  by (auto simp: scan_escape_def split: list.splits if_splits)

lemma scan_escape_le: "scan_escape s = Some (e, r) \<Longrightarrow> length r < Suc (length s)"
  by (drule scan_escape_split) auto

text \<open>From after the opening quote to the closing one: the text between them, and the rest.\<close>

function scan_string :: "bytes \<Rightarrow> (bytes \<times> bytes) option" where
  "scan_string [] = None"
| "scan_string (c # cs) =
     (if c = quote then Some ([], cs)
      else if c = backslash then
        (case scan_escape cs of
           None \<Rightarrow> None
         | Some (e, es) \<Rightarrow> map_option (\<lambda>(b, r). (c # e @ b, r)) (scan_string es))
      else if byte c < 32 then None
      else map_option (\<lambda>(b, r). (c # b, r)) (scan_string cs))"
  by pat_completeness auto
termination
  by (relation "measure length") (auto dest: scan_escape_le)

declare scan_string.simps(2) [simp del]

definition scan_int :: "bytes \<Rightarrow> (bytes \<times> bytes) option" where
  "scan_int s =
     (case s of
        [] \<Rightarrow> None
      | c # cs \<Rightarrow>
          if c = CHR ''0'' then Some ([c], cs)
          else if is_digit c then Some (c # takeWhile is_digit cs, dropWhile is_digit cs)
          else None)"

definition scan_frac :: "bytes \<Rightarrow> (bytes \<times> bytes) option" where
  "scan_frac s =
     (case s of
        [] \<Rightarrow> Some ([], [])
      | c # cs \<Rightarrow>
          if c = CHR ''.'' then
            (if takeWhile is_digit cs = [] then None
             else Some (c # takeWhile is_digit cs, dropWhile is_digit cs))
          else Some ([], s))"

definition scan_sign :: "bytes \<Rightarrow> bytes \<times> bytes" where
  "scan_sign s =
     (case s of
        [] \<Rightarrow> ([], [])
      | c # cs \<Rightarrow> if c = CHR ''+'' \<or> c = CHR ''-'' then ([c], cs) else ([], s))"

definition scan_exp :: "bytes \<Rightarrow> (bytes \<times> bytes) option" where
  "scan_exp s =
     (case s of
        [] \<Rightarrow> Some ([], [])
      | c # cs \<Rightarrow>
          if c = CHR ''e'' \<or> c = CHR ''E'' then
            (let (sgn, ds) = scan_sign cs in
             if takeWhile is_digit ds = [] then None
             else Some (c # sgn @ takeWhile is_digit ds, dropWhile is_digit ds))
          else Some ([], s))"

definition scan_number :: "bytes \<Rightarrow> (bytes \<times> bytes) option" where
  "scan_number s =
     (let (m, s0) = (case s of [] \<Rightarrow> ([], []) | c # cs \<Rightarrow> if c = CHR ''-'' then ([c], cs) else ([], s)) in
      case scan_int s0 of None \<Rightarrow> None | Some (i, s1) \<Rightarrow>
      (case scan_frac s1 of None \<Rightarrow> None | Some (f, s2) \<Rightarrow>
      (case scan_exp s2 of None \<Rightarrow> None | Some (e, s3) \<Rightarrow> Some (m @ i @ f @ e, s3))))"

text \<open>A string, number, \<open>true\<close>, \<open>false\<close> or \<open>null\<close> at the head of the input. A literal ends
  where it can be continued no further; what follows is the next token's concern.\<close>

definition scan_literal :: "bytes \<Rightarrow> (json \<times> bytes) option" where
  "scan_literal s =
     (case s of
        [] \<Rightarrow> None
      | c # cs \<Rightarrow>
          if c = quote then map_option (\<lambda>(b, r). (JStr b, r)) (scan_string cs)
          else if has_prefix s ''true'' then Some (JBool True, drop 4 s)
          else if has_prefix s ''false'' then Some (JBool False, drop 5 s)
          else if has_prefix s ''null'' then Some (JNull, drop 4 s)
          else map_option (\<lambda>(n, r). (JNum n, r)) (scan_number s))"

section \<open>Values\<close>

datatype 'a parsed = Parsed 'a bytes | Malformed | OutOfFuel

definition max_nesting_depth :: nat where
  "max_nesting_depth = 10000"

text \<open>The text of a value that starts at \<open>s\<close> and leaves \<open>r\<close>.\<close>

definition text_upto :: "bytes \<Rightarrow> bytes \<Rightarrow> bytes" where
  "text_upto s r = take (length s - length r) s"

fun parse_value :: "nat \<Rightarrow> nat \<Rightarrow> bytes \<Rightarrow> json parsed"
  and parse_elems :: "nat \<Rightarrow> nat \<Rightarrow> bytes \<Rightarrow> json list parsed"
  and parse_members :: "nat \<Rightarrow> nat \<Rightarrow> bytes \<Rightarrow> (bytes \<times> json) list parsed"
where
  "parse_value 0 d s = OutOfFuel"
| "parse_value (Suc f) d s =
     (case skip_space s of
        [] \<Rightarrow> Malformed
      | c # cs \<Rightarrow>
          if c = CHR ''['' then
            (if max_nesting_depth \<le> d then Malformed
             else case skip_space cs of
               [] \<Rightarrow> Malformed
             | x # xs \<Rightarrow>
                 if x = CHR '']'' then Parsed (JArr (text_upto (c # cs) xs) []) xs
                 else (case parse_elems f (Suc d) (x # xs) of
                         Parsed es r \<Rightarrow> Parsed (JArr (text_upto (c # cs) r) es) r
                       | Malformed \<Rightarrow> Malformed
                       | OutOfFuel \<Rightarrow> OutOfFuel))
          else if c = CHR ''{'' then
            (if max_nesting_depth \<le> d then Malformed
             else case skip_space cs of
               [] \<Rightarrow> Malformed
             | x # xs \<Rightarrow>
                 if x = CHR ''}'' then Parsed (JObj (text_upto (c # cs) xs) []) xs
                 else (case parse_members f (Suc d) (x # xs) of
                         Parsed ms r \<Rightarrow> Parsed (JObj (text_upto (c # cs) r) ms) r
                       | Malformed \<Rightarrow> Malformed
                       | OutOfFuel \<Rightarrow> OutOfFuel))
          else (case scan_literal (c # cs) of None \<Rightarrow> Malformed | Some (j, r) \<Rightarrow> Parsed j r))"
| "parse_elems 0 d s = OutOfFuel"
| "parse_elems (Suc f) d s =
     (case parse_value f d s of
        Malformed \<Rightarrow> Malformed
      | OutOfFuel \<Rightarrow> OutOfFuel
      | Parsed j r \<Rightarrow>
          (case skip_space r of
             [] \<Rightarrow> Malformed
           | x # xs \<Rightarrow>
               if x = CHR '','' then
                 (case parse_elems f d xs of
                    Parsed js r' \<Rightarrow> Parsed (j # js) r'
                  | Malformed \<Rightarrow> Malformed
                  | OutOfFuel \<Rightarrow> OutOfFuel)
               else if x = CHR '']'' then Parsed [j] xs
               else Malformed))"
| "parse_members 0 d s = OutOfFuel"
| "parse_members (Suc f) d s =
     (case skip_space s of
        [] \<Rightarrow> Malformed
      | q # cs \<Rightarrow>
          if q \<noteq> quote then Malformed
          else case scan_string cs of
            None \<Rightarrow> Malformed
          | Some (k, r) \<Rightarrow>
              (case skip_space r of
                 [] \<Rightarrow> Malformed
               | x # xs \<Rightarrow>
                   if x \<noteq> CHR '':'' then Malformed
                   else case parse_value f d xs of
                     Malformed \<Rightarrow> Malformed
                   | OutOfFuel \<Rightarrow> OutOfFuel
                   | Parsed j r' \<Rightarrow>
                       (case skip_space r' of
                          [] \<Rightarrow> Malformed
                        | y # ys \<Rightarrow>
                            if y = CHR '','' then
                              (case parse_members f d ys of
                                 Parsed ms r'' \<Rightarrow> Parsed ((k, j) # ms) r''
                               | Malformed \<Rightarrow> Malformed
                               | OutOfFuel \<Rightarrow> OutOfFuel)
                            else if y = CHR ''}'' then Parsed [(k, j)] ys
                            else Malformed)))"

text \<open>One value at the head of the input. The fuel is enough: every two calls consume a byte
  (\<open>parse_value_total\<close> below).\<close>

definition parse_json :: "bytes \<Rightarrow> json parsed" where
  "parse_json s = parse_value (2 * length s + 2) 0 s"

section \<open>Strings\<close>

definition encode_rune :: "nat \<Rightarrow> bytes" where
  "encode_rune r =
     map char_of
      (if r < 128 then [r]
       else if r < 2048 then [192 + r div 64, 128 + r mod 64]
       else if r < 65536 then [224 + r div 4096, 128 + r div 64 mod 64, 128 + r mod 64]
       else [240 + r div 262144, 128 + r div 4096 mod 64, 128 + r div 64 mod 64, 128 + r mod 64])"

definition hex4 :: "bytes \<Rightarrow> nat" where
  "hex4 hs = (case parse_digits 16 hs 0 of Some n \<Rightarrow> n | None \<Rightarrow> 0)"

text \<open>\<open>getu4\<close>: the value of a leading \<open>\uXXXX\<close>.\<close>

fun get_u4 :: "bytes \<Rightarrow> nat option" where
  "get_u4 (a # b # h1 # h2 # h3 # h4 # rs) =
     (if a = backslash \<and> b = CHR ''u'' \<and> is_hex h1 \<and> is_hex h2 \<and> is_hex h3 \<and> is_hex h4
      then Some (hex4 [h1, h2, h3, h4]) else None)"
| "get_u4 _ = None"

definition unescape_char :: "char \<Rightarrow> char" where
  "unescape_char e =
     (if e = CHR ''b'' then CHR 0x08 else if e = CHR ''f'' then CHR 0x0C
      else if e = CHR ''n'' then CHR 0x0A else if e = CHR ''r'' then CHR 0x0D
      else if e = CHR ''t'' then CHR 0x09 else e)"

text \<open>\<open>unquote\<close> on the text between the quotes. An unpaired surrogate and a byte that is not
  UTF-8 become the replacement rune.\<close>

function unquote :: "bytes \<Rightarrow> bytes" where
  "unquote [] = []"
| "unquote (c # cs) =
     (if c = backslash then
        (case get_u4 (c # cs) of
           Some r \<Rightarrow>
             if 55296 \<le> r \<and> r < 57344 then
               (case get_u4 (drop 5 cs) of
                  Some r1 \<Rightarrow>
                    if r < 56320 \<and> 56320 \<le> r1 \<and> r1 < 57344
                    then encode_rune (65536 + (r - 55296) * 1024 + (r1 - 56320)) @ unquote (drop 11 cs)
                    else encode_rune rune_error @ unquote (drop 5 cs)
                | None \<Rightarrow> encode_rune rune_error @ unquote (drop 5 cs))
             else encode_rune r @ unquote (drop 5 cs)
         | None \<Rightarrow>
             (case cs of [] \<Rightarrow> [] | e # es \<Rightarrow> unescape_char e # unquote es))
      else if byte c < 128 then c # unquote cs
      else encode_rune (fst (decode_rune (c # cs)))
             @ unquote (drop (snd (decode_rune (c # cs)) - 1) cs))"
  by pat_completeness auto
termination
  by (relation "measure length") (auto simp: le_imp_less_Suc)

declare unquote.simps(2) [simp del]

text \<open>\<open>json.Marshal\<close> of a string, with the HTML-safe escapes that are its default.\<close>

function quote_body :: "bytes \<Rightarrow> bytes" where
  "quote_body [] = []"
| "quote_body (c # cs) =
     (if byte c < 128 then
        (if c = quote \<or> c = backslash then [backslash, c]
         else if byte c = 8 then backslash # ''b''
         else if byte c = 12 then backslash # ''f''
         else if byte c = 10 then backslash # ''n''
         else if byte c = 13 then backslash # ''r''
         else if byte c = 9 then backslash # ''t''
         else if byte c < 32 \<or> c \<in> set ''<>&'' then backslash # ''u'' @ hex_digits 4 (byte c)
         else [c]) @ quote_body cs
      else
        (let (r, n) = decode_rune (c # cs) in
         (if n = 1 then backslash # ''ufffd''
          else if r = 8232 \<or> r = 8233 then backslash # ''u'' @ hex_digits 4 r
          else take n (c # cs)) @ quote_body (drop (n - 1) cs)))"
  by pat_completeness auto
termination
  by (relation "measure length") (auto simp: le_imp_less_Suc)

declare quote_body.simps(2) [simp del]

definition marshal_string :: "bytes \<Rightarrow> bytes" where
  "marshal_string s = quote # quote_body s @ [quote]"

section \<open>Compaction of raw messages\<close>

text \<open>Inside a literal, \<open>json.Marshal\<close> escapes the HTML characters and the line separators
  U+2028 and U+2029 of a \<open>json.RawMessage\<close>; outside literals it drops white space.\<close>

fun html_escape :: "bytes \<Rightarrow> bytes" where
  "html_escape [] = []"
| "html_escape (a # b # c # cs) =
     (if a \<in> set ''<>&'' then backslash # ''u'' @ hex_digits 4 (byte a) @ html_escape (b # c # cs)
      else if byte a = 226 \<and> byte b = 128 \<and> (byte c = 168 \<or> byte c = 169)
      then backslash # ''u202'' @ [hex_digit (byte c mod 16)] @ html_escape cs
      else a # html_escape (b # c # cs))"
| "html_escape (a # cs) =
     (if a \<in> set ''<>&'' then backslash # ''u'' @ hex_digits 4 (byte a) @ html_escape cs
      else a # html_escape cs)"

fun compact :: "json \<Rightarrow> bytes" where
  "compact (JArr _ js) = ''['' @ join_with '','' (map compact js) @ '']''"
| "compact (JObj _ ms) =
     ''{'' @ join_with '','' (map (\<lambda>m. quote # html_escape (fst m) @ [quote] @ '':'' @ compact (snd m)) ms)
       @ ''}''"
| "compact j = html_escape (raw_of j)"

section \<open>Decoding into Go values\<close>

type_synonym 'a jdec = "json \<Rightarrow> 'a \<Rightarrow> 'a option"

definition dec_string :: "bytes jdec" where
  "dec_string j old =
     (case j of JStr b \<Rightarrow> Some (unquote b) | JNull \<Rightarrow> Some old | _ \<Rightarrow> None)"

definition dec_bool :: "bool jdec" where
  "dec_bool j old = (case j of JBool b \<Rightarrow> Some b | JNull \<Rightarrow> Some old | _ \<Rightarrow> None)"

definition dec_u64 :: "u64 jdec" where
  "dec_u64 j old =
     (case j of
        JNum n \<Rightarrow> map_option of_nat (parse_uint 10 64 n)
      | JNull \<Rightarrow> Some old
      | _ \<Rightarrow> None)"

definition dec_u32 :: "u32 jdec" where
  "dec_u32 j old =
     (case j of
        JNum n \<Rightarrow> map_option of_nat (parse_uint 10 32 n)
      | JNull \<Rightarrow> Some old
      | _ \<Rightarrow> None)"

text \<open>\<open>json.RawMessage\<close>: the text of the value, \<open>null\<close> included.\<close>

definition dec_raw :: "bytes jdec" where
  "dec_raw j old = Some (raw_of j)"

text \<open>A pointer field: \<open>null\<close> clears it, anything else is decoded into what it points to, or
  into a new zero value.\<close>

definition dec_ptr :: "'a \<Rightarrow> 'a jdec \<Rightarrow> 'a option jdec" where
  "dec_ptr zero d j old =
     (case j of
        JNull \<Rightarrow> Some None
      | _ \<Rightarrow> map_option Some (d j (case old of None \<Rightarrow> zero | Some x \<Rightarrow> x)))"

fun dec_elems :: "'a \<Rightarrow> 'a jdec \<Rightarrow> json list \<Rightarrow> 'a list \<Rightarrow> 'a list option" where
  "dec_elems zero d [] old = Some []"
| "dec_elems zero d (j # js) old =
     (case d j (case old of [] \<Rightarrow> zero | x # _ \<Rightarrow> x) of
        None \<Rightarrow> None
      | Some x \<Rightarrow> map_option (Cons x) (dec_elems zero d js (tl old)))"

definition dec_slice :: "'a \<Rightarrow> 'a jdec \<Rightarrow> 'a list jdec" where
  "dec_slice zero d j old =
     (case j of JArr _ js \<Rightarrow> dec_elems zero d js old | JNull \<Rightarrow> Some [] | _ \<Rightarrow> None)"

text \<open>Names are compared with the letters folded to upper case. U+017F and U+212A are the two
  runes beyond ASCII that fold to an ASCII letter; every field name of the program is ASCII, so
  what other runes fold to is never equal to a name.\<close>

definition fold_rune :: "nat \<Rightarrow> nat" where
  "fold_rune r =
     (if 97 \<le> r \<and> r \<le> 122 then r - 32 else if r = 383 then 83 else if r = 8490 then 75 else r)"

definition fold_name :: "bytes \<Rightarrow> nat list" where
  "fold_name s = map fold_rune (runes s)"

definition find_field :: "(bytes \<times> 'd) list \<Rightarrow> bytes \<Rightarrow> 'd option" where
  "find_field fields key =
     (case map_of fields key of
        Some d \<Rightarrow> Some d
      | None \<Rightarrow> map_option snd (find (\<lambda>f. fold_name (fst f) = fold_name key) fields))"

fun dec_fields :: "bool \<Rightarrow> (bytes \<times> 's jdec) list \<Rightarrow> (bytes \<times> json) list \<Rightarrow> 's \<Rightarrow> 's option" where
  "dec_fields strict fields [] s = Some s"
| "dec_fields strict fields ((k, j) # ms) s =
     (case find_field fields (unquote k) of
        None \<Rightarrow> if strict then None else dec_fields strict fields ms s
      | Some d \<Rightarrow>
          (case d j s of None \<Rightarrow> None | Some s' \<Rightarrow> dec_fields strict fields ms s'))"

text \<open>A struct; \<open>strict\<close> is \<open>DisallowUnknownFields\<close>.\<close>

definition dec_struct :: "bool \<Rightarrow> (bytes \<times> 's jdec) list \<Rightarrow> 's jdec" where
  "dec_struct strict fields j s =
     (case j of JObj _ ms \<Rightarrow> dec_fields strict fields ms s | JNull \<Rightarrow> Some s | _ \<Rightarrow> None)"

text \<open>A field of a struct: how it is read and replaced, and how its value is decoded.\<close>

definition on_field :: "('s \<Rightarrow> 'f) \<Rightarrow> (('f \<Rightarrow> 'f) \<Rightarrow> 's \<Rightarrow> 's) \<Rightarrow> 'f jdec \<Rightarrow> 's jdec" where
  "on_field get upd d j s = map_option (\<lambda>v. upd (\<lambda>_. v) s) (d j (get s))"

text \<open>\<open>json.Unmarshal(data, &s)\<close> for a string, as the custom \<open>UnmarshalJSON\<close> methods call it:
  one value with nothing but white space after it.\<close>

definition unmarshal_string :: "bytes \<Rightarrow> bytes option" where
  "unmarshal_string data =
     (case parse_json data of
        Parsed j r \<Rightarrow> if skip_space r = [] then dec_string j [] else None
      | _ \<Rightarrow> None)"

section \<open>Case-folded fields\<close>

text \<open>Field names that stay different when folded are selected by the folded key alone.\<close>

lemma find_field_fold:
  assumes "distinct (map (fold_name \<circ> fst) tags)"
  shows "find_field tags key = map_of (map (\<lambda>(n, d). (fold_name n, d)) tags) (fold_name key)"
  using assms
proof (induction tags)
  case Nil
  then show ?case by (simp add: find_field_def)
next
  case (Cons f tags)
  obtain n d where f: "f = (n, d)" by force
  have "map_of tags key = None" if "fold_name key = fold_name n"
  proof -
    have "key \<notin> fst ` set tags" using Cons.prems that f by force
    then show ?thesis by (simp add: map_of_eq_None_iff)
  qed
  with Cons f show ?case by (auto simp: find_field_def split: option.splits)
qed

lemma folded_field_member:
  assumes "distinct (map (fold_name \<circ> fst) tags)" "(name, e) \<in> set tags" "fold_name key = fold_name name"
  shows "find_field tags key = Some e"
  using find_field_fold [OF assms(1), of key] assms
  by (auto simp: comp_def case_prod_beta intro!: map_of_is_SomeI rev_image_eqI)

lemma dec_fields_unknown:
  "find_field tags (unquote k) = None \<Longrightarrow> dec_fields True tags (as @ (k, j) # bs) s = None"
proof (induction as arbitrary: s)
  case (Cons a as)
  then show ?case by (cases a) (auto split: option.split)
qed simp

text \<open>A decoder that neither reads nor writes a field, and one whose success does not depend on the old
  value. Two members that select the same field: if decoding the earlier one succeeds and the later one
  ignores what was there, the earlier one might as well be absent.\<close>

definition blind :: "(('f \<Rightarrow> 'f) \<Rightarrow> 's \<Rightarrow> 's) \<Rightarrow> 's jdec \<Rightarrow> bool" where
  "blind upd e \<longleftrightarrow> (\<forall>j s x. e j (upd (\<lambda>_. x) s) = map_option (upd (\<lambda>_. x)) (e j s))"

lemma blind_on_field:
  "(\<And>x s. get' (upd (\<lambda>_. x) s) = get' s) \<Longrightarrow>
   (\<And>x y s. upd' (\<lambda>_. y) (upd (\<lambda>_. x) s) = upd (\<lambda>_. x) (upd' (\<lambda>_. y) s)) \<Longrightarrow> blind upd (on_field get' upd' d)"
  by (simp add: blind_def on_field_def option.map_comp comp_def)

lemma dec_fields_forget:
  assumes distinct: "distinct (map (fold_name \<circ> fst) tags)"
    and member: "(name, on_field get upd d) \<in> set tags"
    and others: "list_all (\<lambda>(n, e). n = name \<or> blind upd e) tags"
    and lens: "\<And>x s. get (upd (\<lambda>_. x) s) = x" "\<And>x y s. upd (\<lambda>_. x) (upd (\<lambda>_. y) s) = upd (\<lambda>_. x) s"
    and success: "\<And>j x y. d j x = None \<Longrightarrow> d j y = None"
    and replaces: "\<And>x y. d j2 x = d j2 y"
    and key: "fold_name (unquote k2) = fold_name name"
  shows "dec_fields strict tags (mid @ (k2, j2) # post) (upd (\<lambda>_. x) s) =
    dec_fields strict tags (mid @ (k2, j2) # post) s"
proof (induction mid arbitrary: s x)
  case Nil
  show ?case
    using folded_field_member [OF distinct member key] replaces [of x "get s"]
    by (cases "d j2 (get s)") (simp_all add: on_field_def lens)
next
  case (Cons m mid)
  obtain k j where m: "m = (k, j)" by force
  show ?case
  proof (cases "find_field tags (unquote k)")
    case None
    then show ?thesis using Cons.IH by (cases strict) (simp_all add: m)
  next
    case (Some e)
    then obtain n where n: "(n, e) \<in> set tags" "fold_name n = fold_name (unquote k)"
      using find_field_fold [OF distinct, of "unquote k"] by (auto dest!: map_of_SomeD)
    show ?thesis
    proof (cases "n = name")
      case True
      then have e: "e = on_field get upd d"
        using folded_field_member [OF distinct member, of "unquote k"] Some n(2) by simp
      show ?thesis
      proof (cases "d j x")
        case None
        then show ?thesis using success [OF None, of "get s"] Some by (simp add: m e on_field_def lens)
      next
        case (Some y)
        then obtain z where "d j (get s) = Some z" using success [of j "get s" x] by fastforce
        then show ?thesis
          using Some \<open>find_field tags (unquote k) = Some e\<close> Cons.IH by (simp add: m e on_field_def lens)
      qed
    next
      case False
      then have "blind upd e" using others n(1) by (auto simp: list_all_iff)
      then have "e j (upd (\<lambda>_. x) s) = map_option (upd (\<lambda>_. x)) (e j s)" by (simp add: blind_def)
      then show ?thesis using Some Cons.IH by (cases "e j s") (simp_all add: m)
    qed
  qed
qed

lemma dec_fields_override:
  assumes "distinct (map (fold_name \<circ> fst) tags)" "(name, on_field get upd d) \<in> set tags"
    and "list_all (\<lambda>(n, e). n = name \<or> blind upd e) tags"
    and "\<And>x s. get (upd (\<lambda>_. x) s) = x" "\<And>x y s. upd (\<lambda>_. x) (upd (\<lambda>_. y) s) = upd (\<lambda>_. x) s"
    and "\<And>j x y. d j x = None \<Longrightarrow> d j y = None" and "\<And>x y. d j2 x = d j2 y"
    and "fold_name (unquote k2) = fold_name name"
    and earlier: "fold_name (unquote k1) = fold_name name" "\<And>x. d j1 x \<noteq> None"
  shows "dec_fields strict tags (pre @ (k1, j1) # mid @ (k2, j2) # post) s =
    dec_fields strict tags (pre @ mid @ (k2, j2) # post) s"
proof (induction pre arbitrary: s)
  case Nil
  obtain y where "d j1 (get s) = Some y" using earlier(2) by blast
  then show ?case
    using folded_field_member [OF assms(1,2) earlier(1)]
      dec_fields_forget [where get = get and upd = upd and d = d and strict = strict and mid = mid and post = post
        and x = y and s = s, OF assms(1-8)]
    by (simp add: on_field_def)
next
  case (Cons m pre)
  then show ?case by (cases m; cases strict) (simp_all split: option.split)
qed

section \<open>Progress and termination of the scanner\<close>

lemma skip_space_le [simp]: "length (skip_space s) \<le> length s"
  by (simp add: skip_space_def length_dropWhile_le)

lemma skip_space_Cons: "skip_space s = c # cs \<Longrightarrow> length cs < length s"
  by (metis Suc_le_lessD length_Cons skip_space_le)

lemma scan_string_split: "scan_string s = Some (b, r) \<Longrightarrow> s = b @ quote # r"
  by (induction s arbitrary: b r rule: scan_string.induct)
     (auto simp: scan_string.simps(2) split: if_splits option.splits dest!: scan_escape_split)

lemma scan_string_less: "scan_string s = Some (b, r) \<Longrightarrow> length r < length s"
  by (drule scan_string_split) simp

lemma scan_int_split: "scan_int s = Some (b, r) \<Longrightarrow> s = b @ r \<and> b \<noteq> []"
  by (auto simp: scan_int_def split: list.splits if_splits)

lemma scan_frac_split: "scan_frac s = Some (b, r) \<Longrightarrow> s = b @ r"
  by (auto simp: scan_frac_def split: list.splits if_splits)

lemma scan_sign_split: "scan_sign s = (b, r) \<Longrightarrow> s = b @ r"
  by (auto simp: scan_sign_def split: list.splits if_splits)

lemma scan_exp_split: "scan_exp s = Some (b, r) \<Longrightarrow> s = b @ r"
  by (auto simp: scan_exp_def split: list.splits if_splits prod.splits dest: scan_sign_split)

lemma scan_number_split: "scan_number s = Some (b, r) \<Longrightarrow> s = b @ r \<and> b \<noteq> []"
  by (auto simp: scan_number_def split: list.splits if_splits option.splits prod.splits
      dest!: scan_int_split scan_frac_split scan_exp_split)

lemma has_prefix_split: "has_prefix s p \<Longrightarrow> s = p @ drop (length p) s"
  by (induction s p rule: has_prefix.induct) auto

text \<open>A literal's own text followed by what is left is the input.\<close>

lemma scan_literal_split: "scan_literal s = Some (j, r) \<Longrightarrow> s = raw_of j @ r \<and> raw_of j \<noteq> []"
  using has_prefix_split [of s "''true''"] has_prefix_split [of s "''false''"]
    has_prefix_split [of s "''null''"]
  by (auto simp: scan_literal_def numeral_eq_Suc split: list.splits if_splits
      dest!: scan_string_split scan_number_split)

lemma scan_literal_less: "scan_literal s = Some (j, r) \<Longrightarrow> length r < length s"
  by (drule scan_literal_split) auto

declare parse_value.simps [simp del] parse_elems.simps [simp del] parse_members.simps [simp del]

lemmas parse_unfold = parse_value.simps parse_elems.simps parse_members.simps

text \<open>Shapes of a successful parse, one per production of the grammar.\<close>

lemma parse_value_cases:
  assumes "parse_value f d s = Parsed j r"
  obtains
    (lit) c cs where "skip_space s = c # cs" "c \<noteq> CHR ''[''" "c \<noteq> CHR ''{''"
      "scan_literal (c # cs) = Some (j, r)"
  | (arr0) cs where "skip_space s = CHR ''['' # cs" "skip_space cs = CHR '']'' # r"
      "j = JArr (text_upto (CHR ''['' # cs) r) []" "d < max_nesting_depth"
  | (arr) f' cs x xs es where "f = Suc f'" "skip_space s = CHR ''['' # cs" "skip_space cs = x # xs"
      "x \<noteq> CHR '']''" "parse_elems f' (Suc d) (x # xs) = Parsed es r"
      "j = JArr (text_upto (CHR ''['' # cs) r) es" "d < max_nesting_depth"
  | (obj0) cs where "skip_space s = CHR ''{'' # cs" "skip_space cs = CHR ''}'' # r"
      "j = JObj (text_upto (CHR ''{'' # cs) r) []" "d < max_nesting_depth"
  | (obj) f' cs x xs ms where "f = Suc f'" "skip_space s = CHR ''{'' # cs" "skip_space cs = x # xs"
      "x \<noteq> CHR ''}''" "parse_members f' (Suc d) (x # xs) = Parsed ms r"
      "j = JObj (text_upto (CHR ''{'' # cs) r) ms" "d < max_nesting_depth"
  using assms
  by (cases f) (auto simp: parse_unfold split: list.splits if_splits parsed.splits option.splits)

lemma parse_elems_cases:
  assumes "parse_elems f d s = Parsed js r"
  obtains
    (last) f' j r1 where "f = Suc f'" "parse_value f' d s = Parsed j r1"
      "skip_space r1 = CHR '']'' # r" "js = [j]"
  | (more) f' j r1 r2 js' where "f = Suc f'" "parse_value f' d s = Parsed j r1"
      "skip_space r1 = CHR '','' # r2" "parse_elems f' d r2 = Parsed js' r" "js = j # js'"
  using assms
  by (cases f) (auto simp: parse_unfold split: list.splits if_splits parsed.splits)

lemma parse_members_cases:
  assumes "parse_members f d s = Parsed ms r"
  obtains
    (last) f' cs k r1 r2 j r3 where "f = Suc f'" "skip_space s = quote # cs"
      "scan_string cs = Some (k, r1)" "skip_space r1 = CHR '':'' # r2"
      "parse_value f' d r2 = Parsed j r3" "skip_space r3 = CHR ''}'' # r" "ms = [(k, j)]"
  | (more) f' cs k r1 r2 j r3 r4 ms' where "f = Suc f'" "skip_space s = quote # cs"
      "scan_string cs = Some (k, r1)" "skip_space r1 = CHR '':'' # r2"
      "parse_value f' d r2 = Parsed j r3" "skip_space r3 = CHR '','' # r4"
      "parse_members f' d r4 = Parsed ms' r" "ms = (k, j) # ms'"
  using assms
  by (cases f) (auto simp: parse_unfold split: list.splits if_splits parsed.splits option.splits)

lemma parse_less:
  "(\<forall>d s j r. parse_value f d s = Parsed j r \<longrightarrow> length r < length s) \<and>
   (\<forall>d s js r. parse_elems f d s = Parsed js r \<longrightarrow> length r < length s) \<and>
   (\<forall>d s ms r. parse_members f d s = Parsed ms r \<longrightarrow> length r < length s)"
proof (induction f)
  case 0
  show ?case by (auto simp: parse_unfold elim!: parse_value_cases)
next
  case (Suc f)
  then have IHv: "\<And>d s j r. parse_value f d s = Parsed j r \<Longrightarrow> length r < length s"
    and IHe: "\<And>d s js r. parse_elems f d s = Parsed js r \<Longrightarrow> length r < length s"
    and IHm: "\<And>d s ms r. parse_members f d s = Parsed ms r \<Longrightarrow> length r < length s"
    by blast+
  have V: "length r < length s" if "parse_value (Suc f) d s = Parsed j r" for d s j r
    using that
    by (cases rule: parse_value_cases) (auto dest!: skip_space_Cons scan_literal_less IHe IHm)
  have E: "length r < length s" if "parse_elems (Suc f) d s = Parsed js r" for d s js r
    using that by (cases rule: parse_elems_cases) (auto dest!: skip_space_Cons IHv IHe)
  have M: "length r < length s" if "parse_members (Suc f) d s = Parsed ms r" for d s ms r
    using that
    by (cases rule: parse_members_cases) (auto dest!: skip_space_Cons scan_string_less IHv IHm)
  from V E M show ?case by blast
qed

lemma parse_value_less: "parse_value f d s = Parsed j r \<Longrightarrow> length r < length s"
  using parse_less by blast


lemma parse_total:
  "(\<forall>d s. 2 * length s < f \<longrightarrow> parse_value f d s \<noteq> OutOfFuel) \<and>
   (\<forall>d s. 2 * length s + 1 < f \<longrightarrow> parse_elems f d s \<noteq> OutOfFuel) \<and>
   (\<forall>d s. 2 * length s + 1 < f \<longrightarrow> parse_members f d s \<noteq> OutOfFuel)"
proof (induction f)
  case 0
  show ?case by simp
next
  case (Suc f)
  then have IHv: "\<And>d s. 2 * length s < f \<Longrightarrow> parse_value f d s \<noteq> OutOfFuel"
    and IHe: "\<And>d s. 2 * length s + 1 < f \<Longrightarrow> parse_elems f d s \<noteq> OutOfFuel"
    and IHm: "\<And>d s. 2 * length s + 1 < f \<Longrightarrow> parse_members f d s \<noteq> OutOfFuel"
    by blast+
  have V: "parse_value (Suc f) d s \<noteq> OutOfFuel" if "2 * length s < Suc f" for d s
  proof -
    have "2 * length (x # xs) + 1 < f"
      if "skip_space s = c # cs" "skip_space cs = x # xs" for c cs x xs
      using skip_space_Cons [OF that(1)] skip_space_Cons [OF that(2)] \<open>2 * length s < Suc f\<close>
      by simp
    then show ?thesis
      using IHe IHm by (fastforce simp: parse_unfold split: list.splits if_splits parsed.splits option.splits)
  qed
  have E: "parse_elems (Suc f) d s \<noteq> OutOfFuel" if l: "2 * length s + 1 < Suc f" for d s
  proof -
    have "parse_value f d s \<noteq> OutOfFuel" using l IHv by simp
    moreover have "parse_elems f d xs \<noteq> OutOfFuel"
      if "parse_value f d s = Parsed j r" "skip_space r = x # xs" for j r x xs
      using parse_value_less [OF that(1)] skip_space_Cons [OF that(2)] l by (intro IHe) simp
    ultimately show ?thesis
      by (auto simp: parse_unfold split: list.splits parsed.splits)
  qed
  have M: "parse_members (Suc f) d s \<noteq> OutOfFuel" if l: "2 * length s + 1 < Suc f" for d s
  proof -
    have v: "2 * length xs < f \<and> length xs < length s"
      if "skip_space s = q # cs" "scan_string cs = Some (k, r)" "skip_space r = x # xs" for q cs k r x xs
      using skip_space_Cons [OF that(1)] scan_string_less [OF that(2)] skip_space_Cons [OF that(3)] l
      by simp
    have m: "2 * length ys + 1 < f"
      if "skip_space s = q # cs" "scan_string cs = Some (k, r)" "skip_space r = x # xs"
        "parse_value f d xs = Parsed j r'" "skip_space r' = y # ys" for q cs k r x xs j r' y ys
      using v [OF that(1-3)] parse_value_less [OF that(4)] skip_space_Cons [OF that(5)] l by simp
    show ?thesis
      using v m IHv IHm
      by (fastforce simp: parse_unfold split: list.splits if_splits parsed.splits option.splits)
  qed
  from V E M show ?case by blast
qed

text \<open>The fuel of \<open>parse_json\<close> always suffices: it returns a value or says the text is
  malformed, whatever the text.\<close>

lemma parse_value_total: "2 * length s < f \<Longrightarrow> parse_value f d s \<noteq> OutOfFuel"
  using parse_total by blast

lemma parse_json_total: "parse_json s \<noteq> OutOfFuel"
  by (simp add: parse_json_def parse_value_total)

section \<open>Plain text\<close>

text \<open>A byte that stands for itself in a JSON string, quoted or not.\<close>

definition plain :: "char \<Rightarrow> bool" where
  "plain c \<longleftrightarrow> 32 \<le> byte c \<and> byte c < 128 \<and> c \<noteq> quote \<and> c \<noteq> backslash \<and> c \<notin> set ''<>&''"

lemma scan_string_plain: "list_all plain s \<Longrightarrow> scan_string (s @ quote # r) = Some (s, r)"
  by (induction s) (auto simp: scan_string.simps(2) plain_def)

lemma unquote_plain: "list_all plain s \<Longrightarrow> unquote s = s"
  by (induction s) (auto simp: unquote.simps(2) plain_def)

lemma quote_body_plain: "list_all plain s \<Longrightarrow> quote_body s = s"
  by (induction s) (auto simp: quote_body.simps(2) plain_def)

lemma quote_not_space [simp]: "\<not> json_space quote"
  by (simp add: json_space_def quote_def byte_def)

lemma skip_space_quote [simp]: "skip_space (quote # s) = quote # s"
  by (simp add: skip_space_def)

lemma skip_space_Nil [simp]: "skip_space [] = []"
  by (simp add: skip_space_def)

lemma scan_literal_quote [simp]:
  "scan_literal (quote # s) = map_option (\<lambda>(b, r). (JStr b, r)) (scan_string s)"
  by (simp add: scan_literal_def)

lemma parse_json_quoted:
  "scan_string s = Some (b, r) \<Longrightarrow> parse_json (quote # s) = Parsed (JStr b) r"
  by (simp add: parse_json_def parse_value.simps(2) quote_def [symmetric])
     (simp add: quote_def)

lemma unmarshal_string_plain:
  "list_all plain s \<Longrightarrow> unmarshal_string (quote # s @ [quote]) = Some s"
  using parse_json_quoted [OF scan_string_plain [of s "[]"]]
  by (simp add: unmarshal_string_def dec_string_def unquote_plain)

lemma marshal_string_plain: "list_all plain s \<Longrightarrow> marshal_string s = quote # s @ [quote]"
  by (simp add: marshal_string_def quote_body_plain)

lemma lower_hex_plain: "lower_hex c \<Longrightarrow> plain c"
  by (auto simp: lower_hex_def lower_hex_rune_def plain_def quote_def backslash_def byte_def)

section \<open>Compacted text is one line\<close>

definition printable :: "char \<Rightarrow> bool" where
  "printable c \<longleftrightarrow> 32 \<le> byte c"

text \<open>No literal of the tree holds a control character. White space between tokens is not part
  of the tree.\<close>

fun clean_json :: "json \<Rightarrow> bool" where
  "clean_json (JNum n) = list_all printable n"
| "clean_json (JStr b) = list_all printable b"
| "clean_json (JArr _ js) = list_all clean_json js"
| "clean_json (JObj _ ms) = list_all (\<lambda>m. list_all printable (fst m) \<and> clean_json (snd m)) ms"
| "clean_json _ = True"

lemma printable_Char [simp]: "printable (Char b0 b1 b2 b3 b4 b5 b6 b7) \<longleftrightarrow> b5 \<or> b6 \<or> b7"
  by (cases b0; cases b1; cases b2; cases b3; cases b4; cases b5; cases b6; cases b7)
     (simp_all add: printable_def byte_def)

lemma printable_ge: "32 \<le> byte c \<Longrightarrow> printable c"
  by (simp add: printable_def)

lemma is_hex_printable: "is_hex c \<Longrightarrow> printable c"
  by (auto simp: is_hex_def is_digit_def printable_def)

lemma is_digit_printable: "is_digit c \<Longrightarrow> printable c"
  by (simp add: is_digit_def printable_def)

lemma scan_escape_printable: "scan_escape s = Some (e, r) \<Longrightarrow> list_all printable e"
  by (auto simp: scan_escape_def printable_def byte_def quote_def backslash_def list_all_iff
      split: list.splits if_splits dest: is_hex_printable [unfolded printable_def byte_def])

lemma backslash_printable [simp]: "printable backslash" "printable quote"
  by (simp_all add: printable_def backslash_def quote_def byte_def)

lemma scan_string_printable: "scan_string s = Some (b, r) \<Longrightarrow> list_all printable b"
  by (induction s arbitrary: b r rule: scan_string.induct)
     (auto simp: scan_string.simps(2) not_less intro: printable_ge
       split: if_splits option.splits dest!: scan_escape_printable)

lemma takeWhile_digit_printable: "list_all printable (takeWhile is_digit s)"
  by (auto simp: list_all_iff dest: set_takeWhileD is_digit_printable)

lemma scan_number_printable: "scan_number s = Some (b, r) \<Longrightarrow> list_all printable b"
  by (auto simp: scan_number_def scan_int_def scan_frac_def scan_exp_def scan_sign_def
      takeWhile_digit_printable is_digit_printable
      split: list.splits if_splits option.splits prod.splits)

lemma scan_literal_clean: "scan_literal s = Some (j, r) \<Longrightarrow> clean_json j"
  by (auto simp: scan_literal_def split: list.splits if_splits
      dest: scan_string_printable scan_number_printable)

lemma parse_clean:
  "(\<forall>d s j r. parse_value f d s = Parsed j r \<longrightarrow> clean_json j) \<and>
   (\<forall>d s js r. parse_elems f d s = Parsed js r \<longrightarrow> list_all clean_json js) \<and>
   (\<forall>d s ms r. parse_members f d s = Parsed ms r \<longrightarrow>
      list_all (\<lambda>m. list_all printable (fst m) \<and> clean_json (snd m)) ms)"
proof (induction f)
  case 0
  show ?case by (simp add: parse_unfold)
next
  case (Suc f)
  then have IHv: "\<And>d s j r. parse_value f d s = Parsed j r \<Longrightarrow> clean_json j"
    and IHe: "\<And>d s js r. parse_elems f d s = Parsed js r \<Longrightarrow> list_all clean_json js"
    and IHm: "\<And>d s ms r. parse_members f d s = Parsed ms r \<Longrightarrow>
      list_all (\<lambda>m. list_all printable (fst m) \<and> clean_json (snd m)) ms"
    by blast+
  have V: "clean_json j" if "parse_value (Suc f) d s = Parsed j r" for d s j r
    using that by (cases rule: parse_value_cases) (auto dest: scan_literal_clean IHe IHm)
  have E: "list_all clean_json js" if "parse_elems (Suc f) d s = Parsed js r" for d s js r
    using that by (cases rule: parse_elems_cases) (auto dest: IHv IHe)
  have M: "list_all (\<lambda>m. list_all printable (fst m) \<and> clean_json (snd m)) ms"
    if "parse_members (Suc f) d s = Parsed ms r" for d s ms r
    using that by (cases rule: parse_members_cases) (auto dest: scan_string_printable IHv IHm)
  from V E M show ?case by blast
qed

lemma parse_json_clean: "parse_json s = Parsed j r \<Longrightarrow> clean_json j"
  using parse_clean unfolding parse_json_def by blast

lemma hex_digits_printable [simp]: "list_all printable (hex_digits k n)"
  using hex_digits_lower_hex [of k n]
  by (auto simp: list_all_iff lower_hex_def lower_hex_rune_def printable_def)

lemma printable_hex_digit: "n < 16 \<Longrightarrow> printable (hex_digit n)"
  using byte_hex_digit [of n] by (auto simp: printable_def)

lemma html_escape_printable: "list_all printable s \<Longrightarrow> list_all printable (html_escape s)"
  by (induction s rule: html_escape.induct)
     (auto simp: printable_hex_digit)

lemma join_with_printable:
  "list_all printable d \<Longrightarrow> list_all (list_all printable) ps \<Longrightarrow> list_all printable (join_with d ps)"
  by (induction d ps rule: join_with.induct) auto

lemma compact_printable: "clean_json j \<Longrightarrow> list_all printable (compact j)"
proof (induction j rule: compact.induct)
  case (1 r js)
  then have "list_all (list_all printable) (map compact js)" by (auto simp: list_all_iff)
  then show ?case by (simp add: join_with_printable)
next
  case (2 r ms)
  then have "list_all (list_all printable)
      (map (\<lambda>m. quote # html_escape (fst m) @ [quote] @ '':'' @ compact (snd m)) ms)"
    by (auto simp: list_all_iff html_escape_printable [unfolded list_all_iff])
  then show ?case by (simp add: join_with_printable)
qed (simp only: compact.simps, rule html_escape_printable, simp)+

section \<open>Evaluation on concrete texts\<close>

lemmas parse_numeral =
  parse_value.simps(2) [of "pred_numeral k" for k, folded numeral_eq_Suc]
  parse_elems.simps(2) [of "pred_numeral k" for k, folded numeral_eq_Suc]
  parse_members.simps(2) [of "pred_numeral k" for k, folded numeral_eq_Suc]

lemmas json_eval = parse_json_def parse_numeral skip_space_def json_space_def byte_def
  quote_def backslash_def scan_literal_def scan_string.simps(2) text_upto_def max_nesting_depth_def
  unquote.simps(2) dec_struct_def on_field_def find_field_def dec_string_def dec_ptr_def dec_raw_def
  dec_slice_def

text \<open>Sample documents are written with a tilde for the quote.\<close>

definition quoted :: "bytes \<Rightarrow> bytes" where
  "quoted s = map (\<lambda>c. if c = CHR ''~'' then quote else c) s"

end
