(* ===== verification/Jsoncheck.thy ===== *)
theory Jsoncheck
  imports Json
begin

text \<open>
  \<open>internal/jsoncheck\<close>: strict decoding of exactly one JSON value. The duplicate-key check runs
  over the token stream of a \<open>json.Decoder\<close>, which is modelled as the standard library has it: the
  rest of the input, a token state and a stack of the states of the enclosing containers. The main
  result relates that stream to the parse tree: on a well-formed text the scan finds the first
  duplicate key of the tree, and finds none exactly when every object of it has distinct keys.
\<close>

section \<open>The token stream of a json.Decoder\<close>

datatype token_state =
    TopValue | ArrayStart | ArrayValue | ArrayComma
  | ObjectStart | ObjectKey | ObjectColon | ObjectValue | ObjectComma

record decoder =
  rest :: bytes
  tokenState :: token_state
  tokenStack :: "token_state list"

text \<open>A token is a delimiter or a literal. A key and a string value are both a Go string, here
  the literal \<open>JStr\<close>.\<close>

datatype token = Delim char | Lit json

datatype token_read = Tok token decoder | TokEOF | TokErr

definition value_allowed :: "token_state \<Rightarrow> bool" where
  "value_allowed st \<longleftrightarrow> st \<in> {TopValue, ArrayStart, ArrayValue, ObjectValue}"

fun value_end :: "token_state \<Rightarrow> token_state" where
  "value_end ArrayStart = ArrayComma"
| "value_end ArrayValue = ArrayComma"
| "value_end ObjectValue = ObjectComma"
| "value_end st = st"

text \<open>\<open>Decoder.Token\<close>. A colon and a comma change the state and the loop goes on.\<close>

function next_token :: "bytes \<Rightarrow> token_state \<Rightarrow> token_state list \<Rightarrow> token_read" where
  "next_token s st stk =
     (case skip_space s of
        [] \<Rightarrow> TokEOF
      | c # cs \<Rightarrow>
          if c = CHR ''['' then
            (if value_allowed st
             then Tok (Delim c) \<lparr>rest = cs, tokenState = ArrayStart, tokenStack = st # stk\<rparr>
             else TokErr)
          else if c = CHR '']'' then
            (if st = ArrayStart \<or> st = ArrayComma
             then (case stk of
                     [] \<Rightarrow> TokErr
                   | p # ps \<Rightarrow> Tok (Delim c) \<lparr>rest = cs, tokenState = value_end p, tokenStack = ps\<rparr>)
             else TokErr)
          else if c = CHR ''{'' then
            (if value_allowed st
             then Tok (Delim c) \<lparr>rest = cs, tokenState = ObjectStart, tokenStack = st # stk\<rparr>
             else TokErr)
          else if c = CHR ''}'' then
            (if st = ObjectStart \<or> st = ObjectComma
             then (case stk of
                     [] \<Rightarrow> TokErr
                   | p # ps \<Rightarrow> Tok (Delim c) \<lparr>rest = cs, tokenState = value_end p, tokenStack = ps\<rparr>)
             else TokErr)
          else if c = CHR '':'' then
            (if st = ObjectColon then next_token cs ObjectValue stk else TokErr)
          else if c = CHR '','' then
            (if st = ArrayComma then next_token cs ArrayValue stk
             else if st = ObjectComma then next_token cs ObjectKey stk
             else TokErr)
          else if c = quote \<and> (st = ObjectStart \<or> st = ObjectKey) then
            (case scan_string cs of
               None \<Rightarrow> TokErr
             | Some (b, r) \<Rightarrow>
                 Tok (Lit (JStr b)) \<lparr>rest = r, tokenState = ObjectColon, tokenStack = stk\<rparr>)
          else if value_allowed st then
            (case scan_literal (c # cs) of
               None \<Rightarrow> TokErr
             | Some (j, r) \<Rightarrow>
                 Tok (Lit j) \<lparr>rest = r, tokenState = value_end st, tokenStack = stk\<rparr>)
          else TokErr)"
  by pat_completeness auto
termination
  by (relation "measure (\<lambda>(s, st, stk). length s)") (auto dest: skip_space_Cons)

declare next_token.simps [simp del]

definition Token :: "decoder \<Rightarrow> token_read" where
  "Token dec = next_token (rest dec) (tokenState dec) (tokenStack dec)"

text \<open>\<open>Decoder.More\<close>: is there another element in the current array or object?\<close>

definition More :: "decoder \<Rightarrow> bool" where
  "More dec =
     (case skip_space (rest dec) of [] \<Rightarrow> False | c # _ \<Rightarrow> c \<noteq> CHR '']'' \<and> c \<noteq> CHR ''}'')"

section \<open>Errors\<close>

datatype json_error =
    InvalidUTF8
  | TokenError
  | TokenEOF
  | DuplicateKey bytes
  | KeyNotString
  | ObjectNotClosed
  | ArrayNotClosed
  | UnexpectedDelimiter char
  | SyntaxError
  | UnmarshalError
  | TrailingValue
  | TrailingData

section \<open>scanJSONValue\<close>

text \<open>\<open>None\<close> is running out of fuel; \<open>scan_fuel\<close> below is always enough on a well-formed text.
  The keys seen so far in the current object are the \<open>map[string]struct{}\<close> of the code.\<close>

fun scanJSONValue :: "nat \<Rightarrow> decoder \<Rightarrow> (json_error + decoder) option"
  and scan_object :: "nat \<Rightarrow> bytes list \<Rightarrow> decoder \<Rightarrow> (json_error + decoder) option"
  and scan_array :: "nat \<Rightarrow> decoder \<Rightarrow> (json_error + decoder) option"
where
  "scanJSONValue 0 dec = None"
| "scanJSONValue (Suc f) dec =
     (case Token dec of
        TokErr \<Rightarrow> Some (Inl TokenError)
      | TokEOF \<Rightarrow> Some (Inl TokenEOF)
      | Tok (Lit _) dec' \<Rightarrow> Some (Inr dec')
      | Tok (Delim c) dec' \<Rightarrow>
          if c = CHR ''{'' then scan_object f [] dec'
          else if c = CHR ''['' then scan_array f dec'
          else Some (Inl (UnexpectedDelimiter c)))"
| "scan_object 0 keys dec = None"
| "scan_object (Suc f) keys dec =
     (if More dec then
        (case Token dec of
           TokErr \<Rightarrow> Some (Inl TokenError)
         | TokEOF \<Rightarrow> Some (Inl TokenEOF)
         | Tok t dec1 \<Rightarrow>
             (case t of
                Lit (JStr b) \<Rightarrow>
                  if unquote b \<in> set keys then Some (Inl (DuplicateKey (unquote b)))
                  else (case scanJSONValue f dec1 of
                          None \<Rightarrow> None
                        | Some (Inl e) \<Rightarrow> Some (Inl e)
                        | Some (Inr dec2) \<Rightarrow> scan_object f (unquote b # keys) dec2)
              | _ \<Rightarrow> Some (Inl KeyNotString)))
      else
        (case Token dec of
           TokErr \<Rightarrow> Some (Inl TokenError)
         | TokEOF \<Rightarrow> Some (Inl TokenEOF)
         | Tok t dec1 \<Rightarrow>
             if t = Delim (CHR ''}'') then Some (Inr dec1) else Some (Inl ObjectNotClosed)))"
| "scan_array 0 dec = None"
| "scan_array (Suc f) dec =
     (if More dec then
        (case scanJSONValue f dec of
           None \<Rightarrow> None
         | Some (Inl e) \<Rightarrow> Some (Inl e)
         | Some (Inr dec1) \<Rightarrow> scan_array f dec1)
      else
        (case Token dec of
           TokErr \<Rightarrow> Some (Inl TokenError)
         | TokEOF \<Rightarrow> Some (Inl TokenEOF)
         | Tok t dec1 \<Rightarrow>
             if t = Delim (CHR '']'') then Some (Inr dec1) else Some (Inl ArrayNotClosed)))"

definition new_decoder :: "bytes \<Rightarrow> decoder" where
  "new_decoder data = \<lparr>rest = data, tokenState = TopValue, tokenStack = []\<rparr>"

definition scan_fuel :: "bytes \<Rightarrow> nat" where
  "scan_fuel data = 2 * length data + 3"

definition rejectDuplicateObjectKeys :: "bytes \<Rightarrow> json_error + unit" where
  "rejectDuplicateObjectKeys data =
     (case scanJSONValue (scan_fuel data) (new_decoder data) of
        None \<Rightarrow> Inl TokenError
      | Some (Inl e) \<Rightarrow> Inl e
      | Some (Inr dec) \<Rightarrow>
          (case Token dec of
             TokEOF \<Rightarrow> Inr ()
           | Tok _ _ \<Rightarrow> Inl TrailingValue
           | TokErr \<Rightarrow> Inl TrailingData))"

section \<open>Decode\<close>

text \<open>\<open>Decode(data, &target, strict)\<close>; \<open>d\<close> decodes a tree into the target's type.\<close>

definition Decode :: "bytes \<Rightarrow> (bool \<Rightarrow> 's jdec) \<Rightarrow> 's \<Rightarrow> bool \<Rightarrow> json_error + 's" where
  "Decode data d target strict =
     (if \<not> utf8_valid data then Inl InvalidUTF8
      else bindE (rejectDuplicateObjectKeys data) (\<lambda>_.
        (case parse_json data of
           Parsed j r \<Rightarrow>
             (case d strict j target of
                None \<Rightarrow> Inl UnmarshalError
              | Some v \<Rightarrow>
                  if skip_space r = [] then Inr v
                  else (case parse_json r of Parsed _ _ \<Rightarrow> Inl TrailingValue | _ \<Rightarrow> Inl TrailingData))
         | _ \<Rightarrow> Inl SyntaxError)))"

section \<open>What the scan is meant to find\<close>

text \<open>Every object of the tree has distinct keys, compared after escapes are resolved.\<close>

fun distinct_keys :: "json \<Rightarrow> bool" where
  "distinct_keys (JArr _ js) = list_all distinct_keys js"
| "distinct_keys (JObj _ ms) =
     (distinct (map (\<lambda>m. unquote (fst m)) ms) \<and> list_all (\<lambda>m. distinct_keys (snd m)) ms)"
| "distinct_keys _ = True"

text \<open>The first duplicate in document order.\<close>

fun first_dup :: "json \<Rightarrow> bytes option"
  and first_dup_elems :: "json list \<Rightarrow> bytes option"
  and first_dup_members :: "bytes list \<Rightarrow> (bytes \<times> json) list \<Rightarrow> bytes option"
where
  "first_dup (JArr _ js) = first_dup_elems js"
| "first_dup (JObj _ ms) = first_dup_members [] ms"
| "first_dup _ = None"
| "first_dup_elems [] = None"
| "first_dup_elems (j # js) = (case first_dup j of None \<Rightarrow> first_dup_elems js | Some k \<Rightarrow> Some k)"
| "first_dup_members keys [] = None"
| "first_dup_members keys ((k, j) # ms) =
     (if unquote k \<in> set keys then Some (unquote k)
      else (case first_dup j of
              None \<Rightarrow> first_dup_members (unquote k # keys) ms
            | Some k' \<Rightarrow> Some k'))"

lemma first_dup_None_iff:
  "first_dup j = None \<longleftrightarrow> distinct_keys j"
  "first_dup_elems js = None \<longleftrightarrow> list_all distinct_keys js"
  "first_dup_members keys ms = None \<longleftrightarrow>
     distinct (map (\<lambda>m. unquote (fst m)) ms) \<and>
     set (map (\<lambda>m. unquote (fst m)) ms) \<inter> set keys = {} \<and> list_all (\<lambda>m. distinct_keys (snd m)) ms"
  by (induction j and js and keys ms rule: first_dup_first_dup_elems_first_dup_members.induct)
     (auto split: option.splits)

definition scan_outcome :: "bytes option \<Rightarrow> decoder \<Rightarrow> json_error + decoder" where
  "scan_outcome dup dec = (case dup of None \<Rightarrow> Inr dec | Some k \<Rightarrow> Inl (DuplicateKey k))"

section \<open>The scan agrees with the parse tree\<close>

abbreviation dec_at :: "bytes \<Rightarrow> token_state \<Rightarrow> token_state list \<Rightarrow> decoder" where
  "dec_at s st stk \<equiv> \<lparr>rest = s, tokenState = st, tokenStack = stk\<rparr>"

lemma skip_space_idem: "skip_space s = x # xs \<Longrightarrow> skip_space (x # xs) = x # xs"
  by (auto simp: skip_space_def dropWhile_eq_Cons_conv)

lemma Token_skip: "skip_space s = x # xs \<Longrightarrow> Token (dec_at s st stk) = Token (dec_at (x # xs) st stk)"
  by (simp add: Token_def next_token.simps [of s] next_token.simps [of "x # xs"] skip_space_idem)

lemma scan_literal_delim [simp]:
  "scan_literal (CHR '']'' # cs) = None" "scan_literal (CHR ''}'' # cs) = None"
  "scan_literal (CHR '':'' # cs) = None" "scan_literal (CHR '','' # cs) = None"
  by (simp_all add: scan_literal_def scan_number_def scan_int_def is_digit_def byte_def quote_def)

lemma scan_literal_head:
  "scan_literal (c # cs) = Some x \<Longrightarrow> c \<noteq> CHR '']'' \<and> c \<noteq> CHR ''}'' \<and> c \<noteq> CHR '':'' \<and> c \<noteq> CHR '',''"
  by (auto simp del: char.inject)

lemma Token_lit:
  "skip_space s = c # cs \<Longrightarrow> c \<noteq> CHR ''['' \<Longrightarrow> c \<noteq> CHR ''{'' \<Longrightarrow> scan_literal (c # cs) = Some (j, r)
   \<Longrightarrow> value_allowed st \<Longrightarrow> Token (dec_at s st stk) = Tok (Lit j) (dec_at r (value_end st) stk)"
  by (frule scan_literal_head) (auto simp: Token_def next_token.simps [of s] value_allowed_def)

lemma Token_open:
  "skip_space s = CHR ''['' # cs \<Longrightarrow> value_allowed st \<Longrightarrow>
     Token (dec_at s st stk) = Tok (Delim (CHR ''['')) (dec_at cs ArrayStart (st # stk))"
  "skip_space s = CHR ''{'' # cs \<Longrightarrow> value_allowed st \<Longrightarrow>
     Token (dec_at s st stk) = Tok (Delim (CHR ''{'')) (dec_at cs ObjectStart (st # stk))"
  by (simp_all add: Token_def next_token.simps [of s])

lemma Token_close:
  "skip_space s = CHR '']'' # cs \<Longrightarrow> st \<in> {ArrayStart, ArrayComma} \<Longrightarrow>
     Token (dec_at s st (p # stk)) = Tok (Delim (CHR '']'')) (dec_at cs (value_end p) stk)"
  "skip_space s = CHR ''}'' # cs \<Longrightarrow> st \<in> {ObjectStart, ObjectComma} \<Longrightarrow>
     Token (dec_at s st (p # stk)) = Tok (Delim (CHR ''}'')) (dec_at cs (value_end p) stk)"
  by (auto simp: Token_def next_token.simps [of s])

lemma Token_separator:
  "skip_space s = CHR '','' # cs \<Longrightarrow>
     Token (dec_at s ArrayComma stk) = Token (dec_at cs ArrayValue stk)"
  "skip_space s = CHR '','' # cs \<Longrightarrow>
     Token (dec_at s ObjectComma stk) = Token (dec_at cs ObjectKey stk)"
  "skip_space s = CHR '':'' # cs \<Longrightarrow>
     Token (dec_at s ObjectColon stk) = Token (dec_at cs ObjectValue stk)"
  by (simp_all add: Token_def next_token.simps [of s])

lemma Token_key:
  "skip_space s = quote # cs \<Longrightarrow> scan_string cs = Some (b, r) \<Longrightarrow> st \<in> {ObjectStart, ObjectKey} \<Longrightarrow>
     Token (dec_at s st stk) = Tok (Lit (JStr b)) (dec_at r ObjectColon stk)"
  by (auto simp: Token_def next_token.simps [of s] quote_def)

lemma More_iff:
  "More (dec_at s st stk) \<longleftrightarrow>
     (\<exists>c cs. skip_space s = c # cs \<and> c \<noteq> CHR '']'' \<and> c \<noteq> CHR ''}'')"
  by (auto simp: More_def split: list.splits)

text \<open>The scan looks at its decoder only through the next token.\<close>

lemma scanJSONValue_cong: "Token d1 = Token d2 \<Longrightarrow> scanJSONValue g d1 = scanJSONValue g d2"
  by (cases g) simp_all

declare scanJSONValue.simps [simp del] scan_object.simps [simp del] scan_array.simps [simp del]

lemmas scan_unfold = scanJSONValue.simps scan_object.simps scan_array.simps

lemma parse_value_starts:
  "parse_value f d s = Parsed j r \<Longrightarrow>
     \<exists>c cs. skip_space s = c # cs \<and> c \<noteq> CHR '']'' \<and> c \<noteq> CHR ''}''"
  by (erule parse_value_cases) (auto dest: scan_literal_head)

text \<open>The three statements of the simulation, for a parser fuel \<open>f\<close> and any scan fuel at least
  as large. \<open>entry\<close> says that the scan of an element starts at the element, whether the comma
  before it has been read or not.\<close>

definition sim_value :: "nat \<Rightarrow> bool" where
  "sim_value f \<longleftrightarrow> (\<forall>d s j r st stk g. parse_value f d s = Parsed j r \<longrightarrow> value_allowed st \<longrightarrow> f < g \<longrightarrow>
     scanJSONValue g (dec_at s st stk) = Some (scan_outcome (first_dup j) (dec_at r (value_end st) stk)))"

definition sim_elems :: "nat \<Rightarrow> bool" where
  "sim_elems f \<longleftrightarrow> (\<forall>d s js r p stk g dec st. parse_elems f d s = Parsed js r \<longrightarrow> f < g \<longrightarrow>
     st \<in> {ArrayStart, ArrayValue} \<longrightarrow> Token dec = Token (dec_at s st (p # stk)) \<longrightarrow> More dec \<longrightarrow>
     scan_array g dec = Some (scan_outcome (first_dup_elems js) (dec_at r (value_end p) stk)))"

definition sim_members :: "nat \<Rightarrow> bool" where
  "sim_members f \<longleftrightarrow> (\<forall>d s ms r p stk g dec st keys. parse_members f d s = Parsed ms r \<longrightarrow> f < g \<longrightarrow>
     st \<in> {ObjectStart, ObjectKey} \<longrightarrow> Token dec = Token (dec_at s st (p # stk)) \<longrightarrow> More dec \<longrightarrow>
     scan_object g keys dec = Some (scan_outcome (first_dup_members keys ms) (dec_at r (value_end p) stk)))"

lemma scan_outcome_simps [simp]:
  "scan_outcome None dec = Inr dec" "scan_outcome (Some k) dec = Inl (DuplicateKey k)"
  by (simp_all add: scan_outcome_def)

lemma scan_literal_no_dup: "scan_literal s = Some (j, r) \<Longrightarrow> first_dup j = None"
  by (auto simp: scan_literal_def split: list.splits if_splits)

lemma More_skip: "skip_space s = x # xs \<Longrightarrow> More (dec_at s st stk) \<longleftrightarrow> x \<noteq> CHR '']'' \<and> x \<noteq> CHR ''}''"
  by (simp add: More_def)

lemma parse_elems_starts:
  "parse_elems f d s = Parsed js r \<Longrightarrow> \<exists>c cs. skip_space s = c # cs \<and> c \<noteq> CHR '']'' \<and> c \<noteq> CHR ''}''"
  by (erule parse_elems_cases) (auto dest!: parse_value_starts)

lemma parse_members_starts: "parse_members f d s = Parsed ms r \<Longrightarrow> \<exists>cs. skip_space s = quote # cs"
  by (erule parse_members_cases) auto

lemma quote_not_close [simp]: "quote \<noteq> CHR '']''" "quote \<noteq> CHR ''}''"
  by (simp_all add: quote_def)

lemma sim_value_step:
  assumes "sim_elems f" "sim_members f"
  shows "sim_value (Suc f)"
  unfolding sim_value_def
proof (intro allI impI)
  fix d s j r st stk g
  assume p: "parse_value (Suc f) d s = Parsed j r" and st: "value_allowed st" and "Suc f < g"
  then obtain h where g: "g = Suc (Suc h)" and h: "f < Suc h"
    by (metis Suc_lessE Suc_lessI less_Suc_eq)
  show "scanJSONValue g (dec_at s st stk) = Some (scan_outcome (first_dup j) (dec_at r (value_end st) stk))"
    using p
  proof (cases rule: parse_value_cases)
    case (lit c cs)
    with st g show ?thesis by (simp add: scan_unfold Token_lit scan_literal_no_dup)
  next
    case (arr0 cs)
    with st g show ?thesis by (simp add: scan_unfold Token_open Token_close More_skip)
  next
    case (arr f' cs x xs es)
    then have "More (dec_at cs ArrayStart (st # stk))"
      using parse_elems_starts [OF arr(5)] skip_space_idem [OF arr(3)] by (simp add: More_skip)
    with arr assms(1) h have
      "scan_array (Suc h) (dec_at cs ArrayStart (st # stk)) =
         Some (scan_outcome (first_dup_elems es) (dec_at r (value_end st) stk))"
      by (auto simp: sim_elems_def Token_skip)
    with arr st g show ?thesis by (simp add: scanJSONValue.simps Token_open)
  next
    case (obj0 cs)
    with st g show ?thesis by (simp add: scan_unfold Token_open Token_close More_skip)
  next
    case (obj f' cs x xs ms)
    then have "More (dec_at cs ObjectStart (st # stk))"
      using parse_members_starts [OF obj(5)] skip_space_idem [OF obj(3)] by (auto simp: More_skip)
    with obj assms(2) h have
      "scan_object (Suc h) [] (dec_at cs ObjectStart (st # stk)) =
         Some (scan_outcome (first_dup_members [] ms) (dec_at r (value_end st) stk))"
      by (auto simp: sim_members_def Token_skip)
    with obj st g show ?thesis by (simp add: scanJSONValue.simps Token_open)
  qed
qed

lemma sim_elems_step:
  assumes V: "sim_value f" and E: "sim_elems f"
  shows "sim_elems (Suc f)"
  unfolding sim_elems_def
proof (intro allI impI)
  fix d s js r p stk g dec st
  assume pe: "parse_elems (Suc f) d s = Parsed js r" and "Suc f < g"
    and st: "st \<in> {ArrayStart, ArrayValue}" and tok: "Token dec = Token (dec_at s st (p # stk))"
    and more: "More dec"
  then obtain h where g: "g = Suc (Suc h)" and h: "f < Suc h"
    by (metis Suc_lessE Suc_lessI less_Suc_eq)
  have vscan: "scanJSONValue (Suc h) dec =
      Some (scan_outcome (first_dup j) (dec_at r1 ArrayComma (p # stk)))"
    if "parse_value f d s = Parsed j r1" for j r1
    using V that h st by (auto simp: sim_value_def scanJSONValue_cong [OF tok] value_allowed_def)
  show "scan_array g dec = Some (scan_outcome (first_dup_elems js) (dec_at r (value_end p) stk))"
    using pe
  proof (cases rule: parse_elems_cases)
    case (last f' j r1)
    with vscan [of j r1] more g show ?thesis
      by (cases "first_dup j") (simp_all add: scan_array.simps Token_close More_skip)
  next
    case (more f' j r1 r2 js')
    from more have "More (dec_at r1 ArrayComma (p # stk))" by (simp add: More_skip)
    with more E h Token_separator(1) [OF more(3)] have
      "scan_array (Suc h) (dec_at r1 ArrayComma (p # stk)) =
         Some (scan_outcome (first_dup_elems js') (dec_at r (value_end p) stk))"
      by (auto simp: sim_elems_def)
    with more \<open>More dec\<close> g vscan [of j r1] show ?thesis
      by (cases "first_dup j") (simp_all add: scan_array.simps(2) [of "Suc h"])
  qed
qed

lemma sim_members_step:
  assumes V: "sim_value f" and M: "sim_members f"
  shows "sim_members (Suc f)"
  unfolding sim_members_def
proof (intro allI impI)
  fix d s ms r p stk g dec st keys
  assume pm: "parse_members (Suc f) d s = Parsed ms r" and "Suc f < g"
    and st: "st \<in> {ObjectStart, ObjectKey}" and tok: "Token dec = Token (dec_at s st (p # stk))"
    and more: "More dec"
  then obtain h where g: "g = Suc (Suc h)" and h: "f < Suc h"
    by (metis Suc_lessE Suc_lessI less_Suc_eq)
  have key: "Token dec = Tok (Lit (JStr k)) (dec_at r1 ObjectColon (p # stk))"
    if "skip_space s = quote # cs" "scan_string cs = Some (k, r1)" for cs k r1
    using that st tok by (simp add: Token_key)
  have vscan: "scanJSONValue (Suc h) (dec_at r1 ObjectColon (p # stk)) =
      Some (scan_outcome (first_dup j) (dec_at r3 ObjectComma (p # stk)))"
    if "skip_space r1 = CHR '':'' # r2" "parse_value f d r2 = Parsed j r3" for j r1 r2 r3
    using V that h
    by (auto simp: sim_value_def scanJSONValue_cong [OF Token_separator(3)] value_allowed_def)
  show "scan_object g keys dec =
      Some (scan_outcome (first_dup_members keys ms) (dec_at r (value_end p) stk))"
    using pm
  proof (cases rule: parse_members_cases)
    case (last f' cs k r1 r2 j r3)
    with key [OF last(2,3)] vscan [OF last(4), of j r3] more g show ?thesis
      by (cases "first_dup j") (simp_all add: scan_object.simps Token_close More_skip)
  next
    case (more f' cs k r1 r2 j r3 r4 ms')
    from more have "More (dec_at r3 ObjectComma (p # stk))" by (simp add: More_skip)
    with more M h Token_separator(2) [OF more(6)] have
      "scan_object (Suc h) (unquote k # keys) (dec_at r3 ObjectComma (p # stk)) =
         Some (scan_outcome (first_dup_members (unquote k # keys) ms') (dec_at r (value_end p) stk))"
      by (auto simp: sim_members_def)
    with more \<open>More dec\<close> g key [OF more(2,3)] vscan [OF more(4), of j r3] show ?thesis
      by (cases "first_dup j") (simp_all add: scan_object.simps(2) [of "Suc h"])
  qed
qed

lemma simulation: "sim_value f \<and> sim_elems f \<and> sim_members f"
proof (induction f)
  case 0
  show ?case by (simp add: sim_value_def sim_elems_def sim_members_def parse_unfold)
next
  case (Suc f)
  then show ?case by (simp add: sim_value_step sim_elems_step sim_members_step)
qed

lemma scan_parse_json:
  assumes "parse_json data = Parsed j r"
  shows "scanJSONValue (scan_fuel data) (new_decoder data) =
    Some (scan_outcome (first_dup j) (dec_at r TopValue []))"
proof -
  have "sim_value (2 * length data + 2)" using simulation by blast
  then show ?thesis
    using assms
    by (auto simp: sim_value_def parse_json_def scan_fuel_def new_decoder_def value_allowed_def)
qed

lemma Token_EOF: "Token (dec_at r TopValue []) = TokEOF \<longleftrightarrow> skip_space r = []"
  by (auto simp: Token_def next_token.simps [of r] split: list.splits option.splits)

text \<open>On a text that is one JSON value and white space, the duplicate check is exactly the test
  that no object of the tree repeats a key.\<close>

lemma rejectDuplicateObjectKeys_iff:
  assumes "parse_json data = Parsed j r" "skip_space r = []"
  shows "rejectDuplicateObjectKeys data = Inr () \<longleftrightarrow> distinct_keys j"
  using scan_parse_json [OF assms(1)] assms(2) Token_EOF [of r] first_dup_None_iff(1) [of j]
  by (cases "first_dup j") (auto simp: rejectDuplicateObjectKeys_def)

lemma rejectDuplicateObjectKeys_duplicate:
  assumes "parse_json data = Parsed j r" "\<not> distinct_keys j"
  shows "\<exists>k. rejectDuplicateObjectKeys data = Inl (DuplicateKey k)"
  using scan_parse_json [OF assms(1)] assms(2) first_dup_None_iff(1) [of j]
  by (cases "first_dup j") (auto simp: rejectDuplicateObjectKeys_def)

text \<open>What a successful \<open>Decode\<close> says, and when it succeeds.\<close>

lemma Decode_Inr_iff [result_simps]:
  "Decode data d target strict = Inr v \<longleftrightarrow>
     utf8_valid data \<and>
     (\<exists>j r. parse_json data = Parsed j r \<and> skip_space r = [] \<and> distinct_keys j \<and>
            d strict j target = Some v)"
  (is "?L \<longleftrightarrow> ?R")
proof
  assume ?L
  then obtain j r where "utf8_valid data" "rejectDuplicateObjectKeys data = Inr ()"
    and "parse_json data = Parsed j r" "d strict j target = Some v" "skip_space r = []"
    by (auto simp: Decode_def bindE_Inr_iff split: if_splits parsed.splits option.splits)
  then show ?R using rejectDuplicateObjectKeys_iff by blast
next
  assume ?R
  then obtain j r where "utf8_valid data" "parse_json data = Parsed j r" "skip_space r = []"
    "d strict j target = Some v" and "rejectDuplicateObjectKeys data = Inr ()"
    using rejectDuplicateObjectKeys_iff by blast
  then show ?L by (simp add: Decode_def)
qed

lemma DecodeI:
  "utf8_valid data \<Longrightarrow> parse_json data = Parsed j r \<Longrightarrow> skip_space r = [] \<Longrightarrow> distinct_keys j \<Longrightarrow>
     d strict j target = Some v \<Longrightarrow> Decode data d target strict = Inr v"
  by (simp add: Decode_Inr_iff)

section \<open>The scan always returns\<close>

lemma next_token_less: "next_token s st stk = Tok t dec \<Longrightarrow> length (rest dec) < length s"
proof (induction s st stk rule: next_token.induct)
  case (1 s st stk)
  show ?case
  proof (cases "skip_space s")
    case Nil
    with "1.prems" show ?thesis by (simp add: next_token.simps [of s])
  next
    case (Cons c cs)
    note less = skip_space_Cons [OF Cons]
    show ?thesis
    proof (cases "c = CHR '':'' \<or> c = CHR '',''")
      case True
      with "1.prems" "1.IH" [OF Cons] less show ?thesis
        by (auto simp: next_token.simps [of s] Cons split: if_splits)
    next
      case False
      with "1.prems" Cons less show ?thesis
        by (auto simp: next_token.simps [of s] split: if_splits list.splits option.splits
            dest: scan_string_less scan_literal_less)
    qed
  qed
qed

lemma Token_less: "Token dec = Tok t dec' \<Longrightarrow> length (rest dec') < length (rest dec)"
  by (simp add: Token_def next_token_less)

lemma scan_less:
  "(\<forall>dec dec'. scanJSONValue f dec = Some (Inr dec') \<longrightarrow> length (rest dec') < length (rest dec)) \<and>
   (\<forall>keys dec dec'. scan_object f keys dec = Some (Inr dec') \<longrightarrow> length (rest dec') < length (rest dec)) \<and>
   (\<forall>dec dec'. scan_array f dec = Some (Inr dec') \<longrightarrow> length (rest dec') < length (rest dec))"
proof (induction f)
  case 0
  show ?case by (simp add: scan_unfold)
next
  case (Suc f)
  then have IHv: "\<And>dec dec'. scanJSONValue f dec = Some (Inr dec') \<Longrightarrow> length (rest dec') < length (rest dec)"
    and IHo: "\<And>keys dec dec'. scan_object f keys dec = Some (Inr dec') \<Longrightarrow> length (rest dec') < length (rest dec)"
    and IHa: "\<And>dec dec'. scan_array f dec = Some (Inr dec') \<Longrightarrow> length (rest dec') < length (rest dec)"
    by blast+
  have V: "length (rest dec') < length (rest dec)" if "scanJSONValue (Suc f) dec = Some (Inr dec')" for dec dec'
    using that
    by (auto simp: scan_unfold split: token_read.splits token.splits if_splits
        dest!: Token_less IHo IHa)
  have Ob: "length (rest dec') < length (rest dec)" if "scan_object (Suc f) keys dec = Some (Inr dec')" for keys dec dec'
    using that
    by (auto simp: scan_unfold split: token_read.splits token.splits json.splits if_splits option.splits sum.splits
        dest!: Token_less IHv IHo)
  have A: "length (rest dec') < length (rest dec)" if "scan_array (Suc f) dec = Some (Inr dec')" for dec dec'
    using that
    by (auto simp: scan_unfold split: token_read.splits if_splits option.splits sum.splits
        dest!: Token_less IHv IHa)
  from V Ob A show ?case by blast
qed

lemma scan_total:
  "(\<forall>dec. 2 * length (rest dec) < f \<longrightarrow> scanJSONValue f dec \<noteq> None) \<and>
   (\<forall>keys dec. 2 * length (rest dec) + 1 < f \<longrightarrow> scan_object f keys dec \<noteq> None) \<and>
   (\<forall>dec. 2 * length (rest dec) + 1 < f \<longrightarrow> scan_array f dec \<noteq> None)"
proof (induction f)
  case 0
  show ?case by simp
next
  case (Suc f)
  then have IHv: "\<And>dec. 2 * length (rest dec) < f \<Longrightarrow> scanJSONValue f dec \<noteq> None"
    and IHo: "\<And>keys dec. 2 * length (rest dec) + 1 < f \<Longrightarrow> scan_object f keys dec \<noteq> None"
    and IHa: "\<And>dec. 2 * length (rest dec) + 1 < f \<Longrightarrow> scan_array f dec \<noteq> None"
    by blast+
  have V: "scanJSONValue (Suc f) dec \<noteq> None" if l: "2 * length (rest dec) < Suc f" for dec
  proof -
    have "2 * length (rest dec') + 1 < f" if "Token dec = Tok t dec'" for t dec'
      using Token_less [OF that] l by simp
    then show ?thesis
      using IHo IHa by (auto simp: scan_unfold split: token_read.splits token.splits)
  qed
  have Ob: "scan_object (Suc f) keys dec \<noteq> None" if l: "2 * length (rest dec) + 1 < Suc f" for keys dec
  proof -
    have 1: "2 * length (rest dec1) + 1 < f" if "Token dec = Tok t dec1" for t dec1
      using Token_less [OF that] l by simp
    have 2: "2 * length (rest dec2) + 1 < f"
      if "Token dec = Tok t dec1" "scanJSONValue f dec1 = Some (Inr dec2)" for t dec1 dec2
      using 1 [OF that(1)] scan_less that(2) by fastforce
    show ?thesis
    proof (cases "More dec")
      case False
      then show ?thesis by (simp add: scan_unfold split: token_read.splits)
    next
      case True
      have "scanJSONValue f dec1 \<noteq> None" if "Token dec = Tok t dec1" for t dec1
        using 1 [OF that] IHv by simp
      with True 2 IHo show ?thesis
        by (auto simp: scan_unfold split: token_read.splits token.splits json.splits option.splits sum.splits)
    qed
  qed
  have A: "scan_array (Suc f) dec \<noteq> None" if l: "2 * length (rest dec) + 1 < Suc f" for dec
  proof -
    have 1: "2 * length (rest dec) < f" using l by simp
    have 2: "2 * length (rest dec1) + 1 < f" if "scanJSONValue f dec = Some (Inr dec1)" for dec1
      using scan_less that l by fastforce
    show ?thesis
      using 1 2 IHv IHa by (fastforce simp: scan_unfold split: token_read.splits option.splits sum.splits)
  qed
  from V Ob A show ?case by blast
qed

lemma scan_fuel_enough: "scanJSONValue (scan_fuel data) (new_decoder data) \<noteq> None"
  using scan_total by (simp add: scan_fuel_def new_decoder_def)

section \<open>Properties of strict decoding\<close>

text \<open>Claim C5: \<open>Decode\<close> accepts a text and yields a value exactly when the text is valid UTF-8 and one
  JSON value followed by white space only, no object in it repeats a key, and the typed decoder
  yields that value. So the streaming duplicate check and the two decoders of the code agree.\<close>

theorem Decode_exact:
  "Decode data d target strict = Inr v \<longleftrightarrow>
     utf8_valid data \<and>
     (\<exists>j r. parse_json data = Parsed j r \<and> skip_space r = [] \<and> distinct_keys j \<and>
            d strict j target = Some v)"
  by (rule Decode_Inr_iff)

text \<open>A well-formed text in which some object, at any depth, repeats a key is rejected as a
  duplicate, whatever type it is decoded into.\<close>

lemma Decode_rejects_duplicate:
  assumes "utf8_valid data" "parse_json data = Parsed j r" "\<not> distinct_keys j"
  shows "\<exists>k. Decode data d target strict = Inl (DuplicateKey k)"
  using rejectDuplicateObjectKeys_duplicate [OF assms(2,3)] assms(1) by (auto simp: Decode_def)

definition sample_duplicate_text :: bytes where
  "sample_duplicate_text = quoted ''[{~a~:1,~b~:{~c~:2,~c~:3}}]''"

lemma Decode_rejects_duplicate_witness:
  "\<exists>k. Decode sample_duplicate_text (\<lambda>strict. dec_raw) [] True = Inl (DuplicateKey k)"
proof -
  have "utf8_valid sample_duplicate_text"
    by (rule utf8_valid_all_ascii) (simp add: sample_duplicate_text_def quoted_def quote_def byte_def)
  moreover have "\<exists>r b c. parse_json sample_duplicate_text =
      Parsed (JArr r [JObj b [(''a'', JNum ''1''),
        (''b'', JObj c [(''c'', JNum ''2''), (''c'', JNum ''3'')])]]) []"
    by (simp add: sample_duplicate_text_def quoted_def json_eval scan_number_def scan_int_def
        scan_frac_def scan_exp_def is_digit_def)
  ultimately show ?thesis using Decode_rejects_duplicate by fastforce
qed

text \<open>Claim C14: the duplicate scan returns on every input, well formed or not: the fuel that stands for
  the length of the recursion is never used up.\<close>

theorem scanJSONValue_returns: "\<exists>outcome. scanJSONValue (scan_fuel data) (new_decoder data) = Some outcome"
  using scan_fuel_enough [of data] by blast

end
