(* ===== verification/Protocol.thy ===== *)
theory Protocol
  imports Jsoncheck
begin

text \<open>
  \<open>internal/protocol\<close>: the wire protocol of the long-lived worker. Requests are encoded as one
  JSON object per line; a response is decoded strictly and its result is checked against the
  request's workload before the controller uses it. A \<open>float64\<close> is its IEEE-754 bit pattern,
  which is how it travels and how the controller compares it. Every \<open>protocolErrorf\<close> call site
  is a constructor of \<open>protocol_error\<close> that carries the values the message prints.
\<close>

unbundle bit_operations_syntax

section \<open>Constants\<close>

definition MaxFrameBytes :: nat where "MaxFrameBytes = 4194304"
definition JobSchema :: bytes where "JobSchema = ''paraflow.job/v1''"
definition JobResultSchema :: bytes where "JobResultSchema = ''paraflow.job-result/v1''"
definition ResultSchema :: bytes where "ResultSchema = ''paraflow.result/v1''"
definition BackendScalar :: bytes where "BackendScalar = ''scalar''"
definition maxSafeJSONInteger :: u64 where "maxSafeJSONInteger = 9007199254740991"
definition maxWorkloadNameRunes :: nat where "maxWorkloadNameRunes = 120"
definition maxCategoryCount :: u64 where "maxCategoryCount = 65536"
definition maxErrorMessageRunes :: nat where "maxErrorMessageRunes = 1024"

section \<open>Data\<close>

type_synonym float64 = u64

record WorkloadProjection =
  wp_SchemaVersion :: bytes
  wp_Name :: bytes
  wp_RecordCount :: u64
  wp_CategoryCount :: u64
  wp_Distribution :: bytes

record ResultV1 =
  AcceptedCount :: u64
  ScoreSum :: float64
  CategoryHistogram :: "u64 list"
  AcceptedIDSum :: u64
  AcceptedIDXOR :: u64

datatype ResponseKind = ResponseCompleted | ResponseError | ResponseShutdownAck

record RemoteIssue =
  ri_Code :: bytes
  ri_Path :: bytes
  ri_Message :: bytes

record RemoteError =
  re_Code :: bytes
  re_Message :: bytes
  re_Issues :: "RemoteIssue list"

text \<open>\<open>Result\<close> is meaningful for a completed response only and \<open>RemoteError\<close> for an error
  only, so the zero result stands in the other cases.\<close>

record Response =
  resp_Kind :: ResponseKind
  resp_Result :: ResultV1
  resp_RemoteError :: "RemoteError option"

definition zero_result :: ResultV1 where
  "zero_result = \<lparr>AcceptedCount = 0, ScoreSum = 0, CategoryHistogram = [], AcceptedIDSum = 0,
     AcceptedIDXOR = 0\<rparr>"

datatype protocol_error =
    RequestIDInvalid
  | DecodeWorkloadProjection json_error
  | WorkloadSchemaRequired
  | WorkloadNameRequired
  | WorkloadDatasetRequired
  | WorkloadRecordCountRequired
  | WorkloadCategoryCountRequired
  | EncodeRequest
  | RequestFrameTooLarge
  | ResponseFrameTooLarge
  | DecodeEnvelope json_error
  | UnexpectedResponseSchema bytes
  | RequestIDMismatch bytes bytes
  | ErrorForShutdown
  | UnknownResponseKind bytes
  | CompletedForShutdown
  | MissingWorkloadName
  | WorkloadNameMismatch bytes bytes
  | MissingExecution
  | MissingResult
  | CompletedWithError
  | DecodeExecutionEcho json_error
  | BackendMismatch bytes
  | ErrorWithCompletedFields
  | MissingError
  | DecodeRemoteError json_error
  | UnknownRemoteCode bytes
  | RemoteMessageLength
  | RemoteIssuesNull
  | DecodeRemoteIssues json_error
  | RemoteIssuesEmpty
  | IssueInvalidCode nat
  | IssueMessageLength nat
  | IssueMissingPath nat
  | AckForExecute
  | AckWithFields
  | ProjectedConstraints
  | UnexpectedResultSchema bytes
  | ResultMissingFields
  | UnexpectedScoreEncoding bytes
  | InvalidScoreBits
  | ScoreNaN
  | ScoreNegativeInfinity
  | AcceptedExceedsRecords u64 u64
  | HistogramLengthMismatch nat u64
  | HistogramExceedsRecords u64
  | HistogramTotalMismatch u64 u64
  | DecodeResultError json_error
  | UnexpectedKind ResponseKind

section \<open>Wire structures and how they are decoded\<close>

record responseEnvelope =
  env_SchemaVersion :: bytes
  env_RequestID :: bytes
  env_Kind :: bytes
  env_WorkloadName :: "bytes option"
  env_Execution :: bytes
  env_Result :: bytes
  env_Error :: bytes

record wireFloat64 =
  wf_Encoding :: bytes
  wf_Bits :: bytes

record wireResult =
  wr_SchemaVersion :: bytes
  wr_AcceptedCount :: "u64 option"
  wr_ScoreSum :: "wireFloat64 option"
  wr_CategoryHistogram :: "u64 list option"
  wr_AcceptedIDSum :: "u64 option"
  wr_AcceptedIDXOR :: "u64 option"

record wireRemoteError =
  we_Code :: bytes
  we_Message :: bytes
  we_Issues :: bytes

record wireRemoteIssue =
  wi_Code :: bytes
  wi_Path :: "bytes option"
  wi_Message :: bytes

record execution =
  Backend :: bytes

text \<open>\<open>hexUint64.UnmarshalJSON\<close>: a JSON string of \<open>0x\<close> and sixteen lower-case digits.\<close>

definition hexUint64_UnmarshalJSON :: "bytes \<Rightarrow> u64 option" where
  "hexUint64_UnmarshalJSON data =
     (case unmarshal_string data of
        None \<Rightarrow> None
      | Some encoded \<Rightarrow>
          if length encoded \<noteq> 18 \<or> take 2 encoded \<noteq> ''0x'' then None
          else if \<not> list_all lower_hex_rune (runes (drop 2 encoded)) then None
          else map_option of_nat (parse_uint 16 64 (drop 2 encoded)))"

definition dec_hexUint64 :: "u64 jdec" where
  "dec_hexUint64 j old = hexUint64_UnmarshalJSON (raw_of j)"

definition dec_responseEnvelope :: "bool \<Rightarrow> responseEnvelope jdec" where
  "dec_responseEnvelope strict = dec_struct strict
     [(''schema_version'', on_field env_SchemaVersion env_SchemaVersion_update dec_string),
      (''request_id'', on_field env_RequestID env_RequestID_update dec_string),
      (''kind'', on_field env_Kind env_Kind_update dec_string),
      (''workload_name'', on_field env_WorkloadName env_WorkloadName_update (dec_ptr [] dec_string)),
      (''execution'', on_field env_Execution env_Execution_update dec_raw),
      (''result'', on_field env_Result env_Result_update dec_raw),
      (''error'', on_field env_Error env_Error_update dec_raw)]"

definition zero_envelope :: responseEnvelope where
  "zero_envelope = \<lparr>env_SchemaVersion = [], env_RequestID = [], env_Kind = [],
     env_WorkloadName = None, env_Execution = [], env_Result = [], env_Error = []\<rparr>"

definition zero_wireFloat64 :: wireFloat64 where
  "zero_wireFloat64 = \<lparr>wf_Encoding = [], wf_Bits = []\<rparr>"

definition dec_wireFloat64 :: "bool \<Rightarrow> wireFloat64 jdec" where
  "dec_wireFloat64 strict = dec_struct strict
     [(''encoding'', on_field wf_Encoding wf_Encoding_update dec_string),
      (''bits'', on_field wf_Bits wf_Bits_update dec_string)]"

definition zero_wireResult :: wireResult where
  "zero_wireResult = \<lparr>wr_SchemaVersion = [], wr_AcceptedCount = None, wr_ScoreSum = None,
     wr_CategoryHistogram = None, wr_AcceptedIDSum = None, wr_AcceptedIDXOR = None\<rparr>"

definition dec_wireResult :: "bool \<Rightarrow> wireResult jdec" where
  "dec_wireResult strict = dec_struct strict
     [(''schema_version'', on_field wr_SchemaVersion wr_SchemaVersion_update dec_string),
      (''accepted_count'', on_field wr_AcceptedCount wr_AcceptedCount_update (dec_ptr 0 dec_hexUint64)),
      (''score_sum'', on_field wr_ScoreSum wr_ScoreSum_update
         (dec_ptr zero_wireFloat64 (dec_wireFloat64 strict))),
      (''category_histogram'', on_field wr_CategoryHistogram wr_CategoryHistogram_update
         (dec_ptr [] (dec_slice 0 dec_hexUint64))),
      (''accepted_id_sum'', on_field wr_AcceptedIDSum wr_AcceptedIDSum_update (dec_ptr 0 dec_hexUint64)),
      (''accepted_id_xor'', on_field wr_AcceptedIDXOR wr_AcceptedIDXOR_update (dec_ptr 0 dec_hexUint64))]"

definition dec_execution :: "bool \<Rightarrow> execution jdec" where
  "dec_execution strict = dec_struct strict
     [(''backend'', on_field Backend Backend_update dec_string)]"

definition zero_wireRemoteError :: wireRemoteError where
  "zero_wireRemoteError = \<lparr>we_Code = [], we_Message = [], we_Issues = []\<rparr>"

definition dec_wireRemoteError :: "bool \<Rightarrow> wireRemoteError jdec" where
  "dec_wireRemoteError strict = dec_struct strict
     [(''code'', on_field we_Code we_Code_update dec_string),
      (''message'', on_field we_Message we_Message_update dec_string),
      (''issues'', on_field we_Issues we_Issues_update dec_raw)]"

definition zero_wireRemoteIssue :: wireRemoteIssue where
  "zero_wireRemoteIssue = \<lparr>wi_Code = [], wi_Path = None, wi_Message = []\<rparr>"

definition dec_wireRemoteIssue :: "bool \<Rightarrow> wireRemoteIssue jdec" where
  "dec_wireRemoteIssue strict = dec_struct strict
     [(''code'', on_field wi_Code wi_Code_update dec_string),
      (''path'', on_field wi_Path wi_Path_update (dec_ptr [] dec_string)),
      (''message'', on_field wi_Message wi_Message_update dec_string)]"

definition dec_wireRemoteIssues :: "bool \<Rightarrow> wireRemoteIssue list jdec" where
  "dec_wireRemoteIssues strict = dec_slice zero_wireRemoteIssue (dec_wireRemoteIssue strict)"

section \<open>Small validators\<close>

definition present :: "bytes \<Rightarrow> bool" where
  "present raw \<longleftrightarrow> length raw \<noteq> 0"

definition validateRequestID :: "bytes \<Rightarrow> protocol_error + unit" where
  "validateRequestID requestID =
     (if length requestID \<noteq> 16 then Inl RequestIDInvalid
      else if \<not> list_all lower_hex_rune (runes requestID) then Inl RequestIDInvalid
      else Inr ())"

definition validWorkloadName :: "bytes \<Rightarrow> bool" where
  "validWorkloadName name =
     (if \<not> utf8_valid name then False
      else if rune_count name = 0 \<or> rune_count name > maxWorkloadNameRunes then False
      else list_ex (\<lambda>r. \<not> is_space r) (runes name))"

definition validMessage :: "bytes \<Rightarrow> bool" where
  "validMessage message \<longleftrightarrow>
     utf8_valid message \<and> 1 \<le> rune_count message \<and> rune_count message \<le> maxErrorMessageRunes"

definition issue_code_rune :: "nat \<Rightarrow> bool" where
  "issue_code_rune r \<longleftrightarrow> (97 \<le> r \<and> r \<le> 122) \<or> (48 \<le> r \<and> r \<le> 57) \<or> r = 95"

definition validIssueCode :: "bytes \<Rightarrow> bool" where
  "validIssueCode code =
     (case code of
        [] \<Rightarrow> False
      | c # cs \<Rightarrow>
          if length code > 64 \<or> byte c < 97 \<or> byte c > 122 then False
          else list_all issue_code_rune (runes cs))"

text \<open>\<open>json.Marshal\<close> of the text and then \<open>UnmarshalJSON\<close> of the quoted form.\<close>

definition parseFixedHexBits :: "bytes \<Rightarrow> u64 option" where
  "parseFixedHexBits encoded = hexUint64_UnmarshalJSON (marshal_string encoded)"

text \<open>\<open>math.IsNaN\<close> and \<open>math.IsInf(_, -1)\<close> on the bit pattern: all exponent bits set, and a
  non-zero fraction or the sign with a zero fraction.\<close>

definition is_nan :: "float64 \<Rightarrow> bool" where
  "is_nan b \<longleftrightarrow> (b AND 0x7FFFFFFFFFFFFFFF) > 0x7FF0000000000000"

definition is_neg_inf :: "float64 \<Rightarrow> bool" where
  "is_neg_inf b \<longleftrightarrow> b = 0xFFF0000000000000"

section \<open>Results\<close>

text \<open>The loop over the histogram: \<open>seen\<close> is the sum so far, never above the record count.\<close>

fun histogram_total :: "u64 \<Rightarrow> u64 list \<Rightarrow> u64 \<Rightarrow> protocol_error + u64" where
  "histogram_total records [] seen = Inr seen"
| "histogram_total records (c # cs) seen =
     (if c > records - seen then Inl (HistogramExceedsRecords records)
      else histogram_total records cs (seen + c))"

definition validateResult :: "wireResult \<Rightarrow> WorkloadProjection \<Rightarrow> protocol_error + ResultV1" where
  "validateResult wire workload =
     (if \<not> validWorkloadName (wp_Name workload) \<or>
         wp_RecordCount workload > maxSafeJSONInteger \<or>
         wp_CategoryCount workload = 0 \<or>
         wp_CategoryCount workload > maxCategoryCount
      then Inl ProjectedConstraints
      else if wr_SchemaVersion wire \<noteq> ResultSchema
      then Inl (UnexpectedResultSchema (wr_SchemaVersion wire))
      else
        (case (wr_AcceptedCount wire, wr_ScoreSum wire, wr_CategoryHistogram wire,
               wr_AcceptedIDSum wire, wr_AcceptedIDXOR wire) of
           (Some acceptedCount, Some score, Some histogram, Some idSum, Some idXor) \<Rightarrow>
             if wf_Encoding score \<noteq> ''ieee754-binary64''
             then Inl (UnexpectedScoreEncoding (wf_Encoding score))
             else
               (case parseFixedHexBits (wf_Bits score) of
                  None \<Rightarrow> Inl InvalidScoreBits
                | Some scoreSum \<Rightarrow>
                    if is_nan scoreSum then Inl ScoreNaN
                    else if is_neg_inf scoreSum then Inl ScoreNegativeInfinity
                    else if acceptedCount > wp_RecordCount workload
                    then Inl (AcceptedExceedsRecords acceptedCount (wp_RecordCount workload))
                    else if length histogram \<noteq> unat (wp_CategoryCount workload)
                    then Inl (HistogramLengthMismatch (length histogram) (wp_CategoryCount workload))
                    else
                      bindE (histogram_total (wp_RecordCount workload) histogram 0) (\<lambda>seen.
                        if seen \<noteq> acceptedCount
                        then Inl (HistogramTotalMismatch seen acceptedCount)
                        else Inr \<lparr>AcceptedCount = acceptedCount, ScoreSum = scoreSum,
                                  CategoryHistogram = histogram, AcceptedIDSum = idSum,
                                  AcceptedIDXOR = idXor\<rparr>))
         | _ \<Rightarrow> Inl ResultMissingFields))"

definition DecodeResult :: "bytes \<Rightarrow> WorkloadProjection \<Rightarrow> protocol_error + ResultV1" where
  "DecodeResult raw workload =
     bindE (wrapE DecodeResultError (Decode raw dec_wireResult zero_wireResult True))
       (\<lambda>wire. validateResult wire workload)"

section \<open>Workload projection\<close>

record wl_distribution =
  wd_Kind :: "bytes option"

record wl_dataset =
  ds_RecordCount :: "u64 option"
  ds_CategoryCount :: "u64 option"
  ds_Distribution :: "wl_distribution option"

record wl_value =
  wv_SchemaVersion :: "bytes option"
  wv_Name :: "bytes option"
  wv_Dataset :: "wl_dataset option"

definition zero_distribution :: wl_distribution where
  "zero_distribution = \<lparr>wd_Kind = None\<rparr>"

definition zero_dataset :: wl_dataset where
  "zero_dataset = \<lparr>ds_RecordCount = None, ds_CategoryCount = None, ds_Distribution = None\<rparr>"

definition zero_wl_value :: wl_value where
  "zero_wl_value = \<lparr>wv_SchemaVersion = None, wv_Name = None, wv_Dataset = None\<rparr>"

definition dec_distribution :: "bool \<Rightarrow> wl_distribution jdec" where
  "dec_distribution strict = dec_struct strict
     [(''kind'', on_field wd_Kind wd_Kind_update (dec_ptr [] dec_string))]"

definition dec_dataset :: "bool \<Rightarrow> wl_dataset jdec" where
  "dec_dataset strict = dec_struct strict
     [(''record_count'', on_field ds_RecordCount ds_RecordCount_update (dec_ptr 0 dec_u64)),
      (''category_count'', on_field ds_CategoryCount ds_CategoryCount_update (dec_ptr 0 dec_u64)),
      (''distribution'', on_field ds_Distribution ds_Distribution_update
         (dec_ptr zero_distribution (dec_distribution strict)))]"

definition dec_wl_value :: "bool \<Rightarrow> wl_value jdec" where
  "dec_wl_value strict = dec_struct strict
     [(''schema_version'', on_field wv_SchemaVersion wv_SchemaVersion_update (dec_ptr [] dec_string)),
      (''name'', on_field wv_Name wv_Name_update (dec_ptr [] dec_string)),
      (''dataset'', on_field wv_Dataset wv_Dataset_update (dec_ptr zero_dataset (dec_dataset strict)))]"

definition projected_distribution :: "wl_dataset \<Rightarrow> bytes" where
  "projected_distribution ds =
     (case ds_Distribution ds of
        None \<Rightarrow> []
      | Some d \<Rightarrow> (case wd_Kind d of None \<Rightarrow> [] | Some k \<Rightarrow> k))"

definition ProjectWorkload :: "bytes \<Rightarrow> protocol_error + WorkloadProjection" where
  "ProjectWorkload raw =
     bindE (wrapE DecodeWorkloadProjection (Decode raw dec_wl_value zero_wl_value False)) (\<lambda>v.
       (case wv_SchemaVersion v of
          None \<Rightarrow> Inl WorkloadSchemaRequired
        | Some schema \<Rightarrow>
       (case wv_Name v of
          None \<Rightarrow> Inl WorkloadNameRequired
        | Some name \<Rightarrow>
       (case wv_Dataset v of
          None \<Rightarrow> Inl WorkloadDatasetRequired
        | Some ds \<Rightarrow>
       (case ds_RecordCount ds of
          None \<Rightarrow> Inl WorkloadRecordCountRequired
        | Some records \<Rightarrow>
       (case ds_CategoryCount ds of
          None \<Rightarrow> Inl WorkloadCategoryCountRequired
        | Some categories \<Rightarrow>
            Inr \<lparr>wp_SchemaVersion = schema, wp_Name = name, wp_RecordCount = records,
                 wp_CategoryCount = categories, wp_Distribution = projected_distribution ds\<rparr>))))))"

section \<open>Requests\<close>

definition FormatRequestID :: "u64 \<Rightarrow> bytes" where
  "FormatRequestID sequence = format_016x sequence"

text \<open>\<open>json.Marshal\<close> of a struct: its fields in declaration order, values already marshalled.
  The field names need no escape.\<close>

definition marshal_object :: "(bytes \<times> bytes) list \<Rightarrow> bytes" where
  "marshal_object fs =
     ''{'' @ join_with '','' (map (\<lambda>f. quote # fst f @ [quote] @ '':'' @ snd f) fs) @ ''}''"

text \<open>\<open>json.Marshal\<close> of a \<open>json.RawMessage\<close>: the compacted text of one valid JSON value.\<close>

definition marshal_raw :: "bytes \<Rightarrow> bytes option" where
  "marshal_raw raw =
     (case parse_json raw of
        Parsed j r \<Rightarrow> if skip_space r = [] then Some (compact j) else None
      | _ \<Rightarrow> None)"

definition marshal_executeRequest :: "bytes \<Rightarrow> bytes \<Rightarrow> bytes option" where
  "marshal_executeRequest requestID workload =
     map_option (\<lambda>w.
       marshal_object
         [(''schema_version'', marshal_string JobSchema),
          (''request_id'', marshal_string requestID),
          (''kind'', marshal_string ''execute''),
          (''job'', marshal_object
             [(''execution'', marshal_object [(''backend'', marshal_string BackendScalar)]),
              (''workload'', w)])])
       (marshal_raw workload)"

definition marshal_shutdownRequest :: "bytes \<Rightarrow> bytes" where
  "marshal_shutdownRequest requestID =
     marshal_object
       [(''schema_version'', marshal_string JobSchema),
        (''request_id'', marshal_string requestID),
        (''kind'', marshal_string ''shutdown'')]"

text \<open>The argument is what \<open>json.Marshal\<close> made of the request, \<open>None\<close> for its error.\<close>

definition marshalFrame :: "bytes option \<Rightarrow> protocol_error + bytes" where
  "marshalFrame marshalled =
     (case marshalled of
        None \<Rightarrow> Inl EncodeRequest
      | Some payload \<Rightarrow>
          if length payload > MaxFrameBytes then Inl RequestFrameTooLarge
          else Inr (payload @ [CHR 0x0A]))"

definition EncodeExecuteFrame :: "bytes \<Rightarrow> bytes \<Rightarrow> protocol_error + (bytes \<times> WorkloadProjection)" where
  "EncodeExecuteFrame requestID workload =
     bindE (validateRequestID requestID) (\<lambda>_.
     bindE (ProjectWorkload workload) (\<lambda>projection.
     bindE (marshalFrame (marshal_executeRequest requestID workload)) (\<lambda>frame.
       Inr (frame, projection))))"

definition EncodeShutdownFrame :: "bytes \<Rightarrow> protocol_error + bytes" where
  "EncodeShutdownFrame requestID =
     bindE (validateRequestID requestID) (\<lambda>_.
       marshalFrame (Some (marshal_shutdownRequest requestID)))"

section \<open>Responses\<close>

definition decodeCompleted ::
  "responseEnvelope \<Rightarrow> WorkloadProjection option \<Rightarrow> protocol_error + Response" where
  "decodeCompleted envelope expected =
     (case expected of
        None \<Rightarrow> Inl CompletedForShutdown
      | Some workload \<Rightarrow>
     (case env_WorkloadName envelope of
        None \<Rightarrow> Inl MissingWorkloadName
      | Some name \<Rightarrow>
          if name \<noteq> wp_Name workload then Inl (WorkloadNameMismatch name (wp_Name workload))
          else if \<not> present (env_Execution envelope) then Inl MissingExecution
          else if \<not> present (env_Result envelope) then Inl MissingResult
          else if present (env_Error envelope) then Inl CompletedWithError
          else
            bindE (wrapE DecodeExecutionEcho
                     (Decode (env_Execution envelope) dec_execution \<lparr>Backend = []\<rparr> True)) (\<lambda>actual.
              if Backend actual \<noteq> BackendScalar then Inl (BackendMismatch (Backend actual))
              else
                bindE (DecodeResult (env_Result envelope) workload) (\<lambda>result.
                  Inr \<lparr>resp_Kind = ResponseCompleted, resp_Result = result,
                       resp_RemoteError = None\<rparr>))))"

fun validate_issues :: "nat \<Rightarrow> wireRemoteIssue list \<Rightarrow> protocol_error + RemoteIssue list" where
  "validate_issues index [] = Inr []"
| "validate_issues index (issue # issues) =
     (if \<not> validIssueCode (wi_Code issue) then Inl (IssueInvalidCode index)
      else if \<not> validMessage (wi_Message issue) then Inl (IssueMessageLength index)
      else
        (case wi_Path issue of
           None \<Rightarrow> Inl (IssueMissingPath index)
         | Some path \<Rightarrow>
             bindE (validate_issues (Suc index) issues) (\<lambda>rest.
               Inr (\<lparr>ri_Code = wi_Code issue, ri_Path = path, ri_Message = wi_Message issue\<rparr> # rest))))"

definition decode_issues :: "bytes \<Rightarrow> protocol_error + RemoteIssue list" where
  "decode_issues raw =
     (if \<not> present raw then Inr []
      else if trim_space raw = ''null'' then Inl RemoteIssuesNull
      else
        bindE (wrapE DecodeRemoteIssues (Decode raw dec_wireRemoteIssues [] True)) (\<lambda>wireIssues.
          if length wireIssues = 0 then Inl RemoteIssuesEmpty
          else validate_issues 0 wireIssues))"

definition decodeRemoteError :: "responseEnvelope \<Rightarrow> protocol_error + Response" where
  "decodeRemoteError envelope =
     (if env_WorkloadName envelope \<noteq> None \<or> present (env_Execution envelope) \<or>
         present (env_Result envelope)
      then Inl ErrorWithCompletedFields
      else if \<not> present (env_Error envelope) then Inl MissingError
      else
        bindE (wrapE DecodeRemoteError
                 (Decode (env_Error envelope) dec_wireRemoteError zero_wireRemoteError True)) (\<lambda>wire.
          if we_Code wire \<notin> {''invalid_workload'', ''unsupported_backend'', ''execution_failed''}
          then Inl (UnknownRemoteCode (we_Code wire))
          else if \<not> validMessage (we_Message wire) then Inl RemoteMessageLength
          else
            bindE (decode_issues (we_Issues wire)) (\<lambda>issues.
              Inr \<lparr>resp_Kind = ResponseError, resp_Result = zero_result,
                   resp_RemoteError = Some \<lparr>re_Code = we_Code wire, re_Message = we_Message wire,
                                            re_Issues = issues\<rparr>\<rparr>)))"

definition decodeShutdownAck ::
  "responseEnvelope \<Rightarrow> WorkloadProjection option \<Rightarrow> protocol_error + Response" where
  "decodeShutdownAck envelope expected =
     (if expected \<noteq> None then Inl AckForExecute
      else if env_WorkloadName envelope \<noteq> None \<or> present (env_Execution envelope) \<or>
              present (env_Result envelope) \<or> present (env_Error envelope)
      then Inl AckWithFields
      else Inr \<lparr>resp_Kind = ResponseShutdownAck, resp_Result = zero_result,
                resp_RemoteError = None\<rparr>)"

definition DecodeResponse ::
  "bytes \<Rightarrow> bytes \<Rightarrow> WorkloadProjection option \<Rightarrow> protocol_error + Response" where
  "DecodeResponse frame expectedRequestID expectedWorkload =
     (if length frame > MaxFrameBytes then Inl ResponseFrameTooLarge
      else
        bindE (wrapE DecodeEnvelope (Decode frame dec_responseEnvelope zero_envelope True)) (\<lambda>envelope.
          if env_SchemaVersion envelope \<noteq> JobResultSchema
          then Inl (UnexpectedResponseSchema (env_SchemaVersion envelope))
          else if env_RequestID envelope \<noteq> expectedRequestID
          then Inl (RequestIDMismatch (env_RequestID envelope) expectedRequestID)
          else if env_Kind envelope = ''completed'' then decodeCompleted envelope expectedWorkload
          else if env_Kind envelope = ''error'' then
            (if expectedWorkload = None then Inl ErrorForShutdown else decodeRemoteError envelope)
          else if env_Kind envelope = ''shutdown_ack'' then decodeShutdownAck envelope expectedWorkload
          else Inl (UnknownResponseKind (env_Kind envelope))))"

section \<open>Results: the accepted results are exactly the consistent ones\<close>

lemma histogram_total_Inr_iff:
  "unat seen \<le> unat records \<Longrightarrow>
     histogram_total records cs seen = Inr t \<longleftrightarrow>
       unat seen + sum_list (map unat cs) \<le> unat records \<and>
       unat t = unat seen + sum_list (map unat cs)"
proof (induction cs arbitrary: seen)
  case Nil
  then show ?case by (auto simp: word_unat_eq_iff)
next
  case (Cons c cs)
  have sub: "unat (records - seen) = unat records - unat seen"
    using Cons.prems by (simp add: unat_sub word_le_nat_alt)
  show ?case
  proof (cases "c > records - seen")
    case True
    then have "unat records - unat seen < unat c" by (simp add: word_less_nat_alt sub)
    with True show ?thesis by auto
  next
    case False
    then have le: "unat seen + unat c \<le> unat records"
      using Cons.prems by (simp add: word_less_nat_alt sub)
    then have "unat (seen + c) = unat seen + unat c"
      by (intro unat_add_u64) (rule le_less_trans [OF _ unat_u64_less])
    with False le Cons.IH [of "seen + c"] show ?thesis by (simp add: add.assoc)
  qed
qed

text \<open>What a result must satisfy to be evidence for a workload.\<close>

definition consistent_result :: "WorkloadProjection \<Rightarrow> ResultV1 \<Rightarrow> bool" where
  "consistent_result w r \<longleftrightarrow>
     validWorkloadName (wp_Name w) \<and> unat (wp_RecordCount w) < 2 ^ 53 \<and>
     0 < unat (wp_CategoryCount w) \<and> unat (wp_CategoryCount w) \<le> 65536 \<and>
     unat (AcceptedCount r) \<le> unat (wp_RecordCount w) \<and>
     length (CategoryHistogram r) = unat (wp_CategoryCount w) \<and>
     sum_list (map unat (CategoryHistogram r)) = unat (AcceptedCount r) \<and>
     \<not> is_nan (ScoreSum r) \<and> \<not> is_neg_inf (ScoreSum r)"

lemma projected_bounds:
  "\<not> (n > maxSafeJSONInteger) \<longleftrightarrow> unat n < 2 ^ 53"
  "\<not> (c > maxCategoryCount) \<longleftrightarrow> unat c \<le> 65536"
  by (auto simp: maxSafeJSONInteger_def maxCategoryCount_def word_less_nat_alt)

lemma validateResult_Inr_iff:
  "validateResult wire w = Inr r \<longleftrightarrow>
     consistent_result w r \<and> wr_SchemaVersion wire = ResultSchema \<and>
     wr_AcceptedCount wire = Some (AcceptedCount r) \<and>
     (\<exists>score. wr_ScoreSum wire = Some score \<and> wf_Encoding score = ''ieee754-binary64'' \<and>
              parseFixedHexBits (wf_Bits score) = Some (ScoreSum r)) \<and>
     wr_CategoryHistogram wire = Some (CategoryHistogram r) \<and>
     wr_AcceptedIDSum wire = Some (AcceptedIDSum r) \<and> wr_AcceptedIDXOR wire = Some (AcceptedIDXOR r)"
proof -
  have total: "histogram_total n h 0 = Inr t \<longleftrightarrow>
      sum_list (map unat h) \<le> unat n \<and> unat t = sum_list (map unat h)" for n h t
    using histogram_total_Inr_iff [of 0 n h t] by simp
  have fields: "(case (a, b, c, d, e) of
        (Some a', Some b', Some c', Some d', Some e') \<Rightarrow> f a' b' c' d' e' | _ \<Rightarrow> Inl x) = Inr r \<longleftrightarrow>
      (\<exists>a' b' c' d' e'. a = Some a' \<and> b = Some b' \<and> c = Some c' \<and> d = Some d' \<and> e = Some e' \<and>
         f a' b' c' d' e' = Inr r)"
    for a :: "u64 option" and b :: "wireFloat64 option" and c :: "u64 list option" and d e :: "u64 option"
      and f and x :: protocol_error
    by (simp split: option.splits)
  show ?thesis
    unfolding validateResult_def Let_def guard_Inr_iff fields option_Inr_iff bindE_Inr_iff total
    unfolding projected_bounds consistent_result_def de_Morgan_disj not_not
    by (cases r) (auto simp: unat_gt_0 word_le_nat_alt not_less)
qed

section \<open>The hexadecimal codec\<close>

lemma hex_text_iff:
  "length e = 18 \<and> take 2 e = ''0x'' \<and> list_all lower_hex_rune (runes (drop 2 e)) \<and>
     map_option of_nat (parse_uint 16 64 (drop 2 e)) = Some (v :: u64) \<longleftrightarrow> e = ''0x'' @ format_016x v"
proof
  assume h: "length e = 18 \<and> take 2 e = ''0x'' \<and> list_all lower_hex_rune (runes (drop 2 e)) \<and>
     map_option of_nat (parse_uint 16 64 (drop 2 e)) = Some v"
  then have "length (drop 2 e) = 16" "list_all lower_hex (drop 2 e)"
    by (simp_all add: list_all_lower_hex_runes)
  then obtain n where n: "parse_uint 16 64 (drop 2 e) = Some n" "format_016x (of_nat n) = drop 2 e"
    by (rule parse_uint_lower_hex)
  with h have "format_016x v = drop 2 e" by simp
  then show "e = ''0x'' @ format_016x v" using h by (metis append_take_drop_id)
next
  assume "e = ''0x'' @ format_016x v"
  then show "length e = 18 \<and> take 2 e = ''0x'' \<and> list_all lower_hex_rune (runes (drop 2 e)) \<and>
     map_option of_nat (parse_uint 16 64 (drop 2 e)) = Some v"
    by (simp add: list_all_lower_hex_runes)
qed

text \<open>Each 64-bit value has exactly one accepted text.\<close>

lemma hexUint64_UnmarshalJSON_iff:
  "hexUint64_UnmarshalJSON data = Some v \<longleftrightarrow> unmarshal_string data = Some (''0x'' @ format_016x v)"
proof (cases "unmarshal_string data")
  case None
  then show ?thesis by (simp add: hexUint64_UnmarshalJSON_def)
next
  case (Some e)
  then show ?thesis
    using hex_text_iff [of e v] by (auto simp: hexUint64_UnmarshalJSON_def)
qed

lemma plain_format_016x: "list_all plain (format_016x v)"
  using format_016x_lower_hex [of v] by (auto simp: list_all_iff dest: lower_hex_plain)

lemma plain_0x: "list_all plain (''0x'' @ format_016x v)"
  by (simp add: plain_format_016x) (simp add: plain_def quote_def backslash_def byte_def)

lemma parseFixedHexBits_format: "parseFixedHexBits (''0x'' @ format_016x v) = Some v"
  unfolding parseFixedHexBits_def hexUint64_UnmarshalJSON_iff
    marshal_string_plain [OF plain_0x] unmarshal_string_plain [OF plain_0x] ..

section \<open>Requests are one line\<close>

lemma FormatRequestID_valid: "validateRequestID (FormatRequestID n) = Inr ()"
  by (simp add: validateRequestID_def FormatRequestID_def list_all_lower_hex_runes)

lemma FormatRequestID_inject: "FormatRequestID m = FormatRequestID n \<longleftrightarrow> m = n"
  by (auto simp: FormatRequestID_def dest: inj_format_016x)

lemma validateRequestID_Inr_iff:
  "validateRequestID requestID = Inr u \<longleftrightarrow> (\<exists>n. requestID = FormatRequestID n)"
proof
  assume "validateRequestID requestID = Inr u"
  then have "length requestID = 16" "list_all lower_hex requestID"
    by (auto simp: validateRequestID_def list_all_lower_hex_runes split: if_splits)
  then show "\<exists>n. requestID = FormatRequestID n"
    by (auto simp: FormatRequestID_def elim: parse_uint_lower_hex)
next
  assume "\<exists>n. requestID = FormatRequestID n"
  then show "validateRequestID requestID = Inr u" by (auto simp: FormatRequestID_valid)
qed

lemma plain_printable: "list_all plain s \<Longrightarrow> list_all printable s"
  by (auto simp: list_all_iff plain_def printable_def)

lemma marshal_string_printable: "list_all plain s \<Longrightarrow> list_all printable (marshal_string s)"
  by (simp add: marshal_string_plain plain_printable)

lemma marshal_object_printable:
  assumes "list_all (\<lambda>f. list_all printable (fst f) \<and> list_all printable (snd f)) fs"
  shows "list_all printable (marshal_object fs)"
proof -
  have "list_all (list_all printable) (map (\<lambda>f. quote # fst f @ [quote] @ '':'' @ snd f) fs)"
    using assms by (induction fs) simp_all
  then show ?thesis by (simp add: marshal_object_def join_with_printable)
qed

lemma plain_constants:
  "list_all plain JobSchema" "list_all plain BackendScalar" "list_all plain ''execute''"
  "list_all plain ''shutdown''"
  by (simp_all add: JobSchema_def BackendScalar_def plain_def quote_def backslash_def byte_def)

lemma marshal_executeRequest_printable:
  assumes "marshal_executeRequest (FormatRequestID n) workload = Some payload"
  shows "list_all printable payload"
proof -
  obtain j r where "parse_json workload = Parsed j r"
    and p: "payload = marshal_object
         [(''schema_version'', marshal_string JobSchema),
          (''request_id'', marshal_string (FormatRequestID n)),
          (''kind'', marshal_string ''execute''),
          (''job'', marshal_object
             [(''execution'', marshal_object [(''backend'', marshal_string BackendScalar)]),
              (''workload'', compact j)])]"
    using assms by (auto simp: marshal_executeRequest_def marshal_raw_def split: parsed.splits if_splits)
  then have "list_all printable (compact j)" by (auto intro: compact_printable parse_json_clean)
  with plain_format_016x [of n] show ?thesis
    unfolding p FormatRequestID_def
    by (intro marshal_object_printable)
       (simp add: marshal_object_printable marshal_string_printable
          plain_constants [THEN marshal_string_printable])
qed

lemma newline_not_printable: "list_all printable s \<Longrightarrow> CHR 0x0A \<notin> set s"
  by (auto simp: list_all_iff)

lemma marshalFrame_Inr_iff:
  "marshalFrame m = Inr frame \<longleftrightarrow>
     (\<exists>payload. m = Some payload \<and> length payload \<le> MaxFrameBytes \<and> frame = payload @ [CHR 0x0A])"
  by (auto simp: marshalFrame_def result_simps)

lemma EncodeExecuteFrame_Inr_iff:
  "EncodeExecuteFrame requestID workload = Inr (frame, projection) \<longleftrightarrow>
     (\<exists>n payload. requestID = FormatRequestID n \<and> ProjectWorkload workload = Inr projection \<and>
        marshal_executeRequest requestID workload = Some payload \<and>
        length payload \<le> MaxFrameBytes \<and> frame = payload @ [CHR 0x0A])"
  by (auto simp: EncodeExecuteFrame_def result_simps validateRequestID_Inr_iff marshalFrame_Inr_iff)

lemma EncodeShutdownFrame_Inr:
  "EncodeShutdownFrame (FormatRequestID n) = Inr (marshal_shutdownRequest (FormatRequestID n) @ [CHR 0x0A])"
proof -
  have "length (marshal_shutdownRequest (FormatRequestID n)) = 86"
    by (simp add: marshal_shutdownRequest_def marshal_object_def FormatRequestID_def
        plain_constants [THEN marshal_string_plain] marshal_string_plain [OF plain_format_016x])
       (simp add: JobSchema_def)
  then show ?thesis
    by (simp add: EncodeShutdownFrame_def FormatRequestID_valid marshalFrame_def MaxFrameBytes_def)
qed

section \<open>Responses\<close>

lemma decodeCompleted_Inr:
  assumes "decodeCompleted envelope expected = Inr resp"
  shows "resp_Kind resp = ResponseCompleted \<and> resp_RemoteError resp = None \<and>
    (\<exists>w. expected = Some w \<and> env_WorkloadName envelope = Some (wp_Name w) \<and>
         DecodeResult (env_Result envelope) w = Inr (resp_Result resp))"
  using assms by (auto simp: decodeCompleted_def result_simps)

lemma decodeRemoteError_Inr:
  assumes "decodeRemoteError envelope = Inr resp"
  shows "resp_Kind resp = ResponseError \<and>
    (\<exists>e. resp_RemoteError resp = Some e \<and> validMessage (re_Message e) \<and>
         re_Code e \<in> {''invalid_workload'', ''unsupported_backend'', ''execution_failed''})"
  using assms by (auto simp: decodeRemoteError_def result_simps)

lemma decodeShutdownAck_Inr:
  "decodeShutdownAck envelope expected = Inr resp \<Longrightarrow>
     resp_Kind resp = ResponseShutdownAck \<and> expected = None"
  by (auto simp: decodeShutdownAck_def result_simps)

lemma DecodeResult_consistent: "DecodeResult raw w = Inr r \<Longrightarrow> consistent_result w r"
  by (auto simp: DecodeResult_def result_simps validateResult_Inr_iff)

lemma DecodeResponse_Inr:
  assumes "DecodeResponse frame requestID expected = Inr resp"
  obtains env where "length frame \<le> MaxFrameBytes"
    "Decode frame dec_responseEnvelope zero_envelope True = Inr env"
    "env_RequestID env = requestID" "env_SchemaVersion env = JobResultSchema"
    "decodeCompleted env expected = Inr resp \<or>
      (expected \<noteq> None \<and> decodeRemoteError env = Inr resp) \<or> decodeShutdownAck env expected = Inr resp"
  using assms by (auto simp: DecodeResponse_def result_simps not_less split: if_splits)

lemma DecodeResponse_same_id:
  "DecodeResponse frame a v = Inr x \<Longrightarrow> DecodeResponse frame b w = Inr y \<Longrightarrow> a = b"
  by (elim DecodeResponse_Inr) auto

lemma DecodeResponse_kind:
  assumes "DecodeResponse frame requestID expected = Inr resp"
  shows "case resp_Kind resp of
       ResponseCompleted \<Rightarrow> \<exists>w. expected = Some w \<and> consistent_result w (resp_Result resp)
     | ResponseError \<Rightarrow> expected \<noteq> None \<and>
         (\<exists>e. resp_RemoteError resp = Some e \<and> validMessage (re_Message e) \<and>
              re_Code e \<in> {''invalid_workload'', ''unsupported_backend'', ''execution_failed''})
     | ResponseShutdownAck \<Rightarrow> expected = None"
  using assms
  by (elim DecodeResponse_Inr disjE conjE)
     (auto dest!: decodeCompleted_Inr decodeRemoteError_Inr decodeShutdownAck_Inr DecodeResult_consistent)

section \<open>Sample documents\<close>

definition sample_workload :: WorkloadProjection where
  "sample_workload = \<lparr>wp_SchemaVersion = ''paraflow.workload/v1'', wp_Name = ''w'', wp_RecordCount = 5,
     wp_CategoryCount = 2, wp_Distribution = ''uniform''\<rparr>"

definition sample_result_text :: bytes where
  "sample_result_text = quoted (''{~schema_version~:~paraflow.result/v1~,'' @
     ''~accepted_count~:~0x0000000000000003~,'' @
     ''~score_sum~:{~encoding~:~ieee754-binary64~,~bits~:~0x401a000000000000~},'' @
     ''~category_histogram~:[~0x0000000000000001~,~0x0000000000000002~],'' @
     ''~accepted_id_sum~:~0x0000000000000010~,~accepted_id_xor~:~0x6ebb399a18884447~}'')"

definition sample_result :: ResultV1 where
  "sample_result = \<lparr>AcceptedCount = 3, ScoreSum = 0x401a000000000000, CategoryHistogram = [1, 2],
     AcceptedIDSum = 16, AcceptedIDXOR = 0x6ebb399a18884447\<rparr>"

lemma sample_parse: "parse_json sample_result_text = Parsed (JObj sample_result_text
   [(''schema_version'', JStr ''paraflow.result/v1''), (''accepted_count'', JStr ''0x0000000000000003''),
    (''score_sum'', JObj (quoted ''{~encoding~:~ieee754-binary64~,~bits~:~0x401a000000000000~}'')
        [(''encoding'', JStr ''ieee754-binary64''), (''bits'', JStr ''0x401a000000000000'')]),
    (''category_histogram'', JArr (quoted ''[~0x0000000000000001~,~0x0000000000000002~]'') [JStr ''0x0000000000000001'', JStr ''0x0000000000000002'']),
    (''accepted_id_sum'', JStr ''0x0000000000000010''), (''accepted_id_xor'', JStr ''0x6ebb399a18884447'')]) []"
  by (simp add: sample_result_text_def quoted_def json_eval)

lemma dec_hexUint64_text: "s = ''0x'' @ format_016x v \<Longrightarrow> dec_hexUint64 (JStr s) old = Some v"
  using unmarshal_string_plain [OF plain_0x [of v]]
  by (simp add: dec_hexUint64_def hexUint64_UnmarshalJSON_iff)

lemma sample_hex:
  "format_016x 1 = ''0000000000000001''" "format_016x 2 = ''0000000000000002''"
  "format_016x 3 = ''0000000000000003''" "format_016x 16 = ''0000000000000010''"
  "format_016x 0x6ebb399a18884447 = ''6ebb399a18884447''" "format_016x 0x401a000000000000 = ''401a000000000000''"
  by (simp_all add: format_016x_def hex_digits_numeral hex_digit_def)

lemma sample_dec_hexUint64:
  "dec_hexUint64 (JStr ''0x0000000000000001'') old = Some 1"
  "dec_hexUint64 (JStr ''0x0000000000000002'') old = Some 2"
  "dec_hexUint64 (JStr ''0x0000000000000003'') old = Some 3"
  "dec_hexUint64 (JStr ''0x0000000000000010'') old = Some 16"
  "dec_hexUint64 (JStr ''0x6ebb399a18884447'') old = Some 0x6ebb399a18884447"
  by (rule dec_hexUint64_text, simp add: sample_hex)+

lemma sample_DecodeResult: "DecodeResult sample_result_text sample_workload = Inr sample_result"
proof -
  have "Decode sample_result_text dec_wireResult zero_wireResult True = Inr
     \<lparr>wr_SchemaVersion = ResultSchema, wr_AcceptedCount = Some 3,
      wr_ScoreSum = Some \<lparr>wf_Encoding = ''ieee754-binary64'', wf_Bits = ''0x401a000000000000''\<rparr>,
      wr_CategoryHistogram = Some [1, 2], wr_AcceptedIDSum = Some 16,
      wr_AcceptedIDXOR = Some 0x6ebb399a18884447\<rparr>"
  proof (rule DecodeI [OF _ sample_parse])
    show "utf8_valid sample_result_text"
      by (rule utf8_valid_all_ascii) (simp add: sample_result_text_def quoted_def quote_def byte_def)
  qed (simp_all add: json_eval dec_wireResult_def dec_wireFloat64_def zero_wireResult_def ResultSchema_def
         zero_wireFloat64_def sample_dec_hexUint64)
  moreover have "parseFixedHexBits ''0x401a000000000000'' = Some 0x401a000000000000"
    using parseFixedHexBits_format [of "0x401a000000000000"] by (simp add: sample_hex)
  moreover have "validWorkloadName ''w''"
    by (simp add: validWorkloadName_def rune_count_def byte_def maxWorkloadNameRunes_def is_space_def)
  ultimately show ?thesis
    by (simp add: DecodeResult_def validateResult_Inr_iff consistent_result_def sample_workload_def
        sample_result_def is_nan_def is_neg_inf_def)
qed

definition sample_ack_text :: bytes where
  "sample_ack_text = quoted (''{~schema_version~:~paraflow.job-result/v1~,'' @
     ''~request_id~:~0000000000000001~,~kind~:~shutdown_ack~}'')"

lemma sample_DecodeResponse:
  "DecodeResponse sample_ack_text ''0000000000000001'' None =
     Inr \<lparr>resp_Kind = ResponseShutdownAck, resp_Result = zero_result, resp_RemoteError = None\<rparr>"
proof -
  have p: "parse_json sample_ack_text = Parsed (JObj sample_ack_text
      [(''schema_version'', JStr JobResultSchema), (''request_id'', JStr ''0000000000000001''),
       (''kind'', JStr ''shutdown_ack'')]) []"
    by (simp add: sample_ack_text_def quoted_def json_eval JobResultSchema_def)
  have "Decode sample_ack_text dec_responseEnvelope zero_envelope True = Inr
      (zero_envelope\<lparr>env_SchemaVersion := JobResultSchema, env_RequestID := ''0000000000000001'',
         env_Kind := ''shutdown_ack''\<rparr>)"
  proof (rule DecodeI [OF _ p])
    show "utf8_valid sample_ack_text"
      by (rule utf8_valid_all_ascii) (simp add: sample_ack_text_def quoted_def quote_def byte_def)
  qed (simp_all add: json_eval dec_responseEnvelope_def zero_envelope_def JobResultSchema_def)
  moreover have "length sample_ack_text \<le> MaxFrameBytes"
    by (simp add: sample_ack_text_def quoted_def MaxFrameBytes_def)
  ultimately show ?thesis
    by (simp add: DecodeResponse_def decodeShutdownAck_def zero_envelope_def present_def)
qed

definition sample_workload_text :: bytes where
  "sample_workload_text = quoted (''{~schema_version~:~paraflow.workload/v1~,~name~:~w~,'' @
     ''~dataset~:{~record_count~:5, ~category_count~:2,~distribution~:{~kind~:~uniform~}}}'')"

definition sample_workload_tree :: json where
  "sample_workload_tree = JObj sample_workload_text
      [(''schema_version'', JStr ''paraflow.workload/v1''), (''name'', JStr ''w''),
       (''dataset'',
        JObj (quoted ''{~record_count~:5, ~category_count~:2,~distribution~:{~kind~:~uniform~}}'')
          [(''record_count'', JNum ''5''), (''category_count'', JNum ''2''),
           (''distribution'', JObj (quoted ''{~kind~:~uniform~}'') [(''kind'', JStr ''uniform'')])])]"

lemma sample_workload_parse: "parse_json sample_workload_text = Parsed sample_workload_tree []"
  by (simp add: sample_workload_text_def sample_workload_tree_def quoted_def json_eval scan_number_def
      scan_int_def scan_frac_def scan_exp_def is_digit_def)

lemma sample_ProjectWorkload: "ProjectWorkload sample_workload_text = Inr sample_workload"
proof -
  have "Decode sample_workload_text dec_wl_value zero_wl_value False = Inr
     \<lparr>wv_SchemaVersion = Some ''paraflow.workload/v1'', wv_Name = Some ''w'',
      wv_Dataset = Some \<lparr>ds_RecordCount = Some 5, ds_CategoryCount = Some 2,
        ds_Distribution = Some \<lparr>wd_Kind = Some ''uniform''\<rparr>\<rparr>\<rparr>"
  proof (rule DecodeI [OF _ sample_workload_parse])
    show "utf8_valid sample_workload_text"
      by (rule utf8_valid_all_ascii) (simp add: sample_workload_text_def quoted_def quote_def byte_def)
  qed (simp_all add: json_eval sample_workload_tree_def dec_wl_value_def dec_dataset_def dec_distribution_def
         zero_wl_value_def zero_dataset_def zero_distribution_def dec_u64_def parse_uint_def digit_val_def)
  then show ?thesis
    by (simp add: ProjectWorkload_def projected_distribution_def sample_workload_def)
qed

lemma sample_EncodeExecuteFrame:
  "\<exists>frame. EncodeExecuteFrame (FormatRequestID 1) sample_workload_text = Inr (frame, sample_workload)"
proof -
  have "length (compact sample_workload_tree) = 134"
    by (simp add: sample_workload_tree_def byte_def quote_def)
  then have "\<exists>payload. marshal_executeRequest (FormatRequestID 1) sample_workload_text = Some payload \<and>
      length payload \<le> MaxFrameBytes"
    by (simp add: marshal_executeRequest_def marshal_raw_def sample_workload_parse marshal_object_def
        FormatRequestID_def plain_constants [THEN marshal_string_plain]
        marshal_string_plain [OF plain_format_016x] MaxFrameBytes_def)
       (simp add: JobSchema_def BackendScalar_def)
  then show ?thesis
    by (auto simp: EncodeExecuteFrame_Inr_iff sample_ProjectWorkload)
qed

section \<open>Properties of the protocol\<close>

text \<open>Claim C1: a response that \<open>DecodeResponse\<close> accepts is a single JSON object with distinct keys,
  within the frame limit, that echoes the request's identifier; a completed response answers an
  execute request with a result consistent with that request's workload; an error answers an
  execute request with a known code and a message of legal length; an acknowledgement answers a
  shutdown request.\<close>

theorem DecodeResponse_sound:
  assumes "DecodeResponse frame requestID expected = Inr resp"
  shows "length frame \<le> MaxFrameBytes \<and>
    (\<exists>j r env. parse_json frame = Parsed j r \<and> skip_space r = [] \<and> distinct_keys j \<and>
       dec_responseEnvelope True j zero_envelope = Some env \<and>
       env_RequestID env = requestID \<and> env_SchemaVersion env = JobResultSchema) \<and>
    (case resp_Kind resp of
       ResponseCompleted \<Rightarrow> \<exists>w. expected = Some w \<and> consistent_result w (resp_Result resp)
     | ResponseError \<Rightarrow> expected \<noteq> None \<and>
         (\<exists>e. resp_RemoteError resp = Some e \<and> validMessage (re_Message e) \<and>
              re_Code e \<in> {''invalid_workload'', ''unsupported_backend'', ''execution_failed''})
     | ResponseShutdownAck \<Rightarrow> expected = None)"
  using assms DecodeResponse_kind [OF assms]
  by (elim DecodeResponse_Inr) (auto simp: Decode_Inr_iff)

theorem DecodeResponse_sound_witness:
  "length sample_ack_text \<le> MaxFrameBytes \<and>
   DecodeResponse sample_ack_text ''0000000000000001'' None =
     Inr \<lparr>resp_Kind = ResponseShutdownAck, resp_Result = zero_result, resp_RemoteError = None\<rparr>"
  using DecodeResponse_sound [OF sample_DecodeResponse] sample_DecodeResponse by simp

text \<open>Claim C6: what \<open>validateResult\<close> accepts is exactly a wire result whose five fields are
  present and in the canonical encoding and whose counters are consistent with the workload: the
  histogram has one bin per category, its bins add up (as numbers, without wrap-around) to the
  accepted count, which is at most the record count, and the score is neither NaN nor negative
  infinity.\<close>

theorem validateResult_exact:
  "validateResult wire w = Inr r \<longleftrightarrow>
     consistent_result w r \<and> wr_SchemaVersion wire = ResultSchema \<and>
     wr_AcceptedCount wire = Some (AcceptedCount r) \<and>
     (\<exists>score. wr_ScoreSum wire = Some score \<and> wf_Encoding score = ''ieee754-binary64'' \<and>
              parseFixedHexBits (wf_Bits score) = Some (ScoreSum r)) \<and>
     wr_CategoryHistogram wire = Some (CategoryHistogram r) \<and>
     wr_AcceptedIDSum wire = Some (AcceptedIDSum r) \<and> wr_AcceptedIDXOR wire = Some (AcceptedIDXOR r)"
  by (rule validateResult_Inr_iff)

text \<open>Claim C11: a request frame is exactly one line within the limit: its payload has no newline and at
  most 4 MiB, a single newline ends it, and the projection returned with it is the workload's.\<close>

theorem EncodeExecuteFrame_one_line:
  assumes "EncodeExecuteFrame requestID workload = Inr (frame, projection)"
  shows "\<exists>payload. frame = payload @ [CHR 0x0A] \<and> CHR 0x0A \<notin> set payload \<and>
    length payload \<le> MaxFrameBytes \<and> ProjectWorkload workload = Inr projection \<and>
    (\<exists>n. requestID = FormatRequestID n)"
  using assms
  by (auto simp: EncodeExecuteFrame_Inr_iff dest!: newline_not_printable [OF marshal_executeRequest_printable])

theorem EncodeExecuteFrame_one_line_witness:
  "\<exists>payload. EncodeExecuteFrame (FormatRequestID 1) sample_workload_text =
       Inr (payload @ [CHR 0x0A], sample_workload) \<and> CHR 0x0A \<notin> set payload"
proof -
  obtain frame where f: "EncodeExecuteFrame (FormatRequestID 1) sample_workload_text = Inr (frame, sample_workload)"
    using sample_EncodeExecuteFrame ..
  from EncodeExecuteFrame_one_line [OF f] f show ?thesis by auto
qed

text \<open>A 64-bit value has exactly one accepted text, the JSON string of \<open>0x\<close> and its sixteen
  lower-case digits; in particular decoding inverts encoding and no other spelling is accepted.\<close>

lemma hexUint64_canonical:
  "hexUint64_UnmarshalJSON data = Some v \<longleftrightarrow> unmarshal_string data = Some (''0x'' @ format_016x v)"
  by (rule hexUint64_UnmarshalJSON_iff)

subsection \<open>Keys that differ only in case\<close>

definition envelope_fields :: "(bytes \<times> responseEnvelope jdec) list" where
  "envelope_fields =
     [(''schema_version'', on_field env_SchemaVersion env_SchemaVersion_update dec_string),
      (''request_id'', on_field env_RequestID env_RequestID_update dec_string),
      (''kind'', on_field env_Kind env_Kind_update dec_string),
      (''workload_name'', on_field env_WorkloadName env_WorkloadName_update (dec_ptr [] dec_string)),
      (''execution'', on_field env_Execution env_Execution_update dec_raw),
      (''result'', on_field env_Result env_Result_update dec_raw),
      (''error'', on_field env_Error env_Error_update dec_raw)]"

lemma dec_responseEnvelope_fields: "dec_responseEnvelope strict = dec_struct strict envelope_fields"
  by (simp add: dec_responseEnvelope_def envelope_fields_def)

lemma envelope_fields_distinct: "distinct (map (fold_name \<circ> fst) envelope_fields)"
  by (simp add: envelope_fields_def fold_name_def fold_rune_def json_eval)

text \<open>A decoder that accepts every string whatever was there before.\<close>

definition takes_strings :: "'a jdec \<Rightarrow> bool" where
  "takes_strings d \<longleftrightarrow>
     (\<forall>j x y. d j x = None \<longrightarrow> d j y = None) \<and> (\<forall>b x y. d (JStr b) x = d (JStr b) y) \<and>
     (\<forall>b x. d (JStr b) x \<noteq> None)"

lemma takes_strings_decoders [simp]: "takes_strings dec_string" "takes_strings (dec_ptr z dec_string)" "takes_strings dec_raw"
  by (auto simp: takes_strings_def dec_string_def dec_ptr_def dec_raw_def split: json.splits option.splits)

text \<open>Of two members with string values whose keys fold to the same name only the later one counts, whatever
  the name: an unknown name is rejected either way.\<close>

lemma envelope_override_field:
  assumes "(name, e) = (name', on_field get upd d)" "(name', on_field get upd d) \<in> set envelope_fields"
    and "list_all (\<lambda>(n, e). n = name' \<or> blind upd e) envelope_fields"
    and "\<And>x s. get (upd (\<lambda>_. x) s) = x" "\<And>x y s. upd (\<lambda>_. x) (upd (\<lambda>_. y) s) = upd (\<lambda>_. x) s"
    and "takes_strings d"
    and "fold_name (unquote k2) = fold_name name" "fold_name (unquote k1) = fold_name (unquote k2)"
  shows "dec_fields True envelope_fields (pre @ (k1, JStr a) # mid @ (k2, JStr b) # post) s =
      dec_fields True envelope_fields (pre @ mid @ (k2, JStr b) # post) s"
proof -
  have keys: "fold_name (unquote k2) = fold_name name'" "fold_name (unquote k1) = fold_name name'"
    using assms(1,7,8) by simp_all
  show ?thesis
    by (rule dec_fields_override [where get = get and upd = upd and d = d, OF envelope_fields_distinct assms(2-5) _ _ keys])
      (use assms(6) in \<open>auto simp: takes_strings_def\<close>)
qed

lemma envelope_field_cases:
  "m \<in> set envelope_fields \<Longrightarrow>
     m = (''schema_version'', on_field env_SchemaVersion env_SchemaVersion_update dec_string) \<or>
     m = (''request_id'', on_field env_RequestID env_RequestID_update dec_string) \<or>
     m = (''kind'', on_field env_Kind env_Kind_update dec_string) \<or>
     m = (''workload_name'', on_field env_WorkloadName env_WorkloadName_update (dec_ptr [] dec_string)) \<or>
     m = (''execution'', on_field env_Execution env_Execution_update dec_raw) \<or>
     m = (''result'', on_field env_Result env_Result_update dec_raw) \<or>
     m = (''error'', on_field env_Error env_Error_update dec_raw)"
  by (simp only: envelope_fields_def list.set insert_iff empty_iff simp_thms)

lemma envelope_override:
  assumes "fold_name (unquote k1) = fold_name (unquote k2)"
  shows "dec_responseEnvelope True (JObj raw (pre @ (k1, JStr a) # mid @ (k2, JStr b) # post)) s =
    dec_responseEnvelope True (JObj raw' (pre @ mid @ (k2, JStr b) # post)) s"
proof (cases "find_field envelope_fields (unquote k2)")
  case None
  then show ?thesis
    using dec_fields_unknown [of envelope_fields k2 "pre @ (k1, JStr a) # mid" "JStr b" post s]
      dec_fields_unknown [of envelope_fields k2 "pre @ mid" "JStr b" post s]
    by (simp add: dec_responseEnvelope_fields dec_struct_def)
next
  case (Some e)
  then obtain name where n: "(name, e) \<in> set envelope_fields" "fold_name (unquote k2) = fold_name name"
    using find_field_fold [OF envelope_fields_distinct, of "unquote k2"] by (auto dest!: map_of_SomeD)
  have "dec_fields True envelope_fields (pre @ (k1, JStr a) # mid @ (k2, JStr b) # post) s =
      dec_fields True envelope_fields (pre @ mid @ (k2, JStr b) # post) s"
    using envelope_field_cases [OF n(1)]
    by (elim disjE)
      (erule envelope_override_field [OF _ _ _ _ _ _ n(2) assms]; simp add: envelope_fields_def blind_on_field)+
  then show ?thesis by (simp add: dec_responseEnvelope_fields dec_struct_def)
qed

lemma distinct_keys_remove:
  "distinct_keys (JObj raw (pre @ m # post)) \<Longrightarrow> distinct_keys (JObj raw' (pre @ post))"
  by (auto simp: distinct_map list_all_iff inj_on_def)

definition sample_case_text :: bytes where
  "sample_case_text = quoted (''{~schema_version~:~paraflow.job-result/v1~,'' @
     ''~request_id~:~0000000000000001~,~kind~:~error~,~KIND~:~shutdown_ack~}'')"

definition sample_upper_text :: bytes where
  "sample_upper_text = quoted (''{~schema_version~:~paraflow.job-result/v1~,'' @
     ''~request_id~:~0000000000000001~,~KIND~:~shutdown_ack~}'')"

text \<open>
  Claim C16. Keys that differ only in case are one field to the decoder and two to the duplicate check.
  The check compares keys exactly; the struct decoder, and with it the rejection of unknown fields, selects
  a field by its folded name. So whenever a response object passes the duplicate check and has two members
  with string values whose keys agree when folded, such as \<open>kind\<close> and \<open>KIND\<close> or two spellings of
  \<open>request_id\<close>, the controller answers exactly as to the response without the earlier one: the later
  one silently wins, for every field of the envelope, every request and every other content.
\<close>

theorem case_variant_key_overrides:
  assumes "utf8_valid frame" "length frame \<le> MaxFrameBytes" "rejectDuplicateObjectKeys frame = Inr ()"
    and "parse_json frame = Parsed (JObj raw (pre @ (k1, JStr a) # mid @ (k2, JStr b) # post)) r"
    and "skip_space r = []" "fold_name (unquote k1) = fold_name (unquote k2)"
    and "utf8_valid frame'" "length frame' \<le> MaxFrameBytes"
    and "parse_json frame' = Parsed (JObj raw' (pre @ mid @ (k2, JStr b) # post)) r'" "skip_space r' = []"
  shows "unquote k1 \<noteq> unquote k2 \<and> rejectDuplicateObjectKeys frame' = Inr () \<and>
     DecodeResponse frame requestID workload = DecodeResponse frame' requestID workload"
proof -
  have d: "distinct_keys (JObj raw (pre @ (k1, JStr a) # mid @ (k2, JStr b) # post))"
    using assms(3) by (simp only: rejectDuplicateObjectKeys_iff [OF assms(4,5)])
  then have "distinct_keys (JObj raw' (pre @ mid @ (k2, JStr b) # post))" by (rule distinct_keys_remove)
  then have d': "rejectDuplicateObjectKeys frame' = Inr ()"
    by (simp only: rejectDuplicateObjectKeys_iff [OF assms(9,10)])
  have "Decode frame dec_responseEnvelope zero_envelope True = Decode frame' dec_responseEnvelope zero_envelope True"
    using assms d' envelope_override [OF assms(6), of raw pre a mid b post zero_envelope raw']
    by (simp add: Decode_def bindE_def split: option.split)
  then show ?thesis
    using d d' assms(2,8) by (simp add: DecodeResponse_def)
qed

theorem case_variant_key_overrides_witness:
  "DecodeResponse sample_case_text ''0000000000000001'' None = DecodeResponse sample_upper_text ''0000000000000001'' None \<and>
   DecodeResponse sample_upper_text ''0000000000000001'' None =
     Inr \<lparr>resp_Kind = ResponseShutdownAck, resp_Result = zero_result, resp_RemoteError = None\<rparr>"
proof
  have u: "utf8_valid sample_case_text" "utf8_valid sample_upper_text"
    by (rule utf8_valid_all_ascii, simp add: sample_case_text_def sample_upper_text_def quoted_def quote_def byte_def)+
  have l: "length sample_case_text \<le> MaxFrameBytes" "length sample_upper_text \<le> MaxFrameBytes"
    by (simp_all add: sample_case_text_def sample_upper_text_def quoted_def MaxFrameBytes_def)
  have p: "parse_json sample_case_text = Parsed (JObj sample_case_text
      ([(''schema_version'', JStr JobResultSchema), (''request_id'', JStr ''0000000000000001'')] @
       (''kind'', JStr ''error'') # [] @ (''KIND'', JStr ''shutdown_ack'') # [])) []"
    by (simp add: sample_case_text_def quoted_def json_eval JobResultSchema_def)
  have p': "parse_json sample_upper_text = Parsed (JObj sample_upper_text
      ([(''schema_version'', JStr JobResultSchema), (''request_id'', JStr ''0000000000000001'')] @
       [] @ (''KIND'', JStr ''shutdown_ack'') # [])) []"
    by (simp add: sample_upper_text_def quoted_def json_eval JobResultSchema_def)
  have d: "rejectDuplicateObjectKeys sample_case_text = Inr ()"
    by (subst rejectDuplicateObjectKeys_iff [OF p]) (simp_all add: json_eval)
  show "DecodeResponse sample_case_text ''0000000000000001'' None = DecodeResponse sample_upper_text ''0000000000000001'' None"
    using case_variant_key_overrides [OF u(1) l(1) d p _ _ u(2) l(2) p', of "''0000000000000001''" None]
    by (simp add: json_eval fold_name_def fold_rune_def)
  have "Decode sample_upper_text dec_responseEnvelope zero_envelope True = Inr
      (zero_envelope\<lparr>env_SchemaVersion := JobResultSchema, env_RequestID := ''0000000000000001'',
         env_Kind := ''shutdown_ack''\<rparr>)"
    by (rule DecodeI [OF u(2) p'])
      (simp_all add: json_eval dec_responseEnvelope_def zero_envelope_def JobResultSchema_def fold_name_def fold_rune_def)
  with l(2) show "DecodeResponse sample_upper_text ''0000000000000001'' None =
     Inr \<lparr>resp_Kind = ResponseShutdownAck, resp_Result = zero_result, resp_RemoteError = None\<rparr>"
    by (simp add: DecodeResponse_def decodeShutdownAck_def zero_envelope_def present_def)
qed

end
