(* ===== verification/Session.thy ===== *)
theory Session
  imports Frame Protocol
begin

text \<open>
  \<open>internal/worker/session.go\<close>: one long-lived engine process shared by concurrent callers. The
  shared session is a record; every goroutine that is inside \<open>Execute\<close>, \<open>Shutdown\<close> or \<open>Close\<close>
  is a thread with its own program counter, and one step is what the code does between two
  synchronisation points. The child, the contexts and the two background goroutines of \<open>Start\<close>
  are the environment: they can move at any time. Everything below is shown for every
  interleaving.
\<close>

section \<open>Errors\<close>

datatype write_error = OutputError bytes | ErrShortWrite

datatype transport_cause =
    WriteCause write_error
  | ReadCause frame_error
  | ExitCause bytes
  | ErrUnexpectedEOF

datatype session_error =
    ContextError
  | ErrSessionClosed
  | ErrSessionPoisoned "session_error option"
  | ErrRequestIDExhausted
  | RequestRejected protocol_error
  | ProtocolFailure protocol_error
  | UnexpectedResponse ResponseKind
  | TransportError bytes transport_cause bytes
  | RemoteFailure RemoteError

section \<open>The shared session\<close>

definition readBufferBytes :: nat where "readBufferBytes = 65536"
definition stderrTailBytes :: nat where "stderrTailBytes = 65536"

datatype sessionState = sessionOpen | sessionClosed | sessionPoisoned

text \<open>\<open>ss_stdout\<close> holds the bytes the child has written and \<open>readFrame\<close> has not consumed, and
  \<open>ss_stdoutEnd\<close> the error that follows them once the stream has ended. \<open>ss_token\<close> is the number
  of tokens in the channel of capacity one. A closed \<open>waitDone\<close> channel is \<open>ss_waitDone\<close>.\<close>

record session =
  ss_stdout :: bytes
  ss_stdoutEnd :: "read_error option"
  ss_stderr :: boundedTail
  ss_stderrDone :: bool
  ss_waitDone :: bool
  ss_waitErr :: "bytes option"
  ss_token :: nat
  ss_state :: sessionState
  ss_cause :: "session_error option"
  ss_sequence :: u64
  ss_closeInputOnce :: bool
  ss_closeOutputOnce :: bool
  ss_killOnce :: bool

definition new_session :: session where
  "new_session =
     \<lparr>ss_stdout = [], ss_stdoutEnd = None, ss_stderr = newBoundedTail stderrTailBytes,
      ss_stderrDone = False, ss_waitDone = False, ss_waitErr = None, ss_token = 1,
      ss_state = sessionOpen, ss_cause = None, ss_sequence = 1, ss_closeInputOnce = False,
      ss_closeOutputOnce = False, ss_killOnce = False\<rparr>"

definition markPoisoned :: "session_error \<Rightarrow> session \<Rightarrow> session" where
  "markPoisoned c s =
     (if ss_state s = sessionOpen then s\<lparr>ss_state := sessionPoisoned, ss_cause := Some c\<rparr> else s)"

definition closeInput :: "session \<Rightarrow> session" where
  "closeInput s = s\<lparr>ss_closeInputOnce := True\<rparr>"

text \<open>Closing the read end makes a pending and every later read fail.\<close>

definition closeOutput :: "session \<Rightarrow> session" where
  "closeOutput s =
     (if ss_closeOutputOnce s then s
      else s\<lparr>ss_closeOutputOnce := True,
             ss_stdoutEnd := (case ss_stdoutEnd s of None \<Rightarrow> Some (ReadFailure ''file already closed'') | e \<Rightarrow> e)\<rparr>)"

definition kill :: "session \<Rightarrow> session" where
  "kill s = s\<lparr>ss_killOnce := True\<rparr>"

definition StderrTail :: "session \<Rightarrow> bytes" where
  "StderrTail s = boundedTail_String (ss_stderr s)"

definition transportError :: "bytes \<Rightarrow> transport_cause \<Rightarrow> session \<Rightarrow> session_error" where
  "transportError operation c s = TransportError operation c (StderrTail s)"

definition exit_cause :: "session \<Rightarrow> transport_cause" where
  "exit_cause s = (case ss_waitErr s of Some e \<Rightarrow> ExitCause e | None \<Rightarrow> ErrUnexpectedEOF)"

text \<open>\<open>checkOpen\<close> waits for the diagnostics of a child that is gone; \<open>None\<close> is that wait. The code holds
  the state's mutex meanwhile; here other calls may move, which only adds interleavings.\<close>

definition checkOpen :: "session \<Rightarrow> (session_error option \<times> session) option" where
  "checkOpen s =
     (case ss_state s of
        sessionClosed \<Rightarrow> Some (Some ErrSessionClosed, s)
      | sessionPoisoned \<Rightarrow> Some (Some (ErrSessionPoisoned (ss_cause s)), s)
      | sessionOpen \<Rightarrow>
          if ss_waitDone s then
            if ss_stderrDone s then
              (let s' = closeOutput s; c = transportError ''exited before request'' (exit_cause s) s' in
               Some (Some (ErrSessionPoisoned (Some c)), s'\<lparr>ss_state := sessionPoisoned, ss_cause := Some c\<rparr>))
            else None
          else Some (None, s))"

definition release :: "session \<Rightarrow> session" where
  "release s = s\<lparr>ss_token := ss_token s + 1\<rparr>"

definition nextRequestID :: "session \<Rightarrow> (session_error + bytes) \<times> session" where
  "nextRequestID s =
     (if ss_sequence s = 0 then (Inl ErrRequestIDExhausted, s)
      else (Inr (FormatRequestID (ss_sequence s)), s\<lparr>ss_sequence := ss_sequence s + 1\<rparr>))"

text \<open>\<open>writeAll\<close> against a writer given as the results of its successive \<open>Write\<close> calls. A result
  is a count, at most what was offered, and an error. The value is the error and the bytes
  delivered; \<open>None\<close> means that the call has not returned after the given results.\<close>

fun writeAll :: "(nat \<times> bytes option) list \<Rightarrow> bytes \<Rightarrow> (write_error option \<times> bytes) option" where
  "writeAll ws [] = Some (None, [])"
| "writeAll [] data = None"
| "writeAll ((written, err) # ws) data =
     (if written > length data then None
      else
        (case err of
           Some e \<Rightarrow> Some (Some (OutputError e), take written data)
         | None \<Rightarrow>
             if written = 0 then Some (Some ErrShortWrite, [])
             else map_option (\<lambda>(r, sent). (r, take written data @ sent)) (writeAll ws (drop written data))))"

section \<open>Threads\<close>

datatype call = Execute bytes | Shutdown | Close

datatype outcome = Completed ResultV1 | Stopped | Failed session_error

text \<open>The goroutine that \<open>transact\<close> starts: it writes the frame, reads one and decodes it.\<close>

datatype tx_phase = TxWrite | TxRead | TxDone "session_error + Response"

record transaction =
  tx_frame :: bytes
  tx_workload :: "WorkloadProjection option"
  tx_phase :: tx_phase

datatype reap_stage = CloseInputAndKill | AwaitProcess | AwaitStderr

text \<open>A program counter names the next thing the goroutine does. \<open>Reaping stage won o tx\<close> is
  inside \<open>killAndReap\<close>; afterwards the call reports \<open>o\<close>. \<open>won\<close> records that this goroutine's
  \<open>markPoisoned\<close> set the session's cause, and \<open>tx\<close> the transaction that is still to be drained.\<close>

datatype pc =
    Acquiring
  | Checking
  | Numbering
  | Transacting transaction
  | ClosingAfterAck
  | AwaitingExit
  | AwaitingDiagnostics
  | MarkingClosed
  | Reaping reap_stage bool outcome "transaction option"
  | Draining outcome transaction
  | Releasing outcome
  | Returned outcome

record thread =
  th_call :: call
  th_cancelled :: bool
  th_id :: "bytes option"
  th_pc :: pc

text \<open>Which alternative of a \<open>select\<close> the step takes, and what the pipe answered to the writes.\<close>

datatype choice = Advance | ContextDone | Transact "(nat \<times> bytes option) list"

definition holds_token :: "thread \<Rightarrow> bool" where
  "holds_token t \<longleftrightarrow>
     th_call t \<noteq> Close \<and> (case th_pc t of Acquiring \<Rightarrow> False | Returned _ \<Rightarrow> False | _ \<Rightarrow> True)"

definition initial_pc :: "call \<Rightarrow> pc" where
  "initial_pc c = (if c = Close then MarkingClosed else Acquiring)"

definition new_thread :: "call \<Rightarrow> thread" where
  "new_thread c = \<lparr>th_call = c, th_cancelled = False, th_id = None, th_pc = initial_pc c\<rparr>"

text \<open>\<open>Close\<close> has no token to give back.\<close>

definition leave :: "call \<Rightarrow> outcome \<Rightarrow> pc" where
  "leave c o' = (if c = Close then Returned o' else Releasing o')"

text \<open>\<open>poison\<close>: mark, then kill and reap; the error's diagnostics are refreshed at the end.\<close>

definition poison :: "session_error \<Rightarrow> session \<Rightarrow> pc \<times> session" where
  "poison c s =
     (Reaping CloseInputAndKill (ss_state s = sessionOpen) (Failed c) None, markPoisoned c s)"

definition refresh :: "bytes \<Rightarrow> session_error \<Rightarrow> session_error" where
  "refresh tail e = (case e of TransportError operation c _ \<Rightarrow> TransportError operation c tail | _ \<Rightarrow> e)"

definition encode_request :: "call \<Rightarrow> bytes \<Rightarrow> protocol_error + (bytes \<times> WorkloadProjection option)" where
  "encode_request c requestID =
     (case c of
        Execute workload \<Rightarrow>
          (case EncodeExecuteFrame requestID workload of
             Inl e \<Rightarrow> Inl e
           | Inr (frame, projection) \<Rightarrow> Inr (frame, Some projection))
      | _ \<Rightarrow> bindE (EncodeShutdownFrame requestID) (\<lambda>frame. Inr (frame, None)))"

text \<open>What \<open>Execute\<close> and \<open>Shutdown\<close> do with a decoded response.\<close>

definition handle_response :: "call \<Rightarrow> Response \<Rightarrow> session \<Rightarrow> pc \<times> session" where
  "handle_response c response s =
     (case c of
        Execute _ \<Rightarrow>
          (case resp_Kind response of
             ResponseCompleted \<Rightarrow> (Releasing (Completed (resp_Result response)), s)
           | ResponseError \<Rightarrow>
               (Releasing (Failed (RemoteFailure (the (resp_RemoteError response)))), s)
           | ResponseShutdownAck \<Rightarrow> poison (UnexpectedResponse ResponseShutdownAck) s)
      | _ \<Rightarrow>
          if resp_Kind response \<noteq> ResponseShutdownAck
          then poison (UnexpectedResponse (resp_Kind response)) s
          else (ClosingAfterAck, s))"

text \<open>A read can return when a whole line is there, when what is there is already too long, or
  when the stream has ended. It may report a line that is too long as soon as the excess byte is there,
  where the reader of the code waits until its buffer is full.\<close>

definition frame_ready :: "session \<Rightarrow> bool" where
  "frame_ready s \<longleftrightarrow>
     newline \<in> set (ss_stdout s) \<or> \<not> fits MaxFrameBytes (ss_stdout s) \<or> ss_stdoutEnd s \<noteq> None"

definition stdout_reader :: "session \<Rightarrow> reader" where
  "stdout_reader s =
     \<lparr>unread = ss_stdout s, final = (case ss_stdoutEnd s of Some e \<Rightarrow> e | None \<Rightarrow> EOF)\<rparr>"

definition tx_step ::
  "bytes \<Rightarrow> (nat \<times> bytes option) list \<Rightarrow> transaction \<Rightarrow> session \<Rightarrow> (transaction \<times> session) option" where
  "tx_step requestID ws tx s =
     (case tx_phase tx of
        TxWrite \<Rightarrow>
          (case writeAll ws (tx_frame tx) of
             None \<Rightarrow> None
           | Some (Some e, sent) \<Rightarrow>
               Some (tx\<lparr>tx_phase := TxDone (Inl (transportError ''write request'' (WriteCause e) s))\<rparr>, s)
           | Some (None, sent) \<Rightarrow> Some (tx\<lparr>tx_phase := TxRead\<rparr>, s))
      | TxRead \<Rightarrow>
          if frame_ready s then
            (case readFrame readBufferBytes MaxFrameBytes (stdout_reader s) of
               (Inl e, rd) \<Rightarrow>
                 Some (tx\<lparr>tx_phase := TxDone (Inl (transportError ''read response'' (ReadCause e) s))\<rparr>,
                       s\<lparr>ss_stdout := unread rd\<rparr>)
             | (Inr payload, rd) \<Rightarrow>
                 Some (tx\<lparr>tx_phase :=
                           TxDone (wrapE ProtocolFailure (DecodeResponse payload requestID (tx_workload tx)))\<rparr>,
                       s\<lparr>ss_stdout := unread rd\<rparr>))
          else None
      | TxDone _ \<Rightarrow> None)"

text \<open>After the reaping: \<open>transact\<close> waits for its goroutine, \<open>poison\<close> refreshes the error it
  returns, which is the object the session keeps as its cause if this goroutine set it.\<close>

definition after_reap ::
  "call \<Rightarrow> bool \<Rightarrow> outcome \<Rightarrow> transaction option \<Rightarrow> session \<Rightarrow> pc \<times> session" where
  "after_reap c won o' tx s =
     (case tx of
        Some t \<Rightarrow> (Draining o' t, s)
      | None \<Rightarrow>
          (case o' of
             Failed e \<Rightarrow>
               (leave c (Failed (refresh (StderrTail s) e)),
                if won then s\<lparr>ss_cause := map_option (refresh (StderrTail s)) (ss_cause s)\<rparr> else s)
           | _ \<Rightarrow> (leave c o', s)))"

definition reap_step ::
  "call \<Rightarrow> reap_stage \<Rightarrow> bool \<Rightarrow> outcome \<Rightarrow> transaction option \<Rightarrow> session \<Rightarrow> (pc \<times> session) option" where
  "reap_step c stage won o' tx s =
     (case stage of
        CloseInputAndKill \<Rightarrow> Some (Reaping AwaitProcess won o' tx, kill (closeInput s))
      | AwaitProcess \<Rightarrow>
          if ss_waitDone s then Some (Reaping AwaitStderr won o' tx, closeOutput s) else None
      | AwaitStderr \<Rightarrow> if ss_stderrDone s then Some (after_reap c won o' tx s) else None)"

section \<open>One step of one goroutine\<close>

text \<open>\<open>None\<close> is a goroutine that is blocked, or an alternative that is not there.\<close>

definition acquire_step :: "choice \<Rightarrow> thread \<Rightarrow> session \<Rightarrow> (pc \<times> session) option" where
  "acquire_step ch t s =
     (case ch of
        ContextDone \<Rightarrow> if th_cancelled t then Some (Returned (Failed ContextError), s) else None
      | Advance \<Rightarrow>
          if ss_token s = 0 then None
          else if th_cancelled t then Some (Returned (Failed ContextError), s)
          else Some (Checking, s\<lparr>ss_token := ss_token s - 1\<rparr>)
      | Transact _ \<Rightarrow> None)"

definition number_step :: "thread \<Rightarrow> session \<Rightarrow> thread \<times> session" where
  "number_step t s =
     (case nextRequestID s of
        (Inl e, s') \<Rightarrow> (t\<lparr>th_pc := Releasing (Failed e)\<rparr>, s')
      | (Inr requestID, s') \<Rightarrow>
          (case encode_request (th_call t) requestID of
             Inl e \<Rightarrow> (t\<lparr>th_id := Some requestID, th_pc := Releasing (Failed (RequestRejected e))\<rparr>, s')
           | Inr (frame, workload) \<Rightarrow>
               (t\<lparr>th_id := Some requestID,
                  th_pc := Transacting \<lparr>tx_frame = frame, tx_workload = workload, tx_phase = TxWrite\<rparr>\<rparr>, s')))"

definition transact_step ::
  "choice \<Rightarrow> thread \<Rightarrow> transaction \<Rightarrow> session \<Rightarrow> (pc \<times> session) option" where
  "transact_step ch t tx s =
     (case ch of
        Transact ws \<Rightarrow>
          map_option (\<lambda>(tx', s'). (Transacting tx', s')) (tx_step (the (th_id t)) ws tx s)
      | Advance \<Rightarrow>
          (case tx_phase tx of
             TxDone (Inl e) \<Rightarrow> Some (poison e s)
           | TxDone (Inr response) \<Rightarrow> Some (handle_response (th_call t) response s)
           | _ \<Rightarrow> None)
      | ContextDone \<Rightarrow>
          (case tx_phase tx of
             TxDone _ \<Rightarrow> None
           | _ \<Rightarrow>
               if th_cancelled t
               then Some (Reaping CloseInputAndKill (ss_state s = sessionOpen) (Failed ContextError) (Some tx),
                          markPoisoned ContextError s)
               else None))"

definition exit_step :: "choice \<Rightarrow> thread \<Rightarrow> session \<Rightarrow> (pc \<times> session) option" where
  "exit_step ch t s =
     (case ch of
        Advance \<Rightarrow> if ss_waitDone s then Some (AwaitingDiagnostics, closeOutput s) else None
      | ContextDone \<Rightarrow>
          if th_cancelled t then Some (Reaping CloseInputAndKill False (Failed ContextError) None, s) else None
      | Transact _ \<Rightarrow> None)"

definition diagnostics_step :: "session \<Rightarrow> (pc \<times> session) option" where
  "diagnostics_step s =
     (if ss_stderrDone s then
        Some (Releasing
                (case ss_waitErr s of
                   Some e \<Rightarrow> Failed (transportError ''exit after shutdown acknowledgement'' (ExitCause e) s)
                 | None \<Rightarrow> Stopped), s)
      else None)"

definition check_step :: "session \<Rightarrow> (pc \<times> session) option" where
  "check_step s =
     map_option (\<lambda>(e, s'). (case e of Some e \<Rightarrow> Releasing (Failed e) | None \<Rightarrow> Numbering, s')) (checkOpen s)"

definition drain_step ::
  "choice \<Rightarrow> thread \<Rightarrow> outcome \<Rightarrow> transaction \<Rightarrow> session \<Rightarrow> (pc \<times> session) option" where
  "drain_step ch t o' tx s =
     (case ch of
        Transact ws \<Rightarrow> map_option (\<lambda>(tx', s'). (Draining o' tx', s')) (tx_step (the (th_id t)) ws tx s)
      | _ \<Rightarrow> (case tx_phase tx of TxDone _ \<Rightarrow> Some (leave (th_call t) o', s) | _ \<Rightarrow> None))"

definition pc_step :: "choice \<Rightarrow> thread \<Rightarrow> session \<Rightarrow> (pc \<times> session) option" where
  "pc_step ch t s =
     (case th_pc t of
        Acquiring \<Rightarrow> acquire_step ch t s
      | Checking \<Rightarrow> check_step s
      | Numbering \<Rightarrow> None
      | Transacting tx \<Rightarrow> transact_step ch t tx s
      | ClosingAfterAck \<Rightarrow> Some (AwaitingExit, closeInput (s\<lparr>ss_state := sessionClosed\<rparr>))
      | AwaitingExit \<Rightarrow> exit_step ch t s
      | AwaitingDiagnostics \<Rightarrow> diagnostics_step s
      | MarkingClosed \<Rightarrow> Some (Reaping CloseInputAndKill False Stopped None, s\<lparr>ss_state := sessionClosed\<rparr>)
      | Reaping stage won o' tx \<Rightarrow>
          (case (ch, tx) of
             (Transact ws, Some tx) \<Rightarrow>
               map_option (\<lambda>(tx', s'). (Reaping stage won o' (Some tx'), s')) (tx_step (the (th_id t)) ws tx s)
           | _ \<Rightarrow> reap_step (th_call t) stage won o' tx s)
      | Draining o' tx \<Rightarrow> drain_step ch t o' tx s
      | Releasing o' \<Rightarrow> Some (Returned o', release s)
      | Returned _ \<Rightarrow> None)"

definition thread_step :: "choice \<Rightarrow> thread \<Rightarrow> session \<Rightarrow> (thread \<times> session) option" where
  "thread_step ch t s =
     (if th_pc t = Numbering then Some (number_step t s)
      else map_option (\<lambda>(pc, s'). (t\<lparr>th_pc := pc\<rparr>, s')) (pc_step ch t s))"

section \<open>The environment and the world\<close>

text \<open>The child writes and exits, its pipes end, and the background goroutines notice; bytes that
  were still in a pipe when its read end was closed are lost.\<close>

datatype environment =
    ChildOutput bytes
  | ChildOutputEnd read_error
  | PipeLost nat
  | ChildDiagnostics bytes
  | DiagnosticsEnd
  | ChildExit "bytes option"

definition env_step :: "environment \<Rightarrow> session \<Rightarrow> session option" where
  "env_step ev s =
     (case ev of
        ChildOutput d \<Rightarrow>
          if ss_stdoutEnd s = None then Some (s\<lparr>ss_stdout := ss_stdout s @ d\<rparr>) else None
      | ChildOutputEnd e \<Rightarrow> if ss_stdoutEnd s = None then Some (s\<lparr>ss_stdoutEnd := Some e\<rparr>) else None
      | PipeLost n \<Rightarrow> if ss_closeOutputOnce s then Some (s\<lparr>ss_stdout := take n (ss_stdout s)\<rparr>) else None
      | ChildDiagnostics d \<Rightarrow>
          if ss_stderrDone s then None else Some (s\<lparr>ss_stderr := boundedTail_Write d (ss_stderr s)\<rparr>)
      | DiagnosticsEnd \<Rightarrow> Some (s\<lparr>ss_stderrDone := True\<rparr>)
      | ChildExit e \<Rightarrow>
          if ss_waitDone s then None else Some (s\<lparr>ss_waitDone := True, ss_waitErr := e\<rparr>))"

record world =
  w_session :: session
  w_threads :: "nat \<Rightarrow> thread option"

definition start_world :: world where
  "start_world = \<lparr>w_session = new_session, w_threads = (\<lambda>_. None)\<rparr>"

datatype event = Begin nat call | Cancel nat | Run nat choice | Environment environment

definition world_step :: "event \<Rightarrow> world \<Rightarrow> world option" where
  "world_step ev w =
     (case ev of
        Begin i c \<Rightarrow>
          if w_threads w i = None then Some (w\<lparr>w_threads := (w_threads w)(i \<mapsto> new_thread c)\<rparr>) else None
      | Cancel i \<Rightarrow>
          map_option (\<lambda>t. w\<lparr>w_threads := (w_threads w)(i \<mapsto> t\<lparr>th_cancelled := True\<rparr>)\<rparr>) (w_threads w i)
      | Run i ch \<Rightarrow>
          (case w_threads w i of
             None \<Rightarrow> None
           | Some t \<Rightarrow>
               map_option (\<lambda>(t', s'). \<lparr>w_session = s', w_threads = (w_threads w)(i \<mapsto> t')\<rparr>)
                 (thread_step ch t (w_session w)))
      | Environment e \<Rightarrow> map_option (\<lambda>s. w\<lparr>w_session := s\<rparr>) (env_step e (w_session w)))"

text \<open>The worlds that some interleaving reaches from the session \<open>Start\<close> returns.\<close>

inductive reachable :: "world \<Rightarrow> bool" where
  reachable_start: "reachable start_world"
| reachable_step: "reachable w \<Longrightarrow> world_step ev w = Some w' \<Longrightarrow> reachable w'"

fun run :: "event list \<Rightarrow> world \<Rightarrow> world option" where
  "run [] w = Some w"
| "run (ev # evs) w = (case world_step ev w of None \<Rightarrow> None | Some w' \<Rightarrow> run evs w')"

lemma run_reachable: "reachable w \<Longrightarrow> run evs w = Some w' \<Longrightarrow> reachable w'"
  by (induction evs arbitrary: w) (auto split: option.splits intro: reachable_step)

lemmas run_from_start = run_reachable [OF reachable_start]

section \<open>Launching the child\<close>

text \<open>The six pipe ends of \<open>Start\<close>, the process, and what the operating system answers: for each
  call an optional error. A close releases its descriptor even when it reports an error.\<close>

datatype pipe_end =
    childInput | parentInput | parentOutput | childOutput | parentDiagnostics | childDiagnostics

record launch =
  open_ends :: "pipe_end list"
  proc_started :: bool
  proc_killed :: bool
  proc_waited :: bool

record os_answers =
  ctx_before :: bool
  ctx_after :: bool
  pipe_input :: "bytes option"
  pipe_output :: "bytes option"
  pipe_diagnostics :: "bytes option"
  start_process :: "bytes option"
  close_end :: "pipe_end \<Rightarrow> bytes option"

datatype start_error =
    StartContext
  | EmptyEnginePath
  | CreateInputPipe bytes
  | CreateOutputPipe bytes
  | CreateDiagnosticsPipe bytes
  | StartWorker bytes
  | ReleaseChildHandles "bytes list"

definition closeFiles :: "os_answers \<Rightarrow> pipe_end list \<Rightarrow> launch \<Rightarrow> bytes list \<times> launch" where
  "closeFiles answers files l =
     (concat (map (\<lambda>f. case close_end answers f of None \<Rightarrow> [] | Some e \<Rightarrow> [e]) files),
      l\<lparr>open_ends := filter (\<lambda>f. f \<notin> set files) (open_ends l)\<rparr>)"

definition opened :: "pipe_end list \<Rightarrow> launch \<Rightarrow> launch" where
  "opened files l = l\<lparr>open_ends := open_ends l @ files\<rparr>"

text \<open>The combined effect of \<open>killAndReap\<close> right after the launch on the process and the pipe ends: the
  diagnostics goroutine closes its end before it closes \<open>stderrDone\<close>.\<close>

definition reap_launch :: "launch \<Rightarrow> launch" where
  "reap_launch l =
     l\<lparr>proc_killed := True, proc_waited := True,
       open_ends := filter (\<lambda>f. f \<notin> {parentInput, parentOutput, parentDiagnostics}) (open_ends l)\<rparr>"

definition Start :: "os_answers \<Rightarrow> bytes \<Rightarrow> launch \<Rightarrow> (start_error + session) \<times> launch" where
  "Start answers enginePath l0 =
     (if ctx_before answers then (Inl StartContext, l0)
      else if enginePath = [] then (Inl EmptyEnginePath, l0)
      else
        (case pipe_input answers of
           Some e \<Rightarrow> (Inl (CreateInputPipe e), l0)
         | None \<Rightarrow>
      (let l1 = opened [childInput, parentInput] l0 in
        (case pipe_output answers of
           Some e \<Rightarrow> (Inl (CreateOutputPipe e), snd (closeFiles answers [childInput, parentInput] l1))
         | None \<Rightarrow>
      (let l2 = opened [parentOutput, childOutput] l1 in
        (case pipe_diagnostics answers of
           Some e \<Rightarrow>
             (Inl (CreateDiagnosticsPipe e),
              snd (closeFiles answers [childInput, parentInput, parentOutput, childOutput] l2))
         | None \<Rightarrow>
      (let l3 = opened [parentDiagnostics, childDiagnostics] l2 in
        (case start_process answers of
           Some e \<Rightarrow>
             (Inl (StartWorker e),
              snd (closeFiles answers [childInput, parentInput, parentOutput, childOutput,
                     parentDiagnostics, childDiagnostics] l3))
         | None \<Rightarrow>
      (let l4 = l3\<lparr>proc_started := True\<rparr>;
           (errs, l5) = closeFiles answers [childInput, childOutput, childDiagnostics] l4 in
       if errs \<noteq> [] then
         (Inl (ReleaseChildHandles errs),
          (snd (closeFiles answers [parentInput, parentOutput, parentDiagnostics]
                  (l5\<lparr>proc_killed := True\<rparr>)))\<lparr>proc_waited := True\<rparr>)
       else if ctx_after answers then (Inl StartContext, reap_launch l5)
       else (Inr new_session, l5))))))))))"

section \<open>What one step can do\<close>

lemmas step_defs =
  thread_step_def pc_step_def acquire_step_def check_step_def checkOpen_def number_step_def nextRequestID_def
  transact_step_def tx_step_def handle_response_def poison_def markPoisoned_def exit_step_def
  diagnostics_step_def reap_step_def after_reap_def drain_step_def leave_def release_def closeInput_def
  closeOutput_def kill_def Let_def

lemmas step_splits =
  pc.splits choice.splits option.splits if_splits sum.splits prod.splits tx_phase.splits reap_stage.splits
  outcome.splits call.splits ResponseKind.splits sessionState.splits

text \<open>Flags are never reset, a session that is not open never opens again, a closed one stays
  closed, and the counter only moves forward, stopping at zero.\<close>

definition later :: "session \<Rightarrow> session \<Rightarrow> bool" where
  "later s s' \<longleftrightarrow>
     (ss_closeInputOnce s \<longrightarrow> ss_closeInputOnce s') \<and> (ss_closeOutputOnce s \<longrightarrow> ss_closeOutputOnce s') \<and>
     (ss_killOnce s \<longrightarrow> ss_killOnce s') \<and> (ss_waitDone s \<longrightarrow> ss_waitDone s' \<and> ss_waitErr s' = ss_waitErr s) \<and>
     (ss_stderrDone s \<longrightarrow> ss_stderrDone s') \<and> (ss_stdoutEnd s \<noteq> None \<longrightarrow> ss_stdoutEnd s' \<noteq> None) \<and>
     (ss_state s \<noteq> sessionOpen \<longrightarrow> ss_state s' \<noteq> sessionOpen) \<and>
     (ss_state s = sessionClosed \<longrightarrow> ss_state s' = sessionClosed) \<and>
     (ss_sequence s' = ss_sequence s \<or> ss_sequence s \<noteq> 0 \<and> ss_sequence s' = ss_sequence s + 1)"

lemma later_refl [simp]: "later s s"
  by (simp add: later_def)

lemma later_closeOutput: "later s (closeOutput s)"
  by (auto simp: later_def closeOutput_def split: option.splits)

lemma tx_step_session:
  "tx_step requestID ws tx s = Some (tx', s') \<Longrightarrow> \<exists>d. s' = s\<lparr>ss_stdout := d\<rparr>"
  by (auto simp: tx_step_def split: step_splits intro: exI [of _ "ss_stdout s"])

lemma checkOpen_cases:
  assumes "checkOpen s = Some (e, s')"
  obtains "e = None" "s' = s" "ss_state s = sessionOpen"
  | x where "e = Some x" "s' = s" "ss_state s \<noteq> sessionOpen"
      "x = ErrSessionClosed \<or> x = ErrSessionPoisoned (ss_cause s)"
  | c where "e = Some (ErrSessionPoisoned (Some c))"
      "c = transportError ''exited before request'' (exit_cause s) (closeOutput s)"
      "s' = (closeOutput s)\<lparr>ss_state := sessionPoisoned, ss_cause := Some c\<rparr>"
      "ss_state s = sessionOpen" "ss_waitDone s" "ss_stderrDone s"
  using assms by (cases "ss_state s") (auto simp: checkOpen_def Let_def split: if_splits)

lemma checkOpen_later: "checkOpen s = Some (e, s') \<Longrightarrow> later s s'"
  using later_closeOutput [of s] by (elim checkOpen_cases) (simp_all add: later_def)

lemma checkOpen_token: "checkOpen s = Some (e, s') \<Longrightarrow> ss_token s' = ss_token s"
  by (elim checkOpen_cases) (simp_all add: closeOutput_def)

lemma pc_step_later: "pc_step ch t s = Some (pc, s') \<Longrightarrow> later s s'"
proof (cases "th_pc t")
  case (Transacting tx)
  then show "pc_step ch t s = Some (pc, s') \<Longrightarrow> later s s'"
    by (auto simp: pc_step_def transact_step_def handle_response_def poison_def markPoisoned_def later_def
        dest!: tx_step_session split: step_splits)
next
  case (Reaping stage won o' tx)
  then show "pc_step ch t s = Some (pc, s') \<Longrightarrow> later s s'"
    by (auto simp: pc_step_def reap_step_def after_reap_def later_closeOutput closeInput_def kill_def
        dest!: tx_step_session split: step_splits) (auto simp: later_def)
next
  case (Draining o' tx)
  then show "pc_step ch t s = Some (pc, s') \<Longrightarrow> later s s'"
    by (auto simp: pc_step_def drain_step_def later_def dest!: tx_step_session split: step_splits)
next
  case Checking
  then show "pc_step ch t s = Some (pc, s') \<Longrightarrow> later s s'"
    by (auto simp: pc_step_def check_step_def dest: checkOpen_later)
next
  case AwaitingExit
  then show "pc_step ch t s = Some (pc, s') \<Longrightarrow> later s s'"
    by (auto simp: pc_step_def exit_step_def later_closeOutput split: step_splits)
qed (auto simp: pc_step_def acquire_step_def diagnostics_step_def closeInput_def release_def later_def
  split: step_splits)

lemma number_step_later: "number_step t s = (t', s') \<Longrightarrow> later s s'"
  by (auto simp: number_step_def nextRequestID_def later_def split: step_splits)

lemma thread_step_later: "thread_step ch t s = Some (t', s') \<Longrightarrow> later s s'"
  by (auto simp: thread_step_def dest: pc_step_later number_step_later split: if_splits)

lemma env_step_later: "env_step ev s = Some s' \<Longrightarrow> later s s'"
  by (auto simp: env_step_def later_def split: environment.splits if_splits)

end
