(* ===== verification/WorkerInterface.thy ===== *)
theory WorkerInterface
  imports Session
begin

text \<open>
  The interface \<open>WorkerSession\<close> through which \<open>internal/app\<close> uses a worker: what executing a workload
  promises about a result. The contract is proved of the session model for every schedule and is
  all the \<open>run\<close> command relies on.
\<close>

locale worker_session =
  fixes execute :: "bytes \<Rightarrow> session_error + ResultV1"
  assumes execute_consistent:
    "execute source = Inr result \<Longrightarrow>
       \<exists>projection. ProjectWorkload source = Inr projection \<and> consistent_result projection result"
begin

lemma execute_projection:
  "execute source = Inr result \<Longrightarrow> ProjectWorkload source = Inr projection \<Longrightarrow>
     consistent_result projection result"
  using execute_consistent by fastforce

end

text \<open>\<open>Execute\<close> on a fresh session under a schedule: what the call has returned when the scheduled
  steps of callers, child and contexts are over. A schedule that does not complete the call, or is
  not one the session can take, yields no result.\<close>

definition execute_under :: "event list \<Rightarrow> bytes \<Rightarrow> session_error + ResultV1" where
  "execute_under schedule source =
     (case run (Begin 0 (Execute source) # schedule) start_world of
        None \<Rightarrow> Inl ContextError
      | Some w \<Rightarrow>
          (case w_threads w 0 of
             None \<Rightarrow> Inl ContextError
           | Some t \<Rightarrow>
               (case th_pc t of
                  Returned (Completed result) \<Rightarrow> Inr result
                | Returned (Failed e) \<Rightarrow> Inl e
                | _ \<Rightarrow> Inl ContextError)))"

end
