(* ===== verification/SessionSafety.thy ===== *)
theory SessionSafety
  imports WorkerInterface
begin

text \<open>
  What every interleaving of callers, child and contexts preserves in the session of
  \<open>internal/worker/session.go\<close>: one request in flight, request identifiers never reused, answers
  attributed to the request they answer, a session that never reopens and a child that is dead
  and reaped whenever an exchange broke down.
\<close>

section \<open>Invariants of every interleaving\<close>

text \<open>A rely/guarantee rule. A family of threads keeps a per-thread assertion if each thread's own
  steps establish it, it survives any later session, and it does not depend on cancellation.\<close>

locale thread_assertion =
  fixes A :: "session \<Rightarrow> thread \<Rightarrow> bool"
  assumes begins: "A s (new_thread c)"
    and cancels: "A s t \<Longrightarrow> A s (t\<lparr>th_cancelled := True\<rparr>)"
    and survives: "A s t \<Longrightarrow> later s s' \<Longrightarrow> A s' t"
    and steps: "A s t \<Longrightarrow> thread_step ch t s = Some (t', s') \<Longrightarrow> A s' t'"
begin

lemma all_threads:
  "reachable w \<Longrightarrow> w_threads w i = Some t \<Longrightarrow> A (w_session w) t"
proof (induction arbitrary: i t rule: reachable.induct)
  case reachable_start
  then show ?case by (simp add: start_world_def)
next
  case (reachable_step w ev w')
  show ?case
  proof (cases ev)
    case (Begin j c)
    with reachable_step show ?thesis by (auto simp: world_step_def begins split: if_splits)
  next
    case (Cancel j)
    with reachable_step show ?thesis by (auto simp: world_step_def cancels split: if_splits)
  next
    case (Run j ch)
    with reachable_step.hyps obtain u u' s' where
      "w_threads w j = Some u" "thread_step ch u (w_session w) = Some (u', s')"
      "w' = \<lparr>w_session = s', w_threads = (w_threads w)(j \<mapsto> u')\<rparr>"
      by (auto simp: world_step_def split: option.splits)
    with reachable_step.prems show ?thesis
      by (cases "i = j")
        (auto dest: reachable_step.IH thread_step_later intro: steps survives)
  next
    case (Environment e)
    with reachable_step.hyps obtain s' where "env_step e (w_session w) = Some s'" "w' = w\<lparr>w_session := s'\<rparr>"
      by (auto simp: world_step_def)
    with reachable_step.prems reachable_step.IH [of i t] show ?thesis
      by (auto dest: env_step_later intro: survives)
  qed
qed

end

subsection \<open>The life of a call\<close>

definition reaped :: "session \<Rightarrow> bool" where
  "reaped s \<longleftrightarrow> ss_closeInputOnce s \<and> ss_killOnce s \<and> ss_waitDone s \<and> ss_closeOutputOnce s \<and> ss_stderrDone s"

text \<open>Failures after which the code must not leave the child running: a request is on the wire and
  its answer did not come back intact.\<close>

definition fatal :: "thread \<Rightarrow> session_error \<Rightarrow> bool" where
  "fatal t e =
     (case e of
        TransportError operation _ _ \<Rightarrow> operation = ''write request'' \<or> operation = ''read response''
      | ProtocolFailure _ \<Rightarrow> True
      | UnexpectedResponse _ \<Rightarrow> True
      | ContextError \<Rightarrow> th_id t \<noteq> None
      | _ \<Rightarrow> False)"

text \<open>The failures that kill nothing: the request was never sent, the child answered with a structured
  error, or it acknowledged a shutdown and then exited with a failure of its own.\<close>

definition stopped :: "session \<Rightarrow> bool" where
  "stopped s \<longleftrightarrow> ss_state s = sessionClosed \<and> ss_closeInputOnce s \<and> ss_waitDone s \<and>
     ss_closeOutputOnce s \<and> ss_stderrDone s"

definition spared :: "session \<Rightarrow> session_error \<Rightarrow> bool" where
  "spared s e =
     (case e of
        RequestRejected _ \<Rightarrow> True
      | RemoteFailure _ \<Rightarrow> True
      | TransportError operation c _ \<Rightarrow>
          operation = ''exit after shutdown acknowledgement'' \<and> stopped s \<and>
          (\<exists>x. c = ExitCause x \<and> ss_waitErr s = Some x)
      | _ \<Rightarrow> False)"

definition outcome_ok :: "session \<Rightarrow> thread \<Rightarrow> outcome \<Rightarrow> bool" where
  "outcome_ok s t o' =
     (case o' of
        Failed e \<Rightarrow>
          (fatal t e \<longrightarrow> reaped s \<and> ss_state s \<noteq> sessionOpen) \<and>
          (th_id t \<noteq> None \<longrightarrow> fatal t e \<or> spared s e)
      | Stopped \<Rightarrow>
          ss_state s = sessionClosed \<and> ss_closeInputOnce s \<and> ss_waitDone s \<and> ss_closeOutputOnce s \<and>
          ss_stderrDone s \<and> (th_call t = Close \<longrightarrow> ss_killOnce s) \<and> (th_call t \<noteq> Close \<longrightarrow> ss_waitErr s = None)
      | Completed _ \<Rightarrow> th_call t \<noteq> Close)"

definition life :: "session \<Rightarrow> thread \<Rightarrow> bool" where
  "life s t =
     (case th_pc t of
        Acquiring \<Rightarrow> th_call t \<noteq> Close \<and> th_id t = None
      | Checking \<Rightarrow> th_call t \<noteq> Close \<and> th_id t = None
      | Numbering \<Rightarrow> th_call t \<noteq> Close \<and> th_id t = None
      | Transacting tx \<Rightarrow>
          th_call t \<noteq> Close \<and> th_id t \<noteq> None \<and> (\<forall>e. tx_phase tx = TxDone (Inl e) \<longrightarrow> fatal t e)
      | ClosingAfterAck \<Rightarrow> th_call t \<noteq> Close \<and> th_id t \<noteq> None
      | AwaitingExit \<Rightarrow> th_call t \<noteq> Close \<and> th_id t \<noteq> None \<and> ss_state s = sessionClosed \<and> ss_closeInputOnce s
      | AwaitingDiagnostics \<Rightarrow>
          th_call t \<noteq> Close \<and> ss_state s = sessionClosed \<and> ss_closeInputOnce s \<and> ss_waitDone s \<and>
          ss_closeOutputOnce s
      | MarkingClosed \<Rightarrow> th_call t = Close
      | Reaping stage won o' tx \<Rightarrow>
          ss_state s \<noteq> sessionOpen \<and> (th_call t = Close \<longrightarrow> ss_state s = sessionClosed) \<and>
          (case o' of Stopped \<Rightarrow> th_call t = Close \<and> tx = None | Failed e \<Rightarrow> th_call t \<noteq> Close \<and> fatal t e | _ \<Rightarrow> False) \<and>
          (stage \<noteq> CloseInputAndKill \<longrightarrow> ss_closeInputOnce s \<and> ss_killOnce s) \<and>
          (stage = AwaitStderr \<longrightarrow> ss_waitDone s \<and> ss_closeOutputOnce s)
      | Draining o' tx \<Rightarrow>
          th_call t \<noteq> Close \<and> (\<exists>e. o' = Failed e \<and> fatal t e) \<and> reaped s \<and> ss_state s \<noteq> sessionOpen
      | Releasing o' \<Rightarrow> th_call t \<noteq> Close \<and> outcome_ok s t o'
      | Returned o' \<Rightarrow> outcome_ok s t o')"

lemma later_mono:
  assumes "later s s'"
  shows "ss_closeInputOnce s \<Longrightarrow> ss_closeInputOnce s'"
    and "ss_closeOutputOnce s \<Longrightarrow> ss_closeOutputOnce s'"
    and "ss_killOnce s \<Longrightarrow> ss_killOnce s'"
    and "ss_waitDone s \<Longrightarrow> ss_waitDone s'"
    and "ss_waitDone s \<Longrightarrow> ss_waitErr s = e \<Longrightarrow> ss_waitErr s' = e"
    and "ss_stderrDone s \<Longrightarrow> ss_stderrDone s'"
    and "ss_state s = sessionClosed \<Longrightarrow> ss_state s' = sessionClosed"
    and "ss_state s' = sessionOpen \<Longrightarrow> ss_state s = sessionOpen"
    and "ss_stdoutEnd s \<noteq> None \<Longrightarrow> ss_stdoutEnd s' \<noteq> None"
    and "reaped s \<Longrightarrow> reaped s'"
  using assms by (simp_all add: later_def reaped_def)

lemma fatal_simps [simp]:
  "fatal t ContextError \<longleftrightarrow> th_id t \<noteq> None"
  "fatal t (ProtocolFailure p)"
  "fatal t (UnexpectedResponse k)"
  "\<not> fatal t (RemoteFailure r)"
  "\<not> fatal t (RequestRejected p)"
  "\<not> fatal t ErrSessionClosed"
  "\<not> fatal t (ErrSessionPoisoned c')"
  "\<not> fatal t ErrRequestIDExhausted"
  "fatal t (TransportError operation c d) \<longleftrightarrow> operation = ''write request'' \<or> operation = ''read response''"
  by (simp_all add: fatal_def)

lemma spared_simps [simp]: "spared s (RemoteFailure r)" "spared s (RequestRejected p)"
  by (simp_all add: spared_def)

lemma tx_step_fatal:
  "tx_step r ws tx s = Some (tx', s') \<Longrightarrow> tx_phase tx' = TxDone (Inl e) \<Longrightarrow> fatal t e"
  by (auto simp: tx_step_def transportError_def wrapE_def
      split: tx_phase.splits option.splits prod.splits sum.splits if_splits)

lemma spared_later: "spared s e \<Longrightarrow> later s s' \<Longrightarrow> spared s' e"
  by (auto simp: spared_def stopped_def dest: later_mono split: session_error.splits)

lemma outcome_ok_later: "outcome_ok s t o' \<Longrightarrow> later s s' \<Longrightarrow> outcome_ok s' t o'"
  by (cases o') (auto simp: outcome_ok_def dest: later_mono spared_later)

lemma fatal_update [simp]:
  "fatal (t\<lparr>th_pc := p\<rparr>) e = fatal t e"
  "fatal (t\<lparr>th_cancelled := b\<rparr>) e = fatal t e"
  by (cases e; simp add: fatal_def)+

lemma outcome_ok_update [simp]:
  "outcome_ok s (t\<lparr>th_pc := p\<rparr>) o' = outcome_ok s t o'"
  "outcome_ok s (t\<lparr>th_cancelled := b\<rparr>) o' = outcome_ok s t o'"
  by (cases o'; simp add: outcome_ok_def)+

lemma later_release: "later s (release s)"
  by (simp add: later_def release_def)

lemma life_later:
  assumes l: "life s t" and le: "later s s'"
  shows "life s' t"
proof (cases "th_pc t")
  case (Reaping stage won o' tx)
  with l show ?thesis by (auto simp: life_def dest: later_mono [OF le] split: outcome.splits)
qed (use l in \<open>auto simp: life_def dest: later_mono [OF le] outcome_ok_later [OF _ le]\<close>)

lemma fatal_refresh [simp]: "fatal t (refresh tail e) = fatal t e"
  by (cases e) (simp_all add: refresh_def fatal_def)

lemma later_stdout [simp]: "later s (s\<lparr>ss_stdout := d\<rparr>)"
  by (simp add: later_def)

lemma reaped_stdout [simp]: "reaped (s\<lparr>ss_stdout := d\<rparr>) = reaped s"
  by (simp add: reaped_def)

lemma life_pc_step:
  assumes l: "life s t" and n: "th_pc t \<noteq> Numbering" and st: "pc_step ch t s = Some (pc, s')"
  shows "life s' (t\<lparr>th_pc := pc\<rparr>)"
proof (cases "th_pc t")
  case Acquiring
  with l st show ?thesis
    by (auto simp: life_def pc_step_def acquire_step_def outcome_ok_def split: choice.splits if_splits)
next
  case Checking
  with l st show ?thesis
    by (auto simp: life_def pc_step_def check_step_def outcome_ok_def elim!: checkOpen_cases)
next
  case (Transacting tx)
  with l st show ?thesis
    by (auto simp: life_def pc_step_def transact_step_def handle_response_def poison_def markPoisoned_def
        outcome_ok_def dest: tx_step_fatal split: choice.splits tx_phase.splits sum.splits call.splits
        ResponseKind.splits if_splits)
next
  case ClosingAfterAck
  with l st show ?thesis by (auto simp: life_def pc_step_def closeInput_def)
next
  case AwaitingExit
  with l st show ?thesis
    by (auto simp: life_def pc_step_def exit_step_def closeOutput_def split: choice.splits if_splits)
next
  case AwaitingDiagnostics
  with l st show ?thesis
    by (auto simp: life_def pc_step_def diagnostics_step_def outcome_ok_def transportError_def spared_def stopped_def
        split: option.splits if_splits)
next
  case MarkingClosed
  with l st show ?thesis by (auto simp: life_def pc_step_def)
next
  case (Draining o' tx)
  with l st show ?thesis
    by (auto simp: life_def pc_step_def drain_step_def leave_def outcome_ok_def
        dest!: tx_step_session split: choice.splits tx_phase.splits)
next
  case (Releasing o')
  with l st show ?thesis
    by (auto simp: life_def pc_step_def intro: outcome_ok_later [OF _ later_release])
next
  case (Reaping stage won o' tx)
  show ?thesis
  proof (cases "\<exists>ws x. ch = Transact ws \<and> tx = Some x")
    case True
    with Reaping st l show ?thesis
      by (auto simp: life_def pc_step_def dest!: tx_step_session split: outcome.splits)
  next
    case False
    with Reaping st have r: "reap_step (th_call t) stage won o' tx s = Some (pc, s')"
      by (auto simp: pc_step_def split: choice.splits option.splits)
    show ?thesis
    proof (cases stage)
      case AwaitStderr
      with r Reaping l show ?thesis
        by (cases o'; cases tx)
          (auto simp: life_def reap_step_def after_reap_def leave_def outcome_ok_def reaped_def split: if_splits)
    qed (use r Reaping l in \<open>auto simp: life_def reap_step_def closeInput_def kill_def closeOutput_def
      split: outcome.splits if_splits\<close>)
  qed
qed (use n st in \<open>simp_all add: pc_step_def\<close>)

lemma life_number_step: "life s t \<Longrightarrow> th_pc t = Numbering \<Longrightarrow> life (snd (number_step t s)) (fst (number_step t s))"
  by (auto simp: life_def number_step_def nextRequestID_def outcome_ok_def split: sum.splits prod.splits)

lemma life_thread_step: "life s t \<Longrightarrow> thread_step ch t s = Some (t', s') \<Longrightarrow> life s' t'"
  using life_pc_step life_number_step [of s t] by (auto simp: thread_step_def split: if_splits)

interpretation life: thread_assertion life
proof
  show "life s (new_thread c)" for s c by (simp add: life_def new_thread_def initial_pc_def)
  show "life s (t\<lparr>th_cancelled := True\<rparr>)" if "life s t" for s t
    using that by (cases "th_pc t") (auto simp: life_def split: outcome.splits)
qed (auto intro: life_later life_thread_step)

subsection \<open>Answers belong to their requests\<close>

definition answers :: "call \<Rightarrow> bytes \<Rightarrow> Response \<Rightarrow> bool" where
  "answers c requestID response \<longleftrightarrow>
     (\<exists>frame workload payload. encode_request c requestID = Inr (frame, workload) \<and>
        DecodeResponse payload requestID workload = Inr response)"

text \<open>The errors a session is poisoned for. A structured remote error is not among them.\<close>

definition poisoning :: "session_error \<Rightarrow> bool" where
  "poisoning e \<longleftrightarrow>
     (case e of ContextError \<Rightarrow> True | TransportError _ _ _ \<Rightarrow> True | ProtocolFailure _ \<Rightarrow> True
      | UnexpectedResponse _ \<Rightarrow> True | _ \<Rightarrow> False)"

definition tx_ok :: "thread \<Rightarrow> transaction \<Rightarrow> bool" where
  "tx_ok t tx \<longleftrightarrow>
     (case th_id t of
        None \<Rightarrow> False
      | Some requestID \<Rightarrow>
          encode_request (th_call t) requestID = Inr (tx_frame tx, tx_workload tx) \<and>
          (case tx_phase tx of
             TxDone (Inr response) \<Rightarrow>
               \<exists>payload. DecodeResponse payload requestID (tx_workload tx) = Inr response
           | TxDone (Inl e) \<Rightarrow> poisoning e
           | _ \<Rightarrow> True))"

definition remote_or_result :: "thread \<Rightarrow> outcome \<Rightarrow> bool" where
  "remote_or_result t o' =
     (case o' of
        Completed r \<Rightarrow>
          \<exists>workload requestID response. th_call t = Execute workload \<and> th_id t = Some requestID \<and>
            answers (th_call t) requestID response \<and>
            resp_Kind response = ResponseCompleted \<and> resp_Result response = r
      | Failed (RemoteFailure e) \<Rightarrow>
          \<exists>workload requestID response. th_call t = Execute workload \<and> th_id t = Some requestID \<and>
            answers (th_call t) requestID response \<and>
            resp_Kind response = ResponseError \<and> e = the (resp_RemoteError response)
      | _ \<Rightarrow> True)"

definition id_ok :: "u64 \<Rightarrow> bytes option \<Rightarrow> bool" where
  "id_ok sequence r =
     (case r of None \<Rightarrow> True
      | Some requestID \<Rightarrow> \<exists>n. requestID = FormatRequestID n \<and> n \<noteq> 0 \<and> (n < sequence \<or> sequence = 0))"

text \<open>The program counters that carry an answer to the caller.\<close>

definition pc_ok :: "thread \<Rightarrow> pc \<Rightarrow> bool" where
  "pc_ok t p =
     (case p of
        Transacting tx \<Rightarrow> tx_ok t tx
      | Reaping _ _ o' tx \<Rightarrow> remote_or_result t o' \<and> (case tx of None \<Rightarrow> True | Some tx \<Rightarrow> tx_ok t tx)
      | Draining o' tx \<Rightarrow> remote_or_result t o' \<and> tx_ok t tx
      | Releasing o' \<Rightarrow> remote_or_result t o'
      | Returned o' \<Rightarrow> remote_or_result t o'
      | _ \<Rightarrow> True)"

definition attributed :: "session \<Rightarrow> thread \<Rightarrow> bool" where
  "attributed s t =
     (id_ok (ss_sequence s) (th_id t) \<and>
      pc_ok t (th_pc t))"

lemma tx_step_ok: "tx_ok t tx \<Longrightarrow> tx_step (the (th_id t)) ws tx s = Some (tx', s') \<Longrightarrow> tx_ok t tx'"
  by (cases "th_id t")
    (auto simp: tx_ok_def tx_step_def poisoning_def transportError_def wrapE_def
      split: tx_phase.splits option.splits if_splits prod.splits sum.splits)

lemma tx_ok_update [simp]:
  "tx_ok (t\<lparr>th_pc := p\<rparr>) tx = tx_ok t tx" "tx_ok (t\<lparr>th_cancelled := b\<rparr>) tx = tx_ok t tx"
  by (cases "th_id t"; simp add: tx_ok_def)+

lemma remote_or_result_update [simp]:
  "remote_or_result (t\<lparr>th_pc := p\<rparr>) o' = remote_or_result t o'"
  "remote_or_result (t\<lparr>th_cancelled := b\<rparr>) o' = remote_or_result t o'"
  by (cases o'; auto simp: remote_or_result_def split: session_error.split)+

lemma remote_or_result_simps [simp]:
  "remote_or_result t Stopped"
  "remote_or_result t (Failed (refresh d e)) = remote_or_result t (Failed e)"
  "\<forall>r. e \<noteq> RemoteFailure r \<Longrightarrow> remote_or_result t (Failed e)"
  by (cases e; simp add: remote_or_result_def refresh_def)+

lemma poisoning_not_remote [simp]: "poisoning e \<Longrightarrow> remote_or_result t (Failed e)"
  by (cases e) (simp_all add: poisoning_def remote_or_result_def)

lemma tx_ok_error: "tx_ok t tx \<Longrightarrow> tx_phase tx = TxDone (Inl e) \<Longrightarrow> poisoning e"
  by (simp add: tx_ok_def split: option.splits)

lemma tx_ok_answers:
  "tx_ok t tx \<Longrightarrow> tx_phase tx = TxDone (Inr r) \<Longrightarrow>
     \<exists>requestID. th_id t = Some requestID \<and> answers (th_call t) requestID r"
  unfolding answers_def by (cases "th_id t") (auto simp: tx_ok_def)

lemma pc_ok_simps [simp]:
  "pc_ok (t\<lparr>th_pc := q\<rparr>) p = pc_ok t p"
  "pc_ok (t\<lparr>th_cancelled := b\<rparr>) p = pc_ok t p"
  "pc_ok t (Transacting tx) = tx_ok t tx"
  "pc_ok t (Reaping stage won o' None) = remote_or_result t o'"
  "pc_ok t (Reaping stage won o' (Some tx)) = (remote_or_result t o' \<and> tx_ok t tx)"
  by (cases p; simp add: pc_ok_def split: option.split)+

lemma handle_response_ok:
  assumes "tx_ok t tx" "tx_phase tx = TxDone (Inr r)" "handle_response (th_call t) r s = (p, s')"
  shows "pc_ok t p"
  using tx_ok_answers [OF assms(1,2)] assms(3)
  by (auto simp: pc_ok_def handle_response_def poison_def remote_or_result_def
      split: call.splits ResponseKind.splits if_splits)

lemma attributed_pc_step:
  assumes l: "attributed s t" and n: "th_pc t \<noteq> Numbering" and st: "pc_step ch t s = Some (pc, s')"
    and kept: "ss_sequence s' = ss_sequence s"
  shows "attributed s' (t\<lparr>th_pc := pc\<rparr>)"
proof (cases "th_pc t")
  case Acquiring
  with l st kept show ?thesis
    by (auto simp: attributed_def pc_ok_def pc_step_def acquire_step_def split: choice.splits if_splits)
next
  case Checking
  with l st kept show ?thesis
    by (auto simp: attributed_def pc_ok_def pc_step_def check_step_def elim!: checkOpen_cases)
next
  case (Transacting tx)
  show ?thesis
  proof (cases "\<exists>ws. ch = Transact ws")
    case True
    with Transacting l st kept show ?thesis
      by (auto simp: attributed_def pc_ok_def pc_step_def transact_step_def) (rule tx_step_ok)
  next
    case False
    with Transacting l st have "\<exists>e. tx_phase tx = TxDone (Inl e) \<and> poison e s = (pc, s') \<or>
        (\<exists>r. tx_phase tx = TxDone (Inr r) \<and> handle_response (th_call t) r s = (pc, s')) \<or>
        pc = Reaping CloseInputAndKill (ss_state s = sessionOpen) (Failed ContextError) (Some tx)"
      by (auto simp: pc_step_def transact_step_def split: choice.splits tx_phase.splits sum.splits if_splits)
    with Transacting l kept show ?thesis
      by (auto simp: attributed_def poison_def tx_ok_error [of t tx] dest: handle_response_ok [of t tx])
  qed
next
  case (Reaping stage won o' tx)
  show ?thesis
  proof (cases "\<exists>ws x. ch = Transact ws \<and> tx = Some x")
    case True
    with Reaping st l kept show ?thesis
      by (auto simp: attributed_def pc_step_def) (rule tx_step_ok)
  next
    case False
    with Reaping st have r: "reap_step (th_call t) stage won o' tx s = Some (pc, s')"
      by (auto simp: pc_step_def split: choice.splits option.splits)
    with Reaping l kept show ?thesis
      by (auto simp: attributed_def pc_ok_def reap_step_def after_reap_def leave_def
          split: reap_stage.splits if_splits option.splits outcome.splits)
  qed
next
  case (Draining o' tx)
  with l st kept show ?thesis
    by (auto simp: attributed_def pc_ok_def pc_step_def drain_step_def leave_def
        dest: tx_step_ok split: choice.splits tx_phase.splits)
qed (use l n st kept in \<open>auto simp: attributed_def pc_ok_def pc_step_def exit_step_def diagnostics_step_def
  transportError_def split: choice.splits option.splits if_splits\<close>)

lemma u64_next: "q + 1 = 0 \<or> q < q + (1 :: u64)"
proof (cases "unat q + 1 < 18446744073709551616")
  case True
  then show ?thesis using unat_add_u64 [of q 1] by (simp add: word_less_nat_alt)
next
  case False
  then have "unat q = 18446744073709551615" using unat_u64_less [of q] by linarith
  then show ?thesis by (simp add: u64_eq_iff unat_word_ariths)
qed

lemma id_ok_next: "id_ok q r \<Longrightarrow> q \<noteq> 0 \<Longrightarrow> id_ok (q + 1) r"
  using u64_next [of q] by (cases r) (auto simp: id_ok_def intro: order_less_trans)

lemma id_ok_fresh: "q \<noteq> 0 \<Longrightarrow> id_ok (q + 1) (Some (FormatRequestID q))"
  using u64_next [of q] by (auto simp: id_ok_def)

lemma attributed_number_step:
  assumes "attributed s t" "th_pc t = Numbering" "number_step t s = (t', s')"
  shows "attributed s' t'"
  using assms id_ok_fresh [of "ss_sequence s"] id_ok_next [of "ss_sequence s"]
  by (cases "ss_sequence s = 0")
    (auto simp: attributed_def pc_ok_def number_step_def nextRequestID_def tx_ok_def split: sum.splits prod.splits)

lemma pc_step_sequence: "pc_step ch t s = Some (pc, s') \<Longrightarrow> ss_sequence s' = ss_sequence s"
proof (cases "th_pc t")
  case (Transacting tx)
  then show "pc_step ch t s = Some (pc, s') \<Longrightarrow> ss_sequence s' = ss_sequence s"
    by (auto simp: pc_step_def transact_step_def handle_response_def poison_def markPoisoned_def
        dest!: tx_step_session split: step_splits)
next
  case (Reaping stage won o' tx)
  then show "pc_step ch t s = Some (pc, s') \<Longrightarrow> ss_sequence s' = ss_sequence s"
    by (auto simp: pc_step_def reap_step_def after_reap_def closeOutput_def closeInput_def kill_def
        dest!: tx_step_session split: step_splits)
next
  case (Draining o' tx)
  then show "pc_step ch t s = Some (pc, s') \<Longrightarrow> ss_sequence s' = ss_sequence s"
    by (auto simp: pc_step_def drain_step_def dest!: tx_step_session split: step_splits)
next
  case Checking
  then show "pc_step ch t s = Some (pc, s') \<Longrightarrow> ss_sequence s' = ss_sequence s"
    by (auto simp: pc_step_def check_step_def closeOutput_def elim!: checkOpen_cases)
qed (auto simp: pc_step_def acquire_step_def exit_step_def diagnostics_step_def closeInput_def release_def
  closeOutput_def split: step_splits)

lemma attributed_later: "attributed s t \<Longrightarrow> later s s' \<Longrightarrow> attributed s' t"
  using id_ok_next [of "ss_sequence s" "th_id t"] by (auto simp: attributed_def later_def)

definition tracked :: "session \<Rightarrow> thread \<Rightarrow> bool" where
  "tracked s t \<longleftrightarrow> life s t \<and> attributed s t"

lemma tracked_thread_step: "tracked s t \<Longrightarrow> thread_step ch t s = Some (t', s') \<Longrightarrow> tracked s' t'"
  using life_thread_step [of s t ch t' s']
  by (auto simp: tracked_def thread_step_def split: if_splits
      intro: attributed_number_step attributed_pc_step pc_step_sequence)

interpretation tracked: thread_assertion tracked
proof
  show "tracked s (new_thread c)" for s c
    by (simp add: tracked_def life_def attributed_def pc_ok_def new_thread_def initial_pc_def id_ok_def)
  show "tracked s (t\<lparr>th_cancelled := True\<rparr>)" if "tracked s t" for s t
    using that by (cases "th_pc t") (auto simp: tracked_def life_def attributed_def pc_ok_def split: outcome.splits option.splits)
  show "tracked s' t" if "tracked s t" "later s s'" for s t s'
    using that by (simp add: tracked_def life_later [of s] attributed_later [of s])
qed (rule tracked_thread_step)

subsection \<open>One request at a time\<close>

lemma reap_step_pc:
  assumes "reap_step c stage won o' tx s = Some (p, s')"
  shows "ss_token s' = ss_token s \<and>
    ((\<exists>x. p = leave c x) \<or> (\<exists>x y. p = Draining x y) \<or> (\<exists>a b c d. p = Reaping a b c d))"
  using assms
  by (auto simp: reap_step_def after_reap_def closeInput_def kill_def closeOutput_def
      split: reap_stage.splits option.splits outcome.splits if_splits)

lemma thread_step_token:
  assumes l: "life s t" and st: "thread_step ch t s = Some (t', s')"
  obtains (keeps) "ss_token s' = ss_token s" "holds_token t' = holds_token t"
  | (takes) "\<not> holds_token t" "holds_token t'" "ss_token s = Suc (ss_token s')"
  | (gives) "holds_token t" "\<not> holds_token t'" "ss_token s' = Suc (ss_token s)"
proof -
  have call: "th_call t' = th_call t"
    using st by (auto simp: thread_step_def number_step_def split: if_splits sum.splits prod.splits)
  show thesis
  proof (cases "th_pc t")
    case Acquiring
    with l st call show thesis
      by (auto simp: thread_step_def pc_step_def acquire_step_def holds_token_def life_def keeps
          split: choice.splits if_splits intro: takes keeps)
  next
    case (Releasing o')
    with l st call show thesis
      by (auto simp: thread_step_def pc_step_def release_def holds_token_def life_def intro: gives)
  next
    case Numbering
    with l st call show thesis
      by (intro keeps) (auto simp: thread_step_def number_step_def nextRequestID_def holds_token_def life_def
          split: sum.splits prod.splits if_splits)
  next
    case Checking
    with l st call show thesis
      by (intro keeps) (auto simp: thread_step_def pc_step_def check_step_def holds_token_def life_def
          split: option.splits dest: checkOpen_token)
  next
    case (Transacting tx)
    with l st call show thesis
      by (intro keeps) (auto simp: thread_step_def pc_step_def transact_step_def handle_response_def poison_def
          markPoisoned_def holds_token_def life_def dest!: tx_step_session split: step_splits)
  next
    case (Reaping stage won o' tx)
    show thesis
    proof (cases "\<exists>ws x. ch = Transact ws \<and> tx = Some x")
      case True
      with Reaping st call show thesis
        by (intro keeps) (auto simp: thread_step_def pc_step_def holds_token_def dest!: tx_step_session)
    next
      case False
      with Reaping st have "th_pc t \<noteq> Numbering"
        and r: "reap_step (th_call t) stage won o' tx s = Some (th_pc t', s')"
        by (auto simp: thread_step_def pc_step_def split: choice.splits option.splits)
      from reap_step_pc [OF r] Reaping call show thesis
        by (intro keeps) (auto simp: holds_token_def leave_def)
    qed
  next
    case (Draining o' tx)
    with l st call show thesis
      by (intro keeps) (auto simp: thread_step_def pc_step_def drain_step_def leave_def
          holds_token_def life_def dest!: tx_step_session split: step_splits)
  qed (use l st call in \<open>auto intro!: keeps simp: thread_step_def pc_step_def exit_step_def
    diagnostics_step_def closeInput_def closeOutput_def holds_token_def life_def split: step_splits\<close>)
qed

text \<open>Either the token is in the channel and nobody holds it, or exactly one call holds it.\<close>

definition holders :: "world \<Rightarrow> nat set" where
  "holders w = {i. \<exists>t. w_threads w i = Some t \<and> holds_token t}"

definition one_token :: "world \<Rightarrow> bool" where
  "one_token w \<longleftrightarrow>
     (ss_token (w_session w) = 1 \<and> holders w = {}) \<or> (ss_token (w_session w) = 0 \<and> (\<exists>i. holders w = {i}))"

lemma holders_update:
  "w_threads w' = (w_threads w)(i \<mapsto> t) \<Longrightarrow>
     holders w' = (if holds_token t then insert i (holders w) else holders w - {i})"
  by (auto simp: holders_def)

lemma in_holders: "w_threads w i = Some t \<Longrightarrow> i \<in> holders w \<longleftrightarrow> holds_token t"
  by (simp add: holders_def)

lemma new_thread_no_token: "\<not> holds_token (new_thread c)"
  by (simp add: holds_token_def new_thread_def initial_pc_def)

lemma holds_token_cancelled [simp]: "holds_token (t\<lparr>th_cancelled := b\<rparr>) = holds_token t"
  by (simp add: holds_token_def)

lemma env_step_token: "env_step ev s = Some s' \<Longrightarrow> ss_token s' = ss_token s"
  by (auto simp: env_step_def split: environment.splits if_splits)

lemma world_step_Run:
  assumes "world_step (Run i ch) w = Some w'"
  obtains t t' s' where "w_threads w i = Some t" "thread_step ch t (w_session w) = Some (t', s')"
    "w_session w' = s'" "w_threads w' = (w_threads w)(i \<mapsto> t')"
  using assms by (auto simp: world_step_def split: option.splits)

lemma one_token_reachable: "reachable w \<Longrightarrow> one_token w"
proof (induction rule: reachable.induct)
  case reachable_start
  then show ?case by (simp add: one_token_def start_world_def new_session_def holders_def)
next
  case (reachable_step w ev w')
  show ?case
  proof (cases ev)
    case (Begin j c)
    with reachable_step have "w_threads w j = None" "w_session w' = w_session w"
        "w_threads w' = (w_threads w)(j \<mapsto> new_thread c)"
      by (auto simp: world_step_def split: if_splits)
    then have "holders w' = holders w" "w_session w' = w_session w"
      by (auto simp: holders_def new_thread_no_token)
    with reachable_step.IH show ?thesis by (simp add: one_token_def)
  next
    case (Cancel j)
    with reachable_step have "holders w' = holders w" "w_session w' = w_session w"
      by (auto simp: world_step_def holders_def split: if_splits)
    with reachable_step.IH show ?thesis by (simp add: one_token_def)
  next
    case (Environment e)
    with reachable_step have "holders w' = holders w" "ss_token (w_session w') = ss_token (w_session w)"
      by (auto simp: world_step_def holders_def dest: env_step_token)
    with reachable_step.IH show ?thesis by (simp add: one_token_def)
  next
    case (Run j ch)
    with reachable_step.hyps(2) obtain u u' s' where f: "w_threads w j = Some u"
        "thread_step ch u (w_session w) = Some (u', s')"
        "w_session w' = s'" "w_threads w' = (w_threads w)(j \<mapsto> u')"
      by (auto elim: world_step_Run)
    note h = in_holders [OF f(1)] holders_update [OF f(4)]
    have "life (w_session w) u" by (rule life.all_threads [OF reachable_step.hyps(1) f(1)])
    then show ?thesis using f(2)
    proof (cases rule: thread_step_token)
      case keeps
      with h have "holders w' = holders w" by auto
      with keeps f(3) reachable_step.IH show ?thesis by (simp add: one_token_def)
    next
      case takes
      with h f(3) reachable_step.IH show ?thesis by (simp add: one_token_def)
    next
      case gives
      with h f(3) reachable_step.IH show ?thesis by (auto simp: one_token_def)
    qed
  qed
qed

lemma one_holder:
  assumes "reachable w" "w_threads w i = Some t" "w_threads w j = Some u" "holds_token t" "holds_token u"
  shows "i = j"
  using one_token_reachable [OF assms(1)] in_holders [OF assms(2)] in_holders [OF assms(3)] assms(4,5)
  by (auto simp: one_token_def)

subsection \<open>Identifiers are never reused\<close>

lemma thread_step_id:
  assumes "life s t" "thread_step ch t s = Some (t', s')"
  shows "th_id t' = th_id t \<or>
    (th_id t = None \<and> ss_sequence s \<noteq> 0 \<and> th_id t' = Some (FormatRequestID (ss_sequence s)))"
  using assms
  by (auto simp: thread_step_def number_step_def nextRequestID_def life_def split: if_splits sum.splits prod.splits)

definition id_of :: "world \<Rightarrow> nat \<Rightarrow> bytes option" where
  "id_of w i = (case w_threads w i of None \<Rightarrow> None | Some t \<Rightarrow> th_id t)"

lemma id_of_update: "w_threads w' = (w_threads w)(i \<mapsto> t) \<Longrightarrow> id_of w' = (id_of w)(i := th_id t)"
  by (auto simp: id_of_def fun_eq_iff)

lemma id_not_next:
  assumes "reachable w" "ss_sequence (w_session w) \<noteq> 0"
  shows "id_of w i \<noteq> Some (FormatRequestID (ss_sequence (w_session w)))"
  using assms tracked.all_threads [OF assms(1), of i]
  by (auto simp: id_of_def tracked_def attributed_def id_ok_def FormatRequestID_inject split: option.splits)

lemma distinct_ids: "reachable w \<Longrightarrow> i \<noteq> j \<Longrightarrow> id_of w i = Some a \<Longrightarrow> id_of w j \<noteq> Some a"
proof (induction arbitrary: i j a rule: reachable.induct)
  case reachable_start
  then show ?case by (simp add: start_world_def id_of_def)
next
  case (reachable_step w ev w')
  show ?case
  proof (cases ev)
    case (Begin k c)
    with reachable_step.hyps have "w_threads w k = None" "id_of w' = (id_of w)(k := None)"
      by (auto simp: world_step_def new_thread_def id_of_update split: if_splits)
    with reachable_step.IH reachable_step.prems show ?thesis by (auto split: if_splits)
  next
    case (Cancel k)
    with reachable_step.hyps have "id_of w' = id_of w"
      by (auto simp: world_step_def id_of_def fun_eq_iff)
    with reachable_step.IH reachable_step.prems show ?thesis by simp
  next
    case (Environment e)
    with reachable_step.hyps have "id_of w' = id_of w"
      by (auto simp: world_step_def id_of_def fun_eq_iff)
    with reachable_step.IH reachable_step.prems show ?thesis by simp
  next
    case (Run k ch)
    with reachable_step.hyps(2) obtain x x' s' where f: "w_threads w k = Some x"
        "thread_step ch x (w_session w) = Some (x', s')" "w_threads w' = (w_threads w)(k \<mapsto> x')"
      by (auto elim: world_step_Run)
    have "id_of w k = th_id x" using f(1) by (simp add: id_of_def)
    moreover have "th_id x' = th_id x \<or> (ss_sequence (w_session w) \<noteq> 0 \<and>
        th_id x' = Some (FormatRequestID (ss_sequence (w_session w))))"
      using thread_step_id [OF life.all_threads [OF reachable_step.hyps(1) f(1)] f(2)] by auto
    ultimately show ?thesis
      using id_of_update [OF f(3)] reachable_step.IH reachable_step.prems
        id_not_next [OF reachable_step.hyps(1)]
      by (cases "i = k"; cases "j = k") (auto, metis+)
  qed
qed

subsection \<open>A session never reopens, and remote errors do not close it\<close>

lemma world_step_later: "world_step ev w = Some w' \<Longrightarrow> later (w_session w) (w_session w')"
  by (cases ev)
    (auto simp: world_step_def dest: env_step_later thread_step_later split: if_splits option.splits)

lemma refresh_poisoning [simp]: "poisoning (refresh d e) = poisoning e"
  by (cases e) (simp_all add: refresh_def poisoning_def)

definition poisoned_ok :: "session \<Rightarrow> bool" where
  "poisoned_ok s \<longleftrightarrow>
     (ss_state s = sessionPoisoned \<longrightarrow> ss_cause s \<noteq> None) \<and> (\<forall>c. ss_cause s = Some c \<longrightarrow> poisoning c)"

lemma markPoisoned_ok: "poisoned_ok s \<Longrightarrow> poisoning c \<Longrightarrow> poisoned_ok (markPoisoned c s)"
  by (auto simp: poisoned_ok_def markPoisoned_def)

lemma poisoned_ok_update [simp]:
  "poisoned_ok (s\<lparr>ss_stdout := d\<rparr>) = poisoned_ok s"
  "poisoned_ok (s\<lparr>ss_token := n\<rparr>) = poisoned_ok s"
  "poisoned_ok (closeInput s) = poisoned_ok s"
  "poisoned_ok (closeOutput s) = poisoned_ok s"
  "poisoned_ok (kill s) = poisoned_ok s"
  by (simp_all add: poisoned_ok_def closeInput_def closeOutput_def kill_def)

lemma poisoned_ok_closed: "poisoned_ok s \<Longrightarrow> poisoned_ok (s\<lparr>ss_state := sessionClosed\<rparr>)"
  by (auto simp: poisoned_ok_def)

lemma poisoned_ok_refresh:
  "poisoned_ok s \<Longrightarrow> poisoned_ok (s\<lparr>ss_cause := map_option (refresh d) (ss_cause s)\<rparr>)"
  by (auto simp: poisoned_ok_def)

lemma checkOpen_poisoned_ok: "poisoned_ok s \<Longrightarrow> checkOpen s = Some (e, s') \<Longrightarrow> poisoned_ok s'"
  by (elim checkOpen_cases) (simp_all add: poisoned_ok_def poisoning_def transportError_def)

lemma handle_response_poisoned_ok:
  "poisoned_ok s \<Longrightarrow> handle_response c r s = (p, s') \<Longrightarrow> poisoned_ok s'"
  by (auto simp: handle_response_def poison_def poisoning_def intro: markPoisoned_ok
      split: call.splits ResponseKind.splits if_splits)

lemma thread_step_poisoned_ok:
  assumes p: "poisoned_ok s" and a: "attributed s t" and st: "thread_step ch t s = Some (t', s')"
  shows "poisoned_ok s'"
proof (cases "th_pc t")
  case Numbering
  with p st show ?thesis
    by (auto simp: thread_step_def number_step_def nextRequestID_def poisoned_ok_def
        split: sum.splits prod.splits if_splits)
next
  case Checking
  with p st show ?thesis
    by (auto simp: thread_step_def pc_step_def check_step_def dest: checkOpen_poisoned_ok)
next
  case ClosingAfterAck
  with p st show ?thesis by (auto simp: thread_step_def pc_step_def poisoned_ok_closed)
next
  case MarkingClosed
  with p st show ?thesis by (auto simp: thread_step_def pc_step_def poisoned_ok_closed)
next
  case (Transacting tx)
  with p a st tx_ok_error [of t tx] show ?thesis
    by (auto simp: thread_step_def pc_step_def transact_step_def attributed_def poison_def
        intro!: markPoisoned_ok dest!: tx_step_session dest: handle_response_poisoned_ok
        split: choice.splits tx_phase.splits sum.splits if_splits) (simp_all add: poisoning_def)
next
  case (Reaping stage won o' tx)
  with p st show ?thesis
    by (auto simp: thread_step_def pc_step_def reap_step_def after_reap_def poisoned_ok_refresh
        split: choice.splits option.splits reap_stage.splits outcome.splits if_splits dest!: tx_step_session)
next
  case (Draining o' tx)
  with p st show ?thesis
    by (auto simp: thread_step_def pc_step_def drain_step_def dest!: tx_step_session
        split: choice.splits tx_phase.splits)
qed (use p st in \<open>auto simp: thread_step_def pc_step_def acquire_step_def exit_step_def diagnostics_step_def
  release_def split: choice.splits option.splits if_splits\<close>)

lemma poisoned_ok_reachable: "reachable w \<Longrightarrow> poisoned_ok (w_session w)"
proof (induction rule: reachable.induct)
  case reachable_start
  then show ?case by (simp add: start_world_def new_session_def poisoned_ok_def)
next
  case (reachable_step w ev w')
  show ?case
  proof (cases ev)
    case (Run j ch)
    with reachable_step.hyps(2) obtain u u' s' where f: "w_threads w j = Some u"
        "thread_step ch u (w_session w) = Some (u', s')" "w_session w' = s'"
      by (auto elim: world_step_Run)
    have "attributed (w_session w) u"
      using tracked.all_threads [OF reachable_step.hyps(1) f(1)] by (simp add: tracked_def)
    with f reachable_step.IH show ?thesis by (auto intro: thread_step_poisoned_ok)
  qed (use reachable_step in \<open>auto simp: world_step_def env_step_def poisoned_ok_def
    split: environment.splits if_splits\<close>)
qed

subsection \<open>Answers\<close>

lemma completed_answer:
  assumes "reachable w" "w_threads w i = Some t" "th_pc t = Returned (Completed r)"
  shows "\<exists>workload projection requestID. th_call t = Execute workload \<and> th_id t = Some requestID \<and>
     ProjectWorkload workload = Inr projection \<and> consistent_result projection r"
proof -
  have "attributed (w_session w) t"
    using tracked.all_threads [OF assms(1,2)] by (simp add: tracked_def)
  with assms(3) obtain workload requestID frame projection payload response where
    c: "th_call t = Execute workload" "th_id t = Some requestID"
      "EncodeExecuteFrame requestID workload = Inr (frame, projection)"
      "DecodeResponse payload requestID (Some projection) = Inr response"
      "resp_Kind response = ResponseCompleted" "resp_Result response = r"
    by (auto simp: attributed_def pc_ok_def remote_or_result_def answers_def encode_request_def
        split: sum.splits)
  with DecodeResponse_kind [OF c(4)] show ?thesis by (auto simp: EncodeExecuteFrame_Inr_iff)
qed

lemma thread_step_call: "thread_step ch t s = Some (t', s') \<Longrightarrow> th_call t' = th_call t"
  by (auto simp: thread_step_def number_step_def split: if_splits sum.splits prod.splits)

lemma run_call:
  "run evs w = Some w' \<Longrightarrow> w_threads w i = Some t \<Longrightarrow> \<exists>t'. w_threads w' i = Some t' \<and> th_call t' = th_call t"
proof (induction evs arbitrary: w t)
  case (Cons ev evs)
  then obtain w1 where w1: "world_step ev w = Some w1" "run evs w1 = Some w'"
    by (auto split: option.splits)
  have "\<exists>t1. w_threads w1 i = Some t1 \<and> th_call t1 = th_call t"
  proof (cases ev)
    case (Run j ch)
    with w1(1) obtain u u' s' where "w_threads w j = Some u" "thread_step ch u (w_session w) = Some (u', s')"
        "w_threads w1 = (w_threads w)(j \<mapsto> u')"
      by (auto elim: world_step_Run)
    with Cons.prems(2) thread_step_call [of ch u "w_session w" u' s'] show ?thesis by auto
  qed (use w1(1) Cons.prems(2) in \<open>auto simp: world_step_def split: if_splits\<close>)
  with Cons.IH [OF w1(2)] show ?case by auto
qed simp

interpretation session: worker_session "execute_under schedule" for schedule
proof
  fix source result assume "execute_under schedule source = Inr result"
  then obtain w t where w: "run (Begin 0 (Execute source) # schedule) start_world = Some w"
    and t: "w_threads w 0 = Some t" "th_pc t = Returned (Completed result)"
    by (auto simp: execute_under_def split: option.splits pc.splits outcome.splits)
  then obtain w1 where w1: "world_step (Begin 0 (Execute source)) start_world = Some w1"
      "run schedule w1 = Some w" by (auto split: option.splits)
  then have "w_threads w1 0 = Some (new_thread (Execute source))"
    by (auto simp: world_step_def start_world_def)
  with run_call [OF w1(2) this] t have "th_call t = Execute source"
    by (simp add: new_thread_def)
  with completed_answer [OF run_from_start [OF w] t]
  show "\<exists>projection. ProjectWorkload source = Inr projection \<and> consistent_result projection result" by auto
qed

end
