(* ===== verification/SessionLive.thy ===== *)
theory SessionLive
  imports SessionSafety
begin

text \<open>
  Calls return. Each step of a goroutine decreases a rank, and once the child has exited and its
  pipes have ended no goroutine inside the session can be blocked, so every call that has
  entered the session leaves it in a bounded number of its own steps.
\<close>

definition tx_rank :: "transaction \<Rightarrow> nat" where
  "tx_rank tx = (case tx_phase tx of TxWrite \<Rightarrow> 2 | TxRead \<Rightarrow> 1 | TxDone _ \<Rightarrow> 0)"

definition tx_option_rank :: "transaction option \<Rightarrow> nat" where
  "tx_option_rank tx = (case tx of None \<Rightarrow> 0 | Some tx \<Rightarrow> tx_rank tx)"

definition stage_rank :: "reap_stage \<Rightarrow> nat" where
  "stage_rank stage = (case stage of CloseInputAndKill \<Rightarrow> 2 | AwaitProcess \<Rightarrow> 1 | AwaitStderr \<Rightarrow> 0)"

definition pc_rank :: "pc \<Rightarrow> nat" where
  "pc_rank p =
     (case p of
        Acquiring \<Rightarrow> 25
      | Checking \<Rightarrow> 24
      | Numbering \<Rightarrow> 23
      | Transacting tx \<Rightarrow> 20 + tx_rank tx
      | ClosingAfterAck \<Rightarrow> 19
      | AwaitingExit \<Rightarrow> 18
      | AwaitingDiagnostics \<Rightarrow> 17
      | MarkingClosed \<Rightarrow> 16
      | Reaping stage _ _ tx \<Rightarrow> 6 + 3 * stage_rank stage + tx_option_rank tx
      | Draining _ tx \<Rightarrow> 2 + tx_rank tx
      | Releasing _ \<Rightarrow> 1
      | Returned _ \<Rightarrow> 0)"

lemma tx_step_rank: "tx_step r ws tx s = Some (tx', s') \<Longrightarrow> tx_rank tx' < tx_rank tx"
  by (auto simp: tx_step_def tx_rank_def split: tx_phase.splits option.splits prod.splits sum.splits if_splits)

lemma tx_rank_le: "tx_rank tx \<le> 2"
  by (simp add: tx_rank_def split: tx_phase.split)

lemma leave_rank: "pc_rank (leave c o') \<le> 1"
  by (simp add: leave_def pc_rank_def)

lemma reap_step_rank:
  "reap_step c stage won o' tx s = Some (p, s') \<Longrightarrow> pc_rank p < pc_rank (Reaping stage won o' tx)"
  using leave_rank [of c o'] tx_rank_le
  by (auto simp: reap_step_def after_reap_def pc_rank_def stage_rank_def tx_option_rank_def leave_def
      split: reap_stage.splits option.splits outcome.splits if_splits)

lemma handle_response_rank: "handle_response c r s = (p, s') \<Longrightarrow> pc_rank p < 20"
  by (auto simp: handle_response_def poison_def pc_rank_def stage_rank_def tx_option_rank_def
      split: call.splits ResponseKind.splits if_splits)

lemma thread_step_rank:
  assumes "thread_step ch t s = Some (t', s')"
  shows "pc_rank (th_pc t') < pc_rank (th_pc t)"
proof (cases "th_pc t")
  case Numbering
  with assms show ?thesis
    by (auto simp: thread_step_def number_step_def pc_rank_def tx_rank_def split: sum.splits prod.splits)
next
  case (Transacting tx)
  with assms show ?thesis
    using tx_rank_le [of tx]
    by (auto simp: thread_step_def pc_step_def transact_step_def pc_rank_def poison_def stage_rank_def
        tx_option_rank_def dest: tx_step_rank handle_response_rank [unfolded pc_rank_def]
        split: choice.splits tx_phase.splits sum.splits if_splits)
next
  case (Reaping stage won o' tx)
  show ?thesis
  proof (cases "\<exists>ws x. ch = Transact ws \<and> tx = Some x")
    case True
    with assms Reaping show ?thesis
      by (auto simp: thread_step_def pc_step_def pc_rank_def tx_option_rank_def) (erule tx_step_rank)
  next
    case False
    with Reaping assms have "reap_step (th_call t) stage won o' tx s = Some (th_pc t', s')"
      by (auto simp: thread_step_def pc_step_def split: choice.splits option.splits)
    then show ?thesis using Reaping reap_step_rank by metis
  qed
next
  case (Draining o' tx)
  with assms show ?thesis
    using leave_rank [of "th_call t" o']
    by (auto simp: thread_step_def pc_step_def drain_step_def pc_rank_def dest: tx_step_rank
        split: choice.splits tx_phase.splits)
next
  case Checking
  with assms show ?thesis
    by (auto simp: thread_step_def pc_step_def check_step_def pc_rank_def split: option.splits)
qed (use assms in \<open>auto simp: thread_step_def pc_step_def acquire_step_def exit_step_def diagnostics_step_def
  pc_rank_def stage_rank_def tx_option_rank_def split: choice.splits option.splits if_splits\<close>)

text \<open>The child is gone: it has been waited for and both its pipes have ended.\<close>

definition child_gone :: "session \<Rightarrow> bool" where
  "child_gone s \<longleftrightarrow> ss_waitDone s \<and> ss_stderrDone s \<and> ss_stdoutEnd s \<noteq> None"

lemma child_gone_later: "child_gone s \<Longrightarrow> later s s' \<Longrightarrow> child_gone s'"
  by (auto simp: child_gone_def later_def)

text \<open>A write to a pipe whose reader is gone fails, and a read at the end of a stream returns.\<close>

lemma tx_step_enabled:
  assumes "child_gone s" "\<not> (\<exists>r. tx_phase tx = TxDone r)"
  shows "\<exists>ws. tx_step r ws tx s \<noteq> None"
proof (cases "tx_phase tx")
  case TxWrite
  have "writeAll [(0, Some [])] (tx_frame tx) \<noteq> None" by (cases "tx_frame tx") simp_all
  with TxWrite show ?thesis
    by (intro exI [of _ "[(0, Some [])]"]) (auto simp: tx_step_def split: option.splits)
next
  case TxRead
  with assms show ?thesis
    by (auto simp: tx_step_def frame_ready_def child_gone_def split: prod.split sum.split)
qed (use assms in simp)

lemma thread_step_enabled:
  assumes "child_gone s" "\<forall>o'. th_pc t \<noteq> Returned o'" "th_pc t = Acquiring \<longrightarrow> ss_token s \<noteq> 0"
  shows "\<exists>ch. thread_step ch t s \<noteq> None"
proof (cases "th_pc t")
  case (Transacting tx)
  show ?thesis
  proof (cases "\<exists>r. tx_phase tx = TxDone r")
    case True
    with Transacting show ?thesis
      by (auto simp: thread_step_def pc_step_def transact_step_def split: sum.split intro!: exI [of _ Advance])
  next
    case False
    from tx_step_enabled [OF assms(1) this, of "the (th_id t)"] obtain ws where
      "tx_step (the (th_id t)) ws tx s \<noteq> None" ..
    with Transacting show ?thesis
      by (auto simp: thread_step_def pc_step_def transact_step_def intro!: exI [of _ "Transact ws"])
  qed
next
  case (Draining o' tx)
  show ?thesis
  proof (cases "\<exists>r. tx_phase tx = TxDone r")
    case True
    with Draining show ?thesis
      by (auto simp: thread_step_def pc_step_def drain_step_def intro!: exI [of _ Advance])
  next
    case False
    from tx_step_enabled [OF assms(1) this, of "the (th_id t)"] obtain ws where
      "tx_step (the (th_id t)) ws tx s \<noteq> None" ..
    with Draining show ?thesis
      by (auto simp: thread_step_def pc_step_def drain_step_def intro!: exI [of _ "Transact ws"])
  qed
next
  case (Reaping stage won o' tx)
  with assms show ?thesis
    by (intro exI [of _ Advance])
      (auto simp: thread_step_def pc_step_def reap_step_def child_gone_def split: reap_stage.split)
qed (use assms in \<open>auto simp: thread_step_def pc_step_def acquire_step_def check_step_def checkOpen_def
  exit_step_def diagnostics_step_def child_gone_def Let_def
  split: sessionState.split intro!: exI [of _ Advance]\<close>)

lemma runs_to_return:
  assumes "w_threads w i = Some t" "child_gone (w_session w)" "th_pc t = Acquiring \<longrightarrow> ss_token (w_session w) \<noteq> 0"
  shows "\<exists>chs w' t' o'. length chs \<le> pc_rank (th_pc t) \<and> run (map (Run i) chs) w = Some w' \<and>
           w_threads w' i = Some t' \<and> th_pc t' = Returned o'"
  using assms
proof (induction "pc_rank (th_pc t)" arbitrary: w t rule: less_induct)
  case less
  show ?case
  proof (cases "\<exists>o'. th_pc t = Returned o'")
    case True
    with less.prems show ?thesis by (auto intro: exI [of _ "[]"])
  next
    case False
    with thread_step_enabled less.prems obtain ch t' s' where
      st: "thread_step ch t (w_session w) = Some (t', s')" by fast
    let ?w = "\<lparr>w_session = s', w_threads = (w_threads w)(i \<mapsto> t')\<rparr>"
    have step: "world_step (Run i ch) w = Some ?w" using st less.prems(1) by (simp add: world_step_def)
    have rank: "pc_rank (th_pc t') < pc_rank (th_pc t)" by (rule thread_step_rank [OF st])
    have "th_pc t' \<noteq> Acquiring"
      using rank by (auto simp: pc_rank_def tx_rank_def tx_option_rank_def stage_rank_def
          split: pc.splits tx_phase.splits option.splits reap_stage.splits)
    then have "\<exists>chs w' u o'. length chs \<le> pc_rank (th_pc t') \<and> run (map (Run i) chs) ?w = Some w' \<and>
        w_threads w' i = Some u \<and> th_pc u = Returned o'"
      using child_gone_later [OF less.prems(2) thread_step_later [OF st]]
      by (intro less.hyps rank) simp_all
    then obtain chs w' u o' where "length chs \<le> pc_rank (th_pc t')" "run (map (Run i) chs) ?w = Some w'"
        "w_threads w' i = Some u" "th_pc u = Returned o'" by blast
    then show ?thesis
      using rank step by (intro exI [of _ "ch # chs"] exI [of _ w'] exI [of _ u] exI [of _ o']) simp
  qed
qed

lemma pc_rank_bound: "pc_rank p \<le> 25"
  using tx_rank_le
  by (auto simp: pc_rank_def tx_option_rank_def stage_rank_def trans_le_add1
      split: pc.split option.split reap_stage.split intro: order_trans [OF tx_rank_le])

text \<open>In a run with any other events in between, the steps of one call are at most its rank, and
  after the child is gone the call is never stuck before it has returned.\<close>

definition own_steps :: "nat \<Rightarrow> event list \<Rightarrow> nat" where
  "own_steps i evs = length (filter (\<lambda>ev. case ev of Run j _ \<Rightarrow> j = i | _ \<Rightarrow> False) evs)"

lemma own_steps_simps [simp]:
  "own_steps i [] = 0"
  "own_steps i (Run j ch # evs) = (if j = i then Suc (own_steps i evs) else own_steps i evs)"
  "own_steps i (Begin j c # evs) = own_steps i evs"
  "own_steps i (Cancel j # evs) = own_steps i evs"
  "own_steps i (Environment e # evs) = own_steps i evs"
  by (simp_all add: own_steps_def)

lemma world_step_rank:
  assumes "world_step ev w = Some w'" "w_threads w i = Some t"
  shows "\<exists>t'. w_threads w' i = Some t' \<and>
    pc_rank (th_pc t') + own_steps i [ev] \<le> pc_rank (th_pc t) \<and> (th_pc t' = Acquiring \<longrightarrow> th_pc t = Acquiring)"
proof (cases ev)
  case (Run j ch)
  with assms(1) obtain u u' s' where f: "w_threads w j = Some u" "thread_step ch u (w_session w) = Some (u', s')"
      "w_threads w' = (w_threads w)(j \<mapsto> u')"
    by (auto elim: world_step_Run)
  have "th_pc u' \<noteq> Acquiring"
    using thread_step_rank [OF f(2)] pc_rank_bound [of "th_pc u"] by (auto simp: pc_rank_def [of Acquiring])
  with f assms(2) Run thread_step_rank [OF f(2)] show ?thesis by auto
qed (use assms in \<open>auto simp: world_step_def split: if_splits\<close>)

lemma run_rank:
  "run evs w = Some w' \<Longrightarrow> w_threads w i = Some t \<Longrightarrow>
     \<exists>t'. w_threads w' i = Some t' \<and> pc_rank (th_pc t') + own_steps i evs \<le> pc_rank (th_pc t) \<and>
          (th_pc t' = Acquiring \<longrightarrow> th_pc t = Acquiring)"
proof (induction evs arbitrary: w t)
  case (Cons ev evs)
  then obtain w1 where w1: "world_step ev w = Some w1" "run evs w1 = Some w'"
    by (auto split: option.splits)
  from world_step_rank [OF w1(1) Cons.prems(2)] obtain t1 where t1: "w_threads w1 i = Some t1"
      "pc_rank (th_pc t1) + own_steps i [ev] \<le> pc_rank (th_pc t)" "th_pc t1 = Acquiring \<longrightarrow> th_pc t = Acquiring"
    by blast
  from Cons.IH [OF w1(2) t1(1)] t1 show ?case by (cases ev) (auto split: if_splits)
qed simp

lemma run_later: "run evs w = Some w' \<Longrightarrow> child_gone (w_session w) \<Longrightarrow> child_gone (w_session w')"
  by (induction evs w rule: run.induct)
    (auto split: option.splits dest: world_step_later child_gone_later)

lemma run_never_stuck:
  assumes "run evs w = Some w'" "w_threads w i = Some t" "child_gone (w_session w)" "th_pc t \<noteq> Acquiring"
  shows "\<exists>t'. w_threads w' i = Some t' \<and>
     ((\<exists>o'. th_pc t' = Returned o') \<or> (\<exists>ch. world_step (Run i ch) w' \<noteq> None))"
proof -
  from run_rank [OF assms(1,2)] assms(4) obtain t' where t': "w_threads w' i = Some t'" "th_pc t' \<noteq> Acquiring"
    by blast
  with thread_step_enabled [OF run_later [OF assms(1,3)], of t'] show ?thesis
    by (auto simp: world_step_def)
qed

section \<open>writeAll\<close>

lemma writeAll_delivers:
  "writeAll ws data = Some (err, sent) \<Longrightarrow>
     (err = None \<longrightarrow> sent = data) \<and> (\<exists>rest. data = sent @ rest)"
proof (induction ws data arbitrary: err sent rule: writeAll.induct)
  case (3 n e ws d ds)
  show ?case
  proof (cases "e = None \<and> n \<noteq> 0 \<and> n \<le> length (d # ds)")
    case False
    with 3 show ?thesis
      by (auto split: if_splits option.splits intro: exI [of _ "drop n (d # ds)"] simp del: take_Cons drop_Cons)
  next
    case True
    with 3 obtain sent' where r: "writeAll ws (drop n (d # ds)) = Some (err, sent')"
        "sent = take n (d # ds) @ sent'"
      by auto
    with 3(1) [of err sent'] True obtain rest where
      "err = None \<longrightarrow> sent' = drop n (d # ds)" "drop n (d # ds) = sent' @ rest" by auto
    with r show ?thesis by (metis append.assoc append_take_drop_id)
  qed
qed simp_all

end
