(* ===== verification/SessionTrace.thy ===== *)
theory SessionTrace
  imports SessionSafety
begin

text \<open>
  Where answers come from. A run of the session is a list of events; the bytes the child has
  written are in it. Every answer a call of \<open>Execute\<close> returns is traced back to the step of that
  call that read a frame from the child's output, to the bytes of the frame, and to the request
  the call had written before.
\<close>

section \<open>Runs\<close>

lemma run_append: "run (as @ bs) w = (case run as w of None \<Rightarrow> None | Some w' \<Rightarrow> run bs w')"
  by (induction as arbitrary: w) (simp_all split: option.split)

lemma run_snoc: "run (evs @ [ev]) w = Some w'' \<longleftrightarrow> (\<exists>w'. run evs w = Some w' \<and> world_step ev w' = Some w'')"
  by (auto simp: run_append split: option.splits)

section \<open>The bytes of the child\<close>

definition child_output :: "event list \<Rightarrow> bytes" where
  "child_output evs = concat (map (\<lambda>ev. case ev of Environment (ChildOutput d) \<Rightarrow> d | _ \<Rightarrow> []) evs)"

lemma child_output_simps [simp]:
  "child_output [] = []"
  "child_output (as @ bs) = child_output as @ child_output bs"
  "child_output [Environment (ChildOutput d)] = d"
  "child_output [Begin i c] = []" "child_output [Cancel i] = []" "child_output [Run i ch] = []"
  by (simp_all add: child_output_def)

lemma readFrame_loop_consumes:
  "\<exists>n. unread (snd (readFrame_loop b m payload rd)) = drop n (unread rd)"
proof (induction "length (unread rd)" arbitrary: payload rd rule: less_induct)
  case less
  show ?case
  proof (cases rule: ReadSlice_cases [of rd b])
    case line
    then show ?thesis
      by (auto simp: readFrame_loop.simps [of b m payload rd] Let_def)
  next
    case (full n)
    have "\<exists>k. unread (snd (readFrame_loop b m (payload @ take n (unread rd)) (rd\<lparr>unread := drop n (unread rd)\<rparr>)))
        = drop k (drop n (unread rd))"
      using less.hyps [of "rd\<lparr>unread := drop n (unread rd)\<rparr>"] full by simp
    then show ?thesis
      using full by (auto simp: readFrame_loop.simps [of b m payload rd] Let_def last_ne_newline)
  next
    case rest
    have "\<exists>n. [] = drop n (unread rd)" by (rule exI [of _ "length (unread rd)"]) simp
    with rest show ?thesis
      by (auto simp: readFrame_loop.simps [of b m payload rd] Let_def last_ne_newline)
  qed
qed

lemma tx_step_stdout: "tx_step r ws tx s = Some (tx', s') \<Longrightarrow> \<exists>n. s' = s\<lparr>ss_stdout := drop n (ss_stdout s)\<rparr>"
  using readFrame_loop_consumes [of readBufferBytes MaxFrameBytes "[]" "stdout_reader s"]
  by (auto simp: tx_step_def readFrame_def stdout_reader_def split: step_splits intro: exI [of _ "0 :: nat"])

text \<open>The unread output loses its head to a reader and its tail only after the pipe was closed.\<close>

definition output_kept :: "session \<Rightarrow> session \<Rightarrow> bool" where
  "output_kept s s' \<longleftrightarrow> (\<exists>n. ss_stdout s' = drop n (ss_stdout s)) \<and>
     ((ss_closeOutputOnce s \<longrightarrow> ss_stdoutEnd s \<noteq> None) \<longrightarrow> ss_closeOutputOnce s' \<longrightarrow> ss_stdoutEnd s' \<noteq> None)"

lemma output_kept_refl [simp]: "output_kept s s"
  by (simp add: output_kept_def exI [of _ "0 :: nat"])

lemma output_kept_same:
  "ss_stdout s' = ss_stdout s \<Longrightarrow> ss_stdoutEnd s' = ss_stdoutEnd s \<Longrightarrow>
     ss_closeOutputOnce s' = ss_closeOutputOnce s \<Longrightarrow> output_kept s s'"
  by (simp add: output_kept_def exI [of _ "0 :: nat"])

lemma output_kept_closeOutput:
  "ss_stdout s' = ss_stdout (closeOutput s) \<Longrightarrow> ss_stdoutEnd s' = ss_stdoutEnd (closeOutput s) \<Longrightarrow>
     output_kept s s'"
  by (auto simp: output_kept_def closeOutput_def exI [of _ "0 :: nat"] split: option.split)

lemma output_kept_tx: "tx_step r ws tx s = Some (tx', s') \<Longrightarrow> output_kept s s'"
  by (auto simp: output_kept_def dest!: tx_step_stdout)

lemma thread_step_output:
  assumes "thread_step ch t s = Some (t', s')"
  shows "output_kept s s'"
proof (cases "th_pc t")
  case Numbering
  with assms show ?thesis
    by (auto simp: thread_step_def number_step_def nextRequestID_def intro: output_kept_same
        split: sum.splits prod.splits if_splits)
next
  case Checking
  with assms show ?thesis
    by (auto simp: thread_step_def pc_step_def check_step_def elim!: checkOpen_cases intro: output_kept_closeOutput)
next
  case (Transacting tx)
  with assms show ?thesis
    by (auto simp: thread_step_def pc_step_def transact_step_def handle_response_def poison_def markPoisoned_def
        intro: output_kept_tx output_kept_same split: step_splits)
next
  case (Reaping stage won o' tx)
  with assms show ?thesis
    by (auto simp: thread_step_def pc_step_def reap_step_def after_reap_def closeInput_def kill_def
        intro: output_kept_tx output_kept_same output_kept_closeOutput split: step_splits)
next
  case (Draining o' tx)
  with assms show ?thesis
    by (auto simp: thread_step_def pc_step_def drain_step_def intro: output_kept_tx split: step_splits)
qed (use assms in \<open>auto simp: thread_step_def pc_step_def acquire_step_def exit_step_def diagnostics_step_def
  closeInput_def release_def intro: output_kept_same output_kept_closeOutput split: step_splits\<close>)

text \<open>What is unread is a contiguous piece of what the child wrote.\<close>

definition segment :: "event list \<Rightarrow> session \<Rightarrow> bool" where
  "segment evs s \<longleftrightarrow>
     (\<exists>used lost. child_output evs = used @ ss_stdout s @ lost \<and> (lost \<noteq> [] \<longrightarrow> ss_stdoutEnd s \<noteq> None)) \<and>
     (ss_closeOutputOnce s \<longrightarrow> ss_stdoutEnd s \<noteq> None)"

lemma segment_silent: "child_output [ev] = [] \<Longrightarrow> segment (evs @ [ev]) s = segment evs s"
  by (simp add: segment_def)

lemma segment_thread_step:
  assumes "segment evs s" "thread_step ch t s = Some (t', s')"
  shows "segment (evs @ [Run i ch]) s'"
proof -
  from assms(1) obtain used lost where o:
    "child_output evs = used @ ss_stdout s @ lost" "lost \<noteq> [] \<longrightarrow> ss_stdoutEnd s \<noteq> None"
    by (auto simp: segment_def)
  from thread_step_output [OF assms(2)] obtain n where n: "ss_stdout s' = drop n (ss_stdout s)"
    by (auto simp: output_kept_def)
  have "child_output (evs @ [Run i ch]) = (used @ take n (ss_stdout s)) @ ss_stdout s' @ lost"
    using o(1) n by simp
  moreover have "lost \<noteq> [] \<longrightarrow> ss_stdoutEnd s' \<noteq> None"
    using o(2) thread_step_later [OF assms(2)] by (auto simp: later_def)
  moreover have "ss_closeOutputOnce s' \<longrightarrow> ss_stdoutEnd s' \<noteq> None"
    using assms(1) thread_step_output [OF assms(2)] by (simp add: segment_def output_kept_def)
  ultimately show ?thesis unfolding segment_def by blast
qed

lemma segment_env_step:
  assumes "segment evs s" "env_step e s = Some s'"
  shows "segment (evs @ [Environment e]) s'"
proof -
  from assms(1) obtain used lost where o:
    "child_output evs = used @ ss_stdout s @ lost" "lost \<noteq> [] \<longrightarrow> ss_stdoutEnd s \<noteq> None"
    "ss_closeOutputOnce s \<longrightarrow> ss_stdoutEnd s \<noteq> None"
    by (auto simp: segment_def)
  have same: ?thesis if "child_output [Environment e] = []" "ss_stdout s' = ss_stdout s"
      "ss_closeOutputOnce s' = ss_closeOutputOnce s" "ss_stdoutEnd s \<noteq> None \<longrightarrow> ss_stdoutEnd s' \<noteq> None"
    using that o unfolding segment_def by auto
  show ?thesis
  proof (cases e)
    case (ChildOutput d)
    with assms(2) o have "child_output (evs @ [Environment e]) = used @ ss_stdout s' @ []"
        "ss_closeOutputOnce s' \<longrightarrow> ss_stdoutEnd s' \<noteq> None"
      by (auto simp: env_step_def split: if_splits)
    then show ?thesis unfolding segment_def by blast
  next
    case (PipeLost n)
    with assms(2) have s': "ss_closeOutputOnce s" "s' = s\<lparr>ss_stdout := take n (ss_stdout s)\<rparr>"
      by (auto simp: env_step_def split: if_splits)
    with o PipeLost have "child_output (evs @ [Environment e]) = used @ ss_stdout s' @ (drop n (ss_stdout s) @ lost)"
      by (simp add: child_output_def)
    moreover have "ss_stdoutEnd s' \<noteq> None" using s' o(3) by simp
    ultimately show ?thesis unfolding segment_def by blast
  qed (rule same; use assms(2) in \<open>auto simp: env_step_def child_output_def split: if_splits\<close>)+
qed

lemma segment_run: "run evs start_world = Some w \<Longrightarrow> segment evs (w_session w)"
proof (induction evs arbitrary: w rule: rev_induct)
  case Nil
  then show ?case by (auto simp: start_world_def new_session_def segment_def)
next
  case (snoc ev evs)
  then obtain w1 where w1: "run evs start_world = Some w1" "world_step ev w1 = Some w"
    by (auto simp: run_snoc)
  note ih = snoc.IH [OF w1(1)]
  show ?case
  proof (cases ev)
    case (Run i ch)
    with w1(2) ih show ?thesis by (auto elim!: world_step_Run intro: segment_thread_step)
  next
    case (Environment e)
    with w1(2) ih show ?thesis by (auto simp: world_step_def intro: segment_env_step)
  qed (use w1(2) ih in \<open>auto simp: world_step_def segment_silent split: if_splits\<close>)
qed

section \<open>The step that read the answer\<close>

definition awaiting_frame :: "thread \<Rightarrow> transaction \<Rightarrow> bool" where
  "awaiting_frame t tx \<longleftrightarrow> th_pc t = Transacting tx \<and> tx_phase tx = TxRead"

definition next_frame :: "session \<Rightarrow> bytes \<Rightarrow> bool" where
  "next_frame s payload \<longleftrightarrow>
     frame_ready s \<and> fst (readFrame readBufferBytes MaxFrameBytes (stdout_reader s)) = Inr payload"

definition responds_with :: "Response \<Rightarrow> outcome \<Rightarrow> bool" where
  "responds_with response o' \<longleftrightarrow>
     (resp_Kind response = ResponseCompleted \<and> o' = Completed (resp_Result response)) \<or>
     (resp_Kind response = ResponseError \<and> o' = Failed (RemoteFailure (the (resp_RemoteError response))))"

text \<open>The outcomes that report what the child answered.\<close>

definition delivered :: "outcome \<Rightarrow> bool" where
  "delivered o' \<longleftrightarrow> (case o' of Completed _ \<Rightarrow> True | Failed (RemoteFailure _) \<Rightarrow> True | _ \<Rightarrow> False)"

lemma delivered_simps [simp]:
  "delivered (Completed r)" "delivered (Failed (RemoteFailure e))" "\<not> delivered Stopped"
  "\<not> delivered (Failed ContextError)" "\<not> delivered (Failed ErrSessionClosed)"
  "\<not> delivered (Failed (ErrSessionPoisoned c))" "\<not> delivered (Failed (RequestRejected p))"
  "\<not> delivered (Failed ErrRequestIDExhausted)" "\<not> delivered (Failed (TransportError operation x d))"
  by (simp_all add: delivered_def)

lemma fatal_not_delivered: "fatal t e \<Longrightarrow> \<not> delivered (Failed (refresh d e))"
  by (cases e) (simp_all add: delivered_def refresh_def fatal_def)

lemma handle_response_responds:
  "handle_response c response s = (Releasing o', s') \<Longrightarrow> delivered o' \<Longrightarrow> responds_with response o'"
  by (auto simp: handle_response_def poison_def responds_with_def split: call.splits ResponseKind.splits if_splits)

lemma step_to_response:
  assumes "thread_step ch t s = Some (t', s')" "th_pc t' = Transacting tx'" "tx_phase tx' = TxDone (Inr response)"
  shows "\<exists>ws tx payload. ch = Transact ws \<and> awaiting_frame t tx \<and> next_frame s payload \<and>
     DecodeResponse payload (the (th_id t)) (tx_workload tx) = Inr response \<and> th_id t' = th_id t"
proof (cases "th_pc t")
  case Numbering
  with assms show ?thesis by (auto simp: thread_step_def number_step_def split: sum.splits prod.splits)
next
  case (Transacting tx)
  then show ?thesis
    using assms
    by (auto simp: thread_step_def pc_step_def transact_step_def handle_response_def poison_def tx_step_def
        awaiting_frame_def next_frame_def wrapE_def split: step_splits)
next
  case Checking
  with assms show ?thesis by (auto simp: thread_step_def pc_step_def check_step_def split: option.splits)
next
  case (Reaping stage won o' tx)
  with assms show ?thesis
    by (auto simp: thread_step_def pc_step_def reap_step_def after_reap_def leave_def split: step_splits)
qed (use assms in \<open>auto simp: thread_step_def pc_step_def acquire_step_def exit_step_def diagnostics_step_def
  drain_step_def leave_def split: step_splits\<close>)

lemma step_to_releasing:
  assumes "life s t" "thread_step ch t s = Some (t', s')" "th_pc t' = Releasing o'" "delivered o'"
  shows "\<exists>tx response. th_pc t = Transacting tx \<and> tx_phase tx = TxDone (Inr response) \<and>
     responds_with response o' \<and> th_id t' = th_id t"
proof (cases "th_pc t")
  case Numbering
  with assms show ?thesis
    by (auto simp: thread_step_def number_step_def nextRequestID_def split: sum.splits prod.splits if_splits)
next
  case (Transacting tx)
  with assms show ?thesis
    by (auto simp: thread_step_def pc_step_def transact_step_def poison_def
        dest: handle_response_responds split: choice.splits tx_phase.splits sum.splits if_splits)
next
  case Checking
  with assms show ?thesis
    by (auto simp: thread_step_def pc_step_def check_step_def elim!: checkOpen_cases split: option.splits)
next
  case (Reaping stage won x tx)
  with assms show ?thesis
    by (auto simp: thread_step_def pc_step_def reap_step_def after_reap_def leave_def life_def
        dest: fatal_not_delivered split: step_splits)
next
  case (Draining x tx)
  with assms fatal_not_delivered show ?thesis
    by (auto simp: thread_step_def pc_step_def drain_step_def leave_def life_def delivered_def fatal_def
        split: choice.splits tx_phase.splits session_error.splits if_splits)
qed (use assms in \<open>auto simp: thread_step_def pc_step_def acquire_step_def exit_step_def diagnostics_step_def
  transportError_def split: step_splits\<close>)

lemma step_to_returned:
  assumes "life s t" "thread_step ch t s = Some (t', s')" "th_pc t' = Returned o'" "delivered o'"
  shows "th_pc t = Releasing o' \<and> th_id t' = th_id t"
proof (cases "th_pc t")
  case Numbering
  with assms show ?thesis
    by (auto simp: thread_step_def number_step_def nextRequestID_def split: sum.splits prod.splits if_splits)
next
  case (Transacting tx)
  with assms show ?thesis
    by (auto simp: thread_step_def pc_step_def transact_step_def poison_def handle_response_def
        split: step_splits)
next
  case Checking
  with assms show ?thesis by (auto simp: thread_step_def pc_step_def check_step_def split: option.splits)
next
  case (Reaping stage won x tx)
  with assms show ?thesis
    by (auto simp: thread_step_def pc_step_def reap_step_def after_reap_def leave_def life_def
        dest: fatal_not_delivered split: step_splits)
next
  case (Draining x tx)
  with assms show ?thesis
    by (auto simp: thread_step_def pc_step_def drain_step_def leave_def life_def
        split: choice.splits tx_phase.splits if_splits)
qed (use assms in \<open>auto simp: thread_step_def pc_step_def acquire_step_def exit_step_def diagnostics_step_def
  transportError_def split: step_splits\<close>)

text \<open>Call \<open>i\<close> read the response itself: at one step of the run its transaction was waiting for a
  frame, and the frame that came next in the child's output decoded to it under the call's own
  identifier.\<close>

definition read_by :: "event list \<Rightarrow> nat \<Rightarrow> thread \<Rightarrow> Response \<Rightarrow> bool" where
  "read_by evs i t response \<longleftrightarrow>
     (\<exists>before ws after w1 t1 tx payload.
        evs = before @ Run i (Transact ws) # after \<and> run before start_world = Some w1 \<and>
        w_threads w1 i = Some t1 \<and> awaiting_frame t1 tx \<and> th_call t1 = th_call t \<and> th_id t1 = th_id t \<and>
        next_frame (w_session w1) payload \<and>
        DecodeResponse payload (the (th_id t)) (tx_workload tx) = Inr response)"

definition origin :: "event list \<Rightarrow> nat \<Rightarrow> thread \<Rightarrow> bool" where
  "origin evs i t \<longleftrightarrow>
     (\<forall>tx response. th_pc t = Transacting tx \<longrightarrow> tx_phase tx = TxDone (Inr response) \<longrightarrow>
        read_by evs i t response) \<and>
     (\<forall>o'. th_pc t = Releasing o' \<or> th_pc t = Returned o' \<longrightarrow> delivered o' \<longrightarrow>
        (\<exists>response. read_by evs i t response \<and> responds_with response o'))"

lemma read_by_cong: "th_id u = th_id t \<Longrightarrow> th_call u = th_call t \<Longrightarrow> read_by evs i u r = read_by evs i t r"
  by (simp add: read_by_def)

lemma read_by_snoc: "read_by evs i t response \<Longrightarrow> read_by (evs @ [ev]) i t response"
  unfolding read_by_def by fastforce

lemma origin_snoc: "origin evs i t \<Longrightarrow> origin (evs @ [ev]) i t"
  unfolding origin_def by (blast intro: read_by_snoc)

lemma origin_cancelled: "origin evs i (t\<lparr>th_cancelled := b\<rparr>) = origin evs i t"
  by (simp add: origin_def read_by_def)

lemma origin_new: "origin evs i (new_thread c)"
  by (simp add: origin_def new_thread_def initial_pc_def)

lemma origin_own_step:
  assumes r: "run evs start_world = Some w" and t: "w_threads w i = Some t" and l: "life (w_session w) t"
    and st: "thread_step ch t (w_session w) = Some (t', s')" and o: "origin evs i t"
  shows "origin (evs @ [Run i ch]) i t'"
proof -
  have call: "th_call t' = th_call t" by (rule thread_step_call [OF st])
  have response: "read_by (evs @ [Run i ch]) i t' response"
    if "th_pc t' = Transacting tx'" "tx_phase tx' = TxDone (Inr response)" for tx' response
    using step_to_response [OF st that] r t call unfolding read_by_def by fastforce
  have releasing: "\<exists>response. read_by (evs @ [Run i ch]) i t' response \<and> responds_with response o'"
    if "th_pc t' = Releasing o'" "delivered o'" for o'
  proof -
    from step_to_releasing [OF l st that] obtain tx response where
      "th_pc t = Transacting tx" "tx_phase tx = TxDone (Inr response)" "responds_with response o'" "th_id t' = th_id t"
      by blast
    with o read_by_cong [OF this(4) call] show ?thesis
      by (auto simp: origin_def intro!: exI [of _ response] read_by_snoc)
  qed
  have returned: "\<exists>response. read_by (evs @ [Run i ch]) i t' response \<and> responds_with response o'"
    if "th_pc t' = Returned o'" "delivered o'" for o'
  proof -
    from step_to_returned [OF l st that] have k: "th_pc t = Releasing o'" "th_id t' = th_id t" by auto
    with o that(2) obtain response where "read_by evs i t response" "responds_with response o'"
      by (auto simp: origin_def)
    then show ?thesis
      using read_by_cong [OF k(2) call] by (auto intro!: exI [of _ response] read_by_snoc)
  qed
  show ?thesis using response releasing returned unfolding origin_def by blast
qed

lemma origin_run:
  "run evs start_world = Some w \<Longrightarrow> w_threads w i = Some t \<Longrightarrow> origin evs i t"
proof (induction evs arbitrary: w i t rule: rev_induct)
  case Nil
  then show ?case by (auto simp: start_world_def)
next
  case (snoc ev evs)
  then obtain w1 where w1: "run evs start_world = Some w1" "world_step ev w1 = Some w"
    by (auto simp: run_snoc)
  note ih = origin_snoc [OF snoc.IH [OF w1(1)], of _ _ ev]
  show ?case
  proof (cases ev)
    case (Begin j c)
    with w1(2) snoc.prems(2) ih show ?thesis
      by (auto simp: world_step_def origin_new split: if_splits)
  next
    case (Cancel j)
    with w1(2) snoc.prems(2) ih show ?thesis
      by (auto simp: world_step_def origin_cancelled split: if_splits)
  next
    case (Environment e)
    with w1(2) snoc.prems(2) ih show ?thesis by (auto simp: world_step_def)
  next
    case (Run j ch)
    with w1(2) obtain u u' s' where f: "w_threads w1 j = Some u" "thread_step ch u (w_session w1) = Some (u', s')"
        "w_threads w = (w_threads w1)(j \<mapsto> u')"
      by (auto elim: world_step_Run)
    show ?thesis
    proof (cases "i = j")
      case True
      with f snoc.prems(2) Run show ?thesis
        using origin_own_step [OF w1(1) f(1) _ f(2) snoc.IH [OF w1(1) f(1)]]
          life.all_threads [OF run_from_start [OF w1(1)] f(1)] by auto
    next
      case False
      with f snoc.prems(2) ih show ?thesis by simp
    qed
  qed
qed

lemma next_frame_bytes:
  assumes "next_frame s payload"
  shows "\<exists>terminator left. ss_stdout s = payload @ terminator @ left \<and>
     terminator \<in> {[newline], [carriage_return, newline]} \<and> newline \<notin> set payload \<and>
     left = after_line (ss_stdout s)"
proof -
  obtain rd where "readFrame readBufferBytes MaxFrameBytes (stdout_reader s) = (Inr payload, rd)"
    using assms by (cases "readFrame readBufferBytes MaxFrameBytes (stdout_reader s)") (auto simp: next_frame_def)
  moreover have "fst (readFrame readBufferBytes MaxFrameBytes (stdout_reader s)) =
      frame_spec MaxFrameBytes (ss_stdout s) (final (stdout_reader s))"
    using readFrame_loop_spec [of "[]" readBufferBytes MaxFrameBytes "stdout_reader s"]
    by (simp add: readFrame_def stdout_reader_def)
  ultimately have "newline \<in> set (ss_stdout s)" "payload = strip_cr (first_line (ss_stdout s))"
    by (auto simp: frame_spec_def Let_def split: if_splits)
  with strip_cr_decompose [of "ss_stdout s"] show ?thesis by blast
qed

lemma reading_step:
  assumes "w_threads w i = Some t" "awaiting_frame t tx" "next_frame (w_session w) payload"
  shows "\<exists>w'. world_step (Run i (Transact ws)) w = Some w' \<and>
     ss_stdout (w_session w') = after_line (ss_stdout (w_session w))"
  using assms readFrame_loop_spec [of "[]" readBufferBytes MaxFrameBytes "stdout_reader (w_session w)"]
  by (auto simp: world_step_def thread_step_def pc_step_def transact_step_def tx_step_def awaiting_frame_def
      next_frame_def readFrame_def stdout_reader_def split: prod.split sum.split)

lemma delivered_call:
  assumes "attributed s t" "th_pc t = Returned o'" "delivered o'"
  obtains workload requestID where "th_call t = Execute workload" "th_id t = Some requestID"
  using assms by (auto simp: attributed_def pc_ok_def remote_or_result_def delivered_def
      split: outcome.splits session_error.splits)

lemma answer_read:
  assumes r: "run evs start_world = Some w" and t: "w_threads w i = Some t"
    and p: "th_pc t = Returned o'" and d: "delivered o'"
  obtains workload projection requestID frame before ws after w1 t1 w2 used payload terminator lost response where
    "th_call t = Execute workload" "th_id t = Some requestID"
    "EncodeExecuteFrame requestID workload = Inr (frame, projection)"
    "evs = before @ Run i (Transact ws) # after" "run before start_world = Some w1" "w_threads w1 i = Some t1"
    "th_id t1 = Some requestID"
    "th_pc t1 = Transacting \<lparr>tx_frame = frame, tx_workload = Some projection, tx_phase = TxRead\<rparr>"
    "holds_token t1" "world_step (Run i (Transact ws)) w1 = Some w2"
    "ss_stdout (w_session w1) = payload @ terminator @ ss_stdout (w_session w2)"
    "terminator \<in> {[newline], [carriage_return, newline]}" "newline \<notin> set payload"
    "child_output before = used @ payload @ terminator @ ss_stdout (w_session w2) @ lost"
    "DecodeResponse payload requestID (Some projection) = Inr response" "responds_with response o'"
proof -
  have "attributed (w_session w) t"
    using tracked.all_threads [OF run_from_start [OF r] t] by (simp add: tracked_def)
  then obtain workload requestID where c: "th_call t = Execute workload" "th_id t = Some requestID"
    using p d by (rule delivered_call)
  obtain response before ws after w1 t1 tx payload where o:
    "responds_with response o'" "evs = before @ Run i (Transact ws) # after" "run before start_world = Some w1"
    "w_threads w1 i = Some t1" "awaiting_frame t1 tx" "th_call t1 = th_call t" "th_id t1 = th_id t"
    "next_frame (w_session w1) payload"
    "DecodeResponse payload (the (th_id t)) (tx_workload tx) = Inr response"
    using origin_run [OF r t] p d unfolding origin_def read_by_def by blast
  have "attributed (w_session w1) t1"
    using tracked.all_threads [OF run_from_start [OF o(3)] o(4)] by (simp add: tracked_def)
  then obtain frame projection where f: "EncodeExecuteFrame requestID workload = Inr (frame, projection)"
      "tx = \<lparr>tx_frame = frame, tx_workload = Some projection, tx_phase = TxRead\<rparr>"
    using o(5,6,7) c by (cases tx)
      (auto simp: attributed_def pc_ok_def tx_ok_def awaiting_frame_def encode_request_def split: sum.splits)
  have h: "holds_token t1" using o(5,6) c by (simp add: holds_token_def awaiting_frame_def)
  obtain w2 where w2: "world_step (Run i (Transact ws)) w1 = Some w2"
      "ss_stdout (w_session w2) = after_line (ss_stdout (w_session w1))"
    using reading_step [OF o(4,5,8)] by blast
  obtain terminator where b: "ss_stdout (w_session w1) = payload @ terminator @ ss_stdout (w_session w2)"
      "terminator \<in> {[newline], [carriage_return, newline]}" "newline \<notin> set payload"
    using next_frame_bytes [OF o(8)] w2(2) by auto
  obtain used lost where "child_output before = used @ ss_stdout (w_session w1) @ lost"
    using segment_run [OF o(3)] by (auto simp: segment_def)
  then have bytes: "child_output before = used @ payload @ terminator @ ss_stdout (w_session w2) @ lost"
    using b(1) by simp
  show thesis
    by (rule that [OF c f(1) o(2,3,4) _ _ h w2(1) b bytes])
      (use o(1,5,7,9) f(2) c in \<open>simp_all add: awaiting_frame_def\<close>)
qed

end
