(* ===== verification/SessionProps.thy ===== *)
theory SessionProps
  imports SessionLive SessionTrace
begin

text \<open>
  The properties of the worker session, each with a run of the model that meets its hypotheses.
\<close>

section \<open>Sample runs\<close>


definition sample_completed_text :: bytes where
  "sample_completed_text = quoted (''{~schema_version~:~paraflow.job-result/v1~,'' @
     ''~request_id~:~0000000000000001~,~kind~:~completed~,~workload_name~:~w~,'' @
     ''~execution~:{~backend~:~scalar~},~result~:'') @ sample_result_text @ ''}''"

definition sample_response :: Response where
  "sample_response = \<lparr>resp_Kind = ResponseCompleted, resp_Result = sample_result, resp_RemoteError = None\<rparr>"

lemma sample_completed_parse: "parse_json sample_completed_text = Parsed (JObj sample_completed_text
      [(''schema_version'', JStr JobResultSchema), (''request_id'', JStr ''0000000000000001''),
       (''kind'', JStr ''completed''), (''workload_name'', JStr ''w''),
       (''execution'', JObj (quoted ''{~backend~:~scalar~}'') [(''backend'', JStr ''scalar'')]),
       (''result'', JObj sample_result_text
   [(''schema_version'', JStr ''paraflow.result/v1''), (''accepted_count'', JStr ''0x0000000000000003''),
    (''score_sum'', JObj (quoted ''{~encoding~:~ieee754-binary64~,~bits~:~0x401a000000000000~}'')
        [(''encoding'', JStr ''ieee754-binary64''), (''bits'', JStr ''0x401a000000000000'')]),
    (''category_histogram'', JArr (quoted ''[~0x0000000000000001~,~0x0000000000000002~]'') [JStr ''0x0000000000000001'', JStr ''0x0000000000000002'']),
    (''accepted_id_sum'', JStr ''0x0000000000000010''), (''accepted_id_xor'', JStr ''0x6ebb399a18884447'')])]) []"
    by (simp add: sample_completed_text_def sample_result_text_def quoted_def json_eval JobResultSchema_def)

lemma sample_completed:
  "DecodeResponse sample_completed_text ''0000000000000001'' (Some sample_workload) = Inr sample_response"
proof -
  have "Decode sample_completed_text dec_responseEnvelope zero_envelope True = Inr
      (zero_envelope\<lparr>env_SchemaVersion := JobResultSchema, env_RequestID := ''0000000000000001'',
         env_Kind := ''completed'', env_WorkloadName := Some ''w'',
         env_Execution := quoted ''{~backend~:~scalar~}'', env_Result := sample_result_text\<rparr>)"
  proof (rule DecodeI [OF _ sample_completed_parse])
    show "utf8_valid sample_completed_text"
      by (rule utf8_valid_all_ascii) (simp add: sample_completed_text_def sample_result_text_def quoted_def quote_def byte_def)
  qed (simp_all add: json_eval dec_responseEnvelope_def zero_envelope_def JobResultSchema_def)
  moreover have "Decode (quoted ''{~backend~:~scalar~}'') dec_execution \<lparr>Backend = []\<rparr> True = Inr \<lparr>Backend = ''scalar''\<rparr>"
  proof (rule DecodeI)
    show "parse_json (quoted ''{~backend~:~scalar~}'') =
       Parsed (JObj (quoted ''{~backend~:~scalar~}'') [(''backend'', JStr ''scalar'')]) []"
      by (simp add: quoted_def json_eval)
    show "utf8_valid (quoted ''{~backend~:~scalar~}'')"
      by (rule utf8_valid_all_ascii) (simp add: quoted_def quote_def byte_def)
  qed (simp_all add: json_eval dec_execution_def)
  moreover have "length sample_completed_text \<le> MaxFrameBytes"
    by (simp add: sample_completed_text_def sample_result_text_def quoted_def MaxFrameBytes_def)
  moreover have "wp_Name sample_workload = ''w''" "present sample_result_text"
      "present (quoted ''{~backend~:~scalar~}'')" "\<not> present []"
    by (simp_all add: sample_workload_def present_def sample_result_text_def quoted_def)
  ultimately show ?thesis
    by (simp add: DecodeResponse_def decodeCompleted_def zero_envelope_def sample_DecodeResult
        sample_response_def BackendScalar_def)
qed


text \<open>One \<open>Execute\<close> from its start to its answer.\<close>

lemma readFrame_line:
  assumes "newline \<notin> set p" "p = [] \<or> last p \<noteq> carriage_return" "length p \<le> m"
  shows "readFrame b m \<lparr>unread = p @ [newline], final = e\<rparr> = (Inr p, \<lparr>unread = [], final = e\<rparr>)"
proof -
  have "frame_spec m (p @ [newline]) e = Inr p"
    using assms by (auto simp: frame_spec_def fits_def strip_cr_def)
  then have "fst (readFrame b m \<lparr>unread = p @ [newline], final = e\<rparr>) = Inr p"
    using readFrame_loop_spec [of "[]" b m "\<lparr>unread = p @ [newline], final = e\<rparr>"] by (simp add: readFrame_def)
  with assms readFrame_loop_spec [of "[]" b m "\<lparr>unread = p @ [newline], final = e\<rparr>"] show ?thesis
    by (cases "readFrame b m \<lparr>unread = p @ [newline], final = e\<rparr>") (auto simp: readFrame_def)
qed

lemma sample_line:
  "readFrame b MaxFrameBytes \<lparr>unread = sample_completed_text @ [newline], final = e\<rparr> =
     (Inr sample_completed_text, \<lparr>unread = [], final = e\<rparr>)"
  "newline \<in> set (sample_completed_text @ [newline])"
  by (rule readFrame_line) (simp_all add: sample_completed_text_def sample_result_text_def quoted_def quote_def newline_def carriage_return_def MaxFrameBytes_def)

definition sample_execute_run :: "nat \<Rightarrow> event list" where
  "sample_execute_run frame_length =
     [Begin 0 (Execute sample_workload_text), Begin 1 Shutdown, Run 0 Advance, Run 0 Advance, Run 0 Advance,
      Run 0 (Transact [(frame_length, None)]),
      Environment (ChildOutput (sample_completed_text @ [newline])),
      Run 0 (Transact []), Run 0 Advance, Run 0 Advance]"

lemma id_1: "FormatRequestID 1 = ''0000000000000001''"
  by (simp add: FormatRequestID_def sample_hex)

lemma sample_execute:
  "\<exists>n w. run (sample_execute_run n) start_world = Some w \<and>
     w_threads w 0 = Some \<lparr>th_call = Execute sample_workload_text, th_cancelled = False,
        th_id = Some (FormatRequestID 1), th_pc = Returned (Completed sample_result)\<rparr> \<and>
     w_threads w 1 = Some (new_thread Shutdown)"
proof -
  obtain frame where f: "EncodeExecuteFrame (FormatRequestID 1) sample_workload_text = Inr (frame, sample_workload)"
    using sample_EncodeExecuteFrame ..
  then obtain c cs where frame: "frame = c # cs" by (cases frame) (auto simp: EncodeExecuteFrame_Inr_iff)
  have d: "DecodeResponse sample_completed_text (FormatRequestID 1) (Some sample_workload) = Inr sample_response"
    by (simp add: id_1 sample_completed)
  show ?thesis
    by (rule exI [of _ "length frame"])
      (simp add: sample_execute_run_def start_world_def new_session_def world_step_def new_thread_def
        initial_pc_def step_defs check_step_def encode_request_def f d frame env_step_def frame_ready_def
        stdout_reader_def sample_line sample_response_def)
qed

text \<open>A \<open>Shutdown\<close> whose context is cancelled while its answer is outstanding.\<close>

definition sample_cancel_run :: "event list" where
  "sample_cancel_run =
     [Begin 0 Shutdown, Run 0 Advance, Run 0 Advance, Run 0 Advance, Cancel 0, Run 0 ContextDone,
      Run 0 Advance, Environment (ChildExit (Some ''signal: killed'')), Run 0 Advance,
      Environment DiagnosticsEnd, Run 0 Advance, Run 0 (Transact [(0, Some ''broken pipe'')]),
      Run 0 Advance, Run 0 Advance]"

lemma sample_cancel:
  "\<exists>w. run sample_cancel_run start_world = Some w \<and>
     w_threads w 0 = Some \<lparr>th_call = Shutdown, th_cancelled = True,
        th_id = Some (FormatRequestID 1), th_pc = Returned (Failed ContextError)\<rparr>"
proof -
  obtain frame where f: "EncodeShutdownFrame (FormatRequestID 1) = Inr frame"
    using EncodeShutdownFrame_Inr [of 1] ..
  then obtain c cs where frame: "frame = c # cs" by (cases frame) (auto simp: EncodeShutdownFrame_Inr)
  show ?thesis
    by (simp add: sample_cancel_run_def start_world_def new_session_def world_step_def new_thread_def
        initial_pc_def step_defs check_step_def encode_request_def f frame env_step_def)
qed

text \<open>An acknowledged \<open>Shutdown\<close> followed by a \<open>Close\<close>.\<close>

definition sample_shutdown_run :: "nat \<Rightarrow> event list" where
  "sample_shutdown_run frame_length =
     [Begin 0 Shutdown, Run 0 Advance, Run 0 Advance, Run 0 Advance,
      Run 0 (Transact [(frame_length, None)]),
      Environment (ChildOutput (sample_ack_text @ [newline])),
      Run 0 (Transact []), Run 0 Advance, Run 0 Advance,
      Environment (ChildExit None), Run 0 Advance, Environment DiagnosticsEnd, Run 0 Advance, Run 0 Advance]"

lemma sample_ack_line:
  "readFrame b MaxFrameBytes \<lparr>unread = sample_ack_text @ [newline], final = e\<rparr> =
     (Inr sample_ack_text, \<lparr>unread = [], final = e\<rparr>)"
  by (rule readFrame_line)
    (simp_all add: sample_ack_text_def quoted_def quote_def newline_def carriage_return_def MaxFrameBytes_def)

lemma sample_shutdown:
  "\<exists>n w. run (sample_shutdown_run n) start_world = Some w \<and>
     w_threads w 0 = Some \<lparr>th_call = Shutdown, th_cancelled = False,
        th_id = Some (FormatRequestID 1), th_pc = Returned Stopped\<rparr>"
proof -
  obtain frame where f: "EncodeShutdownFrame (FormatRequestID 1) = Inr frame"
    using EncodeShutdownFrame_Inr [of 1] ..
  then obtain c cs where frame: "frame = c # cs" by (cases frame) (auto simp: EncodeShutdownFrame_Inr)
  have d: "DecodeResponse sample_ack_text (FormatRequestID 1) None =
      Inr \<lparr>resp_Kind = ResponseShutdownAck, resp_Result = zero_result, resp_RemoteError = None\<rparr>"
    by (simp add: id_1 sample_DecodeResponse)
  show ?thesis
    by (rule exI [of _ "length frame"])
      (simp add: sample_shutdown_run_def start_world_def new_session_def world_step_def new_thread_def
        initial_pc_def step_defs check_step_def encode_request_def f d frame env_step_def frame_ready_def
        stdout_reader_def sample_ack_line)
qed

definition sample_remote_response :: Response where
  "sample_remote_response = \<lparr>resp_Kind = ResponseError, resp_Result = zero_result,
     resp_RemoteError = Some \<lparr>re_Code = ''execution_failed'', re_Message = ''m'', re_Issues = []\<rparr>\<rparr>"

definition sample_remote_thread :: thread where
  "sample_remote_thread = \<lparr>th_call = Execute sample_workload_text, th_cancelled = False,
     th_id = Some (FormatRequestID 1),
     th_pc = Transacting \<lparr>tx_frame = [], tx_workload = Some sample_workload,
       tx_phase = TxDone (Inr sample_remote_response)\<rparr>\<rparr>"

section \<open>Properties\<close>

text \<open>
  Claim C4. Callers are serialised: in every interleaving at most one call is between taking and
  giving back the token, so at most one request is in flight.
\<close>

theorem one_request_in_flight:
  assumes "reachable w" "w_threads w i = Some t" "w_threads w j = Some u" "holds_token t" "holds_token u"
  shows "i = j"
  using assms by (rule one_holder)

theorem one_request_in_flight_witness:
  "\<exists>w t. reachable w \<and> w_threads w 0 = Some t \<and> holds_token t \<and> w_threads w 1 = Some (new_thread Shutdown) \<and>
     \<not> (\<exists>i u. i \<noteq> 0 \<and> w_threads w i = Some u \<and> holds_token u)"
proof -
  let ?w = "the (run [Begin 0 Shutdown, Begin 1 Shutdown, Run 0 Advance] start_world)"
  have r: "run [Begin 0 Shutdown, Begin 1 Shutdown, Run 0 Advance] start_world = Some ?w"
    by (simp add: start_world_def new_session_def world_step_def new_thread_def initial_pc_def step_defs)
  obtain t where t: "w_threads ?w 0 = Some t" "holds_token t" "w_threads ?w 1 = Some (new_thread Shutdown)"
    by (simp add: start_world_def new_session_def world_step_def new_thread_def initial_pc_def step_defs
        holds_token_def)
  from one_request_in_flight [OF run_from_start [OF r] t(1) _ t(2)] t run_from_start [OF r] show ?thesis
    by blast
qed

text \<open>
  Claim C2. An answer is never attributed to the wrong request. When \<open>Execute\<close> returns a result or a
  structured remote error, then at one step of the run this call's own transaction, with its request
  written and the token held by no other call, read the next line of the child's output; that line is a
  piece of the bytes the child had written by then, it was removed from the stream, and it decodes
  under this call's request identifier and workload to the answer returned; the result is consistent
  with the workload, and the line decodes under no other call's identifier. So a stale or
  duplicated frame of one request cannot complete another.
\<close>

theorem answer_belongs_to_request:
  assumes "run evs start_world = Some w" "w_threads w i = Some t" "th_pc t = Returned o'" "delivered o'"
  shows "\<exists>workload projection requestID frame before ws after w1 t1 w2 used payload terminator lost response.
     th_call t = Execute workload \<and> th_id t = Some requestID \<and>
     EncodeExecuteFrame requestID workload = Inr (frame, projection) \<and>
     evs = before @ Run i (Transact ws) # after \<and> run before start_world = Some w1 \<and>
     w_threads w1 i = Some t1 \<and> th_id t1 = Some requestID \<and>
     th_pc t1 = Transacting \<lparr>tx_frame = frame, tx_workload = Some projection, tx_phase = TxRead\<rparr> \<and>
     (\<forall>j u. w_threads w1 j = Some u \<longrightarrow> holds_token u \<longrightarrow> j = i) \<and>
     world_step (Run i (Transact ws)) w1 = Some w2 \<and>
     ss_stdout (w_session w1) = payload @ terminator @ ss_stdout (w_session w2) \<and>
     terminator \<in> {[newline], [carriage_return, newline]} \<and> newline \<notin> set payload \<and>
     child_output before = used @ payload @ terminator @ ss_stdout (w_session w2) @ lost \<and>
     DecodeResponse payload requestID (Some projection) = Inr response \<and> responds_with response o' \<and>
     (\<forall>r. o' = Completed r \<longrightarrow> ProjectWorkload workload = Inr projection \<and> consistent_result projection r) \<and>
     (\<forall>j u other. j \<noteq> i \<longrightarrow> w_threads w j = Some u \<longrightarrow> th_id u = Some other \<longrightarrow>
        (\<forall>v x. DecodeResponse payload other v \<noteq> Inr x))"
proof (rule answer_read [OF assms])
  fix workload projection requestID frame before ws after w1 t1 w2 used payload terminator lost response
  assume c: "th_call t = Execute workload" "th_id t = Some requestID"
      "EncodeExecuteFrame requestID workload = Inr (frame, projection)"
    and b: "evs = before @ Run i (Transact ws) # after" "run before start_world = Some w1" "w_threads w1 i = Some t1"
      "th_id t1 = Some requestID"
      "th_pc t1 = Transacting \<lparr>tx_frame = frame, tx_workload = Some projection, tx_phase = TxRead\<rparr>"
      "holds_token t1" "world_step (Run i (Transact ws)) w1 = Some w2"
      "ss_stdout (w_session w1) = payload @ terminator @ ss_stdout (w_session w2)"
      "terminator \<in> {[newline], [carriage_return, newline]}" "newline \<notin> set payload"
      "child_output before = used @ payload @ terminator @ ss_stdout (w_session w2) @ lost"
    and d: "DecodeResponse payload requestID (Some projection) = Inr response" "responds_with response o'"
  have alone: "\<forall>j u. w_threads w1 j = Some u \<longrightarrow> holds_token u \<longrightarrow> j = i"
    using one_holder [OF run_from_start [OF b(2)] _ b(3) _ b(6)] by blast
  have foreign: "\<forall>j u other. j \<noteq> i \<longrightarrow> w_threads w j = Some u \<longrightarrow> th_id u = Some other \<longrightarrow>
      (\<forall>v x. DecodeResponse payload other v \<noteq> Inr x)"
    using distinct_ids [OF run_from_start [OF assms(1)], of _ i requestID] assms(2) c(2)
      DecodeResponse_same_id [OF d(1)] by (fastforce simp: id_of_def)
  have result: "\<forall>r. o' = Completed r \<longrightarrow> ProjectWorkload workload = Inr projection \<and> consistent_result projection r"
    using c(3) d(2) DecodeResponse_kind [OF d(1)] by (auto simp: responds_with_def EncodeExecuteFrame_Inr_iff)
  show ?thesis
    by (intro exI conjI, (fact c | fact b | fact d | fact alone | fact foreign | fact result)+)
qed

theorem answer_belongs_to_request_witness:
  "\<exists>n w before ws after used payload left response.
     run (sample_execute_run n) start_world = Some w \<and>
     w_threads w 0 = Some \<lparr>th_call = Execute sample_workload_text, th_cancelled = False,
        th_id = Some (FormatRequestID 1), th_pc = Returned (Completed sample_result)\<rparr> \<and>
     sample_execute_run n = before @ Run 0 (Transact ws) # after \<and>
     child_output before = used @ payload @ left \<and>
     DecodeResponse payload (FormatRequestID 1) (Some sample_workload) = Inr response \<and>
     responds_with response (Completed sample_result)"
proof -
  obtain n w where w: "run (sample_execute_run n) start_world = Some w"
    and t: "w_threads w 0 = Some \<lparr>th_call = Execute sample_workload_text, th_cancelled = False,
        th_id = Some (FormatRequestID 1), th_pc = Returned (Completed sample_result)\<rparr>"
    using sample_execute by blast
  have "th_pc \<lparr>th_call = Execute sample_workload_text, th_cancelled = False, th_id = Some (FormatRequestID 1),
      th_pc = Returned (Completed sample_result)\<rparr> = Returned (Completed sample_result)" by simp
  from answer_belongs_to_request [OF w t this delivered_simps(1)]
  obtain workload projection requestID before ws after used payload left response where
    d: "DecodeResponse payload requestID (Some projection) = Inr response"
      "responds_with response (Completed sample_result)"
    and b: "sample_execute_run n = before @ Run 0 (Transact ws) # after" "child_output before = used @ payload @ left"
    and "\<forall>r. Completed sample_result = Completed r \<longrightarrow>
        ProjectWorkload workload = Inr projection \<and> consistent_result projection r"
      "th_call \<lparr>th_call = Execute sample_workload_text, th_cancelled = False, th_id = Some (FormatRequestID 1),
         th_pc = Returned (Completed sample_result)\<rparr> = Execute workload"
      "th_id \<lparr>th_call = Execute sample_workload_text, th_cancelled = False, th_id = Some (FormatRequestID 1),
         th_pc = Returned (Completed sample_result)\<rparr> = Some requestID"
    by (elim exE conjE) (rule that; assumption)
  then have "projection = sample_workload" "requestID = FormatRequestID 1"
    by (auto simp: sample_ProjectWorkload)
  with w t b d show ?thesis by (intro exI conjI) (rule w, rule t, rule b, rule b, simp_all)
qed

text \<open>
  Claim C3. A broken exchange never leaves the child running. When a call returns a failure after its
  request was numbered, one of two things holds. Either the failure is fatal: a transport error of its
  request, a protocol error, an unexpected answer or a cancellation, and then the child's input is
  closed, it has been killed and waited for, its output is closed, its diagnostics are drained, and
  the session is no longer open. Or the failure spares the child, and it is one of three: the
  request was refused before anything was written, the child answered this request with a
  structured error, or the child acknowledged a shutdown and then exited with the reported failure,
  in which case it has been waited for, both pipe ends are closed, the diagnostics are drained
  and the session is closed.
\<close>

theorem broken_exchange_reaps:
  assumes "reachable w" "w_threads w i = Some t" "th_pc t = Returned (Failed e)"
  shows "(fatal t e \<longrightarrow> reaped (w_session w) \<and> ss_state (w_session w) \<noteq> sessionOpen) \<and>
     (th_id t \<noteq> None \<longrightarrow>
        (case e of
           RequestRejected p \<Rightarrow> True
         | RemoteFailure r \<Rightarrow>
             \<exists>response. answers (th_call t) (the (th_id t)) response \<and>
               resp_Kind response = ResponseError \<and> r = the (resp_RemoteError response)
         | TransportError operation c diagnostics \<Rightarrow>
             fatal t e \<or>
             (operation = ''exit after shutdown acknowledgement'' \<and> stopped (w_session w) \<and>
              (\<exists>x. c = ExitCause x \<and> ss_waitErr (w_session w) = Some x))
         | _ \<Rightarrow> fatal t e))"
proof -
  have "outcome_ok (w_session w) t (Failed e)" "remote_or_result t (Failed e)"
    using tracked.all_threads [OF assms(1,2)] assms(3)
    by (simp_all add: tracked_def life_def attributed_def pc_ok_def)
  then show ?thesis
    by (cases e) (auto simp: outcome_ok_def spared_def remote_or_result_def)
qed

theorem broken_exchange_reaps_witness:
  "\<exists>w. run sample_cancel_run start_world = Some w \<and> reaped (w_session w) \<and>
       ss_state (w_session w) \<noteq> sessionOpen"
proof -
  obtain w where w: "run sample_cancel_run start_world = Some w"
    and t: "w_threads w 0 = Some \<lparr>th_call = Shutdown, th_cancelled = True,
        th_id = Some (FormatRequestID 1), th_pc = Returned (Failed ContextError)\<rparr>"
    using sample_cancel by blast
  from broken_exchange_reaps [OF run_from_start [OF w] t] w show ?thesis by simp
qed

text \<open>
  Claim C12. A call that returns without an error from \<open>Shutdown\<close> or \<open>Close\<close> leaves a closed session whose
  child has exited, with both of the parent's pipe ends closed and the diagnostics drained; a
  \<open>Shutdown\<close> then saw a clean exit, and a \<open>Close\<close> killed.
\<close>

theorem stop_is_complete:
  assumes "reachable w" "w_threads w i = Some t" "th_pc t = Returned Stopped"
  shows "ss_state (w_session w) = sessionClosed \<and> ss_waitDone (w_session w) \<and>
     ss_closeInputOnce (w_session w) \<and> ss_closeOutputOnce (w_session w) \<and> ss_stderrDone (w_session w) \<and>
     (if th_call t = Close then ss_killOnce (w_session w) else ss_waitErr (w_session w) = None)"
  using life.all_threads [OF assms(1,2)] assms(3) by (simp add: life_def outcome_ok_def)

theorem stop_is_complete_witness:
  "\<exists>n w. run (sample_shutdown_run n) start_world = Some w \<and> ss_state (w_session w) = sessionClosed \<and>
         ss_waitErr (w_session w) = None"
proof -
  obtain n w where w: "run (sample_shutdown_run n) start_world = Some w"
    and t: "w_threads w 0 = Some \<lparr>th_call = Shutdown, th_cancelled = False,
        th_id = Some (FormatRequestID 1), th_pc = Returned Stopped\<rparr>"
    using sample_shutdown by blast
  from stop_is_complete [OF run_from_start [OF w] t] w show ?thesis by auto
qed

text \<open>
  Claim C8. The session only moves away from open: whatever happens next, a poisoned or closed session
  is not open again, a closed one stays closed, a call that checks it then fails without taking a
  request identifier; and a session is poisoned only for a cancellation, a transport or protocol
  error, never for a structured remote error.
\<close>

theorem session_never_reopens:
  assumes "reachable w" "run evs w = Some w'"
  shows "(ss_state (w_session w) \<noteq> sessionOpen \<longrightarrow> ss_state (w_session w') \<noteq> sessionOpen) \<and>
     (ss_state (w_session w) = sessionClosed \<longrightarrow> ss_state (w_session w') = sessionClosed) \<and>
     (ss_state (w_session w') = sessionPoisoned \<longrightarrow>
        (\<exists>c. ss_cause (w_session w') = Some c \<and> poisoning c)) \<and>
     (ss_state (w_session w') \<noteq> sessionOpen \<longrightarrow>
        (\<exists>e. checkOpen (w_session w') = Some (Some e, w_session w')))"
proof -
  have "(ss_state (w_session w) \<noteq> sessionOpen \<longrightarrow> ss_state (w_session w') \<noteq> sessionOpen) \<and>
     (ss_state (w_session w) = sessionClosed \<longrightarrow> ss_state (w_session w') = sessionClosed)"
    using assms(2)
    by (induction evs w rule: run.induct)
      (auto dest!: world_step_later simp: later_def split: option.splits)
  moreover have "poisoned_ok (w_session w')"
    by (rule poisoned_ok_reachable [OF run_reachable [OF assms]])
  ultimately show ?thesis
    by (auto simp: poisoned_ok_def checkOpen_def split: sessionState.split)
qed

lemma sample_poisoned:
  "\<exists>w w'. run (take 6 sample_cancel_run) start_world = Some w \<and>
     run [Begin 1 Close, Run 1 Advance] w = Some w' \<and> ss_state (w_session w) = sessionPoisoned"
proof -
  obtain frame where f: "EncodeShutdownFrame (FormatRequestID 1) = Inr frame"
    using EncodeShutdownFrame_Inr [of 1] ..
  show ?thesis
    by (simp add: sample_cancel_run_def start_world_def new_session_def world_step_def new_thread_def
      initial_pc_def step_defs check_step_def encode_request_def f env_step_def)
qed

theorem session_never_reopens_witness:
  "\<exists>w w'. run (take 6 sample_cancel_run) start_world = Some w \<and>
     run [Begin 1 Close, Run 1 Advance] w = Some w' \<and>
     ss_state (w_session w) = sessionPoisoned \<and> ss_state (w_session w') \<noteq> sessionOpen"
proof -
  obtain w w' where w: "run (take 6 sample_cancel_run) start_world = Some w"
    and w': "run [Begin 1 Close, Run 1 Advance] w = Some w'"
    and p: "ss_state (w_session w) = sessionPoisoned"
    using sample_poisoned by blast
  have "ss_state (w_session w) \<noteq> sessionOpen" using p by simp
  with session_never_reopens [OF run_from_start [OF w] w'] w w' p show ?thesis by blast
qed

text \<open>
  Claim C7. Request identifiers are the sixteen-digit forms of 1, 2, 3 and so on, and no two calls of a
  session, finished or not, ever have the same one; after 2^64 - 1 of them the session refuses
  to number another request.
\<close>

theorem request_ids_unique:
  assumes "reachable w" "w_threads w i = Some t" "th_id t = Some requestID"
  shows "(\<exists>n. requestID = FormatRequestID n \<and> n \<noteq> 0 \<and>
            (n < ss_sequence (w_session w) \<or> ss_sequence (w_session w) = 0)) \<and>
     (\<forall>j u. j \<noteq> i \<longrightarrow> w_threads w j = Some u \<longrightarrow> th_id u \<noteq> Some requestID) \<and>
     (ss_sequence (w_session w) = 0 \<longrightarrow> nextRequestID (w_session w) = (Inl ErrRequestIDExhausted, w_session w))"
proof -
  have "th_id u \<noteq> Some requestID" if "j \<noteq> i" "w_threads w j = Some u" for j u
    using distinct_ids [OF assms(1) that(1), of requestID] that assms(2,3) by (auto simp: id_of_def)
  moreover have "id_ok (ss_sequence (w_session w)) (Some requestID)"
    using tracked.all_threads [OF assms(1,2)] assms(3) by (simp add: tracked_def attributed_def)
  ultimately show ?thesis by (auto simp: id_ok_def nextRequestID_def)
qed

theorem request_ids_unique_witness:
  "\<exists>w t. reachable w \<and> w_threads w 0 = Some t \<and> th_id t = Some (FormatRequestID 1) \<and>
     (\<forall>j u. j \<noteq> 0 \<longrightarrow> w_threads w j = Some u \<longrightarrow> th_id u \<noteq> Some (FormatRequestID 1))"
proof -
  obtain n w where w: "run (sample_execute_run n) start_world = Some w"
    and t: "w_threads w 0 = Some \<lparr>th_call = Execute sample_workload_text, th_cancelled = False,
        th_id = Some (FormatRequestID 1), th_pc = Returned (Completed sample_result)\<rparr>"
    using sample_execute by blast
  from request_ids_unique [OF run_from_start [OF w] t] t run_from_start [OF w] show ?thesis by auto
qed

text \<open>
  Claim C9. Calls return: once the child has exited and its pipes have ended, a call that has entered
  the session, in any reachable world, returns. Whatever the others do meanwhile and whichever
  alternatives the call takes, in every continuation it takes at most 25 steps, and as long as it
  has not returned a step of it is possible; so every schedule that lets it go on makes it
  return, and without the others at most 25 steps take it there.
\<close>

theorem calls_return:
  assumes "reachable w" "w_threads w i = Some t" "child_gone (w_session w)" "th_pc t \<noteq> Acquiring"
  shows "(\<forall>evs w'. run evs w = Some w' \<longrightarrow>
            own_steps i evs \<le> 25 \<and>
            (\<exists>t'. w_threads w' i = Some t' \<and>
               ((\<exists>o'. th_pc t' = Returned o') \<or> (\<exists>ch. world_step (Run i ch) w' \<noteq> None)))) \<and>
     (\<exists>chs w' t' o'. length chs \<le> 25 \<and> run (map (Run i) chs) w = Some w' \<and>
        w_threads w' i = Some t' \<and> th_pc t' = Returned o')"
proof (intro conjI allI impI)
  fix evs w' assume r: "run evs w = Some w'"
  from run_rank [OF r assms(2)] pc_rank_bound [of "th_pc t"] show "own_steps i evs \<le> 25" by auto
  from run_never_stuck [OF r assms(2,3,4)]
  show "\<exists>t'. w_threads w' i = Some t' \<and>
      ((\<exists>o'. th_pc t' = Returned o') \<or> (\<exists>ch. world_step (Run i ch) w' \<noteq> None))" .
next
  show "\<exists>chs w' t' o'. length chs \<le> 25 \<and> run (map (Run i) chs) w = Some w' \<and>
      w_threads w' i = Some t' \<and> th_pc t' = Returned o'"
    using runs_to_return [OF assms(2,3)] assms(4) pc_rank_bound [of "th_pc t"] order_trans by blast
qed

theorem calls_return_witness:
  "\<exists>w chs w' t' o'. run [Begin 0 Shutdown, Run 0 Advance, Environment (ChildOutputEnd EOF),
         Environment DiagnosticsEnd, Environment (ChildExit None)] start_world = Some w \<and>
     run (map (Run 0) chs) w = Some w' \<and> w_threads w' 0 = Some t' \<and> th_pc t' = Returned o'"
proof -
  let ?evs = "[Begin 0 Shutdown, Run 0 Advance, Environment (ChildOutputEnd EOF),
         Environment DiagnosticsEnd, Environment (ChildExit None)]"
  have "\<exists>w t. run ?evs start_world = Some w \<and> w_threads w 0 = Some t \<and> child_gone (w_session w) \<and>
      th_pc t = Checking"
    by (simp add: start_world_def new_session_def world_step_def new_thread_def initial_pc_def step_defs
        env_step_def child_gone_def)
  then obtain w t where w: "run ?evs start_world = Some w" and t: "w_threads w 0 = Some t"
    and g: "child_gone (w_session w)" and "th_pc t \<noteq> Acquiring"
    by auto
  from calls_return [OF run_from_start [OF w] t g this(4)] w show ?thesis by blast
qed

text \<open>
  A structured remote error leaves the session as it was: the call that receives it gives back
  the token and returns the error, and touches nothing else.
\<close>

lemma remote_error_keeps_session:
  assumes "th_call t = Execute workload" "th_pc t = Transacting tx" "tx_phase tx = TxDone (Inr response)"
    "resp_Kind response = ResponseError"
  shows "\<exists>t1 t2. thread_step Advance t s = Some (t1, s) \<and> thread_step Advance t1 s = Some (t2, release s) \<and>
     th_pc t2 = Returned (Failed (RemoteFailure (the (resp_RemoteError response))))"
  using assms by (simp add: thread_step_def pc_step_def transact_step_def handle_response_def)

lemma remote_error_keeps_session_witness:
  "\<exists>t1 t2. thread_step Advance sample_remote_thread new_session = Some (t1, new_session) \<and>
     thread_step Advance t1 new_session = Some (t2, release new_session) \<and>
     th_pc t2 = Returned (Failed (RemoteFailure (the (resp_RemoteError sample_remote_response))))"
  by (rule remote_error_keeps_session [of _ sample_workload_text
        "\<lparr>tx_frame = [], tx_workload = Some sample_workload, tx_phase = TxDone (Inr sample_remote_response)\<rparr>"])
     (simp_all add: sample_remote_thread_def sample_remote_response_def)

text \<open>
  \<open>writeAll\<close> delivers a prefix of the frame, in order, and all of it when it reports success,
  however the writes are split.
\<close>

lemma writeAll_exact:
  assumes "writeAll ws data = Some (err, sent)"
  shows "(err = None \<longrightarrow> sent = data) \<and> (\<exists>rest. data = sent @ rest)"
  using assms by (rule writeAll_delivers)

lemma writeAll_exact_witness:
  "writeAll [(2, None), (1, None), (3, None)] ''frame!'' = Some (None, ''frame!'')"
proof -
  have "writeAll [(2, None), (1, None), (3, None)] ''frame!'' = Some (None, ''frame!'')" by simp
  from writeAll_exact [OF this] this show ?thesis by simp
qed

text \<open>
  Claim C13. \<open>Start\<close> leaks nothing: whichever call fails, and also when the context is cancelled after
  the launch, no pipe end stays open and a started process has been killed and waited for; on
  success exactly the three parent ends are open and the session is fresh and open.
\<close>

theorem Start_leaks_nothing:
  assumes "open_ends l0 = []" "\<not> proc_started l0"
  shows "case Start reply enginePath l0 of
       (Inl e, l) \<Rightarrow> open_ends l = [] \<and> (proc_started l \<longrightarrow> proc_killed l \<and> proc_waited l)
     | (Inr s, l) \<Rightarrow> set (open_ends l) = {parentInput, parentOutput, parentDiagnostics} \<and>
         proc_started l \<and> proc_killed l = proc_killed l0 \<and> s = new_session"
  using assms by (auto simp: Start_def opened_def closeFiles_def reap_launch_def Let_def split: option.split)

theorem Start_leaks_nothing_witness:
  "let l0 = \<lparr>open_ends = [], proc_started = False, proc_killed = False, proc_waited = False\<rparr>;
       reply = \<lparr>ctx_before = False, ctx_after = False, pipe_input = None, pipe_output = None,
         pipe_diagnostics = None, start_process = None,
         close_end = (\<lambda>f. if f = childOutput then Some ''EIO'' else None)\<rparr>
   in \<exists>l. Start reply ''engine'' l0 = (Inl (ReleaseChildHandles [''EIO'']), l) \<and> open_ends l = [] \<and>
        proc_killed l"
proof -
  let ?l0 = "\<lparr>open_ends = [], proc_started = False, proc_killed = False, proc_waited = False\<rparr>"
  let ?reply = "\<lparr>ctx_before = False, ctx_after = False, pipe_input = None, pipe_output = None,
         pipe_diagnostics = None, start_process = None,
         close_end = (\<lambda>f. if f = childOutput then Some ''EIO'' else None)\<rparr>"
  have "fst (Start ?reply ''engine'' ?l0) = Inl (ReleaseChildHandles [''EIO''])"
    and "proc_started (snd (Start ?reply ''engine'' ?l0))"
    by (simp_all add: Start_def opened_def closeFiles_def Let_def)
  with Start_leaks_nothing [of ?l0 ?reply "''engine''"] show ?thesis
    by (cases "Start ?reply ''engine'' ?l0") simp
qed

end
