(* ===== verification/Paths.thy ===== *)
theory Paths
  imports GoText "HOL-Library.Sublist"
begin

text \<open>
  What the controller uses of \<open>path\<close> and \<open>path/filepath\<close> on a Unix host: \<open>Clean\<close>, \<open>Ext\<close>, \<open>Join\<close>,
  \<open>Abs\<close> and \<open>Rel\<close>, by the components of a path; and the two functions of \<open>internal/benchmark/execute.go\<close>
  that tie a path to the repository root. The working directory is an argument.
\<close>

definition slash :: char where "slash = CHR 0x2F"

definition is_abs :: "bytes \<Rightarrow> bool" where
  "is_abs p = has_prefix p [slash]"

section \<open>Cleaning\<close>

text \<open>One component: empty ones and \<open>.\<close> vanish, \<open>..\<close> takes back the component before it, is dropped
  at the root, and stays in front of a relative path.\<close>

definition clean_step :: "bool \<Rightarrow> bytes \<Rightarrow> bytes list \<Rightarrow> bytes list" where
  "clean_step rooted c cs =
     (if c = [] \<or> c = ''.'' then cs
      else if c = ''..'' then
        (if cs \<noteq> [] \<and> last cs \<noteq> ''..'' then butlast cs
         else if rooted then cs else cs @ [c])
      else cs @ [c])"

definition path_Clean :: "bytes \<Rightarrow> bytes" where
  "path_Clean p =
     (let cs = fold (clean_step (is_abs p)) (split_on slash p) [] in
      if is_abs p then slash # join_with [slash] cs
      else if cs = [] then ''.'' else join_with [slash] cs)"

text \<open>The suffix of the last element that starts at its last dot.\<close>

definition path_Ext :: "bytes \<Rightarrow> bytes" where
  "path_Ext p =
     (let name = last (split_on slash p) in
      if CHR ''.'' \<in> set name then CHR ''.'' # rev (takeWhile (\<lambda>c. c \<noteq> CHR ''.'') (rev name)) else [])"

definition filepath_Join :: "bytes list \<Rightarrow> bytes" where
  "filepath_Join elems =
     (case dropWhile (\<lambda>e. e = []) elems of [] \<Rightarrow> [] | es \<Rightarrow> path_Clean (join_with [slash] es))"

text \<open>\<open>wd\<close> is the answer of \<open>os.Getwd\<close>.\<close>

definition filepath_Abs :: "bytes + bytes \<Rightarrow> bytes \<Rightarrow> bytes + bytes" where
  "filepath_Abs wd p =
     (if is_abs p then Inr (path_Clean p) else bindE wd (\<lambda>d. Inr (filepath_Join [d, p])))"

section \<open>Relative paths\<close>

definition components :: "bytes \<Rightarrow> bytes list" where
  "components p =
     (let q = (if is_abs p then tl p else p) in if q = [] then [] else split_on slash q)"

fun strip_common :: "'a list \<Rightarrow> 'a list \<Rightarrow> 'a list \<times> 'a list" where
  "strip_common (b # bs) (t # ts) = (if b = t then strip_common bs ts else (b # bs, t # ts))"
| "strip_common bs ts = (bs, ts)"

definition filepath_Rel :: "bytes \<Rightarrow> bytes \<Rightarrow> bytes option" where
  "filepath_Rel base targ =
     (let b = path_Clean base; t = path_Clean targ; b' = (if b = ''.'' then [] else b) in
      if t = b then Some ''.''
      else if is_abs b' \<noteq> is_abs t then None
      else
        (case strip_common (components b') (components t) of
           ([], ts) \<Rightarrow> Some (join_with [slash] ts)
         | (c # cs, ts) \<Rightarrow>
             if c = ''..'' then None
             else Some (join_with [slash] (replicate (Suc (length cs)) ''..'' @ ts))))"

section \<open>Paths of the repository\<close>

datatype path_error =
    ResolvePath bytes bytes
  | ComparePath bytes
  | EscapesRoot bytes

definition climbs :: "bytes \<Rightarrow> bool" where
  "climbs relative \<longleftrightarrow> relative = ''..'' \<or> has_prefix relative (''..'' @ [slash])"

definition identityPath :: "bytes + bytes \<Rightarrow> bytes \<Rightarrow> bytes \<Rightarrow> bytes" where
  "identityPath wd root p =
     (case filepath_Abs wd p of
        Inl _ \<Rightarrow> path_Clean p
      | Inr absolute \<Rightarrow>
          (case filepath_Rel root absolute of
             Some relative \<Rightarrow> if \<not> climbs relative then path_Clean relative else path_Clean absolute
           | None \<Rightarrow> path_Clean absolute))"

definition resolveRepositoryPath :: "bytes + bytes \<Rightarrow> bytes \<Rightarrow> bytes \<Rightarrow> path_error + bytes" where
  "resolveRepositoryPath wd root repositoryPath =
     bindE (wrapE (ResolvePath repositoryPath) (filepath_Abs wd (filepath_Join [root, repositoryPath]))) (\<lambda>absolute.
       (case filepath_Rel root absolute of
          None \<Rightarrow> Inl (ComparePath repositoryPath)
        | Some relative \<Rightarrow> if climbs relative then Inl (EscapesRoot repositoryPath) else Inr absolute))"

section \<open>Components of clean paths\<close>

definition proper :: "bytes list \<Rightarrow> bool" where
  "proper cs \<longleftrightarrow> list_all (\<lambda>c. c \<noteq> [] \<and> c \<noteq> ''.'' \<and> c \<noteq> ''..'' \<and> slash \<notin> set c) cs"

definition rooted :: "bytes list \<Rightarrow> bytes" where
  "rooted cs = slash # join_with [slash] cs"

lemma proper_simps [simp]:
  "proper []"
  "proper (c # cs) \<longleftrightarrow> (c \<noteq> [] \<and> c \<noteq> ''.'' \<and> c \<noteq> ''..'' \<and> slash \<notin> set c) \<and> proper cs"
  "proper (cs @ ds) \<longleftrightarrow> proper cs \<and> proper ds"
  by (simp_all add: proper_def)

lemma has_prefix_iff: "has_prefix s p \<longleftrightarrow> (\<exists>r. s = p @ r)"
  by (induction s p rule: has_prefix.induct) auto

lemma split_on_plain: "d \<notin> set c \<Longrightarrow> split_on d c = [c]"
  by (induction c) auto

lemma split_on_append: "d \<notin> set c \<Longrightarrow> split_on d (c @ d # s) = c # split_on d s"
  by (induction c) auto

lemma split_join: "cs \<noteq> [] \<Longrightarrow> list_all (\<lambda>c. d \<notin> set c) cs \<Longrightarrow> split_on d (join_with [d] cs) = cs"
proof (induction cs rule: induct_list012)
  case (3 c c' cs)
  then show ?case using split_on_append [of d c] by simp
qed (simp_all add: split_on_plain)

lemma proper_no_slash: "proper cs \<Longrightarrow> list_all (\<lambda>c. slash \<notin> set c) cs"
  by (auto simp: proper_def list_all_iff)

lemma split_proper: "proper cs \<Longrightarrow> split_on slash (join_with [slash] cs) = (if cs = [] then [[]] else cs)"
  using split_join proper_no_slash by (auto simp: split_join)

lemma clean_proper: "proper cs \<Longrightarrow> fold (clean_step r) cs acc = acc @ cs"
  by (induction cs arbitrary: acc) (simp_all add: clean_step_def)

lemma join_proper_Nil: "proper cs \<Longrightarrow> join_with [slash] cs = [] \<longleftrightarrow> cs = []"
  by (induction cs rule: induct_list012) auto

lemma not_abs_join: "proper cs \<Longrightarrow> \<not> is_abs (join_with [slash] cs)"
proof (induction cs rule: induct_list012)
  case (2 c)
  then show ?case by (cases c) (auto simp: is_abs_def)
next
  case (3 c c' cs)
  then show ?case by (cases c) (auto simp: is_abs_def)
qed (simp add: is_abs_def)

lemma is_abs_rooted [simp]: "is_abs (rooted cs)"
  by (simp add: is_abs_def rooted_def)

lemma split_rooted: "split_on slash (rooted cs) = [] # split_on slash (join_with [slash] cs)"
  by (simp add: rooted_def)

lemma Clean_rooted [simp]: "proper cs \<Longrightarrow> path_Clean (rooted cs) = rooted cs"
  by (simp add: path_Clean_def split_rooted split_proper clean_proper clean_step_def) (simp add: rooted_def)

lemma Clean_join: "proper cs \<Longrightarrow> cs \<noteq> [] \<Longrightarrow> path_Clean (join_with [slash] cs) = join_with [slash] cs"
  by (simp add: path_Clean_def not_abs_join split_proper clean_proper)

text \<open>A cleaned absolute path has only proper components.\<close>

lemma clean_step_proper:
  "slash \<notin> set c \<Longrightarrow> proper cs \<Longrightarrow> proper (clean_step True c cs)"
  by (cases cs rule: rev_cases) (auto simp: clean_step_def)

lemma clean_fold_proper:
  "list_all (\<lambda>c. slash \<notin> set c) ps \<Longrightarrow> proper cs \<Longrightarrow> proper (fold (clean_step True) ps cs)"
  by (induction ps arbitrary: cs) (auto simp: clean_step_proper)

lemma Clean_abs:
  assumes "is_abs p"
  obtains cs where "proper cs" "path_Clean p = rooted cs"
proof
  show "proper (fold (clean_step True) (split_on slash p) [])"
    by (rule clean_fold_proper) (auto simp: list_all_iff dest: split_on_pieces)
  show "path_Clean p = rooted (fold (clean_step True) (split_on slash p) [])"
    using assms by (simp add: path_Clean_def rooted_def)
qed

lemma abs_append: "is_abs p \<Longrightarrow> is_abs (p @ q)"
  by (cases p) (auto simp: is_abs_def)

text \<open>\<open>Getwd\<close> answers with an absolute path.\<close>

lemma Abs_rooted:
  assumes "filepath_Abs wd p = Inr q" "\<forall>d. wd = Inr d \<longrightarrow> is_abs d"
  obtains cs where "proper cs" "q = rooted cs"
proof (cases "is_abs p")
  case True
  with assms show thesis using that by (auto simp: filepath_Abs_def elim: Clean_abs)
next
  case False
  with assms obtain d where d: "wd = Inr d" "is_abs d" "q = filepath_Join [d, p]"
    by (auto simp: filepath_Abs_def result_simps)
  from d(2) have "d \<noteq> []" by (auto simp: is_abs_def)
  with d have "q = path_Clean (d @ slash # p)" by (simp add: filepath_Join_def)
  with that abs_append [OF d(2)] show thesis by (auto elim: Clean_abs)
qed

lemma split_on_join_append: "split_on d (s @ d # t) = split_on d s @ split_on d t"
  by (induction s) (auto split: list.splits)

lemma Join_rooted:
  assumes "proper rs"
  shows "filepath_Join [rooted rs, p] = rooted (fold (clean_step True) (split_on slash p) rs)"
proof -
  have "split_on slash (rooted rs @ slash # p) = [] # split_on slash (join_with [slash] rs) @ split_on slash p"
    by (simp add: split_on_join_append split_rooted)
  moreover have "is_abs (rooted rs @ slash # p)" by (simp add: abs_append)
  ultimately show ?thesis
    using assms
    by (simp add: filepath_Join_def path_Clean_def split_proper clean_proper clean_step_def)
      (auto simp: rooted_def clean_step_def)
qed

section \<open>Relative paths of clean absolute paths\<close>

lemma components_rooted: "proper cs \<Longrightarrow> components (rooted cs) = cs"
  by (auto simp: components_def Let_def split_proper join_proper_Nil) (auto simp: rooted_def split_proper join_proper_Nil)

lemma rooted_inject: "proper cs \<Longrightarrow> proper ds \<Longrightarrow> rooted cs = rooted ds \<longleftrightarrow> cs = ds"
  using components_rooted by metis

lemma rooted_not_dot [simp]: "rooted cs \<noteq> ''.''" "rooted cs \<noteq> []"
  by (simp_all add: rooted_def slash_def)

lemma strip_common_prefix: "strip_common bs ts = ([], ts') \<longleftrightarrow> ts = bs @ ts'"
  by (induction bs ts rule: strip_common.induct) auto

lemma strip_common_parts: "strip_common bs ts = (bs', ts') \<Longrightarrow> \<exists>c. bs = c @ bs' \<and> ts = c @ ts'"
  by (induction bs ts arbitrary: bs' ts' rule: strip_common.induct) (auto split: if_splits)

lemma Rel_rooted:
  assumes "proper rs" "proper ts"
  shows "filepath_Rel (rooted rs) (rooted ts) =
    (if ts = rs then Some ''.''
     else case strip_common rs ts of
       ([], us) \<Rightarrow> Some (join_with [slash] us)
     | (c # cs, us) \<Rightarrow> Some (join_with [slash] (replicate (Suc (length cs)) ''..'' @ us)))"
proof -
  obtain bs us where st: "strip_common rs ts = (bs, us)" by (cases "strip_common rs ts")
  with strip_common_parts assms(1) have "proper bs" by fastforce
  with st assms show ?thesis
    by (auto simp: filepath_Rel_def components_rooted rooted_inject Let_def split: list.split)
qed

lemma climbs_join:
  assumes "proper us" "us \<noteq> []"
  shows "\<not> climbs (join_with [slash] us)"
proof -
  obtain u us' where us: "us = u # us'" using assms(2) by (cases us) auto
  then have j: "join_with [slash] us = u @ (case us' of [] \<Rightarrow> [] | _ \<Rightarrow> slash # join_with [slash] us')"
    by (cases us') auto
  have u: "u \<noteq> []" "u \<noteq> ''.''" "u \<noteq> ''..''" "slash \<notin> set u" using assms us by auto
  show ?thesis
  proof
    assume "climbs (join_with [slash] us)"
    then obtain r where "join_with [slash] us = ''..'' @ r" "r = [] \<or> (\<exists>r'. r = slash # r')"
      unfolding climbs_def has_prefix_iff by fastforce
    with j have "(\<exists>r. u @ (case us' of [] \<Rightarrow> [] | _ \<Rightarrow> slash # join_with [slash] us') = ''..'' @ r \<and>
        (r = [] \<or> (\<exists>r'. r = slash # r')))" by metis
    with u show False
      by (cases u; cases "tl u"; cases "tl (tl u)") (auto simp: slash_def split: list.splits)
  qed
qed

lemma climbs_up: "climbs (join_with [slash] (replicate (Suc n) ''..'' @ us))"
proof (cases "replicate n ''..'' @ us")
  case Nil
  then show ?thesis by (simp add: climbs_def)
next
  case (Cons v vs)
  then have "join_with [slash] (replicate (Suc n) ''..'' @ us) = ''..'' @ slash # join_with [slash] (v # vs)"
    by simp
  then show ?thesis by (simp add: climbs_def)
qed

text \<open>The relative path climbs exactly when the target is not below the base.\<close>

lemma Rel_climbs:
  assumes "proper rs" "proper ts"
  obtains relative where "filepath_Rel (rooted rs) (rooted ts) = Some relative"
    "climbs relative \<longleftrightarrow> \<not> prefix rs ts"
proof (cases "strip_common rs ts")
  case (Pair bs us)
  show thesis
  proof (cases "ts = rs")
    case True
    with that assms show thesis by (auto simp: Rel_rooted climbs_def slash_def)
  next
    case False
    show thesis
    proof (cases bs)
      case Nil
      with Pair have "ts = rs @ us" using strip_common_prefix by blast
      moreover with False have "us \<noteq> []" by auto
      ultimately show thesis
        using that assms Pair Nil False climbs_join [of us] by (auto simp: Rel_rooted)
    next
      case (Cons b bs')
      then have "\<not> prefix rs ts" using Pair strip_common_prefix [of rs ts]
        by (metis Pair_inject list.discI prefixE)
      with that assms Pair Cons False climbs_up [of "length bs'" us] show thesis by (simp add: Rel_rooted)
    qed
  qed
qed

lemma Rel_below: "proper rs \<Longrightarrow> proper us \<Longrightarrow> us \<noteq> [] \<Longrightarrow>
    filepath_Rel (rooted rs) (rooted (rs @ us)) = Some (join_with [slash] us)"
  using strip_common_prefix [of rs "rs @ us" us] by (simp add: Rel_rooted)

section \<open>What the two functions guarantee\<close>

lemma resolveRepositoryPath_rooted:
  assumes "proper rs"
  shows "resolveRepositoryPath wd (rooted rs) p =
    (let ts = fold (clean_step True) (split_on slash p) rs in
     if prefix rs ts then Inr (rooted ts) else Inl (EscapesRoot p))"
proof -
  let ?ts = "fold (clean_step True) (split_on slash p) rs"
  have ts: "proper ?ts"
    by (rule clean_fold_proper [OF _ assms]) (auto simp: list_all_iff dest: split_on_pieces)
  obtain relative where "filepath_Rel (rooted rs) (rooted ?ts) = Some relative" "climbs relative \<longleftrightarrow> \<not> prefix rs ?ts"
    using Rel_climbs [OF assms ts] .
  with assms ts show ?thesis
    by (simp add: resolveRepositoryPath_def Join_rooted filepath_Abs_def Let_def)
qed

lemma resolve_proper:
  assumes "proper rs" "proper ps" "ps \<noteq> []"
  shows "resolveRepositoryPath wd (rooted rs) (join_with [slash] ps) = Inr (rooted (rs @ ps))"
  using assms by (simp add: resolveRepositoryPath_rooted split_proper clean_proper Let_def)

lemma identityPath_below:
  assumes "proper rs" "proper ps" "ps \<noteq> []" "filepath_Abs wd p = Inr (rooted (rs @ ps))"
  shows "identityPath wd (rooted rs) p = join_with [slash] ps"
  using assms by (simp add: identityPath_def Rel_below climbs_join Clean_join)

end
