(* ===== verification/Stats.thy ===== *)
theory Stats
  imports Prelude
begin

text \<open>
  \<open>internal/benchmark/stats.go\<close>: the integer statistics of a set of raw samples. An index that Go
  would panic on is \<open>None\<close>. \<open>sort.Slice\<close> on plain integers yields the one sorted permutation,
  whatever the algorithm, so it is \<^const>\<open>sort\<close>.
\<close>

record Sample =
  s_Ordinal :: u32
  s_GenerationNS :: u64
  s_PipelineNS :: u64
  s_EngineTotalNS :: u64

record Statistics =
  st_Count :: int
  st_MinimumNS :: u64
  st_MedianNS :: u64
  st_MedianAbsoluteDeviationNS :: u64
  st_MaximumNS :: u64

record Summary =
  su_Generation :: Statistics
  su_Pipeline :: Statistics
  su_EngineTotal :: Statistics

definition go_index :: "'a list \<Rightarrow> nat \<Rightarrow> 'a option" where
  "go_index xs i = (if i < length xs then Some (xs ! i) else None)"

definition integerMedian :: "u64 list \<Rightarrow> u64 option" where
  "integerMedian sorted_values =
     (let middle = length sorted_values div 2 in
      if length sorted_values mod 2 = 1 then go_index sorted_values middle
      else if middle = 0 then None
      else
        Option.bind (go_index sorted_values (middle - 1)) (\<lambda>lower.
        Option.bind (go_index sorted_values middle) (\<lambda>upper.
          Some (lower + (upper - lower) div 2))))"

definition deviation :: "u64 \<Rightarrow> u64 \<Rightarrow> u64" where
  "deviation median v = (if v \<ge> median then v - median else median - v)"

definition summarizeValues :: "u64 list \<Rightarrow> Statistics option" where
  "summarizeValues values =
     (let sorted_values = sort values in
      Option.bind (integerMedian sorted_values) (\<lambda>median.
      let deviations = sort (map (deviation median) sorted_values) in
      Option.bind (go_index sorted_values 0) (\<lambda>minimum.
      Option.bind (integerMedian deviations) (\<lambda>mad.
      Option.bind (go_index sorted_values (length sorted_values - 1)) (\<lambda>maximum.
        Some \<lparr>st_Count = int (length sorted_values), st_MinimumNS = minimum, st_MedianNS = median,
              st_MedianAbsoluteDeviationNS = mad, st_MaximumNS = maximum\<rparr>)))))"

text \<open>\<open>Inl ()\<close> is the error for an empty sample set.\<close>

definition Summarize :: "Sample list \<Rightarrow> (unit + Summary) option" where
  "Summarize samples =
     (if length samples = 0 then Some (Inl ())
      else
        Option.bind (summarizeValues (map s_GenerationNS samples)) (\<lambda>generation.
        Option.bind (summarizeValues (map s_PipelineNS samples)) (\<lambda>pipeline.
        Option.bind (summarizeValues (map s_EngineTotalNS samples)) (\<lambda>engineTotal.
          Some (Inr \<lparr>su_Generation = generation, su_Pipeline = pipeline,
                     su_EngineTotal = engineTotal\<rparr>)))))"

section \<open>The median\<close>

text \<open>For either parity the median is the floor of the midpoint of the two middle elements.\<close>

definition midpoint :: "u64 list \<Rightarrow> nat" where
  "midpoint xs = (unat (xs ! ((length xs - 1) div 2)) + unat (xs ! (length xs div 2))) div 2"

lemma unat_half_step:
  "lower \<le> (upper :: u64) \<Longrightarrow> unat (lower + (upper - lower) div 2) = (unat lower + unat upper) div 2"
proof -
  assume le: "lower \<le> upper"
  have d: "unat ((upper - lower) div 2) = (unat upper - unat lower) div 2"
    using le by (simp add: unat_div unat_sub_u64)
  have l: "unat lower \<le> unat upper" using le by (simp add: word_le_nat_alt)
  moreover have "unat lower + (unat upper - unat lower) div 2 < 18446744073709551616"
    using l unat_u64_less [of upper] by linarith
  ultimately show ?thesis using d by (simp add: unat_add_u64)
qed

lemma integerMedian_sorted:
  assumes "sorted xs" "xs \<noteq> []"
  obtains m where "integerMedian xs = Some m" "unat m = midpoint xs"
proof (cases "length xs mod 2 = 1")
  case True
  then have "(length xs - 1) div 2 = length xs div 2" by presburger
  with True assms that show thesis
    by (simp add: integerMedian_def go_index_def midpoint_def Let_def)
next
  case False
  with assms(2) have i: "length xs div 2 \<noteq> 0" "(length xs - 1) div 2 = length xs div 2 - 1"
    "length xs div 2 < length xs" "length xs div 2 - 1 < length xs"
    by (cases xs; simp; presburger)+
  have "xs ! (length xs div 2 - 1) \<le> xs ! (length xs div 2)"
    using assms(1) i by (intro sorted_nth_mono) simp_all
  with False i that show thesis
    by (simp add: integerMedian_def go_index_def midpoint_def Let_def unat_half_step)
qed

lemma midpoint_bounds:
  assumes "sorted xs" "xs \<noteq> []"
  shows "unat (xs ! ((length xs - 1) div 2)) \<le> midpoint xs" "midpoint xs \<le> unat (xs ! (length xs div 2))"
proof -
  have "xs ! ((length xs - 1) div 2) \<le> xs ! (length xs div 2)"
    using assms by (intro sorted_nth_mono) (simp_all add: div_le_mono)
  then show "unat (xs ! ((length xs - 1) div 2)) \<le> midpoint xs" "midpoint xs \<le> unat (xs ! (length xs div 2))"
    by (simp_all add: midpoint_def word_le_nat_alt)
qed

lemma sorted_ends:
  "sorted xs \<Longrightarrow> i < length xs \<Longrightarrow> xs ! 0 \<le> xs ! i \<and> xs ! i \<le> xs ! (length xs - 1)"
  by (auto intro: sorted_nth_mono)

lemma summarizeValues_Some:
  assumes "values \<noteq> []"
  obtains s where "summarizeValues values = Some s" "st_Count s = int (length values)"
    "st_MinimumNS s = Min (set values)" "st_MaximumNS s = Max (set values)"
    "unat (st_MedianNS s) = midpoint (sort values)"
    "unat (st_MedianAbsoluteDeviationNS s) = midpoint (sort (map (deviation (st_MedianNS s)) values))"
proof -
  let ?xs = "sort values"
  have xs: "sorted ?xs" "?xs \<noteq> []" using assms by (simp, metis length_0_conv length_sort)
  obtain m where m: "integerMedian ?xs = Some m" "unat m = midpoint ?xs"
    using xs by (rule integerMedian_sorted)
  let ?ds = "sort (map (deviation m) ?xs)"
  have ds: "?ds = sort (map (deviation m) values)" by (rule properties_for_sort) simp_all
  have "sorted ?ds" "?ds \<noteq> []" using assms by (simp, metis length_0_conv length_map length_sort)
  then obtain d where d: "integerMedian ?ds = Some d" "unat d = midpoint ?ds"
    by (rule integerMedian_sorted)
  have "?xs ! 0 = Min (set values)" "?xs ! (length values - 1) = Max (set values)"
  proof -
    have n: "0 < length values" using assms by simp
    have "?xs ! 0 \<le> v \<and> v \<le> ?xs ! (length values - 1)" if "v \<in> set values" for v
    proof -
      from that have "v \<in> set ?xs" by simp
      then obtain i where "i < length ?xs" "v = ?xs ! i" unfolding in_set_conv_nth by blast
      with sorted_ends [OF xs(1)] show ?thesis by simp
    qed
    moreover have "?xs ! 0 \<in> set ?xs" "?xs ! (length values - 1) \<in> set ?xs"
      by (rule nth_mem, use n in simp)+
    then have "?xs ! 0 \<in> set values" "?xs ! (length values - 1) \<in> set values" by simp_all
    ultimately show "?xs ! 0 = Min (set values)" "?xs ! (length values - 1) = Max (set values)"
      by (auto intro: Min_eqI [symmetric] Max_eqI [symmetric])
  qed
  with m d ds assms xs(2) that show thesis
    by (simp add: summarizeValues_def Let_def go_index_def)
qed

lemma summarizeValues_perm: "mset vs = mset ws \<Longrightarrow> summarizeValues vs = summarizeValues ws"
proof -
  assume "mset vs = mset ws"
  then have "sort vs = sort ws" by (intro properties_for_sort) simp_all
  then show ?thesis by (simp add: summarizeValues_def)
qed

lemma deviation_le:
  "lo \<le> v \<Longrightarrow> v \<le> hi \<Longrightarrow> lo \<le> m \<Longrightarrow> m \<le> hi \<Longrightarrow> unat (deviation m v) \<le> unat hi - unat lo"
  by (auto simp: deviation_def unat_sub_u64 word_le_nat_alt)

lemma midpoint_in:
  assumes "sorted xs" "xs \<noteq> []" "\<And>x. x \<in> set xs \<Longrightarrow> lo \<le> unat x \<and> unat x \<le> hi"
  shows "lo \<le> midpoint xs \<and> midpoint xs \<le> hi"
proof -
  have "(length xs - 1) div 2 < length xs" "length xs div 2 < length xs"
    using assms(2) by (cases xs; simp)+
  then have "xs ! ((length xs - 1) div 2) \<in> set xs" "xs ! (length xs div 2) \<in> set xs" by simp_all
  with assms(3) midpoint_bounds [OF assms(1,2)] show ?thesis by (meson order_trans)
qed

lemma filter_sort_length: "length (filter P (sort vs)) = length (filter P vs)"
  by (metis filter_sort length_sort)

lemma midpoint_splits:
  assumes "sorted xs" "xs \<noteq> []" "unat m = midpoint xs"
  shows "length xs \<le> 2 * length (filter (\<lambda>v. v \<le> m) xs)" "length xs \<le> 2 * length (filter (\<lambda>v. m \<le> v) xs)"
proof -
  let ?n = "length xs" let ?l = "(length xs - 1) div 2" let ?u = "length xs div 2"
  have n: "?l < ?n" "?u < ?n" using assms(2) by (cases xs; simp)+
  note b = midpoint_bounds [OF assms(1,2), folded assms(3), folded word_le_nat_alt]
  have "xs ! i \<le> m" if "i \<le> ?l" for i
    using sorted_nth_mono [OF assms(1) that n(1)] b(1) by (rule order_trans)
  then have "filter (\<lambda>v. v \<le> m) (take (Suc ?l) xs) = take (Suc ?l) xs"
    by (intro filter_True) (auto simp: in_set_conv_nth less_Suc_eq_le)
  then have "Suc ?l \<le> length (filter (\<lambda>v. v \<le> m) xs)"
    using n by (metis append_take_drop_id filter_append le_add1 length_append length_take min_absorb2 Suc_leI)
  then show "length xs \<le> 2 * length (filter (\<lambda>v. v \<le> m) xs)" by linarith
  have "m \<le> xs ! (?u + i)" if "?u + i < ?n" for i
    using b(2) sorted_nth_mono [OF assms(1) le_add1 that] by (rule order_trans)
  then have "filter (\<lambda>v. m \<le> v) (drop ?u xs) = drop ?u xs"
    by (intro filter_True) (auto simp: in_set_conv_nth)
  then have "?n - ?u \<le> length (filter (\<lambda>v. m \<le> v) xs)"
    by (metis append_take_drop_id filter_append le_add2 length_append length_drop)
  then show "length xs \<le> 2 * length (filter (\<lambda>v. m \<le> v) xs)" by linarith
qed

section \<open>Properties\<close>

text \<open>
  Claim C40. The summary of a non-empty set of values never panics and is exact: the minimum and maximum
  of the values, the floor of the midpoint of the two middle values as median, computed without
  overflow, and the same of the absolute deviations; minimum, median and maximum are in order,
  the deviation is at most the range, at least half of the values are on either side of the
  median, and the order in which the values were collected does not matter.
\<close>

theorem summarizeValues_exact:
  assumes "values \<noteq> []"
  shows "\<exists>s. summarizeValues values = Some s \<and> st_Count s = int (length values) \<and>
     st_MinimumNS s = Min (set values) \<and> st_MaximumNS s = Max (set values) \<and>
     unat (st_MedianNS s) = midpoint (sort values) \<and>
     unat (st_MedianAbsoluteDeviationNS s) = midpoint (sort (map (deviation (st_MedianNS s)) values)) \<and>
     st_MinimumNS s \<le> st_MedianNS s \<and> st_MedianNS s \<le> st_MaximumNS s \<and>
     unat (st_MedianAbsoluteDeviationNS s) \<le> unat (st_MaximumNS s) - unat (st_MinimumNS s) \<and>
     length values \<le> 2 * length (filter (\<lambda>v. v \<le> st_MedianNS s) values) \<and>
     length values \<le> 2 * length (filter (\<lambda>v. st_MedianNS s \<le> v) values) \<and>
     (\<forall>vs. mset vs = mset values \<longrightarrow> summarizeValues vs = Some s)"
proof -
  obtain s where s: "summarizeValues values = Some s" "st_Count s = int (length values)"
    "st_MinimumNS s = Min (set values)" "st_MaximumNS s = Max (set values)"
    "unat (st_MedianNS s) = midpoint (sort values)"
    "unat (st_MedianAbsoluteDeviationNS s) = midpoint (sort (map (deviation (st_MedianNS s)) values))"
    using assms by (rule summarizeValues_Some)
  have srt: "sorted (sort values)" "sort values \<noteq> []"
    using assms by (simp, metis length_0_conv length_sort)
  have bounds: "Min (set values) \<le> v \<and> v \<le> Max (set values)" if "v \<in> set values" for v
    using that by simp
  have "unat (Min (set values)) \<le> midpoint (sort values) \<and> midpoint (sort values) \<le> unat (Max (set values))"
  proof (rule midpoint_in [OF srt])
    fix x assume "x \<in> set (sort values)"
    then have "x \<in> set values" by simp
    from bounds [OF this]
    show "unat (Min (set values)) \<le> unat x \<and> unat x \<le> unat (Max (set values))"
      unfolding word_le_nat_alt .
  qed
  then have med: "st_MinimumNS s \<le> st_MedianNS s" "st_MedianNS s \<le> st_MaximumNS s"
    by (simp_all only: word_le_nat_alt s(3-5))
  let ?ds = "sort (map (deviation (st_MedianNS s)) values)"
  have "sorted ?ds" "?ds \<noteq> []" using assms by (simp, metis length_0_conv length_map length_sort)
  moreover have "unat x \<le> unat (st_MaximumNS s) - unat (st_MinimumNS s)" if "x \<in> set ?ds" for x
    using that med bounds s(3,4) by (auto intro!: deviation_le)
  ultimately have "midpoint ?ds \<le> unat (st_MaximumNS s) - unat (st_MinimumNS s)"
    using midpoint_in [of ?ds 0] by simp
  then have mad: "unat (st_MedianAbsoluteDeviationNS s) \<le> unat (st_MaximumNS s) - unat (st_MinimumNS s)"
    by (simp only: s(6))
  have perm: "\<forall>vs. mset vs = mset values \<longrightarrow> summarizeValues vs = Some s"
    using summarizeValues_perm s(1) by metis
  note splits = midpoint_splits [OF srt s(5), unfolded filter_sort_length length_sort]
  show ?thesis
    by (intro exI [of _ s] conjI) (fact s med mad splits perm)+
qed

theorem summarizeValues_exact_witness:
  "\<exists>s. summarizeValues [9, 4, 18446744073709551615, 7] = Some s \<and> st_Count s = 4 \<and>
       st_MinimumNS s \<le> st_MedianNS s"
  using summarizeValues_exact [of "[9, 4, 18446744073709551615, 7]"] by auto

text \<open>\<open>Summarize\<close> rejects exactly the empty sample set and never panics.\<close>

lemma Summarize_total:
  "Summarize samples =
     (if samples = [] then Some (Inl ())
      else Some (Inr \<lparr>su_Generation = the (summarizeValues (map s_GenerationNS samples)),
                      su_Pipeline = the (summarizeValues (map s_PipelineNS samples)),
                      su_EngineTotal = the (summarizeValues (map s_EngineTotalNS samples))\<rparr>))"
proof (cases "samples = []")
  case False
  then obtain a b c where "summarizeValues (map s_GenerationNS samples) = Some a"
    "summarizeValues (map s_PipelineNS samples) = Some b"
    "summarizeValues (map s_EngineTotalNS samples) = Some c"
    by (metis map_is_Nil_conv summarizeValues_Some)
  with False show ?thesis by (simp add: Summarize_def)
qed (simp add: Summarize_def)

lemma Summarize_not_None: "Summarize samples \<noteq> None"
  by (simp add: Summarize_total)

end
