(* ===== verification/Buildinfo.thy ===== *)
theory Buildinfo
  imports Prelude
begin

text \<open>
  \<open>internal/buildinfo/buildinfo.go\<close>: the source identity of the controller, from linker values and
  the version-control settings the Go toolchain embeds. \<open>debug.ReadBuildInfo\<close> is an argument: the
  list of its settings, or nothing.
\<close>

definition SourceClean :: bytes where "SourceClean = ''clean''"
definition SourceDirty :: bytes where "SourceDirty = ''dirty''"
definition SourceUnknown :: bytes where "SourceUnknown = ''unknown''"

record Info =
  Version :: bytes
  FullCommit :: bytes
  SourceState :: bytes

definition normalize :: "Info \<Rightarrow> Info" where
  "normalize info =
     (let info1 = (if Version info = [] then info\<lparr>Version := ''dev''\<rparr> else info);
          info2 = (if FullCommit info1 = [] then info1\<lparr>FullCommit := ''unknown''\<rparr> else info1) in
      if SourceState info2 = SourceClean \<or> SourceState info2 = SourceDirty then info2
      else info2\<lparr>SourceState := SourceUnknown\<rparr>)"

text \<open>A Go map read gives the empty string for an absent key.\<close>

definition setting :: "(bytes \<rightharpoonup> bytes) \<Rightarrow> bytes \<Rightarrow> bytes" where
  "setting settings key = (case settings key of None \<Rightarrow> [] | Some v \<Rightarrow> v)"

definition resolve :: "Info \<Rightarrow> (bytes \<rightharpoonup> bytes) \<Rightarrow> Info" where
  "resolve linked settings =
     (let resolved = normalize linked;
          revision = setting settings ''vcs.revision'';
          resolved1 = (if revision \<noteq> [] then resolved\<lparr>FullCommit := revision\<rparr> else resolved) in
      if setting settings ''vcs.modified'' = ''true'' then resolved1\<lparr>SourceState := SourceDirty\<rparr>
      else if setting settings ''vcs.modified'' = ''false'' then resolved1\<lparr>SourceState := SourceClean\<rparr>
      else resolved1)"

text \<open>The settings are stored one by one, so a repeated key keeps its last value.\<close>

definition Resolve :: "Info \<Rightarrow> (bytes \<times> bytes) list option \<Rightarrow> Info" where
  "Resolve linked build =
     resolve linked
       (case build of
          None \<Rightarrow> Map.empty
        | Some settings \<Rightarrow> fold (\<lambda>(k, v) m. m(k \<mapsto> v)) settings Map.empty)"

definition Info_String :: "Info \<Rightarrow> bytes" where
  "Info_String info =
     (let info' = normalize info in
      Version info' @ '' (commit '' @ FullCommit info' @ '', source '' @ SourceState info' @ '')'')"

section \<open>Properties\<close>

definition normal :: "Info \<Rightarrow> bool" where
  "normal info \<longleftrightarrow>
     Version info \<noteq> [] \<and> FullCommit info \<noteq> [] \<and>
     SourceState info \<in> {SourceClean, SourceDirty, SourceUnknown}"

lemma normalize_normal: "normal (normalize info)"
  by (simp add: normal_def normalize_def Let_def)

lemma normalize_id: "normal info \<Longrightarrow> normalize info = info"
  by (auto simp: normal_def normalize_def Let_def)

lemma resolve_normal: "normal (resolve linked settings)"
  using normalize_normal [of linked] by (auto simp: resolve_def normal_def Let_def)

text \<open>
  Claim C39. A resolved identity is always complete: version and commit are not empty and the source
  state is one of clean, dirty and unknown. The toolchain's metadata takes precedence: a recorded
  revision is the commit, a recorded modification flag is the state, and without them the linker's
  values are kept; resolving a resolved identity against the same settings changes nothing, and
  neither does the normalisation that rendering it performs.
\<close>

theorem resolve_complete:
  "normal (resolve linked settings) \<and>
   (\<forall>r. settings ''vcs.revision'' = Some r \<and> r \<noteq> [] \<longrightarrow> FullCommit (resolve linked settings) = r) \<and>
   (settings ''vcs.modified'' = Some ''true'' \<longrightarrow> SourceState (resolve linked settings) = SourceDirty) \<and>
   (settings ''vcs.modified'' = Some ''false'' \<longrightarrow> SourceState (resolve linked settings) = SourceClean) \<and>
   (settings ''vcs.revision'' = None \<and> settings ''vcs.modified'' = None \<longrightarrow>
      resolve linked settings = normalize linked) \<and>
   resolve (resolve linked settings) settings = resolve linked settings \<and>
   normalize (resolve linked settings) = resolve linked settings"
proof -
  have n: "normalize (resolve linked settings) = resolve linked settings"
    by (rule normalize_id [OF resolve_normal])
  have "resolve (resolve linked settings) settings = resolve linked settings"
    unfolding resolve_def [of "resolve linked settings"] n
    by (auto simp: resolve_def Let_def)
  with n resolve_normal show ?thesis by (auto simp: resolve_def setting_def Let_def)
qed

theorem resolve_complete_witness:
  "FullCommit (resolve \<lparr>Version = [], FullCommit = ''dev'', SourceState = ''x''\<rparr>
      [''vcs.revision'' \<mapsto> ''abc'', ''vcs.modified'' \<mapsto> ''true'']) = ''abc''"
  using resolve_complete [of "\<lparr>Version = [], FullCommit = ''dev'', SourceState = ''x''\<rparr>"
      "[''vcs.revision'' \<mapsto> ''abc'', ''vcs.modified'' \<mapsto> ''true'']"]
  by simp

end
