(* ===== verification/Evidence.thy ===== *)
theory Evidence
  imports Stats Protocol Buildinfo
begin

text \<open>
  The data of \<open>internal/benchmark/types.go\<close> and \<open>profile_types.go\<close>: requests, what the engine
  answers, and how both cross the process boundary as JSON.
\<close>

section \<open>Constants\<close>

definition RequestSchema :: bytes where "RequestSchema = ''paraflow.benchmark-request/v1''"
definition EngineResultSchema :: bytes where "EngineResultSchema = ''paraflow.benchmark-engine-result/v1''"
definition BenchmarkClock :: bytes where "BenchmarkClock = ''std::time::Instant''"
definition BenchmarkTimeUnit :: bytes where "BenchmarkTimeUnit = ''nanoseconds''"
definition BenchmarkOracle :: bytes where "BenchmarkOracle = ''rust-scalar-v1''"
definition BenchmarkComparison :: bytes where "BenchmarkComparison = ''exact''"
definition ProfileRequestSchema :: bytes where "ProfileRequestSchema = ''paraflow.profile-request/v1''"
definition ProfileEngineResultSchema :: bytes where
  "ProfileEngineResultSchema = ''paraflow.profile-engine-result/v1''"
definition ProfileTopology :: bytes where "ProfileTopology = ''materialized-stage-passes-v1''"
definition ProfileObserver :: bytes where "ProfileObserver = ''boundary-timers-v1''"

section \<open>Records\<close>

record Execution =
  be_Backend :: bytes

record Sampling =
  sm_WarmupIterations :: u32
  sm_SampleIterations :: u32

text \<open>\<open>ProfileRequest\<close> has the same fields as \<open>Request\<close>; only the schema differs.\<close>

record Request =
  rq_SchemaVersion :: bytes
  rq_ExperimentID :: bytes
  rq_ScenarioName :: bytes
  rq_Execution :: Execution
  rq_Sampling :: Sampling
  rq_Workload :: bytes

record Timing =
  ti_Clock :: bytes
  ti_Unit :: bytes
  ti_ProcessStartInSamples :: bool
  ti_ExperimentTotalNS :: u64

record ProfileTiming = Timing +
  ti_Topology :: bytes
  ti_Observer :: bytes

record Correctness =
  co_Status :: bytes
  co_Oracle :: bytes
  co_Comparison :: bytes

record EngineBuild =
  eb_Version :: bytes
  eb_Profile :: bytes
  eb_Target :: bytes
  eb_Rustc :: bytes
  eb_SourceCommit :: bytes
  eb_SourceState :: bytes

record ProfileSample =
  ps_Ordinal :: u32
  ps_GenerationNS :: u64
  ps_NormalizeNS :: u64
  ps_ScoreNS :: u64
  ps_FilterNS :: u64
  ps_AggregateNS :: u64
  ps_StageSumNS :: u64
  ps_ProfileTotalNS :: u64

text \<open>\<open>EngineResult\<close> and \<open>ProfileEngineResult\<close> have the same fields, over their own types of timing
  and sample.\<close>

record ('t, 's) engine_result =
  er_SchemaVersion :: bytes
  er_ExperimentID :: bytes
  er_ScenarioName :: bytes
  er_WorkloadName :: bytes
  er_Execution :: Execution
  er_Sampling :: Sampling
  er_Timing :: 't
  er_Correctness :: Correctness
  er_EngineBuild :: EngineBuild
  er_Samples :: "'s list"
  er_Result :: bytes

type_synonym EngineResult = "(Timing, Sample) engine_result"
type_synonym ProfileEngineResult = "(ProfileTiming, ProfileSample) engine_result"

section \<open>Nanoseconds\<close>

definition parseCanonicalHex :: "bytes \<Rightarrow> u64 option" where
  "parseCanonicalHex encoded =
     (if length encoded \<noteq> 18 \<or> \<not> has_prefix encoded ''0x'' then None
      else if \<not> list_all lower_hex_rune (runes (drop 2 encoded)) then None
      else map_option of_nat (parse_uint 16 64 (drop 2 encoded)))"

definition Nanoseconds_MarshalJSON :: "u64 \<Rightarrow> bytes" where
  "Nanoseconds_MarshalJSON v = quote # ''0x'' @ format_016x v @ [quote]"

definition Nanoseconds_UnmarshalJSON :: "bytes \<Rightarrow> u64 option" where
  "Nanoseconds_UnmarshalJSON data =
     (case unmarshal_string data of None \<Rightarrow> None | Some encoded \<Rightarrow> parseCanonicalHex encoded)"

definition dec_Nanoseconds :: "u64 jdec" where
  "dec_Nanoseconds j old = Nanoseconds_UnmarshalJSON (raw_of j)"

section \<open>Decoding a response\<close>

definition dec_Execution :: "bool \<Rightarrow> Execution jdec" where
  "dec_Execution strict = dec_struct strict [(''backend'', on_field be_Backend be_Backend_update dec_string)]"

definition dec_Sampling :: "bool \<Rightarrow> Sampling jdec" where
  "dec_Sampling strict = dec_struct strict
     [(''warmup_iterations'', on_field sm_WarmupIterations sm_WarmupIterations_update dec_u32),
      (''sample_iterations'', on_field sm_SampleIterations sm_SampleIterations_update dec_u32)]"

definition dec_Timing :: "bool \<Rightarrow> Timing jdec" where
  "dec_Timing strict = dec_struct strict
     [(''clock'', on_field ti_Clock ti_Clock_update dec_string),
      (''unit'', on_field ti_Unit ti_Unit_update dec_string),
      (''process_start_in_samples'', on_field ti_ProcessStartInSamples ti_ProcessStartInSamples_update dec_bool),
      (''experiment_total_ns'', on_field ti_ExperimentTotalNS ti_ExperimentTotalNS_update dec_Nanoseconds)]"

definition dec_ProfileTiming :: "bool \<Rightarrow> ProfileTiming jdec" where
  "dec_ProfileTiming strict = dec_struct strict
     [(''clock'', on_field ti_Clock ti_Clock_update dec_string),
      (''unit'', on_field ti_Unit ti_Unit_update dec_string),
      (''process_start_in_samples'', on_field ti_ProcessStartInSamples ti_ProcessStartInSamples_update dec_bool),
      (''topology'', on_field ti_Topology ti_Topology_update dec_string),
      (''observer'', on_field ti_Observer ti_Observer_update dec_string),
      (''experiment_total_ns'', on_field ti_ExperimentTotalNS ti_ExperimentTotalNS_update dec_Nanoseconds)]"

definition dec_Correctness :: "bool \<Rightarrow> Correctness jdec" where
  "dec_Correctness strict = dec_struct strict
     [(''status'', on_field co_Status co_Status_update dec_string),
      (''oracle'', on_field co_Oracle co_Oracle_update dec_string),
      (''comparison'', on_field co_Comparison co_Comparison_update dec_string)]"

definition dec_EngineBuild :: "bool \<Rightarrow> EngineBuild jdec" where
  "dec_EngineBuild strict = dec_struct strict
     [(''version'', on_field eb_Version eb_Version_update dec_string),
      (''profile'', on_field eb_Profile eb_Profile_update dec_string),
      (''target'', on_field eb_Target eb_Target_update dec_string),
      (''rustc'', on_field eb_Rustc eb_Rustc_update dec_string),
      (''source_commit'', on_field eb_SourceCommit eb_SourceCommit_update dec_string),
      (''source_state'', on_field eb_SourceState eb_SourceState_update dec_string)]"

definition dec_Sample :: "bool \<Rightarrow> Sample jdec" where
  "dec_Sample strict = dec_struct strict
     [(''ordinal'', on_field s_Ordinal s_Ordinal_update dec_u32),
      (''generation_ns'', on_field s_GenerationNS s_GenerationNS_update dec_Nanoseconds),
      (''pipeline_ns'', on_field s_PipelineNS s_PipelineNS_update dec_Nanoseconds),
      (''engine_total_ns'', on_field s_EngineTotalNS s_EngineTotalNS_update dec_Nanoseconds)]"

definition dec_ProfileSample :: "bool \<Rightarrow> ProfileSample jdec" where
  "dec_ProfileSample strict = dec_struct strict
     [(''ordinal'', on_field ps_Ordinal ps_Ordinal_update dec_u32),
      (''generation_ns'', on_field ps_GenerationNS ps_GenerationNS_update dec_Nanoseconds),
      (''normalize_ns'', on_field ps_NormalizeNS ps_NormalizeNS_update dec_Nanoseconds),
      (''score_ns'', on_field ps_ScoreNS ps_ScoreNS_update dec_Nanoseconds),
      (''filter_ns'', on_field ps_FilterNS ps_FilterNS_update dec_Nanoseconds),
      (''aggregate_ns'', on_field ps_AggregateNS ps_AggregateNS_update dec_Nanoseconds),
      (''stage_sum_ns'', on_field ps_StageSumNS ps_StageSumNS_update dec_Nanoseconds),
      (''profile_total_ns'', on_field ps_ProfileTotalNS ps_ProfileTotalNS_update dec_Nanoseconds)]"

definition dec_engine_result :: "bool \<Rightarrow> 't jdec \<Rightarrow> 's \<Rightarrow> 's jdec \<Rightarrow> ('t, 's) engine_result jdec" where
  "dec_engine_result strict dec_timing zero_sample dec_sample = dec_struct strict
     [(''schema_version'', on_field er_SchemaVersion er_SchemaVersion_update dec_string),
      (''experiment_id'', on_field er_ExperimentID er_ExperimentID_update dec_string),
      (''scenario_name'', on_field er_ScenarioName er_ScenarioName_update dec_string),
      (''workload_name'', on_field er_WorkloadName er_WorkloadName_update dec_string),
      (''execution'', on_field er_Execution er_Execution_update (dec_Execution strict)),
      (''sampling'', on_field er_Sampling er_Sampling_update (dec_Sampling strict)),
      (''timing'', on_field er_Timing er_Timing_update dec_timing),
      (''correctness'', on_field er_Correctness er_Correctness_update (dec_Correctness strict)),
      (''engine_build'', on_field er_EngineBuild er_EngineBuild_update (dec_EngineBuild strict)),
      (''samples'', on_field er_Samples er_Samples_update (dec_slice zero_sample dec_sample)),
      (''result'', on_field er_Result er_Result_update dec_raw)]"

definition zero_Sample :: Sample where
  "zero_Sample = \<lparr>s_Ordinal = 0, s_GenerationNS = 0, s_PipelineNS = 0, s_EngineTotalNS = 0\<rparr>"

definition zero_ProfileSample :: ProfileSample where
  "zero_ProfileSample = \<lparr>ps_Ordinal = 0, ps_GenerationNS = 0, ps_NormalizeNS = 0, ps_ScoreNS = 0,
     ps_FilterNS = 0, ps_AggregateNS = 0, ps_StageSumNS = 0, ps_ProfileTotalNS = 0\<rparr>"

definition zero_engine_result :: "'t \<Rightarrow> ('t, 's) engine_result" where
  "zero_engine_result zero_timing = \<lparr>er_SchemaVersion = [], er_ExperimentID = [], er_ScenarioName = [],
     er_WorkloadName = [], er_Execution = \<lparr>be_Backend = []\<rparr>,
     er_Sampling = \<lparr>sm_WarmupIterations = 0, sm_SampleIterations = 0\<rparr>, er_Timing = zero_timing,
     er_Correctness = \<lparr>co_Status = [], co_Oracle = [], co_Comparison = []\<rparr>,
     er_EngineBuild = \<lparr>eb_Version = [], eb_Profile = [], eb_Target = [], eb_Rustc = [],
       eb_SourceCommit = [], eb_SourceState = []\<rparr>,
     er_Samples = [], er_Result = []\<rparr>"

definition dec_EngineResult :: "bool \<Rightarrow> EngineResult jdec" where
  "dec_EngineResult strict = dec_engine_result strict (dec_Timing strict) zero_Sample (dec_Sample strict)"

definition zero_EngineResult :: EngineResult where
  "zero_EngineResult = zero_engine_result
     \<lparr>ti_Clock = [], ti_Unit = [], ti_ProcessStartInSamples = False, ti_ExperimentTotalNS = 0\<rparr>"

definition dec_ProfileEngineResult :: "bool \<Rightarrow> ProfileEngineResult jdec" where
  "dec_ProfileEngineResult strict =
     dec_engine_result strict (dec_ProfileTiming strict) zero_ProfileSample (dec_ProfileSample strict)"

definition zero_ProfileEngineResult :: ProfileEngineResult where
  "zero_ProfileEngineResult = zero_engine_result
     \<lparr>ti_Clock = [], ti_Unit = [], ti_ProcessStartInSamples = False, ti_ExperimentTotalNS = 0,
      ti_Topology = [], ti_Observer = []\<rparr>"

section \<open>Encoding a request\<close>

text \<open>A workload without bytes is a nil \<open>RawMessage\<close>, which is written as \<open>null\<close>.\<close>

definition marshal_Request :: "Request \<Rightarrow> bytes option" where
  "marshal_Request r =
     map_option (\<lambda>w. marshal_object
       [(''schema_version'', marshal_string (rq_SchemaVersion r)),
        (''experiment_id'', marshal_string (rq_ExperimentID r)),
        (''scenario_name'', marshal_string (rq_ScenarioName r)),
        (''execution'', marshal_object [(''backend'', marshal_string (be_Backend (rq_Execution r)))]),
        (''sampling'', marshal_object
           [(''warmup_iterations'', decimal (unat (sm_WarmupIterations (rq_Sampling r)))),
            (''sample_iterations'', decimal (unat (sm_SampleIterations (rq_Sampling r))))]),
        (''workload'', w)])
       (if rq_Workload r = [] then Some ''null'' else marshal_raw (rq_Workload r))"

section \<open>Small predicates\<close>

definition rawPresent :: "bytes \<Rightarrow> bool" where
  "rawPresent v = (let trimmed = trim_space v in length trimmed \<noteq> 0 \<and> trimmed \<noteq> ''null'')"

definition validSourceState :: "bytes \<Rightarrow> bool" where
  "validSourceState v \<longleftrightarrow> v = ''clean'' \<or> v = ''dirty'' \<or> v = ''unknown''"

section \<open>Round trip of nanoseconds\<close>

text \<open>The package reads the same texts as the protocol's hexadecimal numbers.\<close>

lemma Nanoseconds_UnmarshalJSON_eq: "Nanoseconds_UnmarshalJSON = hexUint64_UnmarshalJSON"
proof
  fix data
  have "has_prefix e ''0x'' \<longleftrightarrow> take 2 e = ''0x''" if "length e = 18" for e
    using that by (cases e; cases "tl e") auto
  then show "Nanoseconds_UnmarshalJSON data = hexUint64_UnmarshalJSON data"
    by (auto simp: Nanoseconds_UnmarshalJSON_def hexUint64_UnmarshalJSON_def parseCanonicalHex_def
        split: option.split)
qed

lemma Nanoseconds_roundtrip:
  "Nanoseconds_UnmarshalJSON (Nanoseconds_MarshalJSON v) = Some v"
  unfolding Nanoseconds_UnmarshalJSON_eq hexUint64_UnmarshalJSON_iff
  using unmarshal_string_plain [OF plain_0x [of v]] marshal_string_plain [OF plain_0x [of v]]
  by (simp add: Nanoseconds_MarshalJSON_def)

end
