(* ===== verification/JsonDoc.thy ===== *)
theory JsonDoc
  imports Jsoncheck
begin

text \<open>
  Documents as the engine writes them: compact JSON over plain ASCII strings and unsigned numbers.
  Rendering a document and parsing the text gives the tree of the document back, so a concrete
  document can be followed through the decoders without running the parser on its text.
\<close>

datatype doc =
    DStr bytes
  | DNum nat
  | DBool bool
  | DArr "doc list"
  | DObj "(bytes \<times> doc) list"

fun render :: "doc \<Rightarrow> bytes" where
  "render (DStr s) = quote # s @ [quote]"
| "render (DNum n) = decimal n"
| "render (DBool b) = (if b then ''true'' else ''false'')"
| "render (DArr ds) = CHR ''['' # join_with '','' (map render ds) @ '']''"
| "render (DObj ms) =
     CHR ''{'' # join_with '','' (map (\<lambda>m. quote # fst m @ [quote] @ '':'' @ render (snd m)) ms) @ ''}''"

fun tree :: "doc \<Rightarrow> json" where
  "tree (DStr s) = JStr s"
| "tree (DNum n) = JNum (decimal n)"
| "tree (DBool b) = JBool b"
| "tree (DArr ds) = JArr (render (DArr ds)) (map tree ds)"
| "tree (DObj ms) = JObj (render (DObj ms)) (map (\<lambda>m. (fst m, tree (snd m))) ms)"

fun plain_doc :: "doc \<Rightarrow> bool" where
  "plain_doc (DStr s) = list_all plain s"
| "plain_doc (DArr ds) = list_all plain_doc ds"
| "plain_doc (DObj ms) = list_all (\<lambda>m. list_all plain (fst m) \<and> plain_doc (snd m)) ms"
| "plain_doc _ = True"

fun depth :: "doc \<Rightarrow> nat" where
  "depth (DArr ds) = Suc (sum_list (map depth ds))"
| "depth (DObj ms) = Suc (sum_list (map (\<lambda>m. depth (snd m)) ms))"
| "depth _ = 0"

fun need :: "doc \<Rightarrow> nat" where
  "need (DArr ds) = Suc (length ds + sum_list (map need ds))"
| "need (DObj ms) = Suc (length ms + sum_list (map (\<lambda>m. need (snd m)) ms))"
| "need _ = 1"

section \<open>Numbers\<close>

definition num_end :: "bytes \<Rightarrow> bool" where
  "num_end r \<longleftrightarrow> (case r of [] \<Rightarrow> True | c # _ \<Rightarrow> \<not> is_digit c \<and> c \<notin> {CHR ''.'', CHR ''e'', CHR ''E''})"

lemma num_end_simps [simp]:
  "num_end []" "num_end (CHR '','' # s)" "num_end (CHR '']'' # s)" "num_end (CHR ''}'' # s)"
  by (simp_all add: num_end_def is_digit_def byte_def)

lemma digit_facts:
  "n < 10 \<Longrightarrow> is_digit (hex_digit n)" "n < 10 \<Longrightarrow> byte (hex_digit n) = 48 + n"
  by (auto simp: is_digit_def hex_digit_def byte_def numeral_eq_Suc less_Suc_eq)

lemma decimal_digits: "list_all is_digit (decimal n) \<and> decimal n \<noteq> [] \<and> (0 < n \<longrightarrow> 48 < byte (hd (decimal n)))"
proof (induction n rule: decimal.induct)
  case (1 n)
  then show ?case
    by (cases "n < 10") (subst (1 2 3) decimal.simps, simp add: digit_facts)+
qed

lemma decimal_0: "decimal 0 = ''0''"
  by (subst decimal.simps) (simp add: hex_digit_def)

lemma scan_int_decimal: "num_end r \<Longrightarrow> scan_int (decimal n @ r) = Some (decimal n, r)"
proof (cases "n = 0")
  case True
  then show ?thesis by (simp add: decimal_0 scan_int_def)
next
  case False
  assume r: "num_end r"
  obtain c cs where d: "decimal n = c # cs" using decimal_digits [of n] by (cases "decimal n") auto
  then have "is_digit c" "list_all is_digit cs" "c \<noteq> CHR ''0''"
    using decimal_digits [of n] False by (auto simp: byte_def)
  moreover have "takeWhile is_digit r = [] \<and> dropWhile is_digit r = r"
    using r by (auto simp: num_end_def split: list.splits)
  ultimately show ?thesis
    by (simp add: d scan_int_def list_all_iff dropWhile_append takeWhile_append)
qed

lemma scan_literal_decimal: "num_end r \<Longrightarrow> scan_literal (decimal n @ r) = Some (JNum (decimal n), r)"
proof -
  assume r: "num_end r"
  obtain c cs where d: "decimal n = c # cs" using decimal_digits [of n] by (cases "decimal n") auto
  then have c: "48 \<le> byte c" "byte c \<le> 57" using decimal_digits [of n] by (auto simp: is_digit_def)
  have "c \<notin> {CHR ''-'', CHR ''t'', CHR ''f'', CHR ''n'', quote}"
    using c by (auto simp: byte_def quote_def)
  moreover have "scan_frac r = Some ([], r)" "scan_exp r = Some ([], r)"
    using r by (auto simp: num_end_def scan_frac_def scan_exp_def split: list.splits)
  ultimately show ?thesis
    using scan_int_decimal [OF r, of n] by (simp add: d scan_literal_def scan_number_def)
qed

section \<open>Parsing what was rendered\<close>

lemma text_upto_append [simp]: "text_upto (s @ r) r = s"
  by (simp add: text_upto_def)

lemma render_head: "plain_doc d \<Longrightarrow>
  \<exists>c cs. render d = c # cs \<and> \<not> json_space c \<and> c \<noteq> CHR '']'' \<and> c \<noteq> CHR ''}''"
proof (cases d)
  case (DNum n)
  obtain c cs where "decimal n = c # cs" using decimal_digits [of n] by (cases "decimal n") auto
  with decimal_digits [of n] DNum show ?thesis by (auto simp: is_digit_def json_space_def byte_def)
qed (auto simp: json_space_def quote_def byte_def)

lemma skip_space_head: "\<not> json_space c \<Longrightarrow> skip_space (c # cs) = c # cs"
  by (simp add: skip_space_def)

lemma not_space_delimiters [simp]:
  "\<not> json_space CHR ''[''" "\<not> json_space CHR ''{''" "\<not> json_space CHR '']''" "\<not> json_space CHR ''}''"
  "\<not> json_space CHR '',''" "\<not> json_space CHR '':''"
  by (simp_all add: json_space_def byte_def)

definition parses :: "doc \<Rightarrow> bool" where
  "parses x \<longleftrightarrow> (\<forall>f d r. need x \<le> f \<and> d + depth x \<le> max_nesting_depth \<and> num_end r \<longrightarrow>
     parse_value f d (render x @ r) = Parsed (tree x) r)"

lemma parse_elems_render:
  assumes "ds \<noteq> []" "\<And>x. x \<in> set ds \<Longrightarrow> parses x"
    "length ds + sum_list (map need ds) \<le> f" "d + sum_list (map depth ds) \<le> max_nesting_depth"
  shows "parse_elems f d (join_with '','' (map render ds) @ CHR '']'' # r) = Parsed (map tree ds) r"
  using assms
proof (induction ds arbitrary: f)
  case (Cons x ds)
  obtain f' where f: "f = Suc f'" using Cons.prems(3) by (cases f) auto
  have x: "parse_value f' d (render x @ s) = Parsed (tree x) s" if "num_end s" for s
    using Cons.prems that by (simp add: parses_def f)
  show ?case
  proof (cases ds)
    case Nil
    then show ?thesis by (simp add: f parse_elems.simps x skip_space_head)
  next
    case (Cons y ys)
    have "parse_elems f' d (join_with '','' (map render ds) @ CHR '']'' # r) = Parsed (map tree ds) r"
      using Cons Cons.prems by (intro Cons.IH) (auto simp: f)
    then show ?thesis by (simp add: f Cons parse_elems.simps x skip_space_head)
  qed
qed simp

lemma parse_members_render:
  assumes "ms \<noteq> []" "\<And>m. m \<in> set ms \<Longrightarrow> parses (snd m) \<and> list_all plain (fst m)"
    "length ms + sum_list (map (\<lambda>m. need (snd m)) ms) \<le> f"
    "d + sum_list (map (\<lambda>m. depth (snd m)) ms) \<le> max_nesting_depth"
  shows "parse_members f d
      (join_with '','' (map (\<lambda>m. quote # fst m @ [quote] @ '':'' @ render (snd m)) ms) @ CHR ''}'' # r) =
    Parsed (map (\<lambda>m. (fst m, tree (snd m))) ms) r"
  using assms
proof (induction ms arbitrary: f)
  case (Cons m ms)
  obtain f' where f: "f = Suc f'" using Cons.prems(3) by (cases f) auto
  have x: "parse_value f' d (render (snd m) @ s) = Parsed (tree (snd m)) s" if "num_end s" for s
    using Cons.prems that by (simp add: parses_def f)
  have k: "scan_string (fst m @ quote # s) = Some (fst m, s)" for s
    using Cons.prems(2) [of m] by (simp add: scan_string_plain)
  show ?case
  proof (cases ms)
    case Nil
    then show ?thesis by (simp add: f parse_members.simps x k skip_space_head)
  next
    case (Cons m' ms')
    have "parse_members f' d
        (join_with '','' (map (\<lambda>m. quote # fst m @ [quote] @ '':'' @ render (snd m)) ms) @ CHR ''}'' # r) =
      Parsed (map (\<lambda>m. (fst m, tree (snd m))) ms) r"
      using Cons Cons.prems by (intro Cons.IH) (auto simp: f)
    then show ?thesis by (simp add: f Cons parse_members.simps x k skip_space_head)
  qed
qed simp


lemma join_with_head:
  "x # xs \<noteq> [] \<Longrightarrow> join_with d (x # xs) = x @ (if xs = [] then [] else d @ join_with d xs)"
  by (cases xs) simp_all

lemma parses_plain: "plain_doc x \<Longrightarrow> parses x"
proof (induction x)
  case (DStr s)
  show ?case
  proof (unfold parses_def, intro allI impI)
    fix f d r assume "need (DStr s) \<le> f \<and> d + depth (DStr s) \<le> max_nesting_depth \<and> num_end r"
    then obtain f' where "f = Suc f'" by (cases f) auto
    with DStr show "parse_value f d (render (DStr s) @ r) = Parsed (tree (DStr s)) r"
      by (simp add: parse_value.simps scan_string_plain) (simp add: quote_def)
  qed
next
  case (DNum n)
  show ?case
  proof (unfold parses_def, intro allI impI)
    fix f d r assume r: "need (DNum n) \<le> f \<and> d + depth (DNum n) \<le> max_nesting_depth \<and> num_end r"
    then obtain f' where f: "f = Suc f'" by (cases f) auto
    obtain c cs where d: "decimal n = c # cs" using decimal_digits [of n] by (cases "decimal n") auto
    then have c: "is_digit c" using decimal_digits [of n] by auto
    then have "\<not> json_space c" "c \<noteq> CHR ''[''" "c \<noteq> CHR ''{''"
      by (auto simp: is_digit_def json_space_def byte_def)
    then show "parse_value f d (render (DNum n) @ r) = Parsed (tree (DNum n)) r"
      using scan_literal_decimal [of r n] r
      by (simp add: f d parse_value.simps skip_space_head)
  qed
next
  case (DBool b)
  show ?case
  proof (unfold parses_def, intro allI impI)
    fix f d r assume "need (DBool b) \<le> f \<and> d + depth (DBool b) \<le> max_nesting_depth \<and> num_end r"
    then obtain f' where "f = Suc f'" by (cases f) auto
    then show "parse_value f d (render (DBool b) @ r) = Parsed (tree (DBool b)) r"
      by (simp add: parse_value.simps skip_space_def json_space_def byte_def scan_literal_def quote_def)
  qed
next
  case (DArr ds)
  then have ps: "x \<in> set ds \<Longrightarrow> parses x" for x by (simp add: list_all_iff)
  show ?case
  proof (unfold parses_def, intro allI impI)
    fix f d r assume a: "need (DArr ds) \<le> f \<and> d + depth (DArr ds) \<le> max_nesting_depth \<and> num_end r"
    then obtain f' where f: "f = Suc f'" by (cases f) auto
    show "parse_value f d (render (DArr ds) @ r) = Parsed (tree (DArr ds)) r"
    proof (cases ds)
      case Nil
      then show ?thesis
        using a by (simp add: f parse_value.simps skip_space_head text_upto_def)
    next
      case (Cons y ys)
      let ?body = "join_with '','' (map render ds) @ CHR '']'' # r"
      have e: "parse_elems f' (Suc d) ?body = Parsed (map tree ds) r"
        using a Cons ps by (intro parse_elems_render) (auto simp: f)
      obtain c cs where c: "?body = c # cs" "\<not> json_space c" "c \<noteq> CHR '']''"
        using render_head [of y] DArr.prems Cons by (auto simp: join_with_head simp del: join_with.simps)
      have "CHR ''['' # c # cs = render (DArr ds) @ r" using c(1) by simp
      then have t: "text_upto (CHR ''['' # c # cs) r = render (DArr ds)" by (simp only: text_upto_append)
      show ?thesis
        using a e c t by (simp add: f parse_value.simps skip_space_head)
    qed
  qed
next
  case (DObj ms)
  then have ps: "m \<in> set ms \<Longrightarrow> parses (snd m) \<and> list_all plain (fst m)" for m
    by (cases m) (auto simp: list_all_iff)
  show ?case
  proof (unfold parses_def, intro allI impI)
    fix f d r assume a: "need (DObj ms) \<le> f \<and> d + depth (DObj ms) \<le> max_nesting_depth \<and> num_end r"
    then obtain f' where f: "f = Suc f'" by (cases f) auto
    show "parse_value f d (render (DObj ms) @ r) = Parsed (tree (DObj ms)) r"
    proof (cases ms)
      case Nil
      then show ?thesis
        using a by (simp add: f parse_value.simps skip_space_head text_upto_def)
    next
      case (Cons m ms')
      let ?body = "join_with '','' (map (\<lambda>m. quote # fst m @ [quote] @ '':'' @ render (snd m)) ms) @ CHR ''}'' # r"
      have e: "parse_members f' (Suc d) ?body = Parsed (map (\<lambda>m. (fst m, tree (snd m))) ms) r"
        using a Cons ps by (intro parse_members_render) (auto simp: f)
      obtain cs where c: "?body = quote # cs"
        using Cons by (auto simp: join_with_head simp del: join_with.simps)
      have "CHR ''{'' # quote # cs = render (DObj ms) @ r" using c by simp
      then have t: "text_upto (CHR ''{'' # quote # cs) r = render (DObj ms)" by (simp only: text_upto_append)
      show ?thesis
        using a e c t by (simp add: f parse_value.simps skip_space_head)
    qed
  qed
qed

lemma length_join: "xs \<noteq> [] \<Longrightarrow> Suc (length (join_with [c] xs)) = length xs + sum_list (map length xs)"
  by (induction xs rule: induct_list012) auto

lemma need_le: "need x \<le> 2 * length (render x)"
proof (induction x)
  case (DArr ds)
  have "sum_list (map need ds) \<le> sum_list (map (\<lambda>x. 2 * length (render x)) ds)"
    using DArr by (rule sum_list_mono)
  also have "\<dots> = 2 * sum_list (map length (map render ds))" by (simp add: sum_list_const_mult comp_def)
  finally show ?case
    using length_join [of "map render ds" "CHR '',''"] by (cases "ds = []") auto
next
  case (DObj ms)
  let ?g = "\<lambda>m. quote # fst m @ [quote] @ '':'' @ render (snd m)"
  have "sum_list (map (\<lambda>m. need (snd m)) ms) \<le> sum_list (map (\<lambda>m. 2 * length (?g m)) ms)"
    using DObj by (intro sum_list_mono) (fastforce intro: le_trans simp: snds.intros)
  also have "\<dots> = 2 * sum_list (map length (map ?g ms))" by (simp only: sum_list_const_mult map_map comp_def)
  finally show ?case
    using length_join [of "map ?g ms" "CHR '',''"] by (cases "ms = []") auto
next
  case (DNum n)
  then show ?case using decimal_digits [of n] by (cases "decimal n") auto
qed auto

text \<open>The round trip: rendering, then parsing with nothing behind it.\<close>

lemma parse_render:
  "plain_doc x \<Longrightarrow> depth x \<le> max_nesting_depth \<Longrightarrow> parse_json (render x) = Parsed (tree x) []"
  using parses_plain [of x, unfolded parses_def, THEN spec, of "2 * length (render x) + 2", THEN spec, of 0, THEN spec, of "[]"]
    need_le [of x] by (simp add: parse_json_def)

section \<open>Decoding what was rendered\<close>

lemma plain_ascii: "plain c \<Longrightarrow> byte c < 128"
  by (simp add: plain_def)

lemma join_with_ascii:
  "list_all (\<lambda>c. byte c < 128) d \<Longrightarrow> list_all (list_all (\<lambda>c. byte c < 128)) xs \<Longrightarrow>
     list_all (\<lambda>c. byte c < 128) (join_with d xs)"
  by (induction d xs rule: join_with.induct) auto

lemma render_ascii: "plain_doc x \<Longrightarrow> list_all (\<lambda>c. byte c < 128) (render x)"
proof (induction x)
  case (DNum n)
  then show ?case using decimal_digits [of n] by (auto simp: list_all_iff is_digit_def)
next
  case (DObj ms)
  let ?g = "\<lambda>m. quote # fst m @ [quote] @ '':'' @ render (snd m)"
  have "list_all (\<lambda>c. byte c < 128) (?g m)" if "m \<in> set ms" for m
  proof -
    have k: "list_all plain (fst m)" "plain_doc (snd m)"
      using that DObj.prems by (auto simp: list_all_iff)
    then have "list_all (\<lambda>c. byte c < 128) (fst m)"
      by (auto simp: list_all_iff plain_def)
    moreover have "list_all (\<lambda>c. byte c < 128) (render (snd m))"
      using DObj.IH [of m "snd m"] that k(2) by (cases m) (simp add: snds.intros)
    ultimately show ?thesis by (simp add: quote_def byte_def)
  qed
  then have "\<forall>s\<in>set (map ?g ms). list_all (\<lambda>c. byte c < 128) s"
    unfolding set_map by (rule_tac ballI, elim imageE) (simp only:)
  then have "list_all (list_all (\<lambda>c. byte c < 128)) (map ?g ms)"
    by (rule list_all_iff [THEN iffD2])
  then have "list_all (\<lambda>c. byte c < 128) (join_with '','' (map ?g ms))"
    by (intro join_with_ascii) (simp_all add: byte_def)
  then show ?case by (simp add: byte_def)
next
  case (DArr ds)
  then have "list_all (list_all (\<lambda>c. byte c < 128)) (map render ds)"
    by (simp add: list.pred_map list_all_iff)
  then have "list_all (\<lambda>c. byte c < 128) (join_with '','' (map render ds))"
    by (intro join_with_ascii) (simp_all add: byte_def)
  then show ?case by (simp add: byte_def)
next
  case (DStr s)
  then show ?case by (auto simp: list_all_iff quote_def byte_def plain_def)
qed (simp add: byte_def)

fun distinct_doc :: "doc \<Rightarrow> bool" where
  "distinct_doc (DArr ds) = list_all distinct_doc ds"
| "distinct_doc (DObj ms) = (distinct (map fst ms) \<and> list_all (\<lambda>m. distinct_doc (snd m)) ms)"
| "distinct_doc _ = True"

lemma distinct_keys_tree: "plain_doc x \<Longrightarrow> distinct_doc x \<Longrightarrow> distinct_keys (tree x)"
proof (induction x)
  case (DObj ms)
  then have keys: "map (\<lambda>m. unquote (fst m)) ms = map fst ms"
    by (auto simp: list_all_iff unquote_plain)
  have "distinct (map (\<lambda>m. unquote (fst m)) ms)" using DObj.prems by (simp only: keys) simp
  moreover have "distinct_keys (tree (snd m))" if "m \<in> set ms" for m
    using DObj that by (cases m) (fastforce simp: list_all_iff)
  ultimately show ?case using DObj.prems by (simp add: list_all_iff comp_def)
qed (auto simp: list_all_iff)

text \<open>A rendered document is decoded as its tree.\<close>

lemma Decode_render:
  assumes "plain_doc x" "distinct_doc x" "depth x \<le> max_nesting_depth" "d strict (tree x) target = Some v"
  shows "Decode (render x) d target strict = Inr v"
  by (rule DecodeI [OF utf8_valid_all_ascii parse_render _ distinct_keys_tree])
    (use assms render_ascii in auto)


text \<open>Every decoder, read on documents instead of trees.\<close>

fun dec_members :: "bool \<Rightarrow> (bytes \<times> 's jdec) list \<Rightarrow> (bytes \<times> doc) list \<Rightarrow> 's \<Rightarrow> 's option" where
  "dec_members strict fs [] s = Some s"
| "dec_members strict fs ((k, x) # ms) s =
     (case find_field fs k of
        None \<Rightarrow> if strict then None else dec_members strict fs ms s
      | Some d \<Rightarrow> (case d (tree x) s of None \<Rightarrow> None | Some s' \<Rightarrow> dec_members strict fs ms s'))"

lemma dec_fields_tree:
  "list_all (\<lambda>m. list_all plain (fst m)) ms \<Longrightarrow>
     dec_fields strict fs (map (\<lambda>m. (fst m, tree (snd m))) ms) s = dec_members strict fs ms s"
  by (induction strict fs ms s rule: dec_members.induct)
    (auto simp: unquote_plain split: option.split)

lemma raw_of_tree: "raw_of (tree x) = render x"
  by (cases x) simp_all

lemma hex_digit_is_decimal: "n < 10 \<Longrightarrow> digit_val (hex_digit n) = Some n"
  by (simp add: digit_val_def digit_facts Let_def)

lemma parse_digits_decimal: "parse_digits 10 (decimal n) 0 = Some n"
proof (induction n rule: decimal.induct)
  case (1 n)
  show ?case
  proof (cases "n < 10")
    case True
    then show ?thesis by (subst decimal.simps) (simp add: hex_digit_is_decimal)
  next
    case False
    then have "parse_digits 10 (decimal (n div 10)) 0 = Some (n div 10)" by (rule 1)
    with False show ?thesis
      by (subst decimal.simps) (simp add: parse_digits_append hex_digit_is_decimal)
  qed
qed

lemma dec_doc:
  "list_all (\<lambda>m. list_all plain (fst m)) ms \<Longrightarrow>
     dec_struct strict fs (tree (DObj ms)) s = dec_members strict fs ms s"
  "list_all plain b \<Longrightarrow> dec_string (tree (DStr b)) old = Some b"
  "dec_bool (tree (DBool v)) old' = Some v"
  "n < 4294967296 \<Longrightarrow> dec_u32 (tree (DNum n)) w = Some (of_nat n)"
  "dec_raw (tree x) old = Some (render x)"
  "dec_slice zero d (tree (DArr ds)) olds = dec_elems zero d (map tree ds) olds"
  using decimal_digits [of n]
  by (simp_all add: dec_struct_def dec_fields_tree dec_string_def unquote_plain dec_bool_def dec_u32_def
      parse_uint_def parse_digits_decimal dec_raw_def raw_of_tree dec_slice_def)

lemmas doc_eval = dec_doc on_field_def find_field_def list.map dec_elems.simps plain_def quote_def backslash_def
  byte_def


declare tree.simps [simp del]

end
