(* ===== verification/Suite.thy ===== *)
theory Suite
  imports Paths Evidence JsonDoc
begin

text \<open>
  The benchmark suite of \<open>internal/benchmark/types.go\<close>: its JSON, the checks of \<open>Suite.Validate\<close> and
  \<open>Scenario.Validate\<close>, and what an accepted suite guarantees about the workload paths it names.
\<close>

section \<open>Data\<close>

definition SuiteSchema :: bytes where "SuiteSchema = ''paraflow.benchmark-suite/v1''"
definition maxWarmupIterations :: u32 where "maxWarmupIterations = 1000"
definition maxSampleIterations :: u32 where "maxSampleIterations = 10000"
definition maxScenarios :: nat where "maxScenarios = 64"
definition maxNameRunes :: nat where "maxNameRunes = 120"

record Scenario =
  sc_Name :: bytes
  sc_Workload :: bytes
  sc_Execution :: Execution
  sc_Sampling :: Sampling

record Suite =
  bs_SchemaURI :: "bytes option"
  bs_SchemaVersion :: bytes
  bs_Name :: bytes
  bs_Description :: bytes
  bs_Scenarios :: "Scenario list"

definition zero_Scenario :: Scenario where
  "zero_Scenario = \<lparr>sc_Name = [], sc_Workload = [], sc_Execution = \<lparr>be_Backend = []\<rparr>,
     sc_Sampling = \<lparr>sm_WarmupIterations = 0, sm_SampleIterations = 0\<rparr>\<rparr>"

definition zero_Suite :: Suite where
  "zero_Suite = \<lparr>bs_SchemaURI = None, bs_SchemaVersion = [], bs_Name = [], bs_Description = [],
     bs_Scenarios = []\<rparr>"

definition dec_Scenario :: "bool \<Rightarrow> Scenario jdec" where
  "dec_Scenario strict = dec_struct strict
     [(''name'', on_field sc_Name sc_Name_update dec_string),
      (''workload'', on_field sc_Workload sc_Workload_update dec_string),
      (''execution'', on_field sc_Execution sc_Execution_update (dec_Execution strict)),
      (''sampling'', on_field sc_Sampling sc_Sampling_update (dec_Sampling strict))]"

definition dec_Suite :: "bool \<Rightarrow> Suite jdec" where
  "dec_Suite strict = dec_struct strict
     [(''$schema'', on_field bs_SchemaURI bs_SchemaURI_update (dec_ptr [] dec_string)),
      (''schema_version'', on_field bs_SchemaVersion bs_SchemaVersion_update dec_string),
      (''name'', on_field bs_Name bs_Name_update dec_string),
      (''description'', on_field bs_Description bs_Description_update dec_string),
      (''scenarios'', on_field bs_Scenarios bs_Scenarios_update (dec_slice zero_Scenario (dec_Scenario strict)))]"

section \<open>Validation\<close>

datatype scenario_invalid =
    NameInvalid
  | WorkloadPathInvalid bytes
  | BackendUnsupported bytes
  | WarmupTooLarge u32
  | SampleIterationsOutOfRange

datatype suite_invalid =
    UnsupportedSuiteSchema bytes
  | SuiteNameInvalid
  | DescriptionInvalid
  | ScenarioCountInvalid
  | InvalidScenario nat scenario_invalid
  | DuplicateScenario nat bytes

definition validName :: "bytes \<Rightarrow> bool" where
  "validName v =
     (let len = rune_count v in 0 < len \<and> len \<le> maxNameRunes \<and> trim_space v \<noteq> [])"

definition validRepositoryJSONPath :: "bytes \<Rightarrow> bool" where
  "validRepositoryJSONPath v =
     (if v = [] \<or> rune_count v > 512 \<or> contains v [CHR 0x5C] \<or> has_prefix v [slash] then False
      else if path_Clean v \<noteq> v \<or> path_Ext v \<noteq> ''.json'' then False
      else list_all (\<lambda>c. \<not> (c = ''..'' \<or> c = ''.'' \<or> c = [])) (split_on slash v))"

definition Scenario_Validate :: "Scenario \<Rightarrow> scenario_invalid + unit" where
  "Scenario_Validate scenario =
     (if \<not> validName (sc_Name scenario) then Inl NameInvalid
      else if \<not> validRepositoryJSONPath (sc_Workload scenario)
      then Inl (WorkloadPathInvalid (sc_Workload scenario))
      else if be_Backend (sc_Execution scenario) \<noteq> ''scalar''
      then Inl (BackendUnsupported (be_Backend (sc_Execution scenario)))
      else if sm_WarmupIterations (sc_Sampling scenario) > maxWarmupIterations
      then Inl (WarmupTooLarge (sm_WarmupIterations (sc_Sampling scenario)))
      else if sm_SampleIterations (sc_Sampling scenario) = 0 \<or>
         sm_SampleIterations (sc_Sampling scenario) > maxSampleIterations
      then Inl SampleIterationsOutOfRange
      else Inr ())"

fun validate_scenarios :: "nat \<Rightarrow> bytes set \<Rightarrow> Scenario list \<Rightarrow> suite_invalid + unit" where
  "validate_scenarios index seen [] = Inr ()"
| "validate_scenarios index seen (scenario # scenarios) =
     bindE (wrapE (InvalidScenario index) (Scenario_Validate scenario)) (\<lambda>_.
       if sc_Name scenario \<in> seen then Inl (DuplicateScenario index (sc_Name scenario))
       else validate_scenarios (Suc index) (insert (sc_Name scenario) seen) scenarios)"

definition Suite_Validate :: "Suite \<Rightarrow> suite_invalid + unit" where
  "Suite_Validate suite =
     (if bs_SchemaVersion suite \<noteq> SuiteSchema then Inl (UnsupportedSuiteSchema (bs_SchemaVersion suite))
      else if \<not> validName (bs_Name suite) then Inl SuiteNameInvalid
      else if bs_Description suite \<noteq> [] \<and>
         (rune_count (bs_Description suite) > 500 \<or> trim_space (bs_Description suite) = [])
      then Inl DescriptionInvalid
      else if length (bs_Scenarios suite) = 0 \<or> length (bs_Scenarios suite) > maxScenarios
      then Inl ScenarioCountInvalid
      else validate_scenarios 0 {} (bs_Scenarios suite))"

section \<open>What the checks decide\<close>

text \<open>A repository path in its normal form: proper components joined by slashes, the last of them
  a \<open>.json\<close> name, without a backslash and not too long. The comparison with the cleaned path
  decides nothing that the loop over the components does not decide.\<close>

definition repository_path :: "bytes list \<Rightarrow> bool" where
  "repository_path ps \<longleftrightarrow>
     ps \<noteq> [] \<and> proper ps \<and> rune_count (join_with [slash] ps) \<le> 512 \<and>
     path_Ext (join_with [slash] ps) = ''.json'' \<and> CHR 0x5C \<notin> set (join_with [slash] ps)"

lemma contains_single: "contains s [c] \<longleftrightarrow> c \<in> set s"
  by (induction s) auto

lemma validRepositoryJSONPath_iff:
  "validRepositoryJSONPath v \<longleftrightarrow> (\<exists>ps. v = join_with [slash] ps \<and> repository_path ps)"
proof
  assume v: "validRepositoryJSONPath v"
  let ?ps = "split_on slash v"
  have j: "join_with [slash] ?ps = v" by (rule join_split_on)
  have "proper ?ps"
    using v by (auto simp: validRepositoryJSONPath_def proper_def list_all_iff split_on_pieces split: if_splits)
  with v j show "\<exists>ps. v = join_with [slash] ps \<and> repository_path ps"
    by (intro exI [of _ ?ps]) (auto simp: validRepositoryJSONPath_def repository_path_def contains_single split: if_splits)
next
  assume "\<exists>ps. v = join_with [slash] ps \<and> repository_path ps"
  then obtain ps where ps: "v = join_with [slash] ps" "repository_path ps" by blast
  then have p: "proper ps" "ps \<noteq> []" by (simp_all add: repository_path_def)
  have "split_on slash v = ps" using p ps by (simp add: split_proper)
  moreover have "path_Clean v = v" using p ps by (simp add: Clean_join)
  moreover have "\<not> has_prefix v [slash]" "v \<noteq> []"
    using p ps not_abs_join [of ps] join_proper_Nil [of ps] by (auto simp: is_abs_def)
  ultimately show "validRepositoryJSONPath v"
    using p ps by (auto simp: validRepositoryJSONPath_def repository_path_def contains_single proper_def list_all_iff)
qed

definition scenario_ok :: "Scenario \<Rightarrow> bool" where
  "scenario_ok scenario \<longleftrightarrow>
     validName (sc_Name scenario) \<and> validRepositoryJSONPath (sc_Workload scenario) \<and>
     be_Backend (sc_Execution scenario) = ''scalar'' \<and>
     unat (sm_WarmupIterations (sc_Sampling scenario)) \<le> 1000 \<and>
     1 \<le> unat (sm_SampleIterations (sc_Sampling scenario)) \<and>
     unat (sm_SampleIterations (sc_Sampling scenario)) \<le> 10000"

lemma Scenario_Validate_iff: "Scenario_Validate scenario = Inr u \<longleftrightarrow> scenario_ok scenario"
proof -
  have "1 \<le> unat n \<longleftrightarrow> n \<noteq> 0" for n :: u32
    by (simp add: Suc_le_eq unat_gt_0)
  moreover have "n > maxWarmupIterations \<longleftrightarrow> \<not> unat n \<le> 1000" "n > maxSampleIterations \<longleftrightarrow> \<not> unat n \<le> 10000" for n
    by (simp_all add: maxWarmupIterations_def maxSampleIterations_def word_less_nat_alt not_le)
  ultimately show ?thesis by (simp add: Scenario_Validate_def scenario_ok_def)
qed

lemma validate_scenarios_iff:
  "validate_scenarios index seen scenarios = Inr u \<longleftrightarrow>
     list_all scenario_ok scenarios \<and> distinct (map sc_Name scenarios) \<and>
     seen \<inter> set (map sc_Name scenarios) = {}"
  by (induction scenarios arbitrary: index seen)
    (auto simp: result_simps Scenario_Validate_iff)

definition suite_ok :: "Suite \<Rightarrow> bool" where
  "suite_ok suite \<longleftrightarrow>
     bs_SchemaVersion suite = SuiteSchema \<and> validName (bs_Name suite) \<and>
     (bs_Description suite \<noteq> [] \<longrightarrow>
        rune_count (bs_Description suite) \<le> 500 \<and> trim_space (bs_Description suite) \<noteq> []) \<and>
     1 \<le> length (bs_Scenarios suite) \<and> length (bs_Scenarios suite) \<le> 64 \<and>
     list_all scenario_ok (bs_Scenarios suite) \<and> distinct (map sc_Name (bs_Scenarios suite))"

lemma Suite_Validate_iff: "Suite_Validate suite = Inr u \<longleftrightarrow> suite_ok suite"
  by (auto simp: Suite_Validate_def suite_ok_def validate_scenarios_iff maxScenarios_def not_less Suc_le_eq)

text \<open>Every workload of an accepted suite lies below the root, under the components of its path.\<close>

lemma scenario_path:
  assumes "scenario_ok scenario"
  obtains ps where "sc_Workload scenario = join_with [slash] ps" "repository_path ps"
  using assms unfolding scenario_ok_def validRepositoryJSONPath_iff by blast

section \<open>A sample suite\<close>

definition sample_scenario :: Scenario where
  "sample_scenario = \<lparr>sc_Name = ''s'', sc_Workload = ''w/a.json'', sc_Execution = \<lparr>be_Backend = ''scalar''\<rparr>,
     sc_Sampling = \<lparr>sm_WarmupIterations = 0, sm_SampleIterations = 1\<rparr>\<rparr>"

definition sample_suite :: Suite where
  "sample_suite = \<lparr>bs_SchemaURI = None, bs_SchemaVersion = SuiteSchema, bs_Name = ''n'', bs_Description = [],
     bs_Scenarios = [sample_scenario]\<rparr>"

definition sample_suite_doc :: doc where
  "sample_suite_doc = DObj
     [(''schema_version'', DStr ''paraflow.benchmark-suite/v1''), (''name'', DStr ''n''),
      (''scenarios'', DArr [DObj [(''name'', DStr ''s''), (''workload'', DStr ''w/a.json''),
         (''execution'', DObj [(''backend'', DStr ''scalar'')]),
         (''sampling'', DObj [(''warmup_iterations'', DNum 0), (''sample_iterations'', DNum 1)])]])]"

lemma sample_suite_Decode: "Decode (render sample_suite_doc) dec_Suite zero_Suite True = Inr sample_suite"
proof (rule Decode_render)
  show "plain_doc sample_suite_doc" "distinct_doc sample_suite_doc" "depth sample_suite_doc \<le> max_nesting_depth"
    by (simp_all add: sample_suite_doc_def max_nesting_depth_def doc_eval)
  show "dec_Suite True (tree sample_suite_doc) zero_Suite = Some sample_suite"
    by (simp add: sample_suite_doc_def sample_suite_def sample_scenario_def dec_Suite_def dec_Scenario_def zero_Suite_def
        zero_Scenario_def dec_Execution_def dec_Sampling_def SuiteSchema_def doc_eval)
qed

lemma sample_scenario_ok: "scenario_ok sample_scenario"
proof -
  have "repository_path [''w'', ''a.json'']"
    by (simp add: repository_path_def slash_def path_Ext_def rune_count_def byte_def)
  then have "validRepositoryJSONPath ''w/a.json''"
    unfolding validRepositoryJSONPath_iff by (intro exI [of _ "[''w'', ''a.json'']"]) (simp add: slash_def)
  then show ?thesis
    by (simp add: scenario_ok_def sample_scenario_def validName_def rune_count_def maxNameRunes_def
        trim_space_Nil_iff byte_def is_space_def)
qed

lemma sample_suite_ok: "suite_ok sample_suite"
  using sample_scenario_ok
  by (simp add: suite_ok_def sample_suite_def validName_def rune_count_def maxNameRunes_def
      trim_space_Nil_iff byte_def is_space_def)

section \<open>Properties\<close>

text \<open>
  A suite is accepted exactly when its schema is the supported one, its names are not blank and at
  most 120 runes long, a description has 1 to 500 runes, there are 1 to 64 scenarios with distinct
  names, and each of them names a normalised relative \<open>.json\<close> path without empty, \<open>.\<close> or \<open>..\<close>
  components, the scalar backend, at most 1000 warm-up and 1 to 10000 retained iterations.
\<close>

lemma Suite_Validate_exact:
  "Suite_Validate suite = Inr () \<longleftrightarrow>
     bs_SchemaVersion suite = SuiteSchema \<and> validName (bs_Name suite) \<and>
     (bs_Description suite = [] \<or>
        rune_count (bs_Description suite) \<le> 500 \<and> trim_space (bs_Description suite) \<noteq> []) \<and>
     length (bs_Scenarios suite) \<in> {1..64} \<and> distinct (map sc_Name (bs_Scenarios suite)) \<and>
     list_all (\<lambda>scenario. validName (sc_Name scenario) \<and>
       (\<exists>ps. sc_Workload scenario = join_with [slash] ps \<and> repository_path ps) \<and>
       be_Backend (sc_Execution scenario) = ''scalar'' \<and>
       unat (sm_WarmupIterations (sc_Sampling scenario)) \<le> 1000 \<and>
       unat (sm_SampleIterations (sc_Sampling scenario)) \<in> {1..10000}) (bs_Scenarios suite)"
  unfolding Suite_Validate_iff suite_ok_def scenario_ok_def validRepositoryJSONPath_iff
  by (auto simp: list_all_iff)

text \<open>
  Claim C29. Whatever path is resolved against the repository root, the result is below the root; the
  workload path of a scenario of an accepted suite always resolves, to the root followed by the
  components of the path, and the identity of the resolved file is the workload path itself.
\<close>

theorem workload_inside_root:
  assumes "filepath_Abs wd repositoryRoot = Inr root" and "\<forall>d. wd = Inr d \<longrightarrow> is_abs d"
    and "Suite_Validate suite = Inr ()" and "scenario \<in> set (bs_Scenarios suite)"
  shows "(resolveRepositoryPath wd root p = Inr path \<longrightarrow>
       (\<exists>rs us. root = rooted rs \<and> path = rooted (rs @ us) \<and> proper (rs @ us))) \<and>
    (\<exists>rs ps. root = rooted rs \<and> sc_Workload scenario = join_with [slash] ps \<and> proper (rs @ ps) \<and> ps \<noteq> [] \<and>
       resolveRepositoryPath wd root (sc_Workload scenario) = Inr (rooted (rs @ ps)) \<and>
       identityPath wd root (rooted (rs @ ps)) = sc_Workload scenario)"
proof -
  obtain rs where rs: "proper rs" "root = rooted rs" using assms(1,2) by (rule Abs_rooted)
  have "scenario_ok scenario" using assms(3,4) by (simp add: Suite_Validate_iff suite_ok_def list_all_iff)
  then obtain ps where ps: "sc_Workload scenario = join_with [slash] ps" "repository_path ps" by (rule scenario_path)
  then have p: "proper ps" "ps \<noteq> []" by (simp_all add: repository_path_def)
  have "\<exists>us. path = rooted (rs @ us) \<and> proper (rs @ us)" if "resolveRepositoryPath wd root p = Inr path"
  proof -
    let ?ts = "fold (clean_step True) (split_on slash p) rs"
    have "proper ?ts" by (rule clean_fold_proper [OF _ rs(1)]) (auto simp: list_all_iff dest: split_on_pieces)
    with that rs show ?thesis
      by (auto simp: resolveRepositoryPath_rooted Let_def prefix_def split: if_splits)
  qed
  moreover have "resolveRepositoryPath wd root (sc_Workload scenario) = Inr (rooted (rs @ ps))"
    using rs ps p by (simp add: resolve_proper)
  moreover have "identityPath wd root (rooted (rs @ ps)) = sc_Workload scenario"
    using rs ps p identityPath_below [of rs ps wd "rooted (rs @ ps)"] by (simp add: filepath_Abs_def)
  ultimately show ?thesis using rs ps p by auto
qed

theorem workload_inside_root_witness:
  "\<exists>rs ps. ''/repo'' = rooted rs \<and> resolveRepositoryPath (Inr ''/repo'') ''/repo'' ''w/a.json'' = Inr (rooted (rs @ ps))"
proof -
  have "filepath_Abs (Inr ''/repo'') ''.'' = Inr ''/repo''"
    by (simp add: filepath_Abs_def is_abs_def slash_def filepath_Join_def path_Clean_def clean_step_def)
  moreover have "\<forall>d. Inr ''/repo'' = (Inr d :: bytes + bytes) \<longrightarrow> is_abs d" by (simp add: is_abs_def slash_def)
  moreover have "Suite_Validate sample_suite = Inr ()" "sample_scenario \<in> set (bs_Scenarios sample_suite)"
    using sample_suite_ok by (simp_all add: Suite_Validate_iff sample_suite_def)
  ultimately have "\<exists>rs ps. ''/repo'' = rooted rs \<and> sc_Workload sample_scenario = join_with [slash] ps \<and>
      proper (rs @ ps) \<and> ps \<noteq> [] \<and>
      resolveRepositoryPath (Inr ''/repo'') ''/repo'' (sc_Workload sample_scenario) = Inr (rooted (rs @ ps)) \<and>
      identityPath (Inr ''/repo'') ''/repo'' (rooted (rs @ ps)) = sc_Workload sample_scenario"
    by (rule workload_inside_root [THEN conjunct2])
  then show ?thesis by (auto simp: sample_scenario_def)
qed

end
