(* ===== verification/Ratios.thy ===== *)
theory Ratios
  imports Prelude
begin

text \<open>
  The integer arithmetic of \<open>internal/benchmark\<close>: additions that report overflow (\<open>engine.go\<close>) and
  the ratios and shares of \<open>profile_stats.go\<close>, over 128-bit intermediate values. A panic of the
  \<open>math/bits\<close> package is \<^const>\<open>None\<close>.
\<close>

datatype ratio_error =
    AdditionOverflow
  | ZeroDenominator
  | RatioExceedsU64
  | RatioNotPortable
  | RatioExceedsU32
  | NoPositiveMedian
  | ShareTooLarge
  | RemainderInvalid

section \<open>Additions\<close>

definition addUint64 :: "u64 \<Rightarrow> u64 \<Rightarrow> u64 \<times> bool" where
  "addUint64 left right = (if 0xFFFFFFFFFFFFFFFF - left < right then (0, True) else (left + right, False))"

fun sum_loop :: "u64 \<Rightarrow> u64 list \<Rightarrow> ratio_error + u64" where
  "sum_loop whole [] = Inr whole"
| "sum_loop whole (v # vs) =
     (let (whole', overflow) = addUint64 whole v in
      if overflow then Inl AdditionOverflow else sum_loop whole' vs)"

definition sumUint64 :: "u64 list \<Rightarrow> ratio_error + u64" where
  "sumUint64 vs = sum_loop 0 vs"

section \<open>Ratios\<close>

definition maxPortableJSONInteger :: u64 where "maxPortableJSONInteger = 2 ^ 53 - 1"

text \<open>\<open>bits.Mul64\<close> and \<open>bits.Div64\<close>: a product as high and low half, and the quotient and remainder
  of such a pair, with a panic when the divisor is zero or the quotient has more than 64 bits.\<close>

definition Mul64 :: "u64 \<Rightarrow> u64 \<Rightarrow> u64 \<times> u64" where
  "Mul64 x y =
     (let p = unat x * unat y in (of_nat (p div 2 ^ 64), of_nat (p mod 2 ^ 64)))"

definition Div64 :: "u64 \<Rightarrow> u64 \<Rightarrow> u64 \<Rightarrow> (u64 \<times> u64) option" where
  "Div64 high low y =
     (if y \<le> high then None
      else let n = unat high * 2 ^ 64 + unat low in Some (of_nat (n div unat y), of_nat (n mod unat y)))"

definition scaledRatio :: "u64 \<Rightarrow> u64 \<Rightarrow> u64 \<Rightarrow> (ratio_error + u64) option" where
  "scaledRatio numerator denominator scale =
     (if denominator = 0 then Some (Inl ZeroDenominator)
      else
        let (high, low) = Mul64 numerator scale in
        if high \<ge> denominator then Some (Inl RatioExceedsU64)
        else
          Option.bind (Div64 high low denominator) (\<lambda>(quotient, _).
            if quotient > maxPortableJSONInteger then Some (Inl RatioNotPortable)
            else Some (Inr quotient)))"

definition ratioBasisPoints :: "u64 \<Rightarrow> u64 \<Rightarrow> (ratio_error + u32) option" where
  "ratioBasisPoints numerator denominator =
     map_option (\<lambda>r. bindE r (\<lambda>ratio. if ratio > 0xFFFFFFFF then Inl RatioExceedsU32 else Inr (ucast ratio)))
       (scaledRatio numerator denominator 10000)"

section \<open>Shares\<close>

text \<open>The loop over the values: the shares, the remainders with their index, and the sum of the
  shares so far.\<close>

fun share_loop ::
  "u64 \<Rightarrow> nat \<Rightarrow> u64 list \<Rightarrow> u32 list \<Rightarrow> (nat \<times> u64) list \<Rightarrow> u32 \<Rightarrow>
     (ratio_error + (u32 list \<times> (nat \<times> u64) list \<times> u32)) option" where
  "share_loop whole index [] shares remainders assigned = Some (Inr (shares, remainders, assigned))"
| "share_loop whole index (v # vs) shares remainders assigned =
     (let (high, low) = Mul64 v 10000 in
      Option.bind (Div64 high low whole) (\<lambda>(quotient, residual).
        if quotient > 10000 then Some (Inl ShareTooLarge)
        else
          share_loop whole (Suc index) vs (shares @ [ucast quotient]) (remainders @ [(index, residual)])
            (assigned + ucast quotient)))"

text \<open>\<open>sort.SliceStable\<close> by decreasing remainder.\<close>

definition sort_remainders :: "(nat \<times> u64) list \<Rightarrow> (nat \<times> u64) list" where
  "sort_remainders rs = sort_key (\<lambda>r. - uint (snd r)) rs"

definition increment :: "nat \<Rightarrow> u32 list \<Rightarrow> u32 list" where
  "increment i shares = shares[i := shares ! i + 1]"

definition apportionBasisPoints :: "u64 list \<Rightarrow> (ratio_error + u32 list) option" where
  "apportionBasisPoints vs =
     (case sumUint64 vs of
        Inl e \<Rightarrow> Some (Inl e)
      | Inr whole \<Rightarrow>
          if whole = 0 then Some (Inl NoPositiveMedian)
          else
            Option.bind (share_loop whole 0 vs [] [] 0) (\<lambda>r. Some (bindE r (\<lambda>(shares, remainders, assigned).
              let sorted_remainders = sort_remainders remainders;
                  remaining = unat ((10000 :: u32) - assigned) in
              if remaining > length sorted_remainders then Inl RemainderInvalid
              else Inr (fold increment (map fst (take remaining sorted_remainders)) shares)))))"

section \<open>The dominant stage\<close>

fun dominant_loop :: "u64 list \<Rightarrow> nat \<Rightarrow> nat \<Rightarrow> nat \<Rightarrow> nat" where
  "dominant_loop vs 0 candidate index = index"
| "dominant_loop vs (Suc n) candidate index =
     dominant_loop vs n (Suc candidate) (if vs ! candidate > vs ! index then candidate else index)"

definition dominant :: "bytes list \<Rightarrow> u64 list \<Rightarrow> bytes" where
  "dominant names vs = names ! dominant_loop vs (length vs - 1) 1 0"

section \<open>Exactness of the additions and ratios\<close>

lemma addUint64_eq:
  "addUint64 left right =
     (if unat left + unat right < 2 ^ 64 then (left + right, False) else (0, True))"
proof -
  have "(0xFFFFFFFFFFFFFFFF - left < right) = (2 ^ 64 \<le> unat left + unat right)"
  proof -
    have "left \<le> 0xFFFFFFFFFFFFFFFF" using unat_u64_less [of left] by (simp add: word_le_nat_alt del: unat_u64_less)
    then have "unat (0xFFFFFFFFFFFFFFFF - left) = 18446744073709551615 - unat left"
      by (simp add: unat_sub_u64)
    with unat_u64_less [of left] show ?thesis by (simp add: word_less_nat_alt del: unat_u64_less) linarith
  qed
  then show ?thesis by (auto simp: addUint64_def)
qed

lemma sum_loop_eq:
  "sum_loop t vs = (if unat t + sum_list (map unat vs) < 2 ^ 64
     then Inr (of_nat (unat t + sum_list (map unat vs))) else Inl AdditionOverflow)"
proof (induction vs arbitrary: t)
  case Nil
  then show ?case by simp
next
  case (Cons v vs)
  show ?case
    using Cons.IH [of "t + v"] by (auto simp: addUint64_eq unat_add_u64 add.assoc)
qed

lemma sumUint64_eq:
  "sumUint64 vs = (if sum_list (map unat vs) < 2 ^ 64 then Inr (of_nat (sum_list (map unat vs)))
     else Inl AdditionOverflow)"
  by (simp add: sumUint64_def sum_loop_eq)

lemma Div64_Mul64:
  "Mul64 x y = (high, low) \<Longrightarrow> high < d \<Longrightarrow>
     Div64 high low d = Some (of_nat (unat x * unat y div unat d), of_nat (unat x * unat y mod unat d))"
proof -
  assume m: "Mul64 x y = (high, low)" and d: "high < d"
  let ?p = "unat x * unat y"
  have "?p < 2 ^ 64 * 2 ^ 64" by (intro mult_strict_mono) simp_all
  then have "?p div 2 ^ 64 < 2 ^ 64" by (subst div_less_iff_less_mult) simp_all
  then have "unat high = ?p div 2 ^ 64" "unat low = ?p mod 2 ^ 64"
    using m by (auto simp: Mul64_def Let_def unat_of_nat_u64)
  then have "unat high * 2 ^ 64 + unat low = ?p" by (simp only: div_mult_mod_eq)
  with d show ?thesis by (simp add: Div64_def not_le [symmetric] Let_def)
qed

lemma Mul64_high:
  "Mul64 x y = (high, low) \<Longrightarrow> high < d \<longleftrightarrow> unat x * unat y < unat d * 2 ^ 64"
proof -
  assume m: "Mul64 x y = (high, low)"
  let ?p = "unat x * unat y"
  have "?p < 2 ^ 64 * 2 ^ 64" by (intro mult_strict_mono) simp_all
  then have "?p div 2 ^ 64 < 2 ^ 64" by (subst div_less_iff_less_mult) simp_all
  then have "unat high = ?p div 2 ^ 64"
    using m by (auto simp: Mul64_def Let_def unat_of_nat_u64)
  then show ?thesis by (simp only: word_less_nat_alt) (subst div_less_iff_less_mult, simp_all)
qed

lemma scaledRatio_eq:
  "scaledRatio n d s =
     Some (let q = unat n * unat s div unat d in
       if d = 0 then Inl ZeroDenominator else if q \<ge> 2 ^ 64 then Inl RatioExceedsU64
       else if q \<ge> 2 ^ 53 then Inl RatioNotPortable else Inr (of_nat q))"
proof (cases "d = 0")
  case False
  then have pos: "0 < unat d" by (simp add: unat_gt_0)
  obtain high low where m: "Mul64 n s = (high, low)" by fastforce
  let ?q = "unat n * unat s div unat d"
  have h: "high < d \<longleftrightarrow> ?q < 2 ^ 64"
    unfolding Mul64_high [OF m] by (subst div_less_iff_less_mult [OF pos]) (simp add: mult.commute)
  have "(of_nat ?q :: u64) > maxPortableJSONInteger \<longleftrightarrow> 2 ^ 53 \<le> ?q" if "?q < 2 ^ 64"
    using that by (auto simp: word_less_nat_alt maxPortableJSONInteger_def unat_of_nat_u64)
  with False h m Div64_Mul64 [OF m] show ?thesis
    by (auto simp: scaledRatio_def Let_def not_le [symmetric])
qed (simp add: scaledRatio_def)

section \<open>Exactness of the shares\<close>

definition exact_floor :: "u64 list \<Rightarrow> nat \<Rightarrow> nat" where
  "exact_floor vs i = unat (vs ! i) * 10000 div sum_list (map unat vs)"

definition exact_remainder :: "u64 list \<Rightarrow> nat \<Rightarrow> nat" where
  "exact_remainder vs i = unat (vs ! i) * 10000 mod sum_list (map unat vs)"

lemma ucast_share: "n \<le> 10000 \<Longrightarrow> ucast (of_nat n :: u64) = (of_nat n :: u32)"
  by (simp add: word_unat_eq_iff unsigned_ucast_eq unat_of_nat take_bit_nat_def)

lemma share_loop_eq:
  assumes "0 < unat whole" "\<And>v. v \<in> set vs \<Longrightarrow> unat v \<le> unat whole"
  shows "share_loop whole k vs shares remainders a = Some (Inr
     (shares @ map (\<lambda>v. of_nat (unat v * 10000 div unat whole)) vs,
      remainders @ zip [k..<k + length vs] (map (\<lambda>v. of_nat (unat v * 10000 mod unat whole)) vs),
      a + of_nat (\<Sum>v\<leftarrow>vs. unat v * 10000 div unat whole)))"
  using assms(2)
proof (induction vs arbitrary: k shares remainders a)
  case Nil
  then show ?case by simp
next
  case (Cons v vs)
  let ?q = "unat v * 10000 div unat whole"
  obtain high low where m: "Mul64 v 10000 = (high, low)" by fastforce
  have le: "unat v \<le> unat whole" using Cons.prems by simp
  then have "unat v * 10000 < unat whole * 2 ^ 64" using assms(1) by simp
  with Mul64_high [OF m, of whole] have "high < whole" by simp
  moreover have "unat (10000 :: u64) = 10000" by simp
  ultimately have d: "Div64 high low whole = Some (of_nat ?q, of_nat (unat v * 10000 mod unat whole))"
    using Div64_Mul64 [OF m] by simp
  have "?q \<le> unat whole * 10000 div unat whole" using le by (intro div_le_mono) simp
  then have q: "?q \<le> 10000" using assms(1) by simp
  then have "\<not> (of_nat ?q :: u64) > 10000" by (simp add: word_less_nat_alt unat_of_nat_u64)
  then have "share_loop whole k (v # vs) shares remainders a = share_loop whole (Suc k) vs (shares @ [of_nat ?q])
      (remainders @ [(k, of_nat (unat v * 10000 mod unat whole))]) (a + of_nat ?q)"
    using q by (simp add: m d ucast_share)
  also have "\<dots> = Some (Inr
     (shares @ map (\<lambda>v. of_nat (unat v * 10000 div unat whole)) (v # vs),
      remainders @ zip [k..<k + length (v # vs)] (map (\<lambda>v. of_nat (unat v * 10000 mod unat whole)) (v # vs)),
      a + of_nat (\<Sum>v\<leftarrow>v # vs. unat v * 10000 div unat whole)))"
    using Cons.prems by (subst Cons.IH) (simp_all add: upt_conv_Cons add.assoc del: upt_Suc)
  finally show ?case .
qed

text \<open>A stable sort leaves equal keys in their order.\<close>

lemma insort_key_stable:
  assumes "sorted_wrt (\<lambda>a b. f a < f b \<or> f a = f b \<and> g a < g b) xs" "\<And>y. y \<in> set xs \<Longrightarrow> g x < g y"
  shows "sorted_wrt (\<lambda>a b. f a < f b \<or> f a = f b \<and> g a < (g b :: nat)) (insort_key (f :: _ \<Rightarrow> int) x xs)"
  using assms by (induction xs) (auto simp: set_insort_key)

lemma sort_key_stable_wrt:
  "sorted_wrt (\<lambda>a b. g a < (g b :: nat)) xs \<Longrightarrow>
     sorted_wrt (\<lambda>a b. f a < f b \<or> f a = f b \<and> g a < g b) (sort_key (f :: _ \<Rightarrow> int) xs)"
  by (induction xs) (auto intro!: insort_key_stable)

lemma length_increment [simp]: "length (increment i shares) = length shares"
  by (simp add: increment_def)

lemma length_fold_increment [simp]: "length (fold increment is shares) = length shares"
  by (induction "is" arbitrary: shares) simp_all

lemma fold_increment_nth:
  "distinct is \<Longrightarrow> i < length shares \<Longrightarrow>
     fold increment is shares ! i = shares ! i + (if i \<in> set is then 1 else 0)"
proof (induction "is" arbitrary: shares)
  case (Cons k ks)
  then show ?case by (cases "k < length shares") (auto simp: increment_def nth_list_update list_update_beyond)
qed simp

lemma unat_le_sum: "v \<in> set vs \<Longrightarrow> unat (v :: u64) \<le> sum_list (map unat vs)"
  by (rule member_le_sum_list) simp_all

lemma floors_and_remainders:
  "(\<Sum>i<length vs. exact_floor vs i) * sum_list (map unat vs) + (\<Sum>i<length vs. exact_remainder vs i) =
     10000 * sum_list (map unat vs)"
proof -
  let ?T = "sum_list (map unat vs)"
  have "(\<Sum>i<length vs. exact_floor vs i) * ?T + (\<Sum>i<length vs. exact_remainder vs i) =
      (\<Sum>i<length vs. exact_floor vs i * ?T + exact_remainder vs i)"
    by (simp add: sum.distrib sum_distrib_right)
  also have "\<dots> = (\<Sum>i<length vs. unat (vs ! i) * 10000)"
    by (simp only: exact_floor_def exact_remainder_def div_mult_mod_eq)
  also have "\<dots> = 10000 * ?T"
    by (simp add: sum_list_sum_nth atLeast0LessThan flip: sum_distrib_right)
  finally show ?thesis .
qed

lemma units_left:
  assumes "0 < sum_list (map unat vs)"
  shows "(\<Sum>i<length vs. exact_floor vs i) \<le> 10000"
    "(10000 - (\<Sum>i<length vs. exact_floor vs i)) * sum_list (map unat vs) = (\<Sum>i<length vs. exact_remainder vs i)"
    "10000 - (\<Sum>i<length vs. exact_floor vs i) \<le> length vs"
proof -
  let ?T = "sum_list (map unat vs)" and ?F = "\<Sum>i<length vs. exact_floor vs i"
  have "?F * ?T \<le> 10000 * ?T" using floors_and_remainders [of vs] by linarith
  with assms show "?F \<le> 10000" by simp
  show k: "(10000 - ?F) * ?T = (\<Sum>i<length vs. exact_remainder vs i)"
    using floors_and_remainders [of vs] by (simp add: diff_mult_distrib)
  have "(\<Sum>i<length vs. exact_remainder vs i) \<le> (\<Sum>i<length vs. ?T)"
    using assms by (intro sum_mono) (simp add: exact_remainder_def less_imp_le)
  then have "(10000 - ?F) * ?T \<le> length vs * ?T" using k by simp
  with assms show "10000 - ?F \<le> length vs" by simp
qed

lemma sorted_remainders:
  assumes "0 < sum_list (map unat vs)" "sum_list (map unat vs) < 2 ^ 64"
  defines "rs \<equiv> sort_remainders (zip [0..<length vs] (map (\<lambda>v. of_nat (unat v * 10000 mod sum_list (map unat vs))) vs))"
  shows "distinct (map fst rs)" "set (map fst rs) = {..<length vs}" "length rs = length vs"
    "i \<in> set (map fst (take k rs)) \<Longrightarrow> j < length vs \<Longrightarrow> j \<notin> set (map fst (take k rs)) \<Longrightarrow>
       exact_remainder vs j < exact_remainder vs i \<or> exact_remainder vs j = exact_remainder vs i \<and> i < j"
proof -
  let ?r = "\<lambda>i. (of_nat (exact_remainder vs i) :: u64)"
  have zip: "zip [0..<length vs] (map (\<lambda>v. of_nat (unat v * 10000 mod sum_list (map unat vs))) vs) =
      map (\<lambda>i. (i, ?r i)) [0..<length vs]"
    by (rule nth_equalityI) (simp_all add: exact_remainder_def)
  have rs: "rs = sort_key (\<lambda>r. - uint (snd r)) (map (\<lambda>i. (i, ?r i)) [0..<length vs])"
    unfolding rs_def sort_remainders_def zip ..
  have m: "mset (map fst rs) = mset [0..<length vs]"
    unfolding rs mset_map mset_sort by (simp add: image_mset.compositionality comp_def)
  show d: "distinct (map fst rs)" using mset_eq_imp_distinct_iff [OF m] by simp
  show s: "set (map fst rs) = {..<length vs}" using mset_eq_setD [OF m] by auto
  show "length rs = length vs" by (simp add: rs)
  have elem: "x \<in> set rs \<Longrightarrow> snd x = ?r (fst x)" for x by (auto simp: rs)
  have "sorted_wrt (\<lambda>a b. fst a < fst b) (map (\<lambda>i. (i, ?r i)) [0..<length vs])"
    by (simp add: sorted_wrt_map)
  from sort_key_stable_wrt [OF this, of "\<lambda>r. - uint (snd r)"]
  have sorted: "sorted_wrt (\<lambda>a b. uint (snd b) < uint (snd a) \<or> uint (snd a) = uint (snd b) \<and> fst a < fst b)
      (take k rs @ drop k rs)"
    by (simp only: rs append_take_drop_id) (simp add: conj_commute)
  assume i: "i \<in> set (map fst (take k rs))" and j: "j < length vs" "j \<notin> set (map fst (take k rs))"
  from i obtain a where a: "a \<in> set (take k rs)" "fst a = i" by auto
  have "fst ` set (take k rs @ drop k rs) = {..<length vs}" using s by (simp only: append_take_drop_id set_map)
  then have "j \<in> fst ` set (take k rs) \<union> fst ` set (drop k rs)" using j(1) by (simp only: set_append image_Un) simp
  then obtain b where b: "b \<in> set (drop k rs)" "fst b = j" using j(2) by auto
  have "snd a = ?r i" "snd b = ?r j"
    using elem [of a] elem [of b] a b by (auto dest: in_set_takeD in_set_dropD)
  moreover have "uint (?r n) = int (exact_remainder vs n)" for n
  proof -
    have "exact_remainder vs n < 2 ^ 64"
      using assms by (simp add: exact_remainder_def) (meson mod_less_divisor less_trans)
    then show ?thesis by (simp add: uint_nat unat_of_nat_u64)
  qed
  moreover have "uint (snd b) < uint (snd a) \<or> uint (snd a) = uint (snd b) \<and> fst a < fst b"
    using sorted [unfolded sorted_wrt_append] a(1) b(1) by blast
  ultimately show "exact_remainder vs j < exact_remainder vs i \<or>
      exact_remainder vs j = exact_remainder vs i \<and> i < j"
    using a(2) b(2) by auto
qed

lemma points_left: "n \<le> 10000 \<Longrightarrow> unat ((10000 :: u32) - of_nat n) = 10000 - n"
  by (simp add: unat_sub word_le_nat_alt unat_of_nat_u32)


definition largest_remainders :: "u64 list \<Rightarrow> nat set \<Rightarrow> bool" where
  "largest_remainders vs S \<longleftrightarrow>
     S \<subseteq> {..<length vs} \<and> card S + (\<Sum>i<length vs. exact_floor vs i) = 10000 \<and>
     (\<forall>i\<in>S. \<forall>j<length vs. j \<notin> S \<longrightarrow>
        exact_remainder vs j < exact_remainder vs i \<or> exact_remainder vs j = exact_remainder vs i \<and> i < j)"

lemma apportion_largest:
  assumes pos: "0 < sum_list (map unat vs)" and small: "sum_list (map unat vs) < 2 ^ 64"
  obtains S where "largest_remainders vs S"
    "apportionBasisPoints vs =
       Some (Inr (map (\<lambda>i. of_nat (exact_floor vs i + (if i \<in> S then 1 else 0))) [0..<length vs]))"
proof -
  let ?T = "sum_list (map unat vs)"
  define F where "F = (\<Sum>i<length vs. exact_floor vs i)"
  note left = units_left [OF pos, folded F_def]
  define whole :: u64 where "whole = of_nat ?T"
  have T: "unat whole = ?T" using small by (simp add: whole_def unat_of_nat_u64)
  define rs where "rs = sort_remainders
    (zip [0..<length vs] (map (\<lambda>v. of_nat (unat v * 10000 mod ?T)) vs))"
  note sr = sorted_remainders [OF pos small, folded rs_def]
  have F: "(\<Sum>v\<leftarrow>vs. unat v * 10000 div ?T) = F"
    by (simp add: F_def sum_list_sum_nth atLeast0LessThan exact_floor_def)
  define k where "k = 10000 - F"
  have k: "unat (10000 - (of_nat F :: u32)) = k"
    unfolding k_def by (rule points_left [OF left(1)])
  let ?I = "map fst (take k rs)"
  have I: "distinct ?I" "set ?I \<subseteq> {..<length vs}" "length ?I = k"
    using sr(1-3) left(3) by (auto simp: k_def simp flip: take_map dest: in_set_takeD)
  let ?shares = "map (\<lambda>v. of_nat (unat v * 10000 div ?T)) vs :: u32 list"
  have "share_loop whole 0 vs [] [] 0 = Some (Inr (?shares,
      zip [0..<length vs] (map (\<lambda>v. of_nat (unat v * 10000 mod ?T)) vs), of_nat F))"
    using share_loop_eq [of whole vs 0 "[]" "[]" 0] pos unat_le_sum by (simp add: T F)
  moreover have "whole \<noteq> 0" using pos unfolding T [symmetric] by (simp add: unat_gt_0)
  ultimately have "apportionBasisPoints vs = Some (Inr (fold increment ?I ?shares))"
    using small left(3)
    by (simp add: apportionBasisPoints_def sumUint64_eq k k_def [symmetric] sr(3) Let_def
        whole_def [symmetric] rs_def [symmetric])
  also have "fold increment ?I ?shares =
      map (\<lambda>i. of_nat (exact_floor vs i + (if i \<in> set ?I then 1 else 0))) [0..<length vs]"
    by (rule nth_equalityI) (auto simp: fold_increment_nth [OF I(1)] exact_floor_def)
  finally have "apportionBasisPoints vs = Some (Inr \<dots>)" .
  moreover have "largest_remainders vs (set ?I)"
    unfolding largest_remainders_def F_def [symmetric]
    using I sr(4) [of _ k] left(1) distinct_card [OF I(1)] by (auto simp: k_def)
  ultimately show thesis using that by blast
qed

text \<open>The stages that get the extra point have a remainder, so every share is the exact quotient
  rounded down or up.\<close>

lemma largest_remainders_positive:
  assumes "largest_remainders vs S" "0 < sum_list (map unat vs)" "i \<in> S"
  shows "0 < exact_remainder vs i"
proof (rule ccontr)
  assume "\<not> 0 < exact_remainder vs i"
  then have z: "exact_remainder vs i = 0" by simp
  let ?T = "sum_list (map unat vs)"
  have S: "S \<subseteq> {..<length vs}" "finite S" "card S = 10000 - (\<Sum>i<length vs. exact_floor vs i)"
    using assms(1) finite_subset by (auto simp: largest_remainders_def)
  have "exact_remainder vs j = 0" if "j < length vs" "j \<notin> S" for j
    using assms(1,3) z that by (fastforce simp: largest_remainders_def)
  then have "(\<Sum>j<length vs. exact_remainder vs j) = (\<Sum>j\<in>S. exact_remainder vs j)"
    using S by (intro sum.mono_neutral_right) auto
  also have "\<dots> = (\<Sum>j\<in>S - {i}. exact_remainder vs j)"
    using S(2) assms(3) z by (simp add: sum.remove)
  also have "\<dots> \<le> (\<Sum>j\<in>S - {i}. ?T)"
    using assms(2) by (intro sum_mono) (simp add: exact_remainder_def less_imp_le)
  also have "\<dots> < card S * ?T"
    using S(2) assms(2,3) card_gt_0_iff [of S] by (cases "card S") auto
  also have "\<dots> = (\<Sum>j<length vs. exact_remainder vs j)"
    using units_left(2) [OF assms(2)] S(3) by simp
  finally show False by simp
qed

lemma sum_shares:
  assumes "largest_remainders vs S"
  shows "(\<Sum>i<length vs. exact_floor vs i + (if i \<in> S then 1 else 0)) = 10000"
proof -
  have S: "S \<subseteq> {..<length vs}" "card S + (\<Sum>i<length vs. exact_floor vs i) = 10000"
    using assms by (auto simp: largest_remainders_def)
  have "{..<length vs} \<inter> {i. i \<in> S} = S" using S(1) by blast
  then have "(\<Sum>i<length vs. if i \<in> S then 1 else 0 :: nat) = card S"
    by (simp add: sum.If_cases)
  with S(2) show ?thesis by (simp add: sum.distrib)
qed


lemma apportion_shares:
  assumes "0 < sum_list (map unat vs)" "sum_list (map unat vs) < 2 ^ 64"
  obtains S shares where "largest_remainders vs S" "apportionBasisPoints vs = Some (Inr shares)"
    "length shares = length vs" "sum_list (map unat shares) = 10000"
    "\<And>i. i < length vs \<Longrightarrow> unat (shares ! i) = exact_floor vs i + (if i \<in> S then 1 else 0)"
proof -
  obtain S where S: "largest_remainders vs S" and a: "apportionBasisPoints vs =
      Some (Inr (map (\<lambda>i. of_nat (exact_floor vs i + (if i \<in> S then 1 else 0))) [0..<length vs]))"
    using apportion_largest [OF assms] by blast
  let ?share = "\<lambda>i. exact_floor vs i + (if i \<in> S then 1 else 0)"
  let ?shares = "map (\<lambda>i. of_nat (?share i)) [0..<length vs] :: u32 list"
  have le: "?share i \<le> 10000" if "i < length vs" for i
    using sum_shares [OF S] that member_le_sum [of i "{..<length vs}" ?share] by simp
  have val: "unat (of_nat (?share i) :: u32) = ?share i" if "i < length vs" for i
    using le [OF that] by (intro unat_of_nat_u32) linarith
  then have nth: "unat (?shares ! i) = ?share i" if "i < length vs" for i
    using that by (simp only: nth_map length_upt nth_upt) simp
  have "map unat ?shares = map ?share [0..<length vs]"
    unfolding map_map comp_def by (rule map_cong [OF refl], rule val) simp
  then have sum: "sum_list (map unat ?shares) = 10000"
    using sum_shares [OF S] by (simp only:) (simp add: interv_sum_list_conv_sum_set_nat atLeast0LessThan)
  show thesis
    by (rule that [OF S a _ sum]) (simp_all only: length_map length_upt diff_zero nth)
qed

section \<open>Properties\<close>

text \<open>
  Claim C19. As long as the medians sum to a positive 64-bit number, the apportionment neither panics nor
  fails its own checks: the shares sum to exactly 10000 basis points, each is the exact quotient
  rounded down, or rounded up where there is a remainder, and no stage that is rounded down has a
  larger remainder than one that is rounded up.
\<close>

theorem apportionBasisPoints_exact:
  assumes "0 < sum_list (map unat vs)" "sum_list (map unat vs) < 2 ^ 64"
  shows "\<exists>shares. apportionBasisPoints vs = Some (Inr shares) \<and> length shares = length vs \<and>
     sum_list (map unat shares) = 10000 \<and>
     (\<forall>i<length vs. unat (shares ! i) = exact_floor vs i \<or>
        unat (shares ! i) = exact_floor vs i + 1 \<and> 0 < exact_remainder vs i) \<and>
     (\<forall>i<length vs. \<forall>j<length vs.
        unat (shares ! i) = exact_floor vs i + 1 \<and> unat (shares ! j) = exact_floor vs j \<longrightarrow>
        exact_remainder vs j \<le> exact_remainder vs i)"
proof -
  obtain S shares where S: "largest_remainders vs S" and a: "apportionBasisPoints vs = Some (Inr shares)"
    "length shares = length vs" "sum_list (map unat shares) = 10000"
    and nth: "\<And>i. i < length vs \<Longrightarrow> unat (shares ! i) = exact_floor vs i + (if i \<in> S then 1 else 0)"
    using apportion_shares [OF assms] by blast
  have up: "unat (shares ! i) = exact_floor vs i \<or>
      unat (shares ! i) = exact_floor vs i + 1 \<and> 0 < exact_remainder vs i" if "i < length vs" for i
    using nth [OF that] largest_remainders_positive [OF S assms(1), of i] by (cases "i \<in> S") simp_all
  have order: "exact_remainder vs j \<le> exact_remainder vs i"
    if "i < length vs" "j < length vs" "unat (shares ! i) = exact_floor vs i + 1"
       "unat (shares ! j) = exact_floor vs j" for i j
  proof -
    have "i \<in> S" "j \<notin> S" using that nth [of i] nth [of j] by (auto split: if_splits)
    then show ?thesis using S that by (fastforce simp: largest_remainders_def)
  qed
  show ?thesis using a up order by blast
qed

theorem apportionBasisPoints_exact_witness:
  "\<exists>shares. apportionBasisPoints [7, 1, 18446744073709551600] = Some (Inr shares) \<and>
     sum_list (map unat shares) = 10000"
  using apportionBasisPoints_exact [of "[7, 1, 18446744073709551600]"] by auto

end
