(* ===== verification/ProfileStats.thy ===== *)
theory ProfileStats
  imports Ratios Evidence
begin

text \<open>
  \<open>internal/benchmark/profile_stats.go\<close>: the summary of stage profiles and the integer-only analysis
  of one fused baseline against one stage profile. As in \<open>Stats\<close>, \<^const>\<open>None\<close> is a panic.
\<close>

datatype profile_error =
    EmptyProfileSamples
  | PipelineStageSum nat ratio_error
  | EmptyWorkload
  | DecodeBaseline protocol_error
  | DecodeProfile protocol_error
  | DifferentResults
  | SumStageMedians ratio_error
  | SumPipelineMedians ratio_error
  | StageShares ratio_error
  | FusedMedianZero
  | FusedPerRecord ratio_error
  | StagePassPerRecord ratio_error
  | ObserverRatio ratio_error
  | FusedVariability ratio_error
  | ProfileMedianZero
  | ProfileVariability ratio_error
  | SelectivityError ratio_error
  | SelectivityExceedsU32

record ProfileSummary =
  pf_Generation :: Statistics
  pf_Normalize :: Statistics
  pf_Score :: Statistics
  pf_Filter :: Statistics
  pf_Aggregate :: Statistics
  pf_StageSum :: Statistics
  pf_PipelineStages :: Statistics
  pf_ProfileTotal :: Statistics

record StageSharesBPS =
  sh_Generation :: u32
  sh_Normalize :: u32
  sh_Score :: u32
  sh_Filter :: u32
  sh_Aggregate :: u32

record ScenarioProfileAnalysis =
  an_AcceptedCount :: u64
  an_SelectivityBPS :: u32
  an_StageMedianSumNS :: u64
  an_StagePipelineMedianSumNS :: u64
  an_StageShareBPS :: StageSharesBPS
  an_DominantStage :: bytes
  an_DominantPipelineStage :: bytes
  an_FusedPerRecordMilli :: u64
  an_StagePassPerRecordMilli :: u64
  an_StagePassToFusedRatioMilli :: u64
  an_FusedMADBPS :: u32
  an_ProfileTotalMADBPS :: u32

section \<open>Summaries\<close>

fun pipeline_sums :: "nat \<Rightarrow> ProfileSample list \<Rightarrow> profile_error + u64 list" where
  "pipeline_sums index [] = Inr []"
| "pipeline_sums index (s # samples) =
     bindE (wrapE (PipelineStageSum index)
        (sumUint64 [ps_NormalizeNS s, ps_ScoreNS s, ps_FilterNS s, ps_AggregateNS s])) (\<lambda>pipeline.
     bindE (pipeline_sums (Suc index) samples) (\<lambda>ps. Inr (pipeline # ps)))"

definition SummarizeProfile :: "ProfileSample list \<Rightarrow> (profile_error + ProfileSummary) option" where
  "SummarizeProfile samples =
     (if length samples = 0 then Some (Inl EmptyProfileSamples)
      else
        (case pipeline_sums 0 samples of
           Inl e \<Rightarrow> Some (Inl e)
         | Inr pipelineStages \<Rightarrow>
             Option.bind (summarizeValues (map ps_GenerationNS samples)) (\<lambda>generation.
             Option.bind (summarizeValues (map ps_NormalizeNS samples)) (\<lambda>normalized.
             Option.bind (summarizeValues (map ps_ScoreNS samples)) (\<lambda>score.
             Option.bind (summarizeValues (map ps_FilterNS samples)) (\<lambda>filtered.
             Option.bind (summarizeValues (map ps_AggregateNS samples)) (\<lambda>aggregate.
             Option.bind (summarizeValues (map ps_StageSumNS samples)) (\<lambda>stageSum.
             Option.bind (summarizeValues pipelineStages) (\<lambda>pipeline.
             Option.bind (summarizeValues (map ps_ProfileTotalNS samples)) (\<lambda>profileTotal.
               Some (Inr \<lparr>pf_Generation = generation, pf_Normalize = normalized, pf_Score = score,
                 pf_Filter = filtered, pf_Aggregate = aggregate, pf_StageSum = stageSum,
                 pf_PipelineStages = pipeline, pf_ProfileTotal = profileTotal\<rparr>)))))))))))"

section \<open>Analysis\<close>

fun histograms_equal :: "u64 list \<Rightarrow> u64 list \<Rightarrow> bool" where
  "histograms_equal (x # xs) (y # ys) = (if x \<noteq> y then False else histograms_equal xs ys)"
| "histograms_equal _ _ = True"

definition decodedResultsEqual :: "ResultV1 \<Rightarrow> ResultV1 \<Rightarrow> bool" where
  "decodedResultsEqual left right =
     (if AcceptedCount left \<noteq> AcceptedCount right \<or> ScoreSum left \<noteq> ScoreSum right \<or>
         AcceptedIDSum left \<noteq> AcceptedIDSum right \<or> AcceptedIDXOR left \<noteq> AcceptedIDXOR right \<or>
         length (CategoryHistogram left) \<noteq> length (CategoryHistogram right)
      then False
      else histograms_equal (CategoryHistogram left) (CategoryHistogram right))"

text \<open>\<open>x, err := f(); if err != nil { return fmt.Errorf("...: %w", err) }\<close> around code that can panic.\<close>

definition tryP :: "('e \<Rightarrow> 'f) \<Rightarrow> ('e + 'a) option \<Rightarrow> ('a \<Rightarrow> ('f + 'b) option) \<Rightarrow> ('f + 'b) option" where
  "tryP w m f = (case m of None \<Rightarrow> None | Some (Inl e) \<Rightarrow> Some (Inl (w e)) | Some (Inr x) \<Rightarrow> f x)"

definition stageNames :: "bytes list" where
  "stageNames = [''generation'', ''normalize'', ''score'', ''filter'', ''aggregate'']"

definition AnalyzeScenario ::
  "WorkloadProjection \<Rightarrow> EngineResult \<Rightarrow> Summary \<Rightarrow> ProfileEngineResult \<Rightarrow> ProfileSummary \<Rightarrow>
     (profile_error + ScenarioProfileAnalysis) option" where
  "AnalyzeScenario workload baseline baselineSummary profile profileSummary =
     (if wp_RecordCount workload = 0 then Some (Inl EmptyWorkload)
      else
        tryP DecodeBaseline (Some (DecodeResult (er_Result baseline) workload)) (\<lambda>baselineResult.
        tryP DecodeProfile (Some (DecodeResult (er_Result profile) workload)) (\<lambda>profileResult.
        if \<not> decodedResultsEqual baselineResult profileResult then Some (Inl DifferentResults)
        else
          let stageMedians = [st_MedianNS (pf_Generation profileSummary), st_MedianNS (pf_Normalize profileSummary),
                st_MedianNS (pf_Score profileSummary), st_MedianNS (pf_Filter profileSummary),
                st_MedianNS (pf_Aggregate profileSummary)] in
          tryP SumStageMedians (Some (sumUint64 stageMedians)) (\<lambda>stageMedianSum.
          tryP SumPipelineMedians (Some (sumUint64 (drop 1 stageMedians))) (\<lambda>stagePipelineMedianSum.
          tryP StageShares (apportionBasisPoints stageMedians) (\<lambda>shares.
          let fusedMedian = st_MedianNS (su_Pipeline baselineSummary) in
          if fusedMedian = 0 then Some (Inl FusedMedianZero)
          else
            tryP FusedPerRecord (scaledRatio fusedMedian (wp_RecordCount workload) 1000) (\<lambda>fusedPerRecord.
            tryP StagePassPerRecord (scaledRatio stagePipelineMedianSum (wp_RecordCount workload) 1000)
              (\<lambda>stagePassPerRecord.
            tryP ObserverRatio (scaledRatio stagePipelineMedianSum fusedMedian 1000) (\<lambda>observerRatio.
            tryP FusedVariability
              (ratioBasisPoints (st_MedianAbsoluteDeviationNS (su_Pipeline baselineSummary)) fusedMedian) (\<lambda>fusedMAD.
            let profileTotalMedian = st_MedianNS (pf_ProfileTotal profileSummary) in
            if profileTotalMedian = 0 then Some (Inl ProfileMedianZero)
            else
              tryP ProfileVariability
                (ratioBasisPoints (st_MedianAbsoluteDeviationNS (pf_ProfileTotal profileSummary)) profileTotalMedian)
                (\<lambda>profileMAD.
              tryP SelectivityError (scaledRatio (AcceptedCount baselineResult) (wp_RecordCount workload) 10000)
                (\<lambda>selectivity.
              if selectivity > 0xFFFFFFFF then Some (Inl SelectivityExceedsU32)
              else
                (case shares of
                   [generation, normalized, score, filtered, aggregate] \<Rightarrow>
                     Some (Inr
                       \<lparr>an_AcceptedCount = AcceptedCount baselineResult, an_SelectivityBPS = ucast selectivity,
                        an_StageMedianSumNS = stageMedianSum,
                        an_StagePipelineMedianSumNS = stagePipelineMedianSum,
                        an_StageShareBPS = \<lparr>sh_Generation = generation, sh_Normalize = normalized,
                          sh_Score = score, sh_Filter = filtered, sh_Aggregate = aggregate\<rparr>,
                        an_DominantStage = dominant stageNames stageMedians,
                        an_DominantPipelineStage = dominant (drop 1 stageNames) (drop 1 stageMedians),
                        an_FusedPerRecordMilli = fusedPerRecord,
                        an_StagePassPerRecordMilli = stagePassPerRecord,
                        an_StagePassToFusedRatioMilli = observerRatio,
                        an_FusedMADBPS = fusedMAD, an_ProfileTotalMADBPS = profileMAD\<rparr>)
                 | _ \<Rightarrow> None)))))))))))))"

section \<open>What the pieces compute\<close>

lemma histograms_equal_iff: "length xs = length ys \<Longrightarrow> histograms_equal xs ys \<longleftrightarrow> xs = ys"
  by (induction xs ys rule: list_induct2) auto

lemma decodedResultsEqual_iff: "decodedResultsEqual left right \<longleftrightarrow> left = right"
  by (cases left; cases right) (auto simp: decodedResultsEqual_def histograms_equal_iff)

lemma tryP_Inr_iff [result_simps]: "tryP w m f = Some (Inr y) \<longleftrightarrow> (\<exists>x. m = Some (Inr x) \<and> f x = Some (Inr y))"
  by (auto simp: tryP_def split: option.splits sum.splits)

lemma tryP_None_iff: "tryP w m f = None \<longleftrightarrow> m = None \<or> (\<exists>x. m = Some (Inr x) \<and> f x = None)"
  by (auto simp: tryP_def split: option.splits sum.splits)

lemma scaledRatio_Inr:
  "scaledRatio n d s = Some (Inr q) \<Longrightarrow> unat q = unat n * unat s div unat d \<and> unat q < 2 ^ 53"
  by (auto simp: scaledRatio_eq Let_def unat_of_nat_u64 split: if_splits)

lemma scaledRatio_not_None: "scaledRatio n d s \<noteq> None"
  by (simp add: scaledRatio_eq)

lemma ratioBasisPoints_not_None: "ratioBasisPoints n d \<noteq> None"
  by (simp add: ratioBasisPoints_def scaledRatio_eq)

lemma unat_ucast_u32: "\<not> q > (0xFFFFFFFF :: u64) \<Longrightarrow> unat (ucast q :: u32) = unat q"
  by (simp add: unsigned_ucast_eq take_bit_nat_def word_less_nat_alt)

lemma ratioBasisPoints_Inr:
  "ratioBasisPoints n d = Some (Inr q) \<Longrightarrow> unat q = unat n * 10000 div unat d"
  using scaledRatio_Inr [of n d 10000]
  by (auto simp: ratioBasisPoints_def result_simps unat_ucast_u32)

lemma sumUint64_Inr: "sumUint64 vs = Inr t \<Longrightarrow> unat t = sum_list (map unat vs) \<and> sum_list (map unat vs) < 2 ^ 64"
  by (auto simp: sumUint64_eq unat_of_nat_u64 split: if_splits)

lemma apportion_rejects:
  "sum_list (map unat vs) = 0 \<Longrightarrow> apportionBasisPoints vs = Some (Inl NoPositiveMedian)"
  "2 ^ 64 \<le> sum_list (map unat vs) \<Longrightarrow> apportionBasisPoints vs = Some (Inl AdditionOverflow)"
  by (simp_all only: apportionBasisPoints_def sumUint64_eq not_less [symmetric]) simp_all

lemma apportion_verdict:
  obtains (error) e where "apportionBasisPoints vs = Some (Inl e)"
  | (shares) shares where "apportionBasisPoints vs = Some (Inr shares)" "length shares = length vs"
      "sum_list (map unat shares) = 10000"
proof -
  consider "sum_list (map unat vs) = 0" | "2 ^ 64 \<le> sum_list (map unat vs)"
    | "0 < sum_list (map unat vs)" "sum_list (map unat vs) < 2 ^ 64" by linarith
  then show thesis
  proof cases
    case 3
    then show thesis by (rule apportion_shares) (rule shares)
  qed (rule error, erule apportion_rejects)+
qed


definition first_maximum :: "u64 list \<Rightarrow> nat \<Rightarrow> bool" where
  "first_maximum vs i \<longleftrightarrow> i < length vs \<and> (\<forall>k<length vs. vs ! k \<le> vs ! i) \<and> (\<forall>k<i. vs ! k < vs ! i)"

lemma dominant_loop_maximum:
  "first_maximum (take c vs) i \<Longrightarrow> 0 < c \<Longrightarrow> c + n = length vs \<Longrightarrow>
     first_maximum vs (dominant_loop vs n c i)"
proof (induction vs n c i rule: dominant_loop.induct)
  case (2 vs n candidate index)
  let ?i = "if vs ! candidate > vs ! index then candidate else index"
  have "first_maximum (take (Suc candidate) vs) ?i"
  proof -
    have len: "candidate < length vs" using 2(4) by simp
    have F: "index < candidate" "\<And>k. k < candidate \<Longrightarrow> vs ! k \<le> vs ! index" "\<And>k. k < index \<Longrightarrow> vs ! k < vs ! index"
      using 2(2) len by (auto simp: first_maximum_def)
    show ?thesis
    proof (cases "vs ! candidate > vs ! index")
      case True
      have "vs ! k < vs ! candidate" if "k < candidate" for k
        by (rule le_less_trans [OF F(2) [OF that] True])
      with True len show ?thesis by (auto simp: first_maximum_def less_Suc_eq less_imp_le)
    next
      case False
      with F len show ?thesis by (auto simp: first_maximum_def less_Suc_eq not_less)
    qed
  qed
  with 2 show ?case by simp
qed simp

lemma dominant_exact:
  "vs \<noteq> [] \<Longrightarrow> \<exists>i. dominant names vs = names ! i \<and> first_maximum vs i"
proof -
  assume "vs \<noteq> []"
  then have "first_maximum (take 1 vs) 0" "1 + (length vs - 1) = length vs"
    by (cases vs; simp add: first_maximum_def)+
  then show ?thesis using dominant_loop_maximum [of 1 vs 0 "length vs - 1"] by (auto simp: dominant_def)
qed

definition stage_medians :: "ProfileSummary \<Rightarrow> u64 list" where
  "stage_medians ps = map st_MedianNS [pf_Generation ps, pf_Normalize ps, pf_Score ps, pf_Filter ps, pf_Aggregate ps]"

definition share_list :: "StageSharesBPS \<Rightarrow> u32 list" where
  "share_list sh = [sh_Generation sh, sh_Normalize sh, sh_Score sh, sh_Filter sh, sh_Aggregate sh]"

text \<open>Everything in an analysis is an exact quotient, rounded down, of the summaries it was made from.\<close>

definition analysis_exact ::
  "WorkloadProjection \<Rightarrow> Summary \<Rightarrow> ProfileSummary \<Rightarrow> ResultV1 \<Rightarrow> ScenarioProfileAnalysis \<Rightarrow> bool" where
  "analysis_exact w bs ps r a \<longleftrightarrow>
     (let records = unat (wp_RecordCount w); stages = stage_medians ps;
          fused = unat (st_MedianNS (su_Pipeline bs)); stage_pass = sum_list (map unat (drop 1 stages)) in
      0 < records \<and> 0 < fused \<and>
      an_AcceptedCount a = AcceptedCount r \<and>
      unat (an_SelectivityBPS a) = unat (AcceptedCount r) * 10000 div records \<and> unat (an_SelectivityBPS a) \<le> 10000 \<and>
      unat (an_StageMedianSumNS a) = sum_list (map unat stages) \<and>
      unat (an_StagePipelineMedianSumNS a) = stage_pass \<and>
      apportionBasisPoints stages = Some (Inr (share_list (an_StageShareBPS a))) \<and>
      sum_list (map unat (share_list (an_StageShareBPS a))) = 10000 \<and>
      (\<exists>i. an_DominantStage a = stageNames ! i \<and> first_maximum stages i) \<and>
      (\<exists>i. an_DominantPipelineStage a = drop 1 stageNames ! i \<and> first_maximum (drop 1 stages) i) \<and>
      unat (an_FusedPerRecordMilli a) = fused * 1000 div records \<and>
      unat (an_StagePassPerRecordMilli a) = stage_pass * 1000 div records \<and>
      unat (an_StagePassToFusedRatioMilli a) = stage_pass * 1000 div fused \<and>
      unat (an_FusedMADBPS a) = unat (st_MedianAbsoluteDeviationNS (su_Pipeline bs)) * 10000 div fused \<and>
      unat (an_ProfileTotalMADBPS a) =
        unat (st_MedianAbsoluteDeviationNS (pf_ProfileTotal ps)) * 10000 div unat (st_MedianNS (pf_ProfileTotal ps)))"

lemma drop_share: "drop 1 (stage_medians ps) = map st_MedianNS [pf_Normalize ps, pf_Score ps, pf_Filter ps, pf_Aggregate ps]"
  by (simp add: stage_medians_def)

lemma AnalyzeScenario_Inr:
  assumes "AnalyzeScenario w b bs p ps = Some (Inr a)"
  shows "\<exists>r. DecodeResult (er_Result b) w = Inr r \<and> DecodeResult (er_Result p) w = Inr r \<and> analysis_exact w bs ps r a"
proof -
  have stages: "[st_MedianNS (pf_Generation ps), st_MedianNS (pf_Normalize ps), st_MedianNS (pf_Score ps),
      st_MedianNS (pf_Filter ps), st_MedianNS (pf_Aggregate ps)] = stage_medians ps"
    by (simp add: stage_medians_def)
  let ?stages = "stage_medians ps"
  from assms obtain r t1 t2 shares q1 q2 q3 q4 q5 q6 where
    r: "wp_RecordCount w \<noteq> 0" "DecodeResult (er_Result b) w = Inr r" "DecodeResult (er_Result p) w = Inr r"
    and t: "sumUint64 ?stages = Inr t1" "sumUint64 (drop 1 ?stages) = Inr t2"
    and sh: "apportionBasisPoints ?stages = Some (Inr shares)"
    and f: "st_MedianNS (su_Pipeline bs) \<noteq> 0"
    and q: "scaledRatio (st_MedianNS (su_Pipeline bs)) (wp_RecordCount w) 1000 = Some (Inr q1)"
      "scaledRatio t2 (wp_RecordCount w) 1000 = Some (Inr q2)"
      "scaledRatio t2 (st_MedianNS (su_Pipeline bs)) 1000 = Some (Inr q3)"
      "ratioBasisPoints (st_MedianAbsoluteDeviationNS (su_Pipeline bs)) (st_MedianNS (su_Pipeline bs)) = Some (Inr q4)"
      "ratioBasisPoints (st_MedianAbsoluteDeviationNS (pf_ProfileTotal ps)) (st_MedianNS (pf_ProfileTotal ps)) = Some (Inr q5)"
      "scaledRatio (AcceptedCount r) (wp_RecordCount w) 10000 = Some (Inr q6)" "\<not> q6 > 0xFFFFFFFF"
    and a: "(case shares of [generation, normalized, score, filtered, aggregate] \<Rightarrow>
        Some (Inr \<lparr>an_AcceptedCount = AcceptedCount r, an_SelectivityBPS = ucast q6,
          an_StageMedianSumNS = t1, an_StagePipelineMedianSumNS = t2,
          an_StageShareBPS = \<lparr>sh_Generation = generation, sh_Normalize = normalized,
            sh_Score = score, sh_Filter = filtered, sh_Aggregate = aggregate\<rparr>,
          an_DominantStage = dominant stageNames ?stages,
          an_DominantPipelineStage = dominant (drop 1 stageNames) (drop 1 ?stages),
          an_FusedPerRecordMilli = q1, an_StagePassPerRecordMilli = q2, an_StagePassToFusedRatioMilli = q3,
          an_FusedMADBPS = q4, an_ProfileTotalMADBPS = q5\<rparr>) | _ \<Rightarrow> None) = Some (Inr a :: profile_error + _)"
    unfolding AnalyzeScenario_def stages Let_def
    by (auto simp: tryP_Inr_iff decodedResultsEqual_iff split: if_splits)
  have five_stages: "length ?stages = 5" by (simp add: stage_medians_def)
  have shares: "length shares = 5" "sum_list (map unat shares) = 10000"
    by (rule apportion_verdict [of ?stages]; use sh five_stages in simp)+
  then obtain g n s c ag where five: "shares = [g, n, s, c, ag]"
    by (auto simp: numeral_eq_Suc length_Suc_conv)
  note nums = sumUint64_Inr [OF t(1)] sumUint64_Inr [OF t(2)] q(1-3,6) [THEN scaledRatio_Inr]
    q(4,5) [THEN ratioBasisPoints_Inr] unat_ucast_u32 [OF q(7)]
  have "consistent_result w r" by (rule DecodeResult_consistent [OF r(2)])
  then have acc: "unat (AcceptedCount r) * 10000 \<le> unat (wp_RecordCount w) * 10000"
    by (simp add: consistent_result_def)
  have pos: "0 < unat (wp_RecordCount w)" "0 < unat (st_MedianNS (su_Pipeline bs))"
    using r(1) f by (simp_all add: unat_gt_0)
  from acc have sel: "unat q6 \<le> 10000" using nums pos(1) div_le_mono [OF acc, of "unat (wp_RecordCount w)"] by simp
  have "\<exists>i. dominant stageNames ?stages = stageNames ! i \<and> first_maximum ?stages i"
    "\<exists>i. dominant (drop 1 stageNames) (drop 1 ?stages) = drop 1 stageNames ! i \<and> first_maximum (drop 1 ?stages) i"
    by (rule dominant_exact, simp add: stage_medians_def)+
  moreover have "a = \<lparr>an_AcceptedCount = AcceptedCount r, an_SelectivityBPS = ucast q6,
          an_StageMedianSumNS = t1, an_StagePipelineMedianSumNS = t2,
          an_StageShareBPS = \<lparr>sh_Generation = g, sh_Normalize = n, sh_Score = s, sh_Filter = c, sh_Aggregate = ag\<rparr>,
          an_DominantStage = dominant stageNames ?stages,
          an_DominantPipelineStage = dominant (drop 1 stageNames) (drop 1 ?stages),
          an_FusedPerRecordMilli = q1, an_StagePassPerRecordMilli = q2, an_StagePassToFusedRatioMilli = q3,
          an_FusedMADBPS = q4, an_ProfileTotalMADBPS = q5\<rparr>"
    using a by (simp add: five)
  ultimately have "analysis_exact w bs ps r a"
    unfolding analysis_exact_def Let_def using nums sel pos shares sh
    by (simp only: five share_list_def ScenarioProfileAnalysis.simps StageSharesBPS.simps) simp
  with r show ?thesis by blast
qed

lemma AnalyzeScenario_not_None: "AnalyzeScenario w b bs p ps \<noteq> None"
proof
  assume n: "AnalyzeScenario w b bs p ps = None"
  consider (error) e where "apportionBasisPoints (stage_medians ps) = Some (Inl e)"
    | (shares) shares where "apportionBasisPoints (stage_medians ps) = Some (Inr shares)" "length shares = 5"
    by (rule apportion_verdict [of "stage_medians ps"]) (auto simp: stage_medians_def)
  then show False
  proof cases
    case error
    with n show False
      by (auto simp: AnalyzeScenario_def Let_def tryP_None_iff stage_medians_def split: if_splits)
  next
    case shares
    then obtain g k s c ag where "shares = [g, k, s, c, ag]"
      by (auto simp: numeral_eq_Suc length_Suc_conv)
    with shares n show False
      by (auto simp: AnalyzeScenario_def Let_def tryP_None_iff stage_medians_def scaledRatio_not_None
          ratioBasisPoints_not_None split: if_splits)
  qed
qed


lemma pipeline_sums_length: "pipeline_sums i samples = Inr ps \<Longrightarrow> length ps = length samples"
  by (induction i samples arbitrary: ps rule: pipeline_sums.induct) (auto simp: result_simps)

lemma summarizeValues_not_None: "vs \<noteq> [] \<Longrightarrow> \<exists>s. summarizeValues vs = Some s"
  by (metis summarizeValues_Some)

text \<open>\<open>SummarizeProfile\<close> fails on no samples and on a sample whose pipeline stages overflow, and never
  panics.\<close>

lemma SummarizeProfile_total:
  "(samples = [] \<and> SummarizeProfile samples = Some (Inl EmptyProfileSamples)) \<or>
   (samples \<noteq> [] \<and> (\<exists>e. pipeline_sums 0 samples = Inl e \<and> SummarizeProfile samples = Some (Inl e))) \<or>
   (\<exists>ps s. samples \<noteq> [] \<and> pipeline_sums 0 samples = Inr ps \<and> SummarizeProfile samples = Some (Inr s) \<and>
      summarizeValues (map ps_ProfileTotalNS samples) = Some (pf_ProfileTotal s) \<and>
      summarizeValues ps = Some (pf_PipelineStages s))"
proof (cases "samples = [] \<or> (\<exists>e. pipeline_sums 0 samples = Inl e)")
  case True
  then show ?thesis by (auto simp: SummarizeProfile_def)
next
  case False
  then obtain ps where ps: "pipeline_sums 0 samples = Inr ps" by (cases "pipeline_sums 0 samples") auto
  with False have "ps \<noteq> []" using pipeline_sums_length by fastforce
  note some = summarizeValues_not_None [OF this] summarizeValues_not_None [of "map f samples" for f]
  obtain a1 a2 a3 a4 a5 a6 a7 a8 where "summarizeValues (map ps_GenerationNS samples) = Some a1"
    "summarizeValues (map ps_NormalizeNS samples) = Some a2" "summarizeValues (map ps_ScoreNS samples) = Some a3"
    "summarizeValues (map ps_FilterNS samples) = Some a4" "summarizeValues (map ps_AggregateNS samples) = Some a5"
    "summarizeValues (map ps_StageSumNS samples) = Some a6" "summarizeValues ps = Some a7"
    "summarizeValues (map ps_ProfileTotalNS samples) = Some a8"
    using some False by (metis map_is_Nil_conv)
  with False ps show ?thesis by (simp add: SummarizeProfile_def)
qed

section \<open>Properties\<close>

text \<open>
  Claim C20. The analysis of a scenario never panics. It either fails with an error or both engines
  produced one and the same result for the workload and every number of the analysis is exact:
  the selectivity is at most 10000 basis points, the stage shares sum to 10000, the dominant
  stages are the first ones with the greatest median, and every ratio is the quotient of its
  exact 128-bit numerator, rounded down.
\<close>

theorem AnalyzeScenario_exact:
  "(\<exists>e. AnalyzeScenario w baseline bs profile ps = Some (Inl e)) \<or>
   (\<exists>a r. AnalyzeScenario w baseline bs profile ps = Some (Inr a) \<and>
      DecodeResult (er_Result baseline) w = Inr r \<and> DecodeResult (er_Result profile) w = Inr r \<and>
      analysis_exact w bs ps r a)"
proof -
  obtain v where v: "AnalyzeScenario w baseline bs profile ps = Some v"
    using AnalyzeScenario_not_None by blast
  show ?thesis using v AnalyzeScenario_Inr by (cases v) blast+
qed

definition sample_statistics :: "u64 \<Rightarrow> Statistics" where
  "sample_statistics m = \<lparr>st_Count = 1, st_MinimumNS = m, st_MedianNS = m, st_MedianAbsoluteDeviationNS = 0,
     st_MaximumNS = m\<rparr>"

theorem AnalyzeScenario_exact_witness:
  "\<exists>a. AnalyzeScenario sample_workload (zero_EngineResult\<lparr>er_Result := sample_result_text\<rparr>)
       \<lparr>su_Generation = sample_statistics 5, su_Pipeline = sample_statistics 7, su_EngineTotal = sample_statistics 12\<rparr>
       (zero_ProfileEngineResult\<lparr>er_Result := sample_result_text\<rparr>)
       \<lparr>pf_Generation = sample_statistics 5, pf_Normalize = sample_statistics 1, pf_Score = sample_statistics 3,
        pf_Filter = sample_statistics 3, pf_Aggregate = sample_statistics 1, pf_StageSum = sample_statistics 13,
        pf_PipelineStages = sample_statistics 8, pf_ProfileTotal = sample_statistics 14\<rparr> = Some (Inr a) \<and>
     unat (an_SelectivityBPS a) = 6000"
proof -
  let ?b = "zero_EngineResult\<lparr>er_Result := sample_result_text\<rparr>"
  let ?p = "zero_ProfileEngineResult\<lparr>er_Result := sample_result_text\<rparr>"
  let ?bs = "\<lparr>su_Generation = sample_statistics 5, su_Pipeline = sample_statistics 7, su_EngineTotal = sample_statistics 12\<rparr>"
  let ?ps = "\<lparr>pf_Generation = sample_statistics 5, pf_Normalize = sample_statistics 1, pf_Score = sample_statistics 3,
        pf_Filter = sample_statistics 3, pf_Aggregate = sample_statistics 1, pf_StageSum = sample_statistics 13,
        pf_PipelineStages = sample_statistics 8, pf_ProfileTotal = sample_statistics 14\<rparr>"
  obtain shares where sh: "apportionBasisPoints [5, 1, 3, 3, 1] = Some (Inr shares)" "length shares = 5"
    by (rule apportion_shares [of "[5, 1, 3, 3, 1]"]) simp_all
  then obtain g n s c ag where "shares = [g, n, s, c, ag]"
    by (auto simp: numeral_eq_Suc length_Suc_conv)
  with sh(1) have "\<not> (\<exists>e. AnalyzeScenario sample_workload ?b ?bs ?p ?ps = Some (Inl e))"
    by (simp add: AnalyzeScenario_def sample_DecodeResult tryP_def decodedResultsEqual_iff sample_statistics_def
        sumUint64_eq scaledRatio_eq ratioBasisPoints_def sample_workload_def [THEN arg_cong [where f = wp_RecordCount]] sample_result_def [THEN arg_cong [where f = AcceptedCount]])
  then show ?thesis
    using AnalyzeScenario_exact [of sample_workload ?b ?bs ?p ?ps] sample_DecodeResult
    by (auto simp: analysis_exact_def Let_def sample_workload_def sample_result_def)
qed

end
