(* ===== verification/Persist.thy ===== *)
theory Persist
  imports Prelude
begin

text \<open>
  \<open>internal/benchmark/persist.go\<close>: evidence is written to a temporary file, made durable, and then
  published under its name with a hard link, which never replaces a file. The disk is a map from
  paths to inodes and the contents of the inodes; what the operating system answers to each call,
  and what other processes do to the disk between the check of the name and the link, are
  arguments.
\<close>

section \<open>The disk\<close>

record disk =
  links :: "bytes \<rightharpoonup> nat"
  contents :: "nat \<Rightarrow> bytes"
  synced :: "nat set"
  names_synced :: bool

datatype persist_error =
    EncodeEvidence bytes
  | CreateOutputDirectory bytes
  | AlreadyExists bytes
  | InspectOutputPath bytes bytes
  | CreateTemporary bytes
  | SetPermissions bytes
  | WriteTemporary bytes
  | SyncTemporary bytes
  | CloseTemporary bytes
  | PublishCapture bytes
  | RemoveTemporary bytes
  | OpenDirectory bytes
  | SyncDirectory bytes

text \<open>\<open>os_temp\<close> is the name and the inode of the file that \<open>CreateTemp\<close> made. \<open>os_write\<close> is how many
  bytes \<open>Write\<close> delivered, and its error. \<open>os_meanwhile\<close> is what others do before the link.\<close>

record os =
  os_mkdir :: "bytes option"
  os_stat :: "bytes option"
  os_temp :: "bytes + (bytes \<times> nat)"
  os_chmod :: "bytes option"
  os_write :: "nat \<times> bytes option"
  os_sync :: "bytes option"
  os_close :: "bytes option"
  os_meanwhile :: "disk \<Rightarrow> disk"
  os_link :: "bytes option"
  os_remove :: "bytes option"
  os_opendir :: "bytes option"
  os_syncdir :: "bytes option"

definition unlink :: "bytes \<Rightarrow> disk \<Rightarrow> disk" where
  "unlink name d = d\<lparr>links := (links d)(name := None), names_synced := False\<rparr>"

definition link :: "nat \<Rightarrow> bytes \<Rightarrow> disk \<Rightarrow> disk" where
  "link inode name d = d\<lparr>links := (links d)(name \<mapsto> inode), names_synced := False\<rparr>"

definition requireAbsent :: "os \<Rightarrow> bytes \<Rightarrow> disk \<Rightarrow> persist_error + unit" where
  "requireAbsent s path d =
     (case os_stat s of
        Some e \<Rightarrow> Inl (InspectOutputPath path e)
      | None \<Rightarrow> if links d path \<noteq> None then Inl (AlreadyExists path) else Inr ())"

text \<open>The deferred clean-up of a file that was not published; its errors are ignored.\<close>

definition discard :: "os \<Rightarrow> bytes \<Rightarrow> disk \<Rightarrow> disk" where
  "discard s name d = (if os_remove s = None then unlink name d else d)"

definition fill_temporary :: "os \<Rightarrow> nat \<Rightarrow> bytes \<Rightarrow> disk \<Rightarrow> (persist_error + unit) \<times> disk" where
  "fill_temporary s inode payload d =
     (case os_chmod s of
        Some e \<Rightarrow> (Inl (SetPermissions e), d)
      | None \<Rightarrow>
          (case os_write s of
             (n, Some e) \<Rightarrow> (Inl (WriteTemporary e), d\<lparr>contents := (contents d)(inode := take n payload)\<rparr>)
           | (n, None) \<Rightarrow>
               (let d1 = d\<lparr>contents := (contents d)(inode := payload)\<rparr> in
                (case os_sync s of
                   Some e \<Rightarrow> (Inl (SyncTemporary e), d1)
                 | None \<Rightarrow>
                     (let d2 = d1\<lparr>synced := insert inode (synced d1)\<rparr> in
                      (case os_close s of
                         Some e \<Rightarrow> (Inl (CloseTemporary e), d2)
                       | None \<Rightarrow> (Inr (), d2)))))))"

text \<open>\<open>Link\<close> looks the temporary name up again: it publishes the file that has the name at that
  moment, and fails if there is none.\<close>

definition publish :: "os \<Rightarrow> bytes \<Rightarrow> bytes \<Rightarrow> disk \<Rightarrow> (persist_error + unit) \<times> disk" where
  "publish s name path d =
     (case links d name of
        None \<Rightarrow> (Inl (PublishCapture ''no such file or directory''), discard s name d)
      | Some inode \<Rightarrow>
     (if links d path \<noteq> None then (Inl (AlreadyExists path), discard s name d)
      else
        (case os_link s of
           Some e \<Rightarrow> (Inl (PublishCapture e), discard s name d)
         | None \<Rightarrow>
             (let d1 = link inode path d in
              (case os_remove s of
                 Some e \<Rightarrow> (Inl (RemoveTemporary e), d1)
               | None \<Rightarrow>
                   (let d2 = unlink name d1 in
                    (case os_opendir s of
                       Some e \<Rightarrow> (Inl (OpenDirectory e), d2)
                     | None \<Rightarrow>
                         (case os_syncdir s of
                            Some e \<Rightarrow> (Inl (SyncDirectory e), d2)
                          | None \<Rightarrow> (Inr (), d2\<lparr>names_synced := True\<rparr>)))))))))"

text \<open>The payload is what \<open>MarshalIndent\<close> made of the value, or its error.\<close>

definition persistJSONNoOverwrite ::
  "os \<Rightarrow> bytes \<Rightarrow> bytes + bytes \<Rightarrow> disk \<Rightarrow> (persist_error + unit) \<times> disk" where
  "persistJSONNoOverwrite s path marshalled d =
     (case marshalled of
        Inl e \<Rightarrow> (Inl (EncodeEvidence e), d)
      | Inr encoded \<Rightarrow>
          (let payload = encoded @ [CHR 0x0A] in
           (case os_mkdir s of
              Some e \<Rightarrow> (Inl (CreateOutputDirectory e), d)
            | None \<Rightarrow>
                (case requireAbsent s path d of
                   Inl e \<Rightarrow> (Inl e, d)
                 | Inr _ \<Rightarrow>
                     (case os_temp s of
                        Inl e \<Rightarrow> (Inl (CreateTemporary e), d)
                      | Inr (name, inode) \<Rightarrow>
                          (case fill_temporary s inode payload (link inode name (d\<lparr>contents := (contents d)(inode := [])\<rparr>)) of
                             (Inl e, d1) \<Rightarrow> (Inl e, discard s name d1)
                           | (Inr _, d1) \<Rightarrow> publish s name path (os_meanwhile s d1)))))))"

section \<open>What publication guarantees\<close>

text \<open>\<open>CreateTemp\<close> makes a new file (\<open>O_EXCL\<close>): its name and inode are not in use. The other processes
  leave that file and its name alone; to every other path they may do anything.\<close>

definition exclusive_temp :: "os \<Rightarrow> bytes \<Rightarrow> disk \<Rightarrow> bool" where
  "exclusive_temp s path d \<longleftrightarrow>
     (case os_temp s of
        Inl _ \<Rightarrow> True
      | Inr (name, inode) \<Rightarrow>
          name \<noteq> path \<and> links d name = None \<and> inode \<notin> ran (links d) \<and>
          (\<forall>d'. links (os_meanwhile s d') name = links d' name \<and>
             contents (os_meanwhile s d') inode = contents d' inode \<and>
             (inode \<in> synced d' \<longrightarrow> inode \<in> synced (os_meanwhile s d'))))"

definition published :: "bytes \<Rightarrow> bytes \<Rightarrow> disk \<Rightarrow> bool" where
  "published path payload d \<longleftrightarrow>
     (\<exists>inode. links d path = Some inode \<and> contents d inode = payload \<and> inode \<in> synced d)"

text \<open>The disk right before the link, when there is one.\<close>

definition at_link :: "os \<Rightarrow> bytes \<Rightarrow> disk \<Rightarrow> disk" where
  "at_link s payload d =
     (case os_temp s of
        Inl _ \<Rightarrow> d
      | Inr (name, inode) \<Rightarrow>
          os_meanwhile s (snd (fill_temporary s inode payload
            (link inode name (d\<lparr>contents := (contents d)(inode := [])\<rparr>)))))"

lemma fill_temporary_ok:
  "fill_temporary s inode payload d = (Inr (), d') \<Longrightarrow>
     contents d' inode = payload \<and> inode \<in> synced d' \<and> links d' = links d"
  by (auto simp: fill_temporary_def Let_def split: option.splits prod.splits)

lemma fill_temporary_links: "links (snd (fill_temporary s inode payload d)) = links d"
  by (auto simp: fill_temporary_def Let_def split: option.splits prod.splits)

lemma fill_temporary_contents:
  "i \<noteq> inode \<Longrightarrow> contents (snd (fill_temporary s inode payload d)) i = contents d i"
  by (auto simp: fill_temporary_def Let_def split: option.splits prod.splits)

lemma publish_links:
  "publish s name path d = (r, d') \<Longrightarrow> p \<noteq> name \<Longrightarrow>
     links d' p = links d p \<or> p = path \<and> links d path = None \<and> links d' path = links d name"
  by (auto simp: publish_def discard_def link_def unlink_def Let_def split: if_splits option.splits)

lemma publish_contents: "publish s name path d = (r, d') \<Longrightarrow> contents d' = contents d \<and> synced d' = synced d"
  by (auto simp: publish_def discard_def link_def unlink_def Let_def split: if_splits option.splits)

lemma publish_ok:
  "publish s name path d = (Inr (), d') \<Longrightarrow> name \<noteq> path \<Longrightarrow>
     links d path = None \<and> links d' = ((links d)(path := links d name))(name := None) \<and>
     links d name \<noteq> None \<and> names_synced d'"
  by (auto simp: publish_def discard_def link_def unlink_def Let_def split: if_splits option.splits)


text \<open>The three ways a call can go: it stops before the temporary file exists, while it is filled, or
  at the link.\<close>

lemma persist_cases:
  assumes "persistJSONNoOverwrite s path marshalled d = (r, d')"
  obtains (early) e where "r = Inl e" "d' = d"
  | (filling) encoded name inode e d1 where "marshalled = Inr encoded" "os_temp s = Inr (name, inode)"
      "links d path = None" "r = Inl e" "d' = discard s name d1"
      "fill_temporary s inode (encoded @ [CHR 0x0A]) (link inode name (d\<lparr>contents := (contents d)(inode := [])\<rparr>)) = (Inl e, d1)"
  | (linking) encoded name inode d1 where "marshalled = Inr encoded" "os_temp s = Inr (name, inode)"
      "links d path = None" "publish s name path (os_meanwhile s d1) = (r, d')"
      "fill_temporary s inode (encoded @ [CHR 0x0A]) (link inode name (d\<lparr>contents := (contents d)(inode := [])\<rparr>)) = (Inr (), d1)"
proof (cases marshalled)
  case (Inl e)
  then show thesis using assms by (intro early) (auto simp: persistJSONNoOverwrite_def)
next
  case (Inr encoded)
  show thesis
  proof (cases "os_mkdir s = None \<and> requireAbsent s path d = Inr () \<and> (\<exists>name inode. os_temp s = Inr (name, inode))")
    case False
    then have "\<exists>e. r = Inl e \<and> d' = d"
      using assms by (cases "requireAbsent s path d") (auto simp: Inr persistJSONNoOverwrite_def split: option.splits sum.splits dest: sym)
    then show thesis using early by blast
  next
    case True
    then obtain name inode where t: "os_temp s = Inr (name, inode)" by blast
    have absent: "links d path = None" using True by (auto simp: requireAbsent_def split: option.splits if_splits)
    obtain v d1 where f: "fill_temporary s inode (encoded @ [CHR 0x0A])
        (link inode name (d\<lparr>contents := (contents d)(inode := [])\<rparr>)) = (v, d1)" by fastforce
    show thesis
    proof (cases v)
      case (Inl e)
      then show thesis
        using assms True by (intro filling [OF Inr t absent, of e d1]) (auto simp: Inr t f persistJSONNoOverwrite_def)
    next
      case (Inr u)
      then show thesis
        using assms True by (intro linking [OF \<open>marshalled = Inr encoded\<close> t absent, of d1])
          (auto simp: \<open>marshalled = Inr encoded\<close> t f persistJSONNoOverwrite_def)
    qed
  qed
qed

lemma discard_links: "p \<noteq> name \<Longrightarrow> links (discard s name d) p = links d p"
  by (simp add: discard_def unlink_def)

lemma link_links: "p \<noteq> name \<Longrightarrow> links (link i name d) p = links d p"
  by (simp add: link_def)

text \<open>What is at the name afterwards, and what success means.\<close>

lemma linked_contents:
  assumes "exclusive_temp s path d" "os_temp s = Inr (name, inode)"
    "publish s name path (os_meanwhile s d1) = (r, d')"
    "fill_temporary s inode payload (link inode name d0) = (Inr (), d1)"
  shows "contents d' inode = payload \<and> inode \<in> synced d' \<and> name \<noteq> path \<and>
     links (os_meanwhile s d1) name = Some inode"
  using fill_temporary_ok [OF assms(4)] publish_contents [OF assms(3)] assms(1,2)
  by (auto simp: exclusive_temp_def link_def)

lemma persist_path:
  assumes "exclusive_temp s path d" "persistJSONNoOverwrite s path (Inr encoded) d = (r, d')"
  shows "links d' path = links d path \<or> links d' path = links (at_link s (encoded @ [CHR 0x0A]) d) path \<or>
    links (at_link s (encoded @ [CHR 0x0A]) d) path = None \<and> published path (encoded @ [CHR 0x0A]) d'"
  using assms(2)
proof (cases rule: persist_cases)
  case (filling encoded' name inode e d1)
  have "links d1 = (links d)(name \<mapsto> inode)"
    using fill_temporary_links [of s inode "encoded @ [CHR 0x0A]" "link inode name (d\<lparr>contents := (contents d)(inode := [])\<rparr>)"]
      filling(1,6) by (simp add: link_def)
  moreover have "name \<noteq> path" using assms(1) filling(2) by (simp add: exclusive_temp_def)
  ultimately show ?thesis by (simp add: filling(5) discard_def unlink_def)
next
  case (linking encoded' name inode d1)
  note data = linked_contents [OF assms(1) linking(2,4,5)]
  have "at_link s (encoded @ [CHR 0x0A]) d = os_meanwhile s d1" using linking(1,2,5) by (simp add: at_link_def)
  then show ?thesis
    using publish_links [OF linking(4), of path] data linking(1) by (auto simp: published_def)
qed simp

lemma persist_success:
  assumes "exclusive_temp s path d" "persistJSONNoOverwrite s path marshalled d = (Inr (), d')"
  obtains encoded where "marshalled = Inr encoded" "published path (encoded @ [CHR 0x0A]) d'" "names_synced d'"
    "links d path = None" "links (at_link s (encoded @ [CHR 0x0A]) d) path = None"
  using assms(2)
proof (cases rule: persist_cases)
  case (linking encoded name inode d1)
  note data = linked_contents [OF assms(1) linking(2,4,5)]
  have at: "at_link s (encoded @ [CHR 0x0A]) d = os_meanwhile s d1" using linking(2,5) by (simp add: at_link_def)
  show thesis
    using publish_ok [OF linking(4)] data linking(1-3) at by (intro that) (auto simp: published_def)
qed simp_all

section \<open>Properties\<close>

text \<open>
  Claim C18. Persisting evidence never replaces a file, whatever the system answers and whatever others
  do before the link: if the name is taken at the check or at the link, the call fails and the
  name keeps its file; every other name is left as it was found. Success means that the name now has
  exactly the encoded evidence, which has been synced, that the directory has been synced and that the
  temporary name is gone. After a failure the name is untouched or has the complete, synced
  evidence, and the temporary name is gone whenever it could be removed.
\<close>

theorem persist_never_overwrites:
  assumes "exclusive_temp s path d" "persistJSONNoOverwrite s path marshalled d = (r, d')"
  shows "(links d path \<noteq> None \<longrightarrow> r \<noteq> Inr () \<and> d' = d) \<and>
     (r = Inr () \<longrightarrow> (\<exists>encoded. marshalled = Inr encoded \<and> published path (encoded @ [CHR 0x0A]) d' \<and>
        names_synced d' \<and> links (at_link s (encoded @ [CHR 0x0A]) d) path = None)) \<and>
     (\<forall>encoded. marshalled = Inr encoded \<longrightarrow>
        links d' path = links d path \<or> links d' path = links (at_link s (encoded @ [CHR 0x0A]) d) path \<or>
        links (at_link s (encoded @ [CHR 0x0A]) d) path = None \<and> published path (encoded @ [CHR 0x0A]) d') \<and>
     (\<forall>encoded name inode p. marshalled = Inr encoded \<and> os_temp s = Inr (name, inode) \<and> p \<noteq> name \<and> p \<noteq> path \<longrightarrow>
        links d' p = links d p \<or> links d' p = links (at_link s (encoded @ [CHR 0x0A]) d) p) \<and>
     (\<forall>name inode. os_temp s = Inr (name, inode) \<and> os_remove s = None \<longrightarrow> links d' name = None)"
proof -
  have gone: "links d' p = links d p \<or> links d' p = links (at_link s (encoded @ [CHR 0x0A]) d) p"
    if "marshalled = Inr encoded" "os_temp s = Inr (name, inode)" "p \<noteq> name" "p \<noteq> path" for encoded name inode p
    using assms(2)
  proof (cases rule: persist_cases)
    case (filling encoded' name' inode' e d1)
    then have "links d1 = (links d)(name \<mapsto> inode)"
      using fill_temporary_links [of s inode "encoded @ [CHR 0x0A]" "link inode name (d\<lparr>contents := (contents d)(inode := [])\<rparr>)"]
        that by (simp add: link_def)
    with filling that show ?thesis by (simp add: discard_def unlink_def)
  next
    case (linking encoded' name' inode' d1)
    with that publish_links [OF linking(4), of p] show ?thesis by (auto simp: at_link_def)
  qed simp
  have temporary: "links d' name = None" if "os_temp s = Inr (name, inode)" "os_remove s = None" for name inode
    using assms(2)
  proof (cases rule: persist_cases)
    case early
    with assms(1) that show ?thesis by (simp add: exclusive_temp_def)
  next
    case filling
    with that show ?thesis by (simp add: discard_def unlink_def)
  next
    case linking
    with that assms(1) show ?thesis
      by (auto simp: exclusive_temp_def publish_def discard_def link_def unlink_def Let_def split: if_splits option.splits)
  qed
  have taken: "r \<noteq> Inr () \<and> d' = d" if "links d path \<noteq> None"
    using assms(2) by (cases rule: persist_cases) (use that in auto)
  have ok: "\<exists>encoded. marshalled = Inr encoded \<and> published path (encoded @ [CHR 0x0A]) d' \<and>
      names_synced d' \<and> links (at_link s (encoded @ [CHR 0x0A]) d) path = None" if "r = Inr ()"
    using persist_success [OF assms(1)] assms(2) that by metis
  have path: "links d' path = links d path \<or> links d' path = links (at_link s (encoded @ [CHR 0x0A]) d) path \<or>
      links (at_link s (encoded @ [CHR 0x0A]) d) path = None \<and> published path (encoded @ [CHR 0x0A]) d'"
    if "marshalled = Inr encoded" for encoded
    using persist_path [OF assms(1)] assms(2) that by simp
  show ?thesis
    by (intro conjI impI allI) (use taken ok path gone temporary in metis)+
qed

definition sample_os :: "(disk \<Rightarrow> disk) \<Rightarrow> bytes option \<Rightarrow> os" where
  "sample_os meanwhile syncdir = \<lparr>os_mkdir = None, os_stat = None, os_temp = Inr (''t'', 0), os_chmod = None,
     os_write = (3, None), os_sync = None, os_close = None, os_meanwhile = meanwhile, os_link = None,
     os_remove = None, os_opendir = None, os_syncdir = syncdir\<rparr>"

definition empty_disk :: disk where
  "empty_disk = \<lparr>links = Map.empty, contents = (\<lambda>_. []), synced = {}, names_synced = True\<rparr>"

lemmas persist_eval = persistJSONNoOverwrite_def requireAbsent_def fill_temporary_def publish_def discard_def
  link_def unlink_def sample_os_def empty_disk_def Let_def

text \<open>A run that nobody disturbs publishes; one where another process takes the name first fails, and the
  name keeps the other file.\<close>

theorem persist_never_overwrites_witness:
  "(\<exists>d'. persistJSONNoOverwrite (sample_os id None) ''p'' (Inr ''{}'') empty_disk = (Inr (), d') \<and>
      published ''p'' (''{}'' @ [CHR 0x0A]) d') \<and>
   (\<exists>d'. persistJSONNoOverwrite (sample_os (link 7 ''p'') None) ''p'' (Inr ''{}'') empty_disk = (Inl (AlreadyExists ''p''), d') \<and>
      links d' ''p'' = Some 7)"
proof -
  have "exclusive_temp (sample_os id None) ''p'' empty_disk"
    by (simp add: exclusive_temp_def sample_os_def empty_disk_def)
  from persist_never_overwrites [OF this, of "Inr ''{}''"]
  have ok: "persistJSONNoOverwrite (sample_os id None) ''p'' (Inr ''{}'') empty_disk = (Inr (), d') \<Longrightarrow>
      published ''p'' (''{}'' @ [CHR 0x0A]) d'" for d'
    by fastforce
  have "\<exists>d'. persistJSONNoOverwrite (sample_os id None) ''p'' (Inr ''{}'') empty_disk = (Inr (), d')"
    by (simp add: persist_eval)
  moreover have "\<exists>d'. persistJSONNoOverwrite (sample_os (link 7 ''p'') None) ''p'' (Inr ''{}'') empty_disk =
      (Inl (AlreadyExists ''p''), d') \<and> links d' ''p'' = Some 7"
    by (simp add: persist_eval)
  ultimately show ?thesis using ok by blast
qed

text \<open>An error does not mean that nothing was published: the directory may fail to sync afterwards.\<close>

lemma error_after_publication:
  "\<exists>d'. persistJSONNoOverwrite (sample_os id (Some ''EIO'')) ''p'' (Inr ''{}'') empty_disk = (Inl (SyncDirectory ''EIO''), d') \<and>
     published ''p'' (''{}'' @ [CHR 0x0A]) d'"
  by (simp add: persist_eval published_def)

end
