(* ===== verification/Platform.thy ===== *)
theory Platform
  imports GoText
begin

text \<open>
  \<open>internal/doctor/platform.go\<close>: what the report says about the host. The operating system is a
  record of its answers: the name of the system, the contents of files, the combined output of
  commands that succeed within their time limit, and environment variables.
\<close>

record host =
  h_GOOS :: bytes
  h_GOARCH :: bytes
  h_file :: "bytes \<Rightarrow> bytes option"
  h_command :: "bytes \<Rightarrow> bytes list \<Rightarrow> bytes option"
  h_getenv :: "bytes \<Rightarrow> bytes"
  h_NumCPU :: nat
  h_GoMaxProcs :: nat
  h_GoVersion :: bytes
  h_Now :: time

definition unavailablePlatformValue :: bytes where
  "unavailablePlatformValue = ''unknown''"

section \<open>Lines of a file\<close>

definition line_feed :: char where "line_feed = CHR 0x0A"

text \<open>\<open>bufio.Scanner\<close> with \<open>ScanLines\<close>: a line loses its newline and one carriage return before
  it, an empty last line does not count, and the scan stops without an error value being looked at
  when a line does not fit the buffer of 64 KiB.\<close>

definition max_scan_line :: nat where "max_scan_line = 65535"

definition drop_cr :: "bytes \<Rightarrow> bytes" where
  "drop_cr s = (if s \<noteq> [] \<and> last s = CHR 0x0D then butlast s else s)"

fun take_lines :: "bytes list \<Rightarrow> bytes list" where
  "take_lines [] = []"
| "take_lines [l] = (if l = [] \<or> length l > max_scan_line then [] else [drop_cr l])"
| "take_lines (l # m # ls) = (if length l > max_scan_line then [] else drop_cr l # take_lines (m # ls))"

definition scan_lines :: "bytes \<Rightarrow> bytes list" where
  "scan_lines input = take_lines (split_on line_feed input)"

text \<open>\<open>strings.Cut(s, ":")\<close>.\<close>

fun cut_colon :: "bytes \<Rightarrow> (bytes \<times> bytes) option" where
  "cut_colon [] = None"
| "cut_colon (c # cs) =
     (if c = CHR '':'' then Some ([], cs)
      else map_option (\<lambda>(key, v). (c # key, v)) (cut_colon cs))"

definition firstLine :: "bytes \<Rightarrow> bytes" where
  "firstLine v =
     (let t = trim_space v in
      if line_feed \<in> set t then trim_space (takeWhile (\<lambda>c. c \<noteq> line_feed) t) else t)"

section \<open>Commands and files\<close>

definition readTrimmedFile :: "host \<Rightarrow> bytes \<Rightarrow> bytes" where
  "readTrimmedFile h path =
     (case h_file h path of None \<Rightarrow> [] | Some data \<Rightarrow> trim_space data)"

definition platformCommand :: "host \<Rightarrow> bytes \<Rightarrow> bytes list \<Rightarrow> bytes" where
  "platformCommand h command args =
     (case h_command h command args of
        None \<Rightarrow> unavailablePlatformValue
      | Some output \<Rightarrow>
          if firstLine output \<noteq> [] then firstLine output else unavailablePlatformValue)"

definition captureKernelVersion :: "host \<Rightarrow> bytes" where
  "captureKernelVersion h =
     (let v = readTrimmedFile h ''/proc/sys/kernel/osrelease'' in
      if h_GOOS h = ''linux'' \<and> v \<noteq> [] then v
      else if h_GOOS h \<in> {''darwin'', ''freebsd'', ''openbsd'', ''netbsd''}
      then platformCommand h ''uname'' [''-r'']
      else if h_GOOS h = ''windows'' then platformCommand h ''cmd'' [''/c'', ''ver'']
      else unavailablePlatformValue)"

section \<open>Physical cores\<close>

record core_scan =
  cores :: "bytes list"
  physicalID :: bytes
  coreID :: bytes

definition commit_core :: "core_scan \<Rightarrow> core_scan" where
  "commit_core s =
     (let s' = (if physicalID s \<noteq> [] \<and> coreID s \<noteq> []
                then s\<lparr>cores := List.insert (physicalID s @ '':'' @ coreID s) (cores s)\<rparr> else s)
      in s'\<lparr>physicalID := [], coreID := []\<rparr>)"

definition scan_core_line :: "bytes \<Rightarrow> core_scan \<Rightarrow> core_scan" where
  "scan_core_line line s =
     (if trim_space line = [] then commit_core s
      else
        (case cut_colon line of
           None \<Rightarrow> s
         | Some (key, v) \<Rightarrow>
             if trim_space key = ''physical id'' then s\<lparr>physicalID := trim_space v\<rparr>
             else if trim_space key = ''core id'' then s\<lparr>coreID := trim_space v\<rparr>
             else s))"

definition linuxPhysicalCoreCount :: "bytes \<Rightarrow> nat" where
  "linuxPhysicalCoreCount input =
     length (cores (commit_core
       (fold scan_core_line (scan_lines input) \<lparr>cores = [], physicalID = [], coreID = []\<rparr>)))"

text \<open>\<open>strconv.Atoi\<close> on 64 bits: an optional sign and at least one digit, in range.\<close>

definition decimal_digits :: "bytes \<Rightarrow> nat option" where
  "decimal_digits s = (if s = [] then None else parse_digits 10 s 0)"

definition atoi :: "bytes \<Rightarrow> int option" where
  "atoi s =
     (case s of
        [] \<Rightarrow> None
      | c # cs \<Rightarrow>
          if c = CHR ''-'' then
            Option.bind (decimal_digits cs) (\<lambda>n. if n \<le> 2 ^ 63 then Some (- int n) else None)
          else
            Option.bind (decimal_digits (if c = CHR ''+'' then cs else s))
              (\<lambda>n. if n < 2 ^ 63 then Some (int n) else None))"

definition capturePhysicalCores :: "host \<Rightarrow> nat" where
  "capturePhysicalCores h =
     (let linux_count =
            (if h_GOOS h = ''linux''
             then (case h_file h ''/proc/cpuinfo'' of None \<Rightarrow> 0 | Some f \<Rightarrow> linuxPhysicalCoreCount f)
             else 0) in
      if linux_count > 0 then linux_count
      else if h_GOOS h = ''darwin'' then
        (case atoi (trim_space (platformCommand h ''sysctl'' [''-n'', ''hw.physicalcpu''])) of
           Some n \<Rightarrow> if n > 0 then nat n else 0
         | None \<Rightarrow> 0)
      else 0)"

section \<open>Processor model\<close>

fun scan_model :: "bytes list \<Rightarrow> bytes \<Rightarrow> bytes" where
  "scan_model [] fallback = fallback"
| "scan_model (line # lines) fallback =
     (case cut_colon line of
        None \<Rightarrow> scan_model lines fallback
      | Some (key, v) \<Rightarrow>
          if trim_space key = ''model name'' then trim_space v
          else if trim_space key = ''Hardware'' \<or> trim_space key = ''Processor'' then
            scan_model lines (if fallback = [] \<and> trim_space v \<noteq> [] then trim_space v else fallback)
          else scan_model lines fallback)"

definition linuxCPUModel :: "host \<Rightarrow> bytes" where
  "linuxCPUModel h =
     (case h_file h ''/proc/cpuinfo'' of None \<Rightarrow> [] | Some f \<Rightarrow> scan_model (scan_lines f) [])"

definition captureCPUModel :: "host \<Rightarrow> bytes" where
  "captureCPUModel h =
     (if h_GOOS h = ''linux'' \<and> linuxCPUModel h \<noteq> [] then linuxCPUModel h
      else if h_GOOS h = ''darwin'' then platformCommand h ''sysctl'' [''-n'', ''machdep.cpu.brand_string'']
      else if h_GOOS h = ''freebsd'' then platformCommand h ''sysctl'' [''-n'', ''hw.model'']
      else if h_GOOS h = ''windows'' \<and> trim_space (h_getenv h ''PROCESSOR_IDENTIFIER'') \<noteq> []
      then trim_space (h_getenv h ''PROCESSOR_IDENTIFIER'')
      else unavailablePlatformValue)"

section \<open>The core count over blocks\<close>

text \<open>The specification cuts the lines at blank ones and reads the last identifier of each kind in a
  block.\<close>

fun blocks :: "bytes list \<Rightarrow> bytes list list" where
  "blocks [] = [[]]"
| "blocks (line # lines) =
     (if trim_space line = [] then [] # blocks lines
      else (case blocks lines of [] \<Rightarrow> [[line]] | b # bs \<Rightarrow> (line # b) # bs))"

definition line_value :: "bytes \<Rightarrow> bytes \<Rightarrow> bytes option" where
  "line_value key line =
     (case cut_colon line of
        None \<Rightarrow> None
      | Some (k, v) \<Rightarrow> if trim_space k = key then Some (trim_space v) else None)"

fun block_value :: "bytes \<Rightarrow> bytes list \<Rightarrow> bytes \<Rightarrow> bytes" where
  "block_value key [] old = old"
| "block_value key (line # lines) old =
     block_value key lines (case line_value key line of None \<Rightarrow> old | Some v \<Rightarrow> v)"

definition block_core :: "bytes \<Rightarrow> bytes \<Rightarrow> bytes list \<Rightarrow> bytes set" where
  "block_core p c b =
     (let p' = block_value ''physical id'' b p; c' = block_value ''core id'' b c in
      if p' \<noteq> [] \<and> c' \<noteq> [] then {p' @ '':'' @ c'} else {})"

lemma blocks_not_Nil: "blocks lines \<noteq> []"
  by (cases lines) (auto split: list.splits)

lemma scan_cores_blocks:
  assumes "distinct (cores s)"
  shows "distinct (cores (commit_core (fold scan_core_line lines s))) \<and>
    set (cores (commit_core (fold scan_core_line lines s))) =
      set (cores s) \<union> block_core (physicalID s) (coreID s) (hd (blocks lines)) \<union>
      (\<Union>b\<in>set (tl (blocks lines)). block_core [] [] b)"
  using assms
proof (induction lines arbitrary: s)
  case Nil
  then show ?case by (auto simp: commit_core_def block_core_def Let_def)
next
  case (Cons line lines)
  obtain b bs where b: "blocks lines = b # bs"
    using blocks_not_Nil by (meson neq_Nil_conv)
  have scan: "distinct (cores (scan_core_line line s))"
    using Cons.prems by (auto simp: scan_core_line_def commit_core_def Let_def split: option.splits)
  show ?case
  proof (cases "trim_space line = []")
    case True
    then have "scan_core_line line s = commit_core s" by (simp add: scan_core_line_def)
    moreover have "set (cores (commit_core s)) = set (cores s) \<union> block_core (physicalID s) (coreID s) []"
      "physicalID (commit_core s) = []" "coreID (commit_core s) = []"
      by (auto simp: commit_core_def block_core_def Let_def)
    ultimately show ?thesis using Cons.IH [OF scan] True b by auto
  next
    case False
    then have "cores (scan_core_line line s) = cores s"
      "block_core (physicalID (scan_core_line line s)) (coreID (scan_core_line line s)) b =
         block_core (physicalID s) (coreID s) (line # b)"
      by (auto simp: scan_core_line_def block_core_def line_value_def Let_def split: option.splits)
    with Cons.IH [OF scan] False b show ?thesis by simp
  qed
qed

text \<open>
  Claim C38. The physical core count is the number of distinct pairs of a processor and a core that some
  block of \<open>/proc/cpuinfo\<close> names: blocks are cut at blank lines, the last value of a key in a block
  counts, and a block that lacks either identifier is not a core. A pair is the two texts joined by a
  colon, as the code joins them; the kernel's identifiers are numbers.
\<close>

theorem linuxPhysicalCoreCount_exact:
  "linuxPhysicalCoreCount input = card (\<Union>b\<in>set (blocks (scan_lines input)). block_core [] [] b)"
proof -
  let ?s = "\<lparr>cores = [], physicalID = [], coreID = []\<rparr>"
  let ?r = "cores (commit_core (fold scan_core_line (scan_lines input) ?s))"
  obtain b bs where b: "blocks (scan_lines input) = b # bs"
    using blocks_not_Nil by (meson neq_Nil_conv)
  have "distinct ?r" "set ?r = (\<Union>b\<in>set (blocks (scan_lines input)). block_core [] [] b)"
    using scan_cores_blocks [of ?s "scan_lines input"] b by simp_all
  then show ?thesis by (metis linuxPhysicalCoreCount_def distinct_card)
qed

lemma platformCommand_nonempty: "platformCommand h c args \<noteq> []"
  by (simp add: platformCommand_def unavailablePlatformValue_def split: option.split)

text \<open>
  The captured kernel version and processor model are never empty, on any host and however its
  files and commands fail: what cannot be read is the text for unknown.
\<close>

lemma captured_values_nonempty: "captureKernelVersion h \<noteq> [] \<and> captureCPUModel h \<noteq> []"
  using platformCommand_nonempty
  by (simp add: captureKernelVersion_def captureCPUModel_def Let_def unavailablePlatformValue_def)

end
