(* ===== verification/Doctor.thy ===== *)
theory Doctor
  imports Platform Buildinfo "HOL-Library.Product_Lexorder"
begin

text \<open>
  \<open>internal/doctor/doctor.go\<close>: the tool table, the probe of one executable, its assessment and the
  readiness verdict. A problem is kept as what it says instead of as its rendered sentence; an
  injected probe may report any text of its own.
\<close>

section \<open>Data\<close>

record Tool =
  t_Name :: bytes
  t_Command :: bytes
  t_VersionArgs :: "bytes list"
  t_Required :: bool
  t_Minimum :: bytes
  t_VersionContains :: bytes
  t_Introduced :: bytes
  t_Purpose :: bytes

record numericVersion =
  major :: nat
  minor :: nat
  patch :: nat

datatype version_error = NoNumericVersion bytes | ComponentOutOfRange bytes

datatype problem =
    Text bytes
  | ProbeTimedOut
  | ProbeCanceled
  | CommandFailed bytes bytes
  | NoVersionOutput
  | MustContain bytes bytes
  | CannotParseVersion version_error
  | InvalidMinimum bytes version_error
  | TooOld numericVersion numericVersion

text \<open>The empty text is no problem.\<close>

definition has_problem :: "problem \<Rightarrow> bool" where
  "has_problem p \<longleftrightarrow> p \<noteq> Text []"

record ToolResult =
  r_Name :: bytes
  r_Required :: bool
  r_MinimumVersion :: bytes
  r_Introduced :: bytes
  r_Purpose :: bytes
  r_Found :: bool
  r_Usable :: bool
  r_Path :: bytes
  r_Version :: bytes
  r_Problem :: problem

record Report =
  rp_SchemaVersion :: bytes
  rp_Milestone :: bytes
  rp_CapturedAt :: time
  rp_OS :: bytes
  rp_KernelVersion :: bytes
  rp_Architecture :: bytes
  rp_CPUModel :: bytes
  rp_PhysicalCores :: int
  rp_LogicalCPUs :: int
  rp_GoMaxProcs :: int
  rp_GoVersion :: bytes
  rp_Source :: Info
  rp_Ready :: bool
  rp_Tools :: "ToolResult list"

definition reportSchema :: bytes where "reportSchema = ''paraflow.environment/v3''"
definition currentMilestone :: bytes where "currentMilestone = ''day-07''"

text \<open>\<open>make\<close> is the one tool whose output must contain a text.\<close>

definition tool ::
  "bytes \<Rightarrow> bytes \<Rightarrow> bytes list \<Rightarrow> bool \<Rightarrow> bytes \<Rightarrow> bytes \<Rightarrow> bytes \<Rightarrow> bytes \<Rightarrow> Tool" where
  "tool name command args required minimum has introduced purpose =
     \<lparr>t_Name = name, t_Command = command, t_VersionArgs = args, t_Required = required,
      t_Minimum = minimum, t_VersionContains = has, t_Introduced = introduced, t_Purpose = purpose\<rparr>"

definition tools :: "Tool list" where
  "tools =
     [tool ''git'' ''git'' [''--version''] True [] [] ''day-01'' ''source history and reproducibility identity'',
      tool ''go'' ''go'' [''version''] True ''1.24.0'' [] ''day-01'' ''experiment control plane'',
      tool ''rustc'' ''rustc'' [''--version''] True ''1.97.1'' [] ''day-01'' ''execution engine compiler'',
      tool ''cargo'' ''cargo'' [''--version''] True ''1.97.1'' [] ''day-01'' ''Rust build and test orchestration'',
      tool ''cc'' ''cc'' [''--version''] True [] [] ''day-01'' ''C toolchain required by Go race-detector tests'',
      tool ''node'' ''node'' [''--version''] True ''20.0.0'' [] ''day-01'' ''Draft 2020-12 contract validation'',
      tool ''npm'' ''npm'' [''--version''] True [] [] ''day-01'' ''reproducible schema-validator installation'',
      tool ''rustfmt'' ''rustfmt'' [''--version''] True [] [] ''day-01'' ''Rust formatting gate'',
      tool ''clippy'' ''cargo'' [''clippy'', ''--version''] True [] [] ''day-01'' ''Rust lint gate'',
      tool ''bash'' ''bash'' [''--version''] True ''4.0.0'' [] ''day-01'' ''repository scripts and workload discovery'',
      tool ''make'' ''make'' [''--version''] True [] ''GNU Make'' ''day-01'' ''repository quality-gate orchestration'',
      tool ''c++'' ''c++'' [''--version''] False [] [] ''week-02'' ''native scalar, SIMD, and CUDA host kernels'',
      tool ''ispc'' ''ispc'' [''--version''] False [] [] ''week-02'' ''SPMD-to-SIMD kernels'',
      tool ''nvcc'' ''nvcc'' [''--version''] False [] [] ''week-09'' ''CUDA backend'']"

section \<open>Versions\<close>

definition ascii_digit :: "char \<Rightarrow> bool" where
  "ascii_digit c \<longleftrightarrow> 48 \<le> byte c \<and> byte c \<le> 57"

text \<open>\<open>numericVersionPattern\<close> at one position: an optional \<open>go\<close>, a run of digits, a dot, a run of
  digits, and a dot with a run of digits if there is one. A run is always maximal, because what
  follows it in the pattern is a dot or the end of the match.\<close>

definition match_numbers :: "bytes \<Rightarrow> (bytes \<times> bytes \<times> bytes) option" where
  "match_numbers s =
     (let a = takeWhile ascii_digit s; r = drop (length a) s in
      if a = [] \<or> \<not> has_prefix r ''.'' then None
      else
        (let b = takeWhile ascii_digit (drop 1 r); r' = drop (length b) (drop 1 r) in
         if b = [] then None
         else Some (a, b, if has_prefix r' ''.'' then takeWhile ascii_digit (drop 1 r') else [])))"

definition match_at :: "bytes \<Rightarrow> (bytes \<times> bytes \<times> bytes) option" where
  "match_at s = (if has_prefix s ''go'' then match_numbers (drop 2 s) else match_numbers s)"

text \<open>The leftmost match.\<close>

fun find_version :: "bytes \<Rightarrow> (bytes \<times> bytes \<times> bytes) option" where
  "find_version [] = None"
| "find_version (c # cs) =
     (case match_at (c # cs) of Some m \<Rightarrow> Some m | None \<Rightarrow> find_version cs)"

text \<open>\<open>strconv.Atoi\<close> of a captured group, an absent one counting as zero.\<close>

definition parse_component :: "bytes \<Rightarrow> version_error + nat" where
  "parse_component s =
     (if s = [] then Inr 0
      else (case atoi s of None \<Rightarrow> Inl (ComponentOutOfRange s) | Some n \<Rightarrow> Inr (nat n)))"

definition parseNumericVersion :: "bytes \<Rightarrow> version_error + numericVersion" where
  "parseNumericVersion v =
     (case find_version v of
        None \<Rightarrow> Inl (NoNumericVersion v)
      | Some (a, b, c) \<Rightarrow>
          bindE (parse_component a) (\<lambda>major'.
          bindE (parse_component b) (\<lambda>minor'.
          bindE (parse_component c) (\<lambda>patch'.
            Inr \<lparr>major = major', minor = minor', patch = patch'\<rparr>))))"

definition lessThan :: "numericVersion \<Rightarrow> numericVersion \<Rightarrow> bool" where
  "lessThan version other =
     (if major version \<noteq> major other then major version < major other
      else if minor version \<noteq> minor other then minor version < minor other
      else patch version < patch other)"

definition numericVersion_String :: "numericVersion \<Rightarrow> bytes" where
  "numericVersion_String v = decimal (major v) @ ''.'' @ decimal (minor v) @ ''.'' @ decimal (patch v)"

fun first_version_line :: "bytes list \<Rightarrow> bytes option" where
  "first_version_line [] = None"
| "first_version_line (l # ls) =
     (if find_version (trim_space l) \<noteq> None then Some (trim_space l) else first_version_line ls)"

definition versionLine :: "bytes \<Rightarrow> bytes" where
  "versionLine v =
     (case first_version_line (split_on line_feed v) of Some l \<Rightarrow> l | None \<Rightarrow> firstLine v)"

section \<open>Assessment\<close>

definition stamp :: "Tool \<Rightarrow> ToolResult \<Rightarrow> ToolResult" where
  "stamp want result =
     result\<lparr>r_Name := t_Name want, r_Required := t_Required want, r_MinimumVersion := t_Minimum want,
       r_Introduced := t_Introduced want, r_Purpose := t_Purpose want, r_Usable := False\<rparr>"

definition assess :: "Tool \<Rightarrow> ToolResult \<Rightarrow> ToolResult" where
  "assess want result =
     (let r = stamp want result in
      if \<not> r_Found r \<or> has_problem (r_Problem r) then r
      else if trim_space (r_Version r) = [] then r\<lparr>r_Problem := NoVersionOutput\<rparr>
      else if t_VersionContains want \<noteq> [] \<and> \<not> contains (r_Version r) (t_VersionContains want)
      then r\<lparr>r_Problem := MustContain (t_VersionContains want) (r_Version r)\<rparr>
      else if t_Minimum want \<noteq> [] then
        (case parseNumericVersion (r_Version r) of
           Inl e \<Rightarrow> r\<lparr>r_Problem := CannotParseVersion e\<rparr>
         | Inr actual \<Rightarrow>
             (case parseNumericVersion (t_Minimum want) of
                Inl e \<Rightarrow> r\<lparr>r_Problem := InvalidMinimum (t_Minimum want) e\<rparr>
              | Inr minimum \<Rightarrow>
                  if lessThan actual minimum then r\<lparr>r_Problem := TooOld minimum actual\<rparr>
                  else r\<lparr>r_Usable := True\<rparr>))
      else r\<lparr>r_Usable := True\<rparr>)"

text \<open>The outcome of running a version command, with its combined output.\<close>

datatype run_status = RunOk | DeadlineExceeded | Canceled | RunError bytes

record tool_host =
  th_LookPath :: "bytes \<Rightarrow> bytes + bytes"
  th_Run :: "bytes \<Rightarrow> bytes list \<Rightarrow> bytes \<times> run_status"

definition commandProbe :: "tool_host \<Rightarrow> Tool \<Rightarrow> ToolResult" where
  "commandProbe h want =
     (let result = \<lparr>r_Name = t_Name want, r_Required = t_Required want, r_MinimumVersion = t_Minimum want,
            r_Introduced = t_Introduced want, r_Purpose = t_Purpose want, r_Found = False, r_Usable = False,
            r_Path = [], r_Version = [], r_Problem = Text []\<rparr> in
      (case th_LookPath h (t_Command want) of
         Inl e \<Rightarrow> assess want (result\<lparr>r_Problem := Text e\<rparr>)
       | Inr path \<Rightarrow>
           (let found = result\<lparr>r_Found := True, r_Path := path\<rparr>;
                (output, status) = th_Run h path (t_VersionArgs want);
                outputLine = versionLine output in
            (case status of
               DeadlineExceeded \<Rightarrow> assess want (found\<lparr>r_Problem := ProbeTimedOut\<rparr>)
             | Canceled \<Rightarrow> assess want (found\<lparr>r_Problem := ProbeCanceled\<rparr>)
             | RunError e \<Rightarrow> assess want (found\<lparr>r_Problem := CommandFailed e outputLine\<rparr>)
             | RunOk \<Rightarrow> assess want (found\<lparr>r_Version := outputLine\<rparr>)))))"

fun check_tools :: "(Tool \<Rightarrow> ToolResult) \<Rightarrow> Tool list \<Rightarrow> ToolResult list \<Rightarrow> bool \<Rightarrow> ToolResult list \<times> bool" where
  "check_tools probe [] results ready = (results, ready)"
| "check_tools probe (want # wants) results ready =
     (let result = assess want (probe want) in
      check_tools probe wants (results @ [result])
        (if t_Required want \<and> \<not> r_Usable result then False else ready))"

definition Check :: "host \<Rightarrow> (Tool \<Rightarrow> ToolResult) \<Rightarrow> Info \<Rightarrow> Report" where
  "Check h probe source =
     (let (results, ready) = check_tools probe tools [] True in
      \<lparr>rp_SchemaVersion = reportSchema, rp_Milestone = currentMilestone,
       rp_CapturedAt = h_Now h, rp_OS = h_GOOS h,
       rp_KernelVersion = captureKernelVersion h, rp_Architecture = h_GOARCH h,
       rp_CPUModel = captureCPUModel h, rp_PhysicalCores = int (capturePhysicalCores h),
       rp_LogicalCPUs = int (h_NumCPU h), rp_GoMaxProcs = int (h_GoMaxProcs h), rp_GoVersion = h_GoVersion h,
       rp_Source = source, rp_Ready = ready, rp_Tools = results\<rparr>)"

text \<open>The words of the human-readable report for one tool.\<close>

definition tool_status :: "ToolResult \<Rightarrow> bytes" where
  "tool_status r = (if r_Usable r then ''ok'' else if r_Found r then ''broken'' else ''missing'')"

definition tool_requirement :: "ToolResult \<Rightarrow> bytes" where
  "tool_requirement r = (if r_Required r then ''required'' else ''planned'')"

section \<open>Facts\<close>

lemma lessThan_lex:
  "lessThan a b \<longleftrightarrow>
     major a < major b \<or> (major a = major b \<and>
        (minor a < minor b \<or> (minor a = minor b \<and> patch a < patch b)))"
  by (auto simp: lessThan_def)

text \<open>What makes a tool usable.\<close>

definition meets :: "Tool \<Rightarrow> ToolResult \<Rightarrow> bool" where
  "meets want r \<longleftrightarrow>
     r_Found r \<and> \<not> has_problem (r_Problem r) \<and> trim_space (r_Version r) \<noteq> [] \<and>
     (t_VersionContains want \<noteq> [] \<longrightarrow> contains (r_Version r) (t_VersionContains want)) \<and>
     (t_Minimum want \<noteq> [] \<longrightarrow>
        (\<exists>actual minimum. parseNumericVersion (r_Version r) = Inr actual \<and>
           parseNumericVersion (t_Minimum want) = Inr minimum \<and> \<not> lessThan actual minimum))"

lemma stamp_simps [simp]:
  "r_Found (stamp want r) = r_Found r" "r_Problem (stamp want r) = r_Problem r"
  "r_Version (stamp want r) = r_Version r" "\<not> r_Usable (stamp want r)"
  "stamp want (stamp want r) = stamp want r"
  "stamp want ((stamp want r)\<lparr>r_Problem := p\<rparr>) = (stamp want r)\<lparr>r_Problem := p\<rparr>"
  "stamp want ((stamp want r)\<lparr>r_Usable := b\<rparr>) = stamp want r"
  by (simp_all add: stamp_def)

lemma assess_usable: "r_Usable (assess want r) \<longleftrightarrow> meets want r"
  by (auto simp: assess_def meets_def Let_def split: sum.splits)

lemma assess_problem: "r_Found r \<Longrightarrow> has_problem (r_Problem (assess want r)) \<longleftrightarrow> \<not> r_Usable (assess want r)"
  by (auto simp: assess_def Let_def has_problem_def split: sum.splits)

lemma assess_assess: "assess want (assess want r) = assess want r"
  by (auto simp: assess_def Let_def has_problem_def split: sum.splits)

lemma commandProbe_assessed: "assess want (commandProbe h want) = commandProbe h want"
  by (simp add: commandProbe_def Let_def assess_assess split: sum.split prod.split run_status.split)

lemma check_tools_exact:
  "check_tools probe wants results ready =
     (results @ map (\<lambda>want. assess want (probe want)) wants,
      ready \<and> (\<forall>want\<in>set wants. t_Required want \<longrightarrow> r_Usable (assess want (probe want))))"
  by (induction wants arbitrary: results ready) (auto simp: Let_def)

lemma find_version_digits:
  "find_version s = Some (a, b, c) \<Longrightarrow>
     a \<noteq> [] \<and> b \<noteq> [] \<and> list_all ascii_digit a \<and> list_all ascii_digit b \<and> list_all ascii_digit c"
proof (induction s)
  case (Cons x s)
  have run: "list_all ascii_digit (takeWhile ascii_digit u)" for u
    by (auto simp: list_all_iff dest: set_takeWhileD)
  from Cons show ?case
    by (auto simp: match_at_def match_numbers_def Let_def run split: option.splits if_splits)
qed simp

lemma hex_digit_decimal:
  assumes "d < 10"
  shows "digit_val (hex_digit d) = Some d" "ascii_digit (hex_digit d)"
  using assms hex_digit_facts [of d] byte_hex_digit [of d] by (simp_all add: ascii_digit_def)

lemma not_digit_dot [simp]: "\<not> ascii_digit CHR ''.''"
  by (simp add: ascii_digit_def byte_def)

lemma decimal_not_Nil: "decimal n \<noteq> []"
  by (subst decimal.simps) simp

lemma parse_decimal: "parse_digits 10 (decimal n) 0 = Some n"
proof (induction n rule: decimal.induct)
  case (1 n)
  show ?case
  proof (cases "n < 10")
    case True
    then show ?thesis by (subst decimal.simps) (simp add: hex_digit_decimal)
  next
    case False
    with 1 show ?thesis by (subst decimal.simps) (simp add: parse_digits_append hex_digit_decimal)
  qed
qed

lemma decimal_digits_only: "list_all ascii_digit (decimal n)"
proof (induction n rule: decimal.induct)
  case (1 n)
  then show ?case by (subst decimal.simps) (simp add: hex_digit_decimal)
qed

lemma takeWhile_decimal:
  "takeWhile ascii_digit (decimal n @ rest) = decimal n @ takeWhile ascii_digit rest"
  using decimal_digits_only [of n] by (simp add: list_all_iff)

lemma parse_component_decimal:
  assumes "n < 2 ^ 63"
  shows "parse_component (decimal n) = Inr n"
proof -
  obtain c cs where d: "decimal n = c # cs" using decimal_not_Nil by (meson neq_Nil_conv)
  then have "ascii_digit c" using decimal_digits_only [of n] by simp
  then have "c \<noteq> CHR ''-''" "c \<noteq> CHR ''+''" by (auto simp: ascii_digit_def byte_def)
  moreover have "decimal_digits (decimal n) = Some n"
    by (simp add: decimal_digits_def decimal_not_Nil parse_decimal)
  ultimately show ?thesis
    using assms d by (simp add: parse_component_def atoi_def)
qed

section \<open>Properties\<close>

text \<open>
  Claim C36. A tool is usable exactly when it was found without a problem, its version text is not blank,
  contains the text the table asks for, and parses to a version that is at least the minimum in
  the order of major, minor and patch; a found tool that is not usable always says why; assessing
  twice, as the readiness check does with what the command probe already assessed, changes nothing.
\<close>

theorem assess_exact:
  "(r_Usable (assess want r) \<longleftrightarrow>
      r_Found r \<and> \<not> has_problem (r_Problem r) \<and> trim_space (r_Version r) \<noteq> [] \<and>
      (t_VersionContains want \<noteq> [] \<longrightarrow> contains (r_Version r) (t_VersionContains want)) \<and>
      (t_Minimum want \<noteq> [] \<longrightarrow>
        (\<exists>actual minimum. parseNumericVersion (r_Version r) = Inr actual \<and>
           parseNumericVersion (t_Minimum want) = Inr minimum \<and>
           (major minimum, minor minimum, patch minimum) \<le> (major actual, minor actual, patch actual)))) \<and>
   (r_Found r \<and> \<not> r_Usable (assess want r) \<longrightarrow> has_problem (r_Problem (assess want r))) \<and>
   assess want (assess want r) = assess want r \<and>
   assess want (commandProbe h want) = commandProbe h want"
proof -
  have "(major m, minor m, patch m) \<le> (major a, minor a, patch a) \<longleftrightarrow> \<not> lessThan a m" for a m
    by (auto simp: lessThan_lex less_eq_prod_def)
  then show ?thesis
    using assess_usable [of want r, unfolded meets_def] assess_problem [of r want]
    by (simp add: assess_assess commandProbe_assessed)
qed

definition sample_probe :: "Tool \<Rightarrow> ToolResult" where
  "sample_probe want = \<lparr>r_Name = [], r_Required = False, r_MinimumVersion = [], r_Introduced = [],
     r_Purpose = [], r_Found = t_Command want \<noteq> ''nvcc'', r_Usable = True, r_Path = ''/usr/bin/tool'',
     r_Version = ''GNU Make 99.1'', r_Problem = Text []\<rparr>"

theorem assess_exact_witness:
  "\<not> r_Usable (assess (tool ''nvcc'' ''nvcc'' [] False [] [] [] []) (sample_probe (tool ''nvcc'' ''nvcc'' [] False [] [] [] [])))"
  using assess_exact [of "tool ''nvcc'' ''nvcc'' [] False [] [] [] []"
      "sample_probe (tool ''nvcc'' ''nvcc'' [] False [] [] [] [])"]
  by (simp add: sample_probe_def tool_def)

text \<open>
  The report lists one assessed result per tool of the table, in its order, and is ready
  exactly when every required tool is usable; optional tools cannot change the verdict.
\<close>

lemma Check_exact:
  "rp_Tools (Check h probe source) = map (\<lambda>want. assess want (probe want)) tools \<and>
   (rp_Ready (Check h probe source) \<longleftrightarrow>
      list_all2 (\<lambda>want r. t_Required want \<longrightarrow> r_Usable r) tools (rp_Tools (Check h probe source))) \<and>
   rp_Source (Check h probe source) = source"
  by (simp add: Check_def check_tools_exact list_all2_map2 list_all2_same)

definition sample_host :: host where
  "sample_host = \<lparr>h_GOOS = ''plan9'', h_GOARCH = ''amd64'', h_file = (\<lambda>_. None),
     h_command = (\<lambda>_ _. None), h_getenv = (\<lambda>_. []), h_NumCPU = 1, h_GoMaxProcs = 1,
     h_GoVersion = ''go1.24.0'', h_Now = 63900000000000000000\<rparr>"

lemma Check_exact_witness:
  "length (rp_Tools (Check sample_host sample_probe \<lparr>Version = [], FullCommit = [], SourceState = []\<rparr>)) = 14"
  using Check_exact [of sample_host sample_probe] by (simp add: tools_def)

text \<open>
  Printing a version and parsing it gives the version back, also behind the prefix of a Go
  version and before the rest of a version line that does not continue a number.
\<close>

lemma version_roundtrip:
  assumes "major v < 2 ^ 63" "minor v < 2 ^ 63" "patch v < 2 ^ 63"
    and "suffix = [] \<or> \<not> ascii_digit (hd suffix)"
  shows "parseNumericVersion (numericVersion_String v @ suffix) = Inr v \<and>
    parseNumericVersion (''go version go'' @ numericVersion_String v @ suffix) = Inr v"
proof -
  let ?s = "numericVersion_String v @ suffix"
  have m: "match_numbers ?s = Some (decimal (major v), decimal (minor v), decimal (patch v))"
    using assms(4)
    by (cases suffix) (simp_all add: match_numbers_def numericVersion_String_def Let_def takeWhile_decimal decimal_not_Nil
        decimal_digits_only [unfolded list_all_iff])
  have "\<not> has_prefix ?s ''go''"
    using decimal_digits_only [of "major v"] decimal_not_Nil [of "major v"]
    by (cases "decimal (major v)") (auto simp: numericVersion_String_def ascii_digit_def byte_def)
  with m have "find_version ?s = Some (decimal (major v), decimal (minor v), decimal (patch v))"
    using decimal_not_Nil [of "major v"]
    by (cases ?s) (auto simp: match_at_def numericVersion_String_def)
  moreover from m have "find_version (''go version go'' @ ?s) =
      Some (decimal (major v), decimal (minor v), decimal (patch v))"
    by (simp add: match_at_def match_numbers_def ascii_digit_def byte_def)
  ultimately show ?thesis
    using assms(1-3) by (simp add: parseNumericVersion_def parse_component_decimal)
qed

lemma version_roundtrip_witness:
  "parseNumericVersion ''go version go1.24.3 linux/amd64'' = Inr \<lparr>major = 1, minor = 24, patch = 3\<rparr>"
  using version_roundtrip [of "\<lparr>major = 1, minor = 24, patch = 3\<rparr>" "'' linux/amd64''"]
  by (simp add: numericVersion_String_def decimal.simps hex_digit_def ascii_digit_def byte_def)

end
