(* ===== verification/Engine.thy ===== *)
theory Engine
  imports Evidence Ratios Frame JsonDoc
begin

text \<open>
  \<open>internal/benchmark/engine.go\<close> and \<open>profile_engine.go\<close>: one engine process per experiment, started
  with the request on its standard input, whose single JSON response is checked completely
  before it becomes evidence. What the process does is an argument: for a path, a subcommand and
  an input it gives the pieces it writes and how it ends.
\<close>

section \<open>Output buffers\<close>

definition stderrTailLimit :: nat where "stderrTailLimit = 65536"

record cappedBuffer =
  cb_data :: bytes
  cb_limit :: nat
  cb_overflowed :: bool

definition newCappedBuffer :: "nat \<Rightarrow> cappedBuffer" where
  "newCappedBuffer limit = \<lparr>cb_data = [], cb_limit = limit, cb_overflowed = False\<rparr>"

definition cappedBuffer_Write :: "bytes \<Rightarrow> cappedBuffer \<Rightarrow> cappedBuffer" where
  "cappedBuffer_Write data buffer =
     (let remaining = cb_limit buffer - length (cb_data buffer);
          kept = min remaining (length data);
          buffer' = (if remaining > 0 then buffer\<lparr>cb_data := cb_data buffer @ take kept data\<rparr> else buffer);
          data' = (if remaining > 0 then drop kept data else data) in
      if length data' \<noteq> 0 then buffer'\<lparr>cb_overflowed := True\<rparr> else buffer')"

record tailBuffer =
  tb_data :: bytes
  tb_limit :: nat

definition newTailBuffer :: "nat \<Rightarrow> tailBuffer" where
  "newTailBuffer limit = \<lparr>tb_data = [], tb_limit = limit\<rparr>"

text \<open>\<open>copy\<close> moves the last bytes to the front and the slice is cut to their number.\<close>

definition tailBuffer_Write :: "bytes \<Rightarrow> tailBuffer \<Rightarrow> tailBuffer" where
  "tailBuffer_Write data buffer =
     (if length data \<ge> tb_limit buffer
      then buffer\<lparr>tb_data := drop (length data - tb_limit buffer) data\<rparr>
      else
        let overflow = length (tb_data buffer) + length data - tb_limit buffer;
            kept = (if overflow > 0 then drop overflow (tb_data buffer) else tb_data buffer) in
        buffer\<lparr>tb_data := kept @ data\<rparr>)"

abbreviation cappedBuffer_ok :: "nat \<Rightarrow> cappedBuffer \<Rightarrow> bool" where
  "cappedBuffer_ok limit b \<equiv> cb_limit b = limit \<and> length (cb_data b) \<le> limit"

interpretation capped: window_sink "newCappedBuffer limit" cappedBuffer_Write cb_data "take limit"
    "cappedBuffer_ok limit" for limit
  by unfold_locales
    (auto simp: newCappedBuffer_def cappedBuffer_Write_def Let_def take_take_append min_def)

interpretation stderr_tail: window_sink "newTailBuffer limit" tailBuffer_Write tb_data "last_n limit"
    "\<lambda>b. tb_limit b = limit \<and> length (tb_data b) \<le> limit" for limit
proof unfold_locales
  show "last_n limit (last_n limit a @ b) = last_n limit (a @ b)" for a b :: bytes
    by (rule last_n_last_n_append)
qed (auto simp: newTailBuffer_def tailBuffer_Write_def Let_def last_n_append last_n_def)

lemma capped_overflow_step:
  "cappedBuffer_ok limit b \<Longrightarrow>
     cb_overflowed (cappedBuffer_Write d b) \<longleftrightarrow> cb_overflowed b \<or> length (cb_data b) + length d > limit"
  by (cases d) (auto simp: cappedBuffer_Write_def Let_def min_def)

text \<open>The buffer notices exactly when something did not fit.\<close>

lemma capped_overflowed:
  "cb_overflowed (fold cappedBuffer_Write ds (newCappedBuffer limit)) \<longleftrightarrow> length (concat ds) > limit"
proof (induction ds rule: rev_induct)
  case Nil
  then show ?case by (simp add: newCappedBuffer_def)
next
  case (snoc d ds)
  have "cappedBuffer_ok limit (fold cappedBuffer_Write ds (newCappedBuffer limit))"
    by (rule capped.invar_puts [OF capped.invar_empty])
  from capped_overflow_step [OF this, of d] snoc.IH show ?case
    by (auto simp: capped.contents_puts)
qed

section \<open>The response payload\<close>

datatype payload_error = PayloadTooLarge | ExtraTerminator

definition oneShotResponsePayload :: "bytes \<Rightarrow> payload_error + bytes" where
  "oneShotResponsePayload raw =
     (if length raw > MaxFrameBytes + 2 then Inl PayloadTooLarge
      else
        let payload =
              (if length raw \<noteq> 0 \<and> last raw = newline
               then let p = butlast raw in if length p \<noteq> 0 \<and> last p = carriage_return then butlast p else p
               else raw) in
        if length payload \<noteq> 0 \<and> (last payload = carriage_return \<or> last payload = newline)
        then Inl ExtraTerminator
        else if length payload > MaxFrameBytes then Inl PayloadTooLarge
        else Inr payload)"

lemma append_two_conv: "q @ [c] = p @ [x, y] \<longleftrightarrow> c = y \<and> q = p @ [x]"
  using append1_eq_conv [of q c "p @ [x]" y] by auto

lemma oneShotResponsePayload_Inr_iff:
  "oneShotResponsePayload raw = Inr p \<longleftrightarrow>
     length p \<le> MaxFrameBytes \<and> (p = [] \<or> last p \<noteq> carriage_return \<and> last p \<noteq> newline) \<and>
     (raw = p \<or> raw = p @ [newline] \<or> raw = p @ [carriage_return, newline])"
proof (cases raw rule: rev_cases)
  case Nil
  then show ?thesis by (auto simp: oneShotResponsePayload_def)
next
  case raw: (snoc q c)
  have distinct: "newline \<noteq> carriage_return" "carriage_return \<noteq> newline"
    by (simp_all add: newline_def carriage_return_def)
  have big: "MaxFrameBytes \<ge> 2" by (simp add: MaxFrameBytes_def)
  consider "c \<noteq> newline" | "c = newline" "q = [] \<or> last q \<noteq> carriage_return"
    | r where "c = newline" "q = r @ [carriage_return]"
    by (metis append_butlast_last_id)
  then show ?thesis
  proof cases
    case 1
    then show ?thesis
      using big by (auto simp: oneShotResponsePayload_def raw append_two_conv Let_def butlast_append split: if_splits)
  next
    case 2
    then show ?thesis
      using distinct big by (auto simp: oneShotResponsePayload_def raw append_two_conv Let_def butlast_append split: if_splits)
  next
    case 3
    then show ?thesis
      using distinct big by (auto simp: oneShotResponsePayload_def raw append_two_conv Let_def butlast_append split: if_splits)
  qed
qed


section \<open>Validation of a response\<close>

datatype validation_error =
    UnexpectedSchemaVersion bytes
  | ExperimentIDMismatch bytes bytes
  | ScenarioNameMismatch bytes bytes
  | WorkloadMismatch bytes bytes
  | ExecutionMismatch Execution Execution
  | SamplingMismatch Sampling Sampling
  | UnexpectedClock bytes
  | UnexpectedUnit bytes
  | ProcessStartInSamples
  | UnexpectedTopology bytes
  | UnexpectedObserver bytes
  | StatusNotPassed bytes
  | UnexpectedOracle bytes
  | UnexpectedComparison bytes
  | BuildVersionEmpty
  | NotReleaseProfile bytes
  | TargetEmpty
  | RustcEmpty
  | SourceCommitEmpty
  | InvalidSourceState bytes
  | SampleCountMismatch nat u32
  | MissingCanonicalResult
  | SampleOrdinal nat u32
  | BoundaryOverflow nat
  | EngineTotalTooSmall nat
  | StageTimings nat ratio_error
  | StageSumMismatch nat u64 u64
  | ProfileTotalTooSmall nat
  | RetainedOverflow
  | ExperimentTotalTooSmall
  | CanonicalResult protocol_error

text \<open>A \<open>switch\<close> over conditions that each return an error; the first that holds is taken.\<close>

fun switch :: "(bool \<times> 'e) list \<Rightarrow> 'e option" where
  "switch [] = None"
| "switch ((b, e) # cases) = (if b then Some e else switch cases)"

fun benchmark_samples :: "nat \<Rightarrow> u64 \<Rightarrow> Sample list \<Rightarrow> validation_error + u64" where
  "benchmark_samples index retainedTotal [] = Inr retainedTotal"
| "benchmark_samples index retainedTotal (sample # samples) =
     (if s_Ordinal sample \<noteq> of_nat index then Inl (SampleOrdinal index (s_Ordinal sample))
      else
        let (boundarySum, overflow) = addUint64 (s_GenerationNS sample) (s_PipelineNS sample) in
        if overflow then Inl (BoundaryOverflow index)
        else if s_EngineTotalNS sample < boundarySum then Inl (EngineTotalTooSmall index)
        else
          let (retainedTotal', retainedOverflow) = addUint64 retainedTotal (s_EngineTotalNS sample) in
          if retainedOverflow then Inl RetainedOverflow
          else benchmark_samples (Suc index) retainedTotal' samples)"

definition validateEngineResult ::
  "EngineResult \<Rightarrow> Request \<Rightarrow> WorkloadProjection \<Rightarrow> validation_error + unit" where
  "validateEngineResult result request workload =
     (case switch
        [(er_SchemaVersion result \<noteq> EngineResultSchema, UnexpectedSchemaVersion (er_SchemaVersion result)),
         (er_ExperimentID result \<noteq> rq_ExperimentID request,
            ExperimentIDMismatch (er_ExperimentID result) (rq_ExperimentID request)),
         (er_ScenarioName result \<noteq> rq_ScenarioName request,
            ScenarioNameMismatch (er_ScenarioName result) (rq_ScenarioName request)),
         (er_WorkloadName result \<noteq> wp_Name workload,
            WorkloadMismatch (er_WorkloadName result) (wp_Name workload)),
         (er_Execution result \<noteq> rq_Execution request,
            ExecutionMismatch (er_Execution result) (rq_Execution request)),
         (er_Sampling result \<noteq> rq_Sampling request,
            SamplingMismatch (er_Sampling result) (rq_Sampling request)),
         (ti_Clock (er_Timing result) \<noteq> BenchmarkClock, UnexpectedClock (ti_Clock (er_Timing result))),
         (ti_Unit (er_Timing result) \<noteq> BenchmarkTimeUnit, UnexpectedUnit (ti_Unit (er_Timing result))),
         (ti_ProcessStartInSamples (er_Timing result), ProcessStartInSamples),
         (co_Status (er_Correctness result) \<noteq> ''passed'', StatusNotPassed (co_Status (er_Correctness result))),
         (co_Oracle (er_Correctness result) \<noteq> BenchmarkOracle,
            UnexpectedOracle (co_Oracle (er_Correctness result))),
         (co_Comparison (er_Correctness result) \<noteq> BenchmarkComparison,
            UnexpectedComparison (co_Comparison (er_Correctness result))),
         (trim_space (eb_Version (er_EngineBuild result)) = [], BuildVersionEmpty),
         (eb_Profile (er_EngineBuild result) \<noteq> ''release'',
            NotReleaseProfile (eb_Profile (er_EngineBuild result))),
         (trim_space (eb_Target (er_EngineBuild result)) = [], TargetEmpty),
         (trim_space (eb_Rustc (er_EngineBuild result)) = [], RustcEmpty),
         (trim_space (eb_SourceCommit (er_EngineBuild result)) = [], SourceCommitEmpty),
         (\<not> validSourceState (eb_SourceState (er_EngineBuild result)),
            InvalidSourceState (eb_SourceState (er_EngineBuild result))),
         (length (er_Samples result) \<noteq> unat (sm_SampleIterations (rq_Sampling request)),
            SampleCountMismatch (length (er_Samples result)) (sm_SampleIterations (rq_Sampling request))),
         (\<not> rawPresent (er_Result result), MissingCanonicalResult)] of
        Some e \<Rightarrow> Inl e
      | None \<Rightarrow>
          bindE (benchmark_samples 0 0 (er_Samples result)) (\<lambda>retainedTotal.
            if ti_ExperimentTotalNS (er_Timing result) < retainedTotal then Inl ExperimentTotalTooSmall
            else bindE (wrapE CanonicalResult (DecodeResult (er_Result result) workload)) (\<lambda>_. Inr ())))"

fun profile_samples :: "nat \<Rightarrow> u64 \<Rightarrow> ProfileSample list \<Rightarrow> validation_error + u64" where
  "profile_samples index retainedTotal [] = Inr retainedTotal"
| "profile_samples index retainedTotal (sample # samples) =
     (if ps_Ordinal sample \<noteq> of_nat index then Inl (SampleOrdinal index (ps_Ordinal sample))
      else
        bindE (wrapE (StageTimings index) (sumUint64 [ps_GenerationNS sample, ps_NormalizeNS sample,
                 ps_ScoreNS sample, ps_FilterNS sample, ps_AggregateNS sample])) (\<lambda>expectedStageSum.
          if ps_StageSumNS sample \<noteq> expectedStageSum
          then Inl (StageSumMismatch index (ps_StageSumNS sample) expectedStageSum)
          else if ps_ProfileTotalNS sample < expectedStageSum then Inl (ProfileTotalTooSmall index)
          else
            let (retainedTotal', overflow) = addUint64 retainedTotal (ps_ProfileTotalNS sample) in
            if overflow then Inl RetainedOverflow
            else profile_samples (Suc index) retainedTotal' samples))"

definition validateProfileEngineResult ::
  "ProfileEngineResult \<Rightarrow> Request \<Rightarrow> WorkloadProjection \<Rightarrow> validation_error + unit" where
  "validateProfileEngineResult result request workload =
     (case switch
        [(er_SchemaVersion result \<noteq> ProfileEngineResultSchema,
            UnexpectedSchemaVersion (er_SchemaVersion result)),
         (er_ExperimentID result \<noteq> rq_ExperimentID request,
            ExperimentIDMismatch (er_ExperimentID result) (rq_ExperimentID request)),
         (er_ScenarioName result \<noteq> rq_ScenarioName request,
            ScenarioNameMismatch (er_ScenarioName result) (rq_ScenarioName request)),
         (er_WorkloadName result \<noteq> wp_Name workload,
            WorkloadMismatch (er_WorkloadName result) (wp_Name workload)),
         (er_Execution result \<noteq> rq_Execution request,
            ExecutionMismatch (er_Execution result) (rq_Execution request)),
         (er_Sampling result \<noteq> rq_Sampling request,
            SamplingMismatch (er_Sampling result) (rq_Sampling request)),
         (ti_Clock (er_Timing result) \<noteq> BenchmarkClock, UnexpectedClock (ti_Clock (er_Timing result))),
         (ti_Unit (er_Timing result) \<noteq> BenchmarkTimeUnit, UnexpectedUnit (ti_Unit (er_Timing result))),
         (ti_ProcessStartInSamples (er_Timing result), ProcessStartInSamples),
         (ti_Topology (er_Timing result) \<noteq> ProfileTopology,
            UnexpectedTopology (ti_Topology (er_Timing result))),
         (ti_Observer (er_Timing result) \<noteq> ProfileObserver,
            UnexpectedObserver (ti_Observer (er_Timing result))),
         (co_Status (er_Correctness result) \<noteq> ''passed'', StatusNotPassed (co_Status (er_Correctness result))),
         (co_Oracle (er_Correctness result) \<noteq> BenchmarkOracle,
            UnexpectedOracle (co_Oracle (er_Correctness result))),
         (co_Comparison (er_Correctness result) \<noteq> BenchmarkComparison,
            UnexpectedComparison (co_Comparison (er_Correctness result))),
         (trim_space (eb_Version (er_EngineBuild result)) = [], BuildVersionEmpty),
         (eb_Profile (er_EngineBuild result) \<noteq> ''release'',
            NotReleaseProfile (eb_Profile (er_EngineBuild result))),
         (trim_space (eb_Target (er_EngineBuild result)) = [], TargetEmpty),
         (trim_space (eb_Rustc (er_EngineBuild result)) = [], RustcEmpty),
         (trim_space (eb_SourceCommit (er_EngineBuild result)) = [], SourceCommitEmpty),
         (\<not> validSourceState (eb_SourceState (er_EngineBuild result)),
            InvalidSourceState (eb_SourceState (er_EngineBuild result))),
         (length (er_Samples result) \<noteq> unat (sm_SampleIterations (rq_Sampling request)),
            SampleCountMismatch (length (er_Samples result)) (sm_SampleIterations (rq_Sampling request))),
         (\<not> rawPresent (er_Result result), MissingCanonicalResult)] of
        Some e \<Rightarrow> Inl e
      | None \<Rightarrow>
          bindE (profile_samples 0 0 (er_Samples result)) (\<lambda>retainedTotal.
            if ti_ExperimentTotalNS (er_Timing result) < retainedTotal then Inl ExperimentTotalTooSmall
            else bindE (wrapE CanonicalResult (DecodeResult (er_Result result) workload)) (\<lambda>_. Inr ())))"

section \<open>Running the engine\<close>

datatype engine_cause =
    RunCause bytes
  | PayloadCause payload_error
  | EmptyResponse
  | DecodeCause json_error
  | InvalidResponse validation_error

datatype engine_error =
    EngineContext
  | EnginePathEmpty
  | SubcommandEmpty
  | EncodeRequestFailed bytes
  | RequestTooLarge bytes nat
  | ResponseTooLarge bytes
  | ProcessError bytes engine_cause bytes
  | OrchestrationTooSmall

text \<open>The context before the call and after the process, and the process itself.\<close>

record engine_process =
  ep_Stdout :: "bytes list"
  ep_Stderr :: "bytes list"
  ep_Run :: "bytes option"
  ep_Cancelled :: bool

type_synonym engine_host = "bytes \<Rightarrow> bytes \<Rightarrow> bytes \<Rightarrow> engine_process"

definition processError :: "bytes \<Rightarrow> engine_cause \<Rightarrow> bytes \<Rightarrow> engine_error" where
  "processError operation c diagnostics = ProcessError operation c (trim_space diagnostics)"

definition durationNanoseconds :: "64 word \<Rightarrow> u64" where
  "durationNanoseconds duration = (if sint duration \<le> 0 then 0 else duration)"

definition runOneShotEngine ::
  "bool \<Rightarrow> engine_host \<Rightarrow> bytes \<Rightarrow> bytes \<Rightarrow> bytes option \<Rightarrow> engine_error + (bytes \<times> bytes)" where
  "runOneShotEngine cancelled host enginePath subcommand marshalled =
     (if cancelled then Inl EngineContext
      else if trim_space enginePath = [] then Inl EnginePathEmpty
      else if trim_space subcommand = [] then Inl SubcommandEmpty
      else
        (case marshalled of
           None \<Rightarrow> Inl (EncodeRequestFailed subcommand)
         | Some payload \<Rightarrow>
             if length payload > MaxFrameBytes then Inl (RequestTooLarge subcommand (length payload))
             else
               let process = host enginePath subcommand payload;
                   stdout = fold cappedBuffer_Write (ep_Stdout process) (newCappedBuffer (MaxFrameBytes + 3));
                   stderr = fold tailBuffer_Write (ep_Stderr process) (newTailBuffer stderrTailLimit);
                   diagnostics = tb_data stderr in
               (case ep_Run process of
                  Some e \<Rightarrow>
                    if ep_Cancelled process then Inl EngineContext
                    else Inl (processError (''run '' @ subcommand @ '' process'') (RunCause e) diagnostics)
                | None \<Rightarrow>
                    if cb_overflowed stdout then Inl (ResponseTooLarge subcommand)
                    else
                      (case oneShotResponsePayload (cb_data stdout) of
                         Inl e \<Rightarrow>
                           Inl (processError (''read '' @ subcommand @ '' response'') (PayloadCause e) diagnostics)
                       | Inr responseBytes \<Rightarrow>
                           if length (trim_space responseBytes) = 0
                           then Inl (processError (''read '' @ subcommand @ '' response'') EmptyResponse diagnostics)
                           else Inr (responseBytes, diagnostics)))))"

text \<open>\<open>elapsed\<close> is what the monotonic clock measured around the process.\<close>

definition RunEngine ::
  "bool \<Rightarrow> engine_host \<Rightarrow> 64 word \<Rightarrow> bytes \<Rightarrow> Request \<Rightarrow> WorkloadProjection \<Rightarrow>
     engine_error + (EngineResult \<times> u64)" where
  "RunEngine cancelled host elapsed enginePath request workload =
     bindE (runOneShotEngine cancelled host enginePath ''benchmark'' (marshal_Request request))
       (\<lambda>(responseBytes, diagnostics).
     bindE (wrapE (\<lambda>e. processError ''decode benchmark response'' (DecodeCause e) diagnostics)
              (Decode responseBytes dec_EngineResult zero_EngineResult True)) (\<lambda>result.
     bindE (wrapE (\<lambda>e. processError ''validate benchmark response'' (InvalidResponse e) diagnostics)
              (validateEngineResult result request workload)) (\<lambda>_.
       let orchestration = durationNanoseconds elapsed in
       if orchestration < ti_ExperimentTotalNS (er_Timing result) then Inl OrchestrationTooSmall
       else Inr (result, orchestration))))"

definition RunProfileEngine ::
  "bool \<Rightarrow> engine_host \<Rightarrow> 64 word \<Rightarrow> bytes \<Rightarrow> Request \<Rightarrow> WorkloadProjection \<Rightarrow>
     engine_error + (ProfileEngineResult \<times> u64)" where
  "RunProfileEngine cancelled host elapsed enginePath request workload =
     bindE (runOneShotEngine cancelled host enginePath ''profile'' (marshal_Request request))
       (\<lambda>(responseBytes, diagnostics).
     bindE (wrapE (\<lambda>e. processError ''decode profile response'' (DecodeCause e) diagnostics)
              (Decode responseBytes dec_ProfileEngineResult zero_ProfileEngineResult True)) (\<lambda>result.
     bindE (wrapE (\<lambda>e. processError ''validate profile response'' (InvalidResponse e) diagnostics)
              (validateProfileEngineResult result request workload)) (\<lambda>_.
       let orchestration = durationNanoseconds elapsed in
       if orchestration < ti_ExperimentTotalNS (er_Timing result) then Inl OrchestrationTooSmall
       else Inr (result, orchestration))))"


section \<open>The ledger of retained samples\<close>

text \<open>
  Both validators walk over the samples with the index and the sum of the totals so far. A step
  accepts a sample if the sample is right at its index and the sum stays within 64 bits; then the
  whole walk accepts exactly the lists whose samples are all right and whose exact sum fits.
\<close>

lemma bounded_sum:
  "(\<exists>r. n < 2 ^ 64 \<and> unat r = n \<and> \<not> t < r) \<longleftrightarrow> n \<le> unat (t :: u64)"
proof
  assume n: "n \<le> unat t"
  then have b: "n < 2 ^ 64" using unat_u64_less [of t] by (simp del: unat_u64_less)
  then have "unat (of_nat n :: u64) = n" by (simp add: unat_of_nat_u64)
  with n b show "\<exists>r. n < 2 ^ 64 \<and> unat r = n \<and> \<not> t < r"
    by (intro exI [of _ "of_nat n"]) (simp add: word_less_nat_alt)
qed (auto simp: word_less_nat_alt)

locale sample_ledger =
  fixes ledger :: "nat \<Rightarrow> u64 \<Rightarrow> 's list \<Rightarrow> 'e + u64"
    and sample_ok :: "nat \<Rightarrow> 's \<Rightarrow> bool"
    and charge :: "'s \<Rightarrow> u64"
  assumes ledger_Nil: "ledger i t [] = Inr t"
    and ledger_Cons: "ledger i t (x # xs) = Inr r \<longleftrightarrow>
      sample_ok i x \<and> unat t + unat (charge x) < 2 ^ 64 \<and> ledger (Suc i) (t + charge x) xs = Inr r"
begin

lemma ledger_exact:
  "ledger i t xs = Inr r \<longleftrightarrow>
     (\<forall>k<length xs. sample_ok (i + k) (xs ! k)) \<and>
     unat t + (\<Sum>x\<leftarrow>xs. unat (charge x)) < 2 ^ 64 \<and> unat r = unat t + (\<Sum>x\<leftarrow>xs. unat (charge x))"
proof (induction xs arbitrary: i t)
  case Nil
  then show ?case by (auto simp: ledger_Nil u64_eq_iff)
next
  case (Cons x xs)
  have step: "(\<forall>k<length (x # xs). sample_ok (i + k) ((x # xs) ! k)) \<longleftrightarrow>
      sample_ok i x \<and> (\<forall>k<length xs. sample_ok (Suc i + k) (xs ! k))"
    by (auto simp: less_Suc_eq_0_disj)
  show ?case unfolding step ledger_Cons Cons.IH
    by (auto simp: unat_add_u64 add.assoc)
qed

lemma ledger_start:
  "ledger 0 0 xs = Inr r \<longleftrightarrow>
     (\<forall>k<length xs. sample_ok k (xs ! k)) \<and> (\<Sum>x\<leftarrow>xs. unat (charge x)) < 2 ^ 64 \<and>
     unat r = (\<Sum>x\<leftarrow>xs. unat (charge x))"
  using ledger_exact [of 0 0 xs r] by simp

text \<open>The ledger is compared with a declared total before the rest of the response is looked at.\<close>

lemma ledger_verdict:
  "bindE (ledger 0 0 xs) (\<lambda>r. if t < r then Inl e else bindE m (\<lambda>_. Inr ())) = Inr () \<longleftrightarrow>
     (\<forall>k<length xs. sample_ok k (xs ! k)) \<and> (\<Sum>x\<leftarrow>xs. unat (charge x)) \<le> unat t \<and> (\<exists>y. m = Inr y)"
  unfolding bindE_Inr_iff guard_Inr_iff ledger_start bounded_sum [of _ t, symmetric] by blast

end

definition sample_exact :: "nat \<Rightarrow> Sample \<Rightarrow> bool" where
  "sample_exact i s \<longleftrightarrow>
     s_Ordinal s = of_nat i \<and> unat (s_GenerationNS s) + unat (s_PipelineNS s) \<le> unat (s_EngineTotalNS s)"

definition stage_sum :: "ProfileSample \<Rightarrow> nat" where
  "stage_sum s = unat (ps_GenerationNS s) + unat (ps_NormalizeNS s) + unat (ps_ScoreNS s) +
     unat (ps_FilterNS s) + unat (ps_AggregateNS s)"

definition profile_sample_exact :: "nat \<Rightarrow> ProfileSample \<Rightarrow> bool" where
  "profile_sample_exact i s \<longleftrightarrow>
     ps_Ordinal s = of_nat i \<and> unat (ps_StageSumNS s) = stage_sum s \<and>
     unat (ps_StageSumNS s) \<le> unat (ps_ProfileTotalNS s)"

lemma below_boundary:
  "unat t < unat a + unat b \<or> 2 ^ 64 \<le> unat a + unat b \<longleftrightarrow> \<not> unat a + unat b \<le> unat (t :: u64)"
  using unat_u64_less [of t] by (auto simp: not_le simp del: unat_u64_less)

interpretation benchmark: sample_ledger benchmark_samples sample_exact s_EngineTotalNS
proof unfold_locales
  fix i t xs r and x :: Sample
  show "benchmark_samples i t (x # xs) = Inr r \<longleftrightarrow>
      sample_exact i x \<and> unat t + unat (s_EngineTotalNS x) < 2 ^ 64 \<and>
      benchmark_samples (Suc i) (t + s_EngineTotalNS x) xs = Inr r"
    using below_boundary [of "s_EngineTotalNS x" "s_GenerationNS x" "s_PipelineNS x"]
    by (auto simp: addUint64_eq sample_exact_def word_less_nat_alt unat_add_u64 split: if_splits)
qed simp

interpretation profile: sample_ledger profile_samples profile_sample_exact ps_ProfileTotalNS
proof unfold_locales
  fix i t xs r and x :: ProfileSample
  let ?vs = "[ps_GenerationNS x, ps_NormalizeNS x, ps_ScoreNS x, ps_FilterNS x, ps_AggregateNS x]"
  have s: "sum_list (map unat ?vs) = stage_sum x" by (simp add: stage_sum_def)
  have "unat (ps_StageSumNS x) = stage_sum x \<longleftrightarrow>
      stage_sum x < 2 ^ 64 \<and> ps_StageSumNS x = of_nat (stage_sum x)"
    using unat_u64_less [of "ps_StageSumNS x"] by (auto simp: u64_eq_iff unat_of_nat_u64 simp del: unat_u64_less)
  then show "profile_samples i t (x # xs) = Inr r \<longleftrightarrow>
      profile_sample_exact i x \<and> unat t + unat (ps_ProfileTotalNS x) < 2 ^ 64 \<and>
      profile_samples (Suc i) (t + ps_ProfileTotalNS x) xs = Inr r"
    by (auto simp: sumUint64_eq s addUint64_eq profile_sample_exact_def word_less_nat_alt split: if_splits
        simp del: list.map sum_list_simps)
qed simp


section \<open>What the validators accept\<close>

text \<open>The result answers this request, names the clock, the oracle and a release build with a
  complete identity, and has as many samples as were asked for.\<close>

definition answers_request ::
  "bytes \<Rightarrow> Request \<Rightarrow> WorkloadProjection \<Rightarrow> ('t Timing_scheme, 's) engine_result \<Rightarrow> bool" where
  "answers_request schema request workload result \<longleftrightarrow>
     er_SchemaVersion result = schema \<and> er_ExperimentID result = rq_ExperimentID request \<and>
     er_ScenarioName result = rq_ScenarioName request \<and> er_WorkloadName result = wp_Name workload \<and>
     er_Execution result = rq_Execution request \<and> er_Sampling result = rq_Sampling request \<and>
     ti_Clock (er_Timing result) = BenchmarkClock \<and> ti_Unit (er_Timing result) = BenchmarkTimeUnit \<and>
     \<not> ti_ProcessStartInSamples (er_Timing result) \<and>
     er_Correctness result =
       \<lparr>co_Status = ''passed'', co_Oracle = BenchmarkOracle, co_Comparison = BenchmarkComparison\<rparr> \<and>
     (let build = er_EngineBuild result in
        trim_space (eb_Version build) \<noteq> [] \<and> eb_Profile build = ''release'' \<and>
        trim_space (eb_Target build) \<noteq> [] \<and> trim_space (eb_Rustc build) \<noteq> [] \<and>
        trim_space (eb_SourceCommit build) \<noteq> [] \<and> validSourceState (eb_SourceState build)) \<and>
     length (er_Samples result) = unat (sm_SampleIterations (rq_Sampling request)) \<and>
     rawPresent (er_Result result)"

lemma switch_Cons_None: "switch ((b, e) # cases) = None \<longleftrightarrow> \<not> b \<and> switch cases = None"
  by simp

lemma switch_Inr_iff:
  "(case switch cases of Some e \<Rightarrow> Inl e | None \<Rightarrow> m) = Inr r \<longleftrightarrow> switch cases = None \<and> m = Inr r"
  by (cases "switch cases") auto

lemma correctness_iff:
  "c = \<lparr>co_Status = s, co_Oracle = o', co_Comparison = p\<rparr> \<longleftrightarrow>
     co_Status c = s \<and> co_Oracle c = o' \<and> co_Comparison c = p"
  by (cases c) simp

lemmas validator_simps = switch_Inr_iff switch_Cons_None switch.simps(1) wrapE_Inr_iff de_Morgan_conj not_not simp_thms

lemma validateEngineResult_iff:
  "validateEngineResult result request workload = Inr () \<longleftrightarrow>
     answers_request EngineResultSchema request workload result \<and>
     (\<forall>k<length (er_Samples result). sample_exact k (er_Samples result ! k)) \<and>
     (\<Sum>s\<leftarrow>er_Samples result. unat (s_EngineTotalNS s)) \<le> unat (ti_ExperimentTotalNS (er_Timing result)) \<and>
     (\<exists>r. DecodeResult (er_Result result) workload = Inr r)"
  unfolding validateEngineResult_def answers_request_def correctness_iff Let_def benchmark.ledger_verdict
    validator_simps by (simp only: conj_assoc)

lemma validateProfileEngineResult_iff:
  "validateProfileEngineResult result request workload = Inr () \<longleftrightarrow>
     answers_request ProfileEngineResultSchema request workload result \<and>
     ti_Topology (er_Timing result) = ProfileTopology \<and> ti_Observer (er_Timing result) = ProfileObserver \<and>
     (\<forall>k<length (er_Samples result). profile_sample_exact k (er_Samples result ! k)) \<and>
     (\<Sum>s\<leftarrow>er_Samples result. unat (ps_ProfileTotalNS s)) \<le> unat (ti_ExperimentTotalNS (er_Timing result)) \<and>
     (\<exists>r. DecodeResult (er_Result result) workload = Inr r)"
  unfolding validateProfileEngineResult_def answers_request_def correctness_iff Let_def profile.ledger_verdict
    validator_simps by (simp only: conj_ac)


section \<open>Runs that succeed\<close>

text \<open>The process got the whole request, ended without an error, and wrote \<open>raw\<close> and at most one line
  terminator, in whatever pieces.\<close>

definition one_response :: "engine_host \<Rightarrow> bytes \<Rightarrow> bytes \<Rightarrow> Request \<Rightarrow> bytes \<Rightarrow> bool" where
  "one_response host enginePath subcommand request raw \<longleftrightarrow>
     (\<exists>payload. marshal_Request request = Some payload \<and> length payload \<le> MaxFrameBytes \<and>
        ep_Run (host enginePath subcommand payload) = None \<and>
        concat (ep_Stdout (host enginePath subcommand payload)) \<in>
          {raw, raw @ [newline], raw @ [carriage_return, newline]}) \<and>
     length raw \<le> MaxFrameBytes \<and> trim_space raw \<noteq> [] \<and>
     last raw \<noteq> carriage_return \<and> last raw \<noteq> newline"

lemma captured_stdout:
  "\<not> cb_overflowed (fold cappedBuffer_Write ds (newCappedBuffer limit)) \<and>
   oneShotResponsePayload (cb_data (fold cappedBuffer_Write ds (newCappedBuffer limit))) = Inr raw \<longleftrightarrow>
     length (concat ds) \<le> limit \<and> oneShotResponsePayload (concat ds) = Inr raw"
  by (auto simp: capped_overflowed capped.contents_puts)

lemma runOneShotEngine_Inr_iff:
  "(\<exists>diagnostics. runOneShotEngine cancelled host enginePath subcommand (marshal_Request request) =
      Inr (raw, diagnostics)) \<longleftrightarrow>
     \<not> cancelled \<and> trim_space enginePath \<noteq> [] \<and> trim_space subcommand \<noteq> [] \<and>
     one_response host enginePath subcommand request raw"
proof (cases "marshal_Request request")
  case None
  then show ?thesis by (simp add: runOneShotEngine_def one_response_def)
next
  case (Some payload)
  let ?out = "ep_Stdout (host enginePath subcommand payload)"
  have "(\<exists>diagnostics. runOneShotEngine cancelled host enginePath subcommand (marshal_Request request) =
      Inr (raw, diagnostics)) \<longleftrightarrow>
     \<not> cancelled \<and> trim_space enginePath \<noteq> [] \<and> trim_space subcommand \<noteq> [] \<and>
     length payload \<le> MaxFrameBytes \<and> ep_Run (host enginePath subcommand payload) = None \<and>
     (length (concat ?out) \<le> MaxFrameBytes + 3 \<and> oneShotResponsePayload (concat ?out) = Inr raw) \<and>
     trim_space raw \<noteq> []"
    unfolding captured_stdout [symmetric]
    by (auto simp: runOneShotEngine_def Some Let_def split: option.splits sum.splits)
  also have "(length (concat ?out) \<le> MaxFrameBytes + 3 \<and> oneShotResponsePayload (concat ?out) = Inr raw) \<and>
      trim_space raw \<noteq> [] \<longleftrightarrow>
      concat ?out \<in> {raw, raw @ [newline], raw @ [carriage_return, newline]} \<and>
      length raw \<le> MaxFrameBytes \<and> trim_space raw \<noteq> [] \<and> last raw \<noteq> carriage_return \<and> last raw \<noteq> newline"
    unfolding oneShotResponsePayload_Inr_iff by (cases "raw = []") (simp add: trim_space_Nil_iff, auto)
  finally show ?thesis by (auto simp: one_response_def Some)
qed

lemma RunEngine_Inr_iff:
  "RunEngine cancelled host elapsed enginePath request workload = Inr (result, orchestration) \<longleftrightarrow>
     \<not> cancelled \<and> trim_space enginePath \<noteq> [] \<and>
     (\<exists>raw. one_response host enginePath ''benchmark'' request raw \<and>
        Decode raw dec_EngineResult zero_EngineResult True = Inr result) \<and>
     validateEngineResult result request workload = Inr () \<and>
     ti_ExperimentTotalNS (er_Timing result) \<le> orchestration \<and> orchestration = durationNanoseconds elapsed"
proof -
  have b: "trim_space ''benchmark'' \<noteq> []" by (simp add: trim_space_Nil_iff byte_def is_space_def)
  have "RunEngine cancelled host elapsed enginePath request workload = Inr (result, orchestration) \<longleftrightarrow>
     (\<exists>raw. (\<exists>diagnostics. runOneShotEngine cancelled host enginePath ''benchmark'' (marshal_Request request) =
        Inr (raw, diagnostics)) \<and> Decode raw dec_EngineResult zero_EngineResult True = Inr result) \<and>
     validateEngineResult result request workload = Inr () \<and>
     ti_ExperimentTotalNS (er_Timing result) \<le> orchestration \<and> orchestration = durationNanoseconds elapsed"
    by (auto simp: RunEngine_def result_simps Let_def not_less)
  then show ?thesis using b by (simp add: runOneShotEngine_Inr_iff)
qed

lemma RunProfileEngine_Inr_iff:
  "RunProfileEngine cancelled host elapsed enginePath request workload = Inr (result, orchestration) \<longleftrightarrow>
     \<not> cancelled \<and> trim_space enginePath \<noteq> [] \<and>
     (\<exists>raw. one_response host enginePath ''profile'' request raw \<and>
        Decode raw dec_ProfileEngineResult zero_ProfileEngineResult True = Inr result) \<and>
     validateProfileEngineResult result request workload = Inr () \<and>
     ti_ExperimentTotalNS (er_Timing result) \<le> orchestration \<and> orchestration = durationNanoseconds elapsed"
proof -
  have b: "trim_space ''profile'' \<noteq> []" by (simp add: trim_space_Nil_iff byte_def is_space_def)
  have "RunProfileEngine cancelled host elapsed enginePath request workload = Inr (result, orchestration) \<longleftrightarrow>
     (\<exists>raw. (\<exists>diagnostics. runOneShotEngine cancelled host enginePath ''profile'' (marshal_Request request) =
        Inr (raw, diagnostics)) \<and> Decode raw dec_ProfileEngineResult zero_ProfileEngineResult True = Inr result) \<and>
     validateProfileEngineResult result request workload = Inr () \<and>
     ti_ExperimentTotalNS (er_Timing result) \<le> orchestration \<and> orchestration = durationNanoseconds elapsed"
    by (auto simp: RunProfileEngine_def result_simps Let_def not_less)
  then show ?thesis using b by (simp add: runOneShotEngine_Inr_iff)
qed


section \<open>A sample run\<close>

definition sample_request :: "bytes \<Rightarrow> bytes \<Rightarrow> Request" where
  "sample_request schema xid = \<lparr>rq_SchemaVersion = schema, rq_ExperimentID = xid, rq_ScenarioName = ''s'',
     rq_Execution = \<lparr>be_Backend = ''scalar''\<rparr>,
     rq_Sampling = \<lparr>sm_WarmupIterations = 0, sm_SampleIterations = 1\<rparr>, rq_Workload = sample_workload_text\<rparr>"

definition sample_result_doc :: doc where
  "sample_result_doc = DObj
     [(''schema_version'', DStr ''paraflow.result/v1''), (''accepted_count'', DStr ''0x0000000000000003''),
      (''score_sum'', DObj [(''encoding'', DStr ''ieee754-binary64''), (''bits'', DStr ''0x401a000000000000'')]),
      (''category_histogram'', DArr [DStr ''0x0000000000000001'', DStr ''0x0000000000000002'']),
      (''accepted_id_sum'', DStr ''0x0000000000000010''), (''accepted_id_xor'', DStr ''0x6ebb399a18884447'')]"

definition hex_doc :: "u64 \<Rightarrow> doc" where
  "hex_doc v = DStr (''0x'' @ format_016x v)"

lemma dec_hex_doc: "dec_Nanoseconds (tree (hex_doc v)) old = Some v"
  using unmarshal_string_plain [OF plain_0x [of v]]
  by (simp add: hex_doc_def dec_Nanoseconds_def raw_of_tree Nanoseconds_UnmarshalJSON_eq hexUint64_UnmarshalJSON_iff)

lemma plain_hex_doc: "plain_doc (hex_doc v) \<and> distinct_doc (hex_doc v) \<and> depth (hex_doc v) = 0"
  unfolding hex_doc_def using plain_0x [of v] by (simp del: list.pred_inject)

definition response_doc :: "bytes \<Rightarrow> bytes \<Rightarrow> (bytes \<times> doc) list \<Rightarrow> doc list \<Rightarrow> doc" where
  "response_doc schema xid timing samples = DObj
     [(''schema_version'', DStr schema), (''experiment_id'', DStr xid),
      (''scenario_name'', DStr ''s''), (''workload_name'', DStr ''w''),
      (''execution'', DObj [(''backend'', DStr ''scalar'')]),
      (''sampling'', DObj [(''warmup_iterations'', DNum 0), (''sample_iterations'', DNum 1)]),
      (''timing'', DObj ([(''clock'', DStr ''std::time::Instant''), (''unit'', DStr ''nanoseconds''),
         (''process_start_in_samples'', DBool False), (''experiment_total_ns'', hex_doc 16)] @ timing)),
      (''correctness'', DObj [(''status'', DStr ''passed''), (''oracle'', DStr ''rust-scalar-v1''),
         (''comparison'', DStr ''exact'')]),
      (''engine_build'', DObj [(''version'', DStr ''1''), (''profile'', DStr ''release''), (''target'', DStr ''t''),
         (''rustc'', DStr ''r''), (''source_commit'', DStr ''c''), (''source_state'', DStr ''clean'')]),
      (''samples'', DArr samples),
      (''result'', sample_result_doc)]"

definition sample_response_doc :: "bytes \<Rightarrow> doc" where
  "sample_response_doc xid = response_doc ''paraflow.benchmark-engine-result/v1'' xid []
     [DObj [(''ordinal'', DNum 0), (''generation_ns'', hex_doc 1), (''pipeline_ns'', hex_doc 2),
        (''engine_total_ns'', hex_doc 3)]]"

definition sample_engine_result :: "bytes \<Rightarrow> EngineResult" where
  "sample_engine_result xid =
     \<lparr>er_SchemaVersion = EngineResultSchema, er_ExperimentID = xid, er_ScenarioName = ''s'',
      er_WorkloadName = ''w'', er_Execution = \<lparr>be_Backend = ''scalar''\<rparr>,
      er_Sampling = \<lparr>sm_WarmupIterations = 0, sm_SampleIterations = 1\<rparr>,
      er_Timing = \<lparr>ti_Clock = BenchmarkClock, ti_Unit = BenchmarkTimeUnit, ti_ProcessStartInSamples = False,
        ti_ExperimentTotalNS = 16\<rparr>,
      er_Correctness = \<lparr>co_Status = ''passed'', co_Oracle = BenchmarkOracle, co_Comparison = BenchmarkComparison\<rparr>,
      er_EngineBuild = \<lparr>eb_Version = ''1'', eb_Profile = ''release'', eb_Target = ''t'', eb_Rustc = ''r'',
        eb_SourceCommit = ''c'', eb_SourceState = ''clean''\<rparr>,
      er_Samples = [\<lparr>s_Ordinal = 0, s_GenerationNS = 1, s_PipelineNS = 2, s_EngineTotalNS = 3\<rparr>],
      er_Result = render sample_result_doc\<rparr>"

lemma sample_result_render: "render sample_result_doc = sample_result_text"
  by (simp add: sample_result_doc_def sample_result_text_def quoted_def)

text \<open>Identifiers that need no escaping and do not fill a frame.\<close>

definition short :: "bytes \<Rightarrow> bool" where
  "short xid \<longleftrightarrow> list_all plain xid \<and> length xid \<le> 100"

lemma sample_members_plain:
  assumes "short xid"
  shows "plain_doc (sample_response_doc xid)" "distinct_doc (sample_response_doc xid)" "depth (sample_response_doc xid) \<le> max_nesting_depth"
  using assms
  by (simp_all add: short_def sample_response_doc_def response_doc_def sample_result_doc_def max_nesting_depth_def
      plain_hex_doc doc_eval)

lemma sample_Decode:
  assumes "short xid"
  shows "Decode (render (sample_response_doc xid)) dec_EngineResult zero_EngineResult True = Inr (sample_engine_result xid)"
proof (rule Decode_render [OF sample_members_plain [OF assms]])
  show "dec_EngineResult True (tree (sample_response_doc xid)) zero_EngineResult = Some (sample_engine_result xid)"
    using assms
    by (simp add: short_def sample_response_doc_def response_doc_def sample_engine_result_def dec_EngineResult_def dec_engine_result_def
        zero_EngineResult_def zero_engine_result_def dec_Execution_def dec_Sampling_def dec_Timing_def
        dec_Correctness_def dec_EngineBuild_def dec_Sample_def zero_Sample_def dec_hex_doc doc_eval
        EngineResultSchema_def BenchmarkClock_def BenchmarkTimeUnit_def BenchmarkOracle_def BenchmarkComparison_def)
qed


text \<open>A text that starts with a brace is neither blank nor \<open>null\<close>.\<close>

lemma trim_right_space_take: "\<exists>n. trim_right_space s = take n s"
proof (induction s rule: trim_right_space.induct)
  case (1 s)
  show ?case
  proof (cases "s \<noteq> [] \<and> is_space (fst (decode_last_rune s)) \<and> snd (decode_last_rune s) \<noteq> 0")
    case True
    then obtain n where "trim_right_space (take (length s - snd (decode_last_rune s)) s) =
        take n (take (length s - snd (decode_last_rune s)) s)"
      using 1 by blast
    with True show ?thesis by (subst trim_right_space.simps) (auto simp: take_take)
  next
    case False
    then show ?thesis by (subst trim_right_space.simps) (auto intro: exI [of _ "length s"])
  qed
qed

lemma trim_brace: "\<exists>cs'. trim_space (CHR ''{'' # cs) = CHR ''{'' # cs'"
proof -
  have l: "trim_left_space (CHR ''{'' # cs) = CHR ''{'' # cs" by (simp add: byte_def is_space_def)
  obtain n where n: "trim_space (CHR ''{'' # cs) = take n (CHR ''{'' # cs)"
    using trim_right_space_take unfolding trim_space_def l by blast
  have "trim_space (CHR ''{'' # cs) \<noteq> []"
    by (simp add: trim_space_Nil_iff byte_def is_space_def)
  with n show ?thesis by (cases n) auto
qed

lemma rawPresent_brace: "rawPresent (CHR ''{'' # cs)"
  using trim_brace [of cs] by (auto simp: rawPresent_def)

lemma sample_valid: "validateEngineResult (sample_engine_result xid) (sample_request schema xid) sample_workload = Inr ()"
proof -
  have "rawPresent (render sample_result_doc)"
    by (simp add: sample_result_doc_def rawPresent_brace)
  moreover have "\<exists>r. DecodeResult (render sample_result_doc) sample_workload = Inr r"
    using sample_DecodeResult by (simp add: sample_result_render)
  ultimately show ?thesis
    by (simp add: validateEngineResult_iff answers_request_def sample_engine_result_def sample_request_def
        sample_workload_def validSourceState_def trim_space_Nil_iff byte_def is_space_def sample_exact_def)
qed

definition sample_engine_host :: "doc \<Rightarrow> engine_host" where
  "sample_engine_host response path subcommand payload =
     \<lparr>ep_Stdout = [render response, [newline]], ep_Stderr = [], ep_Run = None, ep_Cancelled = False\<rparr>"

lemma decimal_1: "decimal (Suc 0) = ''1''"
  by (subst decimal.simps) (simp add: hex_digit_def)

lemma sample_marshal:
  assumes "short xid" "short schema"
  shows "\<exists>payload. marshal_Request (sample_request schema xid) = Some payload \<and> length payload \<le> MaxFrameBytes"
proof -
  have "length (compact sample_workload_tree) = 134"
    by (simp add: sample_workload_tree_def byte_def quote_def)
  moreover have "sample_workload_text \<noteq> []" by (simp add: sample_workload_text_def quoted_def)
  moreover have "list_all plain ''s''" "list_all plain ''scalar''"
    by (simp_all add: plain_def quote_def backslash_def byte_def)
  ultimately show ?thesis
    using assms
    by (simp add: short_def marshal_Request_def sample_request_def marshal_raw_def sample_workload_parse marshal_object_def
        marshal_string_plain decimal_0 decimal_1 MaxFrameBytes_def)
qed

lemma render_object: "render (DObj ms) = CHR ''{'' # butlast (tl (render (DObj ms))) @ ''}''"
  by simp

text \<open>A host that answers with one object answers any request that fits a frame.\<close>

lemma sample_one_response:
  assumes "short xid" "short schema" "length (render (DObj ms)) \<le> MaxFrameBytes"
  shows "one_response (sample_engine_host (DObj ms)) path subcommand (sample_request schema xid) (render (DObj ms))"
proof -
  obtain cs where cs: "render (DObj ms) = CHR ''{'' # cs @ ''}''" using render_object by metis
  have "trim_space (render (DObj ms)) \<noteq> []" using trim_brace [of "cs @ ''}''"] cs by auto
  moreover have "last (render (DObj ms)) = CHR ''}''" by (simp add: cs)
  ultimately show ?thesis
    using sample_marshal [OF assms(1,2)] assms(3)
    by (simp add: one_response_def sample_engine_host_def newline_def carriage_return_def del: render.simps)
qed

lemma sample_response_length: "short xid \<Longrightarrow> length (render (sample_response_doc xid)) \<le> MaxFrameBytes"
  by (simp add: short_def sample_response_doc_def response_doc_def sample_result_doc_def hex_doc_def decimal_0 decimal_1
      MaxFrameBytes_def)

lemma short_schemas: "short RequestSchema" "short ProfileRequestSchema"
  by (simp_all add: short_def RequestSchema_def ProfileRequestSchema_def plain_def quote_def backslash_def byte_def)

lemma engine_not_blank: "trim_space ''engine'' \<noteq> []"
  by (simp add: trim_space_Nil_iff byte_def is_space_def)

lemma sample_RunEngine:
  assumes "short xid"
  shows "RunEngine False (sample_engine_host (sample_response_doc xid)) 100 ''engine'' (sample_request RequestSchema xid)
    sample_workload = Inr (sample_engine_result xid, 100)"
proof -
  have "one_response (sample_engine_host (sample_response_doc xid)) ''engine'' ''benchmark'' (sample_request RequestSchema xid)
      (render (sample_response_doc xid))"
    using sample_one_response [OF assms short_schemas(1)] sample_response_length [OF assms]
    by (simp add: sample_response_doc_def response_doc_def del: render.simps)
  then show ?thesis
    using sample_Decode [OF assms] sample_valid engine_not_blank unfolding RunEngine_Inr_iff
    by (simp add: sample_engine_result_def durationNanoseconds_def) blast
qed


section \<open>Properties\<close>

text \<open>
  Claim C17. A benchmark run is accepted exactly when one engine process got the request, ended well, and
  wrote one JSON response (at most one terminator, within the frame limit, without duplicate or
  unknown members) that answers this request: the retained samples are numbered from zero and
  there are as many as were asked for, generation and pipeline fit into each sample's total,
  the totals fit into the experiment's total and that into the measured time, all as exact sums
  of numbers, and the result is consistent with the workload.
\<close>

theorem RunEngine_exact:
  "RunEngine cancelled host elapsed enginePath request workload = Inr (result, orchestration) \<longleftrightarrow>
     \<not> cancelled \<and> trim_space enginePath \<noteq> [] \<and>
     (\<exists>raw. one_response host enginePath ''benchmark'' request raw \<and>
        Decode raw dec_EngineResult zero_EngineResult True = Inr result) \<and>
     answers_request EngineResultSchema request workload result \<and>
     list_all2 sample_exact [0..<length (er_Samples result)] (er_Samples result) \<and>
     (\<Sum>s\<leftarrow>er_Samples result. unat (s_EngineTotalNS s)) \<le> unat (ti_ExperimentTotalNS (er_Timing result)) \<and>
     unat (ti_ExperimentTotalNS (er_Timing result)) \<le> unat orchestration \<and>
     orchestration = durationNanoseconds elapsed \<and>
     (\<exists>r. DecodeResult (er_Result result) workload = Inr r \<and> consistent_result workload r)"
proof -
  have "list_all2 sample_exact [0..<length (er_Samples result)] (er_Samples result) \<longleftrightarrow>
      (\<forall>k<length (er_Samples result). sample_exact k (er_Samples result ! k))"
    by (simp add: list_all2_conv_all_nth)
  then show ?thesis
    unfolding RunEngine_Inr_iff validateEngineResult_iff word_le_nat_alt
    using DecodeResult_consistent by blast
qed

theorem RunEngine_exact_witness:
  "RunEngine False (sample_engine_host (sample_response_doc ''e1'')) 100 ''engine'' (sample_request RequestSchema ''e1'')
     sample_workload = Inr (sample_engine_result ''e1'', 100) \<and>
   sample_exact 0 (er_Samples (sample_engine_result ''e1'') ! 0)"
proof -
  have run: "RunEngine False (sample_engine_host (sample_response_doc ''e1'')) 100 ''engine'' (sample_request RequestSchema ''e1'')
     sample_workload = Inr (sample_engine_result ''e1'', 100)"
    by (rule sample_RunEngine) (simp add: short_def plain_def quote_def backslash_def byte_def)
  have "list_all2 sample_exact [0..<length (er_Samples (sample_engine_result ''e1''))] (er_Samples (sample_engine_result ''e1''))"
    using RunEngine_exact [THEN iffD1, OF run] by blast
  then show ?thesis using run by (simp add: sample_engine_result_def)
qed

text \<open>
  A profile run is accepted exactly under the same conditions on its process and response, with
  the declared topology and observer; each sample's stage sum is the exact sum of its five stages
  and is at most its total.
\<close>

lemma RunProfileEngine_exact:
  "RunProfileEngine cancelled host elapsed enginePath request workload = Inr (result, orchestration) \<longleftrightarrow>
     \<not> cancelled \<and> trim_space enginePath \<noteq> [] \<and>
     (\<exists>raw. one_response host enginePath ''profile'' request raw \<and>
        Decode raw dec_ProfileEngineResult zero_ProfileEngineResult True = Inr result) \<and>
     answers_request ProfileEngineResultSchema request workload result \<and>
     ti_Topology (er_Timing result) = ProfileTopology \<and> ti_Observer (er_Timing result) = ProfileObserver \<and>
     list_all2 profile_sample_exact [0..<length (er_Samples result)] (er_Samples result) \<and>
     (\<Sum>s\<leftarrow>er_Samples result. unat (ps_ProfileTotalNS s)) \<le> unat (ti_ExperimentTotalNS (er_Timing result)) \<and>
     unat (ti_ExperimentTotalNS (er_Timing result)) \<le> unat orchestration \<and>
     orchestration = durationNanoseconds elapsed \<and>
     (\<exists>r. DecodeResult (er_Result result) workload = Inr r \<and> consistent_result workload r)"
proof -
  have "list_all2 profile_sample_exact [0..<length (er_Samples result)] (er_Samples result) \<longleftrightarrow>
      (\<forall>k<length (er_Samples result). profile_sample_exact k (er_Samples result ! k))"
    by (simp add: list_all2_conv_all_nth)
  then show ?thesis
    unfolding RunProfileEngine_Inr_iff validateProfileEngineResult_iff word_le_nat_alt
    using DecodeResult_consistent by blast
qed

end
