(* ===== verification/Execute.thy ===== *)
theory Execute
  imports Suite ProfileStats Persist Doctor Engine
begin

text \<open>
  \<open>internal/benchmark/execute.go\<close>: from the options of a capture to its persisted evidence. What the
  outside answers (files, clock, engine processes, the context, other processes on the disk) is a
  record; the moments at which the code asks are numbered. \<open>Execute\<close> and \<open>ExecuteProfile\<close> are the
  same program around different scenarios, so their common part is written once.
\<close>

section \<open>Data\<close>

definition CaptureSchema :: bytes where "CaptureSchema = ''paraflow.benchmark-capture/v1''"
definition WorkloadSchema :: bytes where "WorkloadSchema = ''paraflow.workload/v1''"

record Artifact =
  ar_Path :: bytes
  ar_SHA256 :: bytes

record SuiteIdentity =
  si_Path :: bytes
  si_SHA256 :: bytes
  si_SchemaVersion :: bytes
  si_Name :: bytes

record WorkloadIdentity =
  wi_Path :: bytes
  wi_SHA256 :: bytes
  wi_SchemaVersion :: bytes
  wi_Name :: bytes
  wi_RecordCount :: u64
  wi_CategoryCount :: u64

record Experiment =
  ex_ScenarioName :: bytes
  ex_Workload :: WorkloadIdentity
  ex_OrchestrationTotalNS :: u64
  ex_EngineResult :: EngineResult
  ex_Summary :: Summary

text \<open>\<open>Capture\<close> and \<open>ScalarProfileReport\<close> have the same fields, over their own type of experiment.\<close>

record 'x evidence =
  ev_SchemaVersion :: bytes
  ev_StartedAt :: time
  ev_CompletedAt :: time
  ev_Suite :: SuiteIdentity
  ev_Controller :: Info
  ev_Environment :: Report
  ev_EngineArtifact :: Artifact
  ev_Experiments :: "'x list"

type_synonym Capture = "Experiment evidence"

section \<open>Options and surroundings\<close>

text \<open>A function that was not injected is \<^const>\<open>None\<close>. The first argument of a function that can answer
  differently each time is the number of the call: 0 for the suite and \<open>k + 1\<close> for the workload of
  scenario \<open>k\<close>, and 0 and 1 for the two readings of the clock.\<close>

type_synonym 'r runner =
  "nat \<Rightarrow> bytes \<Rightarrow> Request \<Rightarrow> WorkloadProjection \<Rightarrow> engine_error + ('r \<times> u64)"

record 'x common_options =
  o_EnginePath :: bytes
  o_SuitePath :: bytes
  o_OutputPath :: bytes
  o_RepositoryRoot :: bytes
  o_Build :: Info
  o_Probe :: "(Tool \<Rightarrow> ToolResult) option"
  o_ReadFile :: "(nat \<Rightarrow> bytes \<Rightarrow> bytes + bytes) option"
  o_Now :: "(nat \<Rightarrow> time) option"
  o_Persist :: "(bytes \<Rightarrow> 'x evidence \<Rightarrow> disk \<Rightarrow> (persist_error + unit) \<times> disk) option"

record Options = "Experiment common_options" +
  o_Runner :: "EngineResult runner option"

text \<open>\<open>x_Cancelled 0\<close> is the context at the start and \<open>x_Cancelled (k + 1)\<close> before scenario \<open>k\<close>.
  \<open>x_EngineFile\<close> is the content of the engine binary at its two readings. \<open>x_Elsewhere\<close> is what others
  do to the disk while the suite runs. \<open>x_Stop\<close>, \<open>x_Engine\<close> and \<open>x_Elapsed\<close> belong to the numbered
  engine process.\<close>

record surroundings =
  x_Wd :: "bytes + bytes"
  x_Cancelled :: "nat \<Rightarrow> bool"
  x_ReadFile :: "nat \<Rightarrow> bytes \<Rightarrow> bytes + bytes"
  x_EngineFile :: "nat \<Rightarrow> bytes \<Rightarrow> bytes + bytes"
  x_Now :: "nat \<Rightarrow> time"
  x_Host :: host
  x_Tools :: tool_host
  x_StatOutput :: "bytes option"
  x_Elsewhere :: "disk \<Rightarrow> disk"
  x_Os :: os
  x_Stop :: "nat \<Rightarrow> bool"
  x_Engine :: "nat \<Rightarrow> engine_host"
  x_Elapsed :: "nat \<Rightarrow> 64 word"

definition injected :: "'a option \<Rightarrow> 'a \<Rightarrow> 'a" where
  "injected f fallback = (case f of None \<Rightarrow> fallback | Some g \<Rightarrow> g)"

section \<open>Errors\<close>

datatype alignment_error =
    CommitMismatch bytes bytes
  | SourceStateMismatch bytes bytes

datatype scenario_error =
    ResolveWorkload path_error
  | ReadWorkload bytes bytes
  | InspectWorkload bytes protocol_error
  | UnsupportedWorkload bytes
  | UnsupportedDistribution bytes
  | RunFailed engine_error
  | Misaligned alignment_error
  | SummarizeFailed
  | BaselineFailed engine_error
  | BaselineMisaligned alignment_error
  | ProfileFailed engine_error
  | ProfileMisaligned alignment_error
  | BuildsDiffer
  | SummarizeStages profile_error
  | AnalyzeFailed profile_error

datatype execute_error =
    FieldEmpty bytes
  | ControllerIncomplete
  | ContextDone
  | OutputPresent persist_error
  | ReadSuite bytes bytes
  | DecodeSuite bytes json_error
  | ValidateSuite bytes suite_invalid
  | ResolveRoot bytes bytes
  | HashEngine bytes bytes
  | NotReady
  | InScenario bytes scenario_error
  | RehashEngine bytes bytes
  | EngineChanged
  | ClockBackwards
  | PersistFailed bytes persist_error

section \<open>Small functions\<close>

fun first_empty :: "(bytes \<times> bytes) list \<Rightarrow> bytes option" where
  "first_empty [] = None"
| "first_empty ((name, v) # fs) = (if trim_space v = [] then Some name else first_empty fs)"

definition validateOptions :: "('x, 'm) common_options_scheme \<Rightarrow> execute_error + unit" where
  "validateOptions options =
     (case first_empty [(''engine path'', o_EnginePath options), (''suite path'', o_SuitePath options),
         (''output path'', o_OutputPath options), (''repository root'', o_RepositoryRoot options)] of
        Some name \<Rightarrow> Inl (FieldEmpty name)
      | None \<Rightarrow>
          if trim_space (Version (o_Build options)) = [] \<or> trim_space (FullCommit (o_Build options)) = [] \<or>
             \<not> validSourceState (SourceState (o_Build options))
          then Inl ControllerIncomplete else Inr ())"

definition validateSourceAlignment :: "EngineBuild \<Rightarrow> Info \<Rightarrow> alignment_error + unit" where
  "validateSourceAlignment engine controller =
     (if eb_SourceCommit engine \<noteq> FullCommit controller
      then Inl (CommitMismatch (eb_SourceCommit engine) (FullCommit controller))
      else if eb_SourceState engine \<noteq> SourceState controller
      then Inl (SourceStateMismatch (eb_SourceState engine) (SourceState controller))
      else Inr ())"

text \<open>\<open>sha\<close> is \<open>sha256.Sum256\<close>.\<close>

definition hashBytes :: "(bytes \<Rightarrow> bytes) \<Rightarrow> bytes \<Rightarrow> bytes" where
  "hashBytes sha data = concat (map (\<lambda>b. hex_digits 2 (byte b)) (sha data))"

definition hashFile :: "(bytes \<Rightarrow> bytes) \<Rightarrow> bytes + bytes \<Rightarrow> bytes + bytes" where
  "hashFile sha content = bindE content (\<lambda>data. Inr (hashBytes sha data))"

definition workload_identity :: "(bytes \<Rightarrow> bytes) \<Rightarrow> bytes \<Rightarrow> bytes \<Rightarrow> WorkloadProjection \<Rightarrow> WorkloadIdentity" where
  "workload_identity sha path workloadBytes projection =
     \<lparr>wi_Path = path, wi_SHA256 = hashBytes sha workloadBytes, wi_SchemaVersion = wp_SchemaVersion projection,
      wi_Name = wp_Name projection, wi_RecordCount = wp_RecordCount projection,
      wi_CategoryCount = wp_CategoryCount projection\<rparr>"

definition request_for :: "bytes \<Rightarrow> bytes \<Rightarrow> Scenario \<Rightarrow> bytes \<Rightarrow> Request" where
  "request_for schema experimentID scenario workloadBytes =
     \<lparr>rq_SchemaVersion = schema, rq_ExperimentID = experimentID, rq_ScenarioName = sc_Name scenario,
      rq_Execution = sc_Execution scenario, rq_Sampling = sc_Sampling scenario, rq_Workload = workloadBytes\<rparr>"

definition numbered :: "bytes \<Rightarrow> nat \<Rightarrow> bytes" where
  "numbered label index = label @ format_016x (of_nat (index + 1))"

section \<open>One scenario of a capture\<close>

text \<open>The start of a scenario: its workload, as bytes and as projected.\<close>

definition read_workload ::
  "surroundings \<Rightarrow> (nat \<Rightarrow> bytes \<Rightarrow> bytes + bytes) \<Rightarrow> bytes \<Rightarrow> nat \<Rightarrow> Scenario \<Rightarrow>
     scenario_error + (bytes \<times> WorkloadProjection)" where
  "read_workload x readFile root index scenario =
     bindE (wrapE ResolveWorkload (resolveRepositoryPath (x_Wd x) root (sc_Workload scenario))) (\<lambda>workloadPath.
     bindE (wrapE (ReadWorkload (sc_Workload scenario)) (readFile (Suc index) workloadPath)) (\<lambda>workloadBytes.
     bindE (wrapE (InspectWorkload (sc_Workload scenario)) (ProjectWorkload workloadBytes)) (\<lambda>projection.
       if wp_SchemaVersion projection \<noteq> WorkloadSchema then Inl (UnsupportedWorkload (wp_SchemaVersion projection))
       else Inr (workloadBytes, projection))))"

definition run_scenario ::
  "(bytes \<Rightarrow> bytes) \<Rightarrow> surroundings \<Rightarrow> (nat \<Rightarrow> bytes \<Rightarrow> bytes + bytes) \<Rightarrow> EngineResult runner \<Rightarrow>
     ('x, 'm) common_options_scheme \<Rightarrow> bytes \<Rightarrow> nat \<Rightarrow> Scenario \<Rightarrow> (scenario_error + Experiment) option" where
  "run_scenario sha x readFile runner options root index scenario =
     tryP id (Some (read_workload x readFile root index scenario)) (\<lambda>(workloadBytes, projection).
     let request = request_for RequestSchema (numbered ''day05:'' index) scenario workloadBytes in
     tryP RunFailed (Some (runner index (o_EnginePath options) request projection)) (\<lambda>(engineResult, orchestration).
     tryP Misaligned (Some (validateSourceAlignment (er_EngineBuild engineResult) (o_Build options))) (\<lambda>_.
     tryP (\<lambda>_. SummarizeFailed) (Summarize (er_Samples engineResult)) (\<lambda>summary.
       Some (Inr \<lparr>ex_ScenarioName = sc_Name scenario,
         ex_Workload = workload_identity sha (sc_Workload scenario) workloadBytes projection,
         ex_OrchestrationTotalNS = orchestration, ex_EngineResult = engineResult, ex_Summary = summary\<rparr>)))))"

fun run_scenarios ::
  "(nat \<Rightarrow> bool) \<Rightarrow> (nat \<Rightarrow> Scenario \<Rightarrow> (scenario_error + 'x) option) \<Rightarrow> nat \<Rightarrow> Scenario list \<Rightarrow> 'x list \<Rightarrow>
     (execute_error + 'x list) option" where
  "run_scenarios cancelled run index [] experiments = Some (Inr experiments)"
| "run_scenarios cancelled run index (scenario # scenarios) experiments =
     (if cancelled (Suc index) then Some (Inl ContextDone)
      else
        tryP (InScenario (sc_Name scenario)) (run index scenario) (\<lambda>experiment.
          run_scenarios cancelled run (Suc index) scenarios (experiments @ [experiment])))"

section \<open>A whole capture\<close>

definition read_suite :: "(nat \<Rightarrow> bytes \<Rightarrow> bytes + bytes) \<Rightarrow> bytes \<Rightarrow> execute_error + (bytes \<times> Suite)" where
  "read_suite readFile path =
     bindE (wrapE (ReadSuite path) (readFile 0 path)) (\<lambda>suiteBytes.
     bindE (wrapE (DecodeSuite path) (Decode suiteBytes dec_Suite zero_Suite True)) (\<lambda>suite.
     bindE (wrapE (ValidateSuite path) (Suite_Validate suite)) (\<lambda>_. Inr (suiteBytes, suite))))"

text \<open>Everything between the first look at the output path and the persisting. \<open>run\<close> is one scenario,
  given the root.\<close>

definition gather ::
  "(bytes \<Rightarrow> bytes) \<Rightarrow> surroundings \<Rightarrow> ('x, 'm) common_options_scheme \<Rightarrow> bytes \<Rightarrow>
     (bytes \<Rightarrow> nat \<Rightarrow> Scenario \<Rightarrow> (scenario_error + 'x) option) \<Rightarrow> (execute_error + 'x evidence) option" where
  "gather sha x options schema run =
     (let readFile = injected (o_ReadFile options) (x_ReadFile x);
          now = injected (o_Now options) (x_Now x);
          probe = injected (o_Probe options) (commandProbe (x_Tools x));
          startedAt = now 0 in
      tryP id (Some (
        bindE (read_suite readFile (o_SuitePath options)) (\<lambda>(suiteBytes, suite).
        bindE (wrapE (ResolveRoot (o_RepositoryRoot options)) (filepath_Abs (x_Wd x) (o_RepositoryRoot options))) (\<lambda>root.
        bindE (wrapE (HashEngine (o_EnginePath options)) (hashFile sha (x_EngineFile x 0 (o_EnginePath options))))
          (\<lambda>engineHash.
        let environment = Check (x_Host x) probe (o_Build options) in
        if \<not> rp_Ready environment then Inl NotReady
        else Inr (suiteBytes, suite, root, engineHash, environment))))))
        (\<lambda>(suiteBytes, suite, root, engineHash, environment).
      tryP id (run_scenarios (x_Cancelled x) (run root) 0 (bs_Scenarios suite) []) (\<lambda>experiments.
      Some (
        bindE (wrapE (RehashEngine (o_EnginePath options)) (hashFile sha (x_EngineFile x 1 (o_EnginePath options))))
          (\<lambda>finalEngineHash.
        if finalEngineHash \<noteq> engineHash then Inl EngineChanged
        else
          let completedAt = now 1 in
          if completedAt < startedAt then Inl ClockBackwards
          else Inr \<lparr>ev_SchemaVersion = schema, ev_StartedAt = startedAt, ev_CompletedAt = completedAt,
            ev_Suite = \<lparr>si_Path = identityPath (x_Wd x) root (o_SuitePath options),
              si_SHA256 = hashBytes sha suiteBytes, si_SchemaVersion = bs_SchemaVersion suite,
              si_Name = bs_Name suite\<rparr>,
            ev_Controller = o_Build options, ev_Environment = environment,
            ev_EngineArtifact = \<lparr>ar_Path = identityPath (x_Wd x) root (o_EnginePath options),
              ar_SHA256 = engineHash\<rparr>,
            ev_Experiments = experiments\<rparr>)))))"

text \<open>\<open>marshal\<close> is \<open>json.MarshalIndent\<close>.\<close>

definition persist_evidence ::
  "('x evidence \<Rightarrow> bytes + bytes) \<Rightarrow> os \<Rightarrow> bytes \<Rightarrow> 'x evidence \<Rightarrow> disk \<Rightarrow> (persist_error + unit) \<times> disk" where
  "persist_evidence marshal s path evidence d = persistJSONNoOverwrite s path (marshal evidence) d"

definition execute_suite ::
  "(bytes \<Rightarrow> bytes) \<Rightarrow> ('x evidence \<Rightarrow> bytes + bytes) \<Rightarrow> surroundings \<Rightarrow> ('x, 'm) common_options_scheme \<Rightarrow> bytes \<Rightarrow>
     (bytes \<Rightarrow> nat \<Rightarrow> Scenario \<Rightarrow> (scenario_error + 'x) option) \<Rightarrow> disk \<Rightarrow>
     ((execute_error + 'x evidence) \<times> disk) option" where
  "execute_suite sha marshal x options schema run d =
     (case validateOptions options of
        Inl e \<Rightarrow> Some (Inl e, d)
      | Inr _ \<Rightarrow>
          if x_Cancelled x 0 then Some (Inl ContextDone, d)
          else
            let persist = injected (o_Persist options) (persist_evidence marshal (x_Os x)) in
            (case (if o_Persist options = None
                   then requireAbsent ((x_Os x)\<lparr>os_stat := x_StatOutput x\<rparr>) (o_OutputPath options) d
                   else Inr ()) of
               Inl e \<Rightarrow> Some (Inl (OutputPresent e), d)
             | Inr _ \<Rightarrow>
                 (case gather sha x options schema run of
                    None \<Rightarrow> None
                  | Some (Inl e) \<Rightarrow> Some (Inl e, x_Elsewhere x d)
                  | Some (Inr evidence) \<Rightarrow>
                      (case persist (o_OutputPath options) evidence (x_Elsewhere x d) of
                         (Inl e, d') \<Rightarrow> Some (Inl (PersistFailed (o_OutputPath options) e), d')
                       | (Inr _, d') \<Rightarrow> Some (Inr evidence, d')))))"

definition default_runner :: "surroundings \<Rightarrow> EngineResult runner" where
  "default_runner x n = RunEngine (x_Stop x n) (x_Engine x n) (x_Elapsed x n)"

definition Execute ::
  "(bytes \<Rightarrow> bytes) \<Rightarrow> (Capture \<Rightarrow> bytes + bytes) \<Rightarrow> surroundings \<Rightarrow> Options \<Rightarrow> disk \<Rightarrow>
     ((execute_error + Capture) \<times> disk) option" where
  "Execute sha marshal x options d =
     execute_suite sha marshal x options CaptureSchema
       (run_scenario sha x (injected (o_ReadFile options) (x_ReadFile x))
          (injected (o_Runner options) (default_runner x)) options) d"

section \<open>What a runner promises\<close>

text \<open>The loop relies on two things: a result it is given has been validated against the request and the
  workload, and the time around the process covers the engine's own total.\<close>

locale engine_runner =
  fixes runner :: "'r runner"
    and validate :: "'r \<Rightarrow> Request \<Rightarrow> WorkloadProjection \<Rightarrow> validation_error + unit"
    and experiment_total :: "'r \<Rightarrow> u64"
  assumes validated: "runner n path request w = Inr (result, orchestration) \<Longrightarrow> validate result request w = Inr ()"
    and within: "runner n path request w = Inr (result, orchestration) \<Longrightarrow> experiment_total result \<le> orchestration"

abbreviation benchmark_total :: "EngineResult \<Rightarrow> u64" where
  "benchmark_total result \<equiv> ti_ExperimentTotalNS (er_Timing result)"

interpretation benchmark_engine: engine_runner "default_runner x" validateEngineResult benchmark_total for x
  by unfold_locales (auto simp: default_runner_def RunEngine_Inr_iff)

text \<open>What one experiment of a capture records of its scenario.\<close>

definition experiment_ok ::
  "(bytes \<Rightarrow> bytes) \<Rightarrow> Scenario \<Rightarrow> bytes \<Rightarrow> WorkloadProjection \<Rightarrow> Experiment \<Rightarrow> bool" where
  "experiment_ok sha scenario workloadBytes projection e \<longleftrightarrow>
     ex_ScenarioName e = sc_Name scenario \<and>
     ex_Workload e = workload_identity sha (sc_Workload scenario) workloadBytes projection \<and>
     validateEngineResult (ex_EngineResult e)
       (request_for RequestSchema (er_ExperimentID (ex_EngineResult e)) scenario workloadBytes) projection = Inr () \<and>
     benchmark_total (ex_EngineResult e) \<le> ex_OrchestrationTotalNS e \<and>
     Summarize (er_Samples (ex_EngineResult e)) = Some (Inr (ex_Summary e))"

lemma validated_id: "validateEngineResult result request w = Inr () \<Longrightarrow> er_ExperimentID result = rq_ExperimentID request"
  by (simp add: validateEngineResult_iff answers_request_def)

lemma aligned_iff:
  "validateSourceAlignment build controller = Inr () \<longleftrightarrow>
     eb_SourceCommit build = FullCommit controller \<and> eb_SourceState build = SourceState controller"
  by (simp add: validateSourceAlignment_def)

locale benchmark_runner = engine_runner runner validateEngineResult benchmark_total
  for runner :: "EngineResult runner"
begin

lemma run_scenario_ok:
  assumes "run_scenario sha x readFile runner options root index scenario = Some (Inr e)"
  obtains workloadBytes projection where
    "read_workload x readFile root index scenario = Inr (workloadBytes, projection)"
    "experiment_ok sha scenario workloadBytes projection e"
    "er_ExperimentID (ex_EngineResult e) = numbered ''day05:'' index"
    "validateSourceAlignment (er_EngineBuild (ex_EngineResult e)) (o_Build options) = Inr ()"
proof -
  from assms obtain b p result t summary where
    r: "read_workload x readFile root index scenario = Inr (b, p)"
    and run: "runner index (o_EnginePath options) (request_for RequestSchema (numbered ''day05:'' index) scenario b) p = Inr (result, t)"
    and ok: "validateSourceAlignment (er_EngineBuild result) (o_Build options) = Inr ()"
      "Summarize (er_Samples result) = Some (Inr summary)"
    and e: "e = \<lparr>ex_ScenarioName = sc_Name scenario, ex_Workload = workload_identity sha (sc_Workload scenario) b p,
      ex_OrchestrationTotalNS = t, ex_EngineResult = result, ex_Summary = summary\<rparr>"
    by (auto simp: run_scenario_def result_simps Let_def)
  from validated_id [OF validated [OF run]] have "er_ExperimentID result = numbered ''day05:'' index"
    by (simp add: request_for_def)
  with r ok e validated [OF run] within [OF run] show thesis
    by (intro that [OF r]) (simp_all add: experiment_ok_def)
qed

end

interpretation benchmark_engine: benchmark_runner "default_runner x" for x
  by unfold_locales

section \<open>The loop over the scenarios\<close>

lemma run_scenarios_ok:
  "run_scenarios cancelled run index scenarios experiments = Some (Inr es) \<Longrightarrow>
     \<exists>new. es = experiments @ new \<and> length new = length scenarios \<and>
       (\<forall>k<length scenarios. \<not> cancelled (Suc (index + k)) \<and> run (index + k) (scenarios ! k) = Some (Inr (new ! k)))"
proof (induction scenarios arbitrary: index experiments)
  case (Cons scenario scenarios)
  from Cons.prems obtain e where e: "\<not> cancelled (Suc index)" "run index scenario = Some (Inr e)"
    "run_scenarios cancelled run (Suc index) scenarios (experiments @ [e]) = Some (Inr es)"
    by (auto simp: result_simps split: if_splits)
  from Cons.IH [OF e(3)] obtain new where new: "es = (experiments @ [e]) @ new" "length new = length scenarios"
    "\<forall>k<length scenarios. \<not> cancelled (Suc (Suc index + k)) \<and> run (Suc index + k) (scenarios ! k) = Some (Inr (new ! k))"
    by blast
  have "\<not> cancelled (Suc (index + k)) \<and> run (index + k) ((scenario # scenarios) ! k) = Some (Inr ((e # new) ! k))"
    if "k < length (scenario # scenarios)" for k
    using that e(1,2) new(3) by (cases k) auto
  with new(1,2) show ?case by (intro exI [of _ "e # new"]) simp
qed simp

lemma run_scenarios_total:
  assumes "\<And>k s. run k s \<noteq> None"
  shows "run_scenarios cancelled run index scenarios experiments \<noteq> None"
proof (induction scenarios arbitrary: index experiments)
  case (Cons scenario scenarios)
  then show ?case using assms by (simp add: tryP_None_iff del: not_None_eq)
qed simp

lemma run_scenario_not_None: "run_scenario sha x readFile runner options root index scenario \<noteq> None"
  by (auto simp: run_scenario_def tryP_None_iff Let_def Summarize_total)

text \<open>The experiments of a suite have different identifiers.\<close>

lemma numbered_inject:
  assumes "i < 2 ^ 63" "j < 2 ^ 63" "numbered label i = numbered label j"
  shows "i = j"
proof -
  have "(of_nat (i + 1) :: u64) = of_nat (j + 1)"
    using assms(3) by (intro inj_format_016x) (simp add: numbered_def)
  then have "unat (of_nat (i + 1) :: u64) = unat (of_nat (j + 1) :: u64)" by simp
  with assms(1,2) show ?thesis by (simp add: unat_of_nat_u64 del: of_nat_add of_nat_Suc)
qed

section \<open>A whole capture\<close>

lemma gather_ok:
  assumes "gather sha x options schema run = Some (Inr evidence)"
  obtains suiteBytes suite root engineHash where
    "read_suite (injected (o_ReadFile options) (x_ReadFile x)) (o_SuitePath options) = Inr (suiteBytes, suite)"
    "filepath_Abs (x_Wd x) (o_RepositoryRoot options) = Inr root"
    "hashFile sha (x_EngineFile x 0 (o_EnginePath options)) = Inr engineHash"
    "hashFile sha (x_EngineFile x 1 (o_EnginePath options)) = Inr engineHash"
    "rp_Ready (ev_Environment evidence)"
    "ev_Environment evidence =
       Check (x_Host x) (injected (o_Probe options) (commandProbe (x_Tools x))) (o_Build options)"
    "run_scenarios (x_Cancelled x) (run root) 0 (bs_Scenarios suite) [] = Some (Inr (ev_Experiments evidence))"
    "ev_StartedAt evidence \<le> ev_CompletedAt evidence"
    "ev_StartedAt evidence = injected (o_Now options) (x_Now x) 0"
    "ev_CompletedAt evidence = injected (o_Now options) (x_Now x) 1"
    "ev_SchemaVersion evidence = schema" "ev_Controller evidence = o_Build options"
    "ev_Suite evidence = \<lparr>si_Path = identityPath (x_Wd x) root (o_SuitePath options),
       si_SHA256 = hashBytes sha suiteBytes, si_SchemaVersion = bs_SchemaVersion suite, si_Name = bs_Name suite\<rparr>"
    "ev_EngineArtifact evidence =
       \<lparr>ar_Path = identityPath (x_Wd x) root (o_EnginePath options), ar_SHA256 = engineHash\<rparr>"
  using assms
  by (auto simp: gather_def Let_def result_simps not_less split: prod.splits if_splits intro: that)

lemma execute_suite_ok:
  assumes "execute_suite sha marshal x options schema run d = Some (Inr evidence, d')"
  shows "validateOptions options = Inr () \<and> gather sha x options schema run = Some (Inr evidence) \<and>
    injected (o_Persist options) (persist_evidence marshal (x_Os x)) (o_OutputPath options) evidence (x_Elsewhere x d) =
      (Inr (), d') \<and>
    (o_Persist options = None \<longrightarrow> links d (o_OutputPath options) = None)"
  using assms
  by (auto simp: execute_suite_def Let_def requireAbsent_def split: sum.splits option.splits if_splits prod.splits)

lemma gather_total:
  assumes "\<And>root k s. run root k s \<noteq> None"
  shows "gather sha x options schema run \<noteq> None"
  using run_scenarios_total [of "run root" for root, OF assms]
  by (auto simp: gather_def Let_def tryP_None_iff split: prod.splits)

text \<open>Whatever happens, the disk ends in one of four ways.\<close>

lemma execute_suite_outcome:
  assumes "\<And>root k s. run root k s \<noteq> None" and "o_Persist options = None"
    and "exclusive_temp (x_Os x) (o_OutputPath options) (x_Elsewhere x d)"
  obtains (early) e where "execute_suite sha marshal x options schema run d = Some (Inl e, d)"
  | (gathering) e where "execute_suite sha marshal x options schema run d = Some (Inl e, x_Elsewhere x d)"
      "links d (o_OutputPath options) = None"
  | (persisting) e evidence d' where
      "execute_suite sha marshal x options schema run d = Some (Inl (PersistFailed (o_OutputPath options) e), d')"
      "persistJSONNoOverwrite (x_Os x) (o_OutputPath options) (marshal evidence) (x_Elsewhere x d) = (Inl e, d')"
      "links d (o_OutputPath options) = None"
  | (complete) evidence d' where "execute_suite sha marshal x options schema run d = Some (Inr evidence, d')"
      "persistJSONNoOverwrite (x_Os x) (o_OutputPath options) (marshal evidence) (x_Elsewhere x d) = (Inr (), d')"
      "links d (o_OutputPath options) = None"
proof (cases "validateOptions options = Inr () \<and> \<not> x_Cancelled x 0 \<and>
    requireAbsent ((x_Os x)\<lparr>os_stat := x_StatOutput x\<rparr>) (o_OutputPath options) d = Inr ()")
  case False
  then have "\<exists>e. execute_suite sha marshal x options schema run d = Some (Inl e, d)"
    using assms(2) by (auto simp: execute_suite_def Let_def split: sum.splits)
  then show thesis using early by blast
next
  case True
  then have absent: "links d (o_OutputPath options) = None"
    by (auto simp: requireAbsent_def split: option.splits if_splits)
  obtain r where r: "gather sha x options schema run = Some r" using gather_total [of run] assms(1) by blast
  show thesis
  proof (cases r)
    case (Inl e)
    with True assms(2) r have "execute_suite sha marshal x options schema run d = Some (Inl e, x_Elsewhere x d)"
      by (simp add: execute_suite_def Let_def)
    then show thesis using gathering absent by blast
  next
    case (Inr evidence)
    obtain v d' where p: "persistJSONNoOverwrite (x_Os x) (o_OutputPath options) (marshal evidence) (x_Elsewhere x d) = (v, d')"
      by fastforce
    have "execute_suite sha marshal x options schema run d =
        Some (case v of Inl e \<Rightarrow> (Inl (PersistFailed (o_OutputPath options) e), d') | Inr _ \<Rightarrow> (Inr evidence, d'))"
      using True assms(2) r Inr p
      by (auto simp: execute_suite_def Let_def injected_def persist_evidence_def split: sum.splits)
    with p absent show thesis by (cases v) (auto intro: persisting complete)
  qed
qed

section \<open>A sample capture\<close>

definition sample_files :: "nat \<Rightarrow> bytes \<Rightarrow> bytes + bytes" where
  "sample_files n path =
     (if path = ''/repo/s.json'' then Inr (render sample_suite_doc)
      else if path = ''/repo/w/a.json'' then Inr sample_workload_text else Inl ''no such file'')"

definition sample_id :: bytes where "sample_id = ''day05:0000000000000001''"

definition sample_surroundings :: surroundings where
  "sample_surroundings = \<lparr>x_Wd = Inr ''/'', x_Cancelled = (\<lambda>_. False), x_ReadFile = sample_files,
     x_EngineFile = (\<lambda>_ _. Inr ''ELF''), x_Now = (\<lambda>k. 63900000000000000000 + int k), x_Host = sample_host,
     x_Tools = \<lparr>th_LookPath = (\<lambda>_. Inl ''not found''), th_Run = (\<lambda>_ _. ([], RunOk))\<rparr>,
     x_StatOutput = None, x_Elsewhere = id, x_Os = sample_os id None, x_Stop = (\<lambda>_. False),
     x_Engine = (\<lambda>_. sample_engine_host (sample_response_doc sample_id)), x_Elapsed = (\<lambda>_. 100)\<rparr>"

definition sample_build :: "bytes \<Rightarrow> Info" where
  "sample_build ver = \<lparr>Version = ver, FullCommit = ''c'', SourceState = ''clean''\<rparr>"

definition sample_options :: "bytes \<Rightarrow> Options" where
  "sample_options ver = \<lparr>o_EnginePath = ''engine'', o_SuitePath = ''/repo/s.json'', o_OutputPath = ''p'',
     o_RepositoryRoot = ''/repo'', o_Build = (sample_build ver), o_Probe = Some sample_probe, o_ReadFile = None,
     o_Now = None, o_Persist = None, o_Runner = None\<rparr>"

definition sample_sha :: "bytes \<Rightarrow> bytes" where
  "sample_sha data = replicate 32 CHR 0x61"

definition sample_capture :: "bytes \<Rightarrow> Capture" where
  "sample_capture ver = \<lparr>ev_SchemaVersion = CaptureSchema, ev_StartedAt = 63900000000000000000,
     ev_CompletedAt = 63900000000000000001,
     ev_Suite = \<lparr>si_Path = ''s.json'', si_SHA256 = hashBytes sample_sha (render sample_suite_doc),
       si_SchemaVersion = SuiteSchema, si_Name = ''n''\<rparr>,
     ev_Controller = (sample_build ver), ev_Environment = Check sample_host sample_probe (sample_build ver),
     ev_EngineArtifact = \<lparr>ar_Path = ''/engine'', ar_SHA256 = hashBytes sample_sha ''ELF''\<rparr>,
     ev_Experiments = [\<lparr>ex_ScenarioName = ''s'',
       ex_Workload = workload_identity sample_sha ''w/a.json'' sample_workload_text sample_workload,
       ex_OrchestrationTotalNS = 100, ex_EngineResult = (sample_engine_result sample_id),
       ex_Summary = \<lparr>su_Generation = the (summarizeValues [1]), su_Pipeline = the (summarizeValues [2]),
         su_EngineTotal = the (summarizeValues [3])\<rparr>\<rparr>]\<rparr>"

lemma sample_root: "filepath_Abs (Inr ''/'') ''/repo'' = Inr ''/repo''" "''/repo'' = rooted [''repo'']"
  by (simp_all add: filepath_Abs_def is_abs_def slash_def path_Clean_def clean_step_def rooted_def)

lemma sample_versions:
  "parseNumericVersion ''GNU Make 99.1'' = Inr \<lparr>major = 99, minor = 1, patch = 0\<rparr>"
  "parseNumericVersion ''1.24.0'' = Inr \<lparr>major = 1, minor = 24, patch = 0\<rparr>"
  "parseNumericVersion ''1.97.1'' = Inr \<lparr>major = 1, minor = 97, patch = 1\<rparr>"
  "parseNumericVersion ''20.0.0'' = Inr \<lparr>major = 20, minor = 0, patch = 0\<rparr>"
  "parseNumericVersion ''4.0.0'' = Inr \<lparr>major = 4, minor = 0, patch = 0\<rparr>"
  by (simp_all add: parseNumericVersion_def match_at_def match_numbers_def ascii_digit_def byte_def Let_def
      parse_component_def atoi_def decimal_digits_def digit_val_def)

lemma sample_ready: "rp_Ready (Check sample_host sample_probe (sample_build ver))"
proof -
  have "r_Usable (assess want (sample_probe want))" if "want \<in> set tools" "t_Required want" for want
    using that
    by (auto simp: assess_usable meets_def tools_def tool_def sample_probe_def has_problem_def trim_space_Nil_iff byte_def
        is_space_def sample_versions lessThan_def)
  then show ?thesis by (simp add: Check_def check_tools_exact)
qed

lemma sample_fields:
  "x_Wd sample_surroundings = Inr ''/''" "x_Cancelled sample_surroundings = (\<lambda>_. False)"
  "x_ReadFile sample_surroundings = sample_files" "x_EngineFile sample_surroundings = (\<lambda>_ _. Inr ''ELF'')"
  "x_Now sample_surroundings = (\<lambda>k. 63900000000000000000 + int k)" "x_Host sample_surroundings = sample_host"
  "x_StatOutput sample_surroundings = None" "x_Elsewhere sample_surroundings = id"
  "x_Os sample_surroundings = sample_os id None"
  "o_EnginePath (sample_options ver) = ''engine''" "o_SuitePath (sample_options ver) = ''/repo/s.json''"
  "o_OutputPath (sample_options ver) = ''p''" "o_RepositoryRoot (sample_options ver) = ''/repo''"
  "o_Build (sample_options ver) = (sample_build ver)" "o_Probe (sample_options ver) = Some sample_probe"
  "o_ReadFile (sample_options ver) = None" "o_Now (sample_options ver) = None" "o_Persist (sample_options ver) = None"
  "o_Runner (sample_options ver) = None"
  by (simp_all add: sample_surroundings_def sample_options_def)

lemma sample_read_suite:
  "read_suite sample_files ''/repo/s.json'' = Inr (render sample_suite_doc, sample_suite)"
proof -
  have "Suite_Validate sample_suite = Inr ()" using sample_suite_ok by (simp add: Suite_Validate_iff)
  then show ?thesis by (simp add: read_suite_def sample_files_def sample_suite_Decode)
qed

lemma sample_read_workload:
  "read_workload sample_surroundings sample_files ''/repo'' 0 sample_scenario = Inr (sample_workload_text, sample_workload)"
proof -
  have "resolveRepositoryPath (Inr ''/'') ''/repo'' ''w/a.json'' = Inr ''/repo/w/a.json''"
    using resolve_proper [of "[''repo'']" "[''w'', ''a.json'']" "Inr ''/''"]
    by (simp add: rooted_def slash_def)
  then show ?thesis
    by (simp add: read_workload_def sample_surroundings_def sample_scenario_def sample_files_def sample_ProjectWorkload
        WorkloadSchema_def) (simp add: sample_workload_def)
qed

lemma sample_summary:
  "Summarize (er_Samples (sample_engine_result sample_id)) = Some (Inr \<lparr>su_Generation = the (summarizeValues [1]),
     su_Pipeline = the (summarizeValues [2]), su_EngineTotal = the (summarizeValues [3])\<rparr>)"
  by (simp add: Summarize_total sample_engine_result_def)

lemma sample_request_for:
  "request_for RequestSchema (numbered ''day05:'' 0) sample_scenario sample_workload_text = (sample_request RequestSchema sample_id)"
  by (simp add: request_for_def numbered_def sample_scenario_def sample_request_def format_016x_def hex_digits_numeral
      hex_digit_def sample_id_def)

lemma short_sample_id: "short sample_id"
  by (simp add: short_def sample_id_def plain_def quote_def backslash_def byte_def)

lemma sample_run_scenario:
  "run_scenario sample_sha sample_surroundings sample_files (default_runner sample_surroundings) (sample_options ver) ''/repo'' 0
     sample_scenario = Some (Inr (hd (ev_Experiments (sample_capture ver))))"
proof -
  have "default_runner sample_surroundings 0 ''engine'' (sample_request RequestSchema sample_id) sample_workload = Inr (sample_engine_result sample_id, 100)"
    using sample_RunEngine [OF short_sample_id] by (simp add: default_runner_def sample_surroundings_def)
  moreover have "validateSourceAlignment (er_EngineBuild (sample_engine_result sample_id)) (sample_build ver) = Inr ()"
    by (simp add: aligned_iff sample_engine_result_def sample_build_def)
  ultimately show ?thesis
    by (simp add: run_scenario_def sample_read_workload sample_request_for tryP_def sample_summary sample_fields)
      (simp add: sample_capture_def sample_scenario_def)
qed

lemma sample_identity:
  "identityPath (Inr ''/'') ''/repo'' ''/repo/s.json'' = ''s.json''"
  "identityPath (Inr ''/'') ''/repo'' ''engine'' = ''/engine''"
proof -
  show "identityPath (Inr ''/'') ''/repo'' ''/repo/s.json'' = ''s.json''"
    using identityPath_below [of "[''repo'']" "[''s.json'']" "Inr ''/''" "''/repo/s.json''"]
    by (simp add: rooted_def slash_def filepath_Abs_def is_abs_def path_Clean_def clean_step_def)
  show "identityPath (Inr ''/'') ''/repo'' ''engine'' = ''/engine''"
    by (simp add: identityPath_def filepath_Abs_def is_abs_def slash_def filepath_Join_def path_Clean_def clean_step_def
        filepath_Rel_def components_def climbs_def)
qed

lemma sample_gather:
  "gather sample_sha sample_surroundings (sample_options ver) CaptureSchema
     (run_scenario sample_sha sample_surroundings sample_files (default_runner sample_surroundings) (sample_options ver)) =
   Some (Inr (sample_capture ver))"
proof -
  have "run_scenarios (\<lambda>_. False) (run_scenario sample_sha sample_surroundings sample_files
        (default_runner sample_surroundings) (sample_options ver) ''/repo'') 0 (bs_Scenarios sample_suite) [] =
      Some (Inr (ev_Experiments (sample_capture ver)))"
    using sample_run_scenario by (simp add: sample_suite_def tryP_def sample_capture_def)
  then show ?thesis
    using sample_ready
    by (simp add: gather_def injected_def tryP_def sample_fields sample_read_suite sample_root(1) hashFile_def sample_identity)
      (simp add: sample_capture_def sample_suite_def)
qed

lemma sample_persist:
  "\<exists>d'. persistJSONNoOverwrite (sample_os id None) ''p'' (Inr ''{}'') empty_disk = (Inr (), d')"
  by (simp add: persist_eval)

lemma sample_Execute:
  "trim_space ver \<noteq> [] \<Longrightarrow>
   \<exists>d'. Execute sample_sha (\<lambda>_. Inr ''{}'') sample_surroundings (sample_options ver) empty_disk = Some (Inr (sample_capture ver), d')"
proof -
  assume "trim_space ver \<noteq> []"
  then have "validateOptions (sample_options ver) = Inr ()"
    by (simp add: validateOptions_def sample_fields sample_build_def validSourceState_def trim_space_Nil_iff byte_def
        is_space_def)
  moreover have "requireAbsent (sample_os id None) ''p'' empty_disk = Inr ()" by (simp add: persist_eval)
  moreover have "(sample_os id None)\<lparr>os_stat := None\<rparr> = sample_os id None" by (simp add: sample_os_def)
  ultimately show ?thesis
    using sample_gather sample_persist
    by (auto simp: Execute_def execute_suite_def sample_fields injected_def persist_evidence_def Let_def)
qed

text \<open>A capture that was returned, in terms of its scenarios. The runner is any that keeps the promise.\<close>

lemma read_suite_ok:
  "read_suite readFile path = Inr (suiteBytes, suite) \<longleftrightarrow>
     readFile 0 path = Inr suiteBytes \<and> Decode suiteBytes dec_Suite zero_Suite True = Inr suite \<and> suite_ok suite"
  by (auto simp: read_suite_def result_simps Suite_Validate_iff)

lemma numbered_distinct:
  assumes "length es \<le> 64" "\<And>k. k < length es \<Longrightarrow> f (es ! k) = numbered label k"
  shows "distinct (map f es)"
proof -
  have "i = j" if "i < length es" "j < length es" "f (es ! i) = f (es ! j)" for i j
    using that assms by (intro numbered_inject [of i j label]) auto
  then show ?thesis by (auto simp: distinct_conv_nth)
qed

lemma gather_scenarios:
  assumes "gather sha x options schema run = Some (Inr evidence)"
  obtains suiteBytes suite root where
    "injected (o_ReadFile options) (x_ReadFile x) 0 (o_SuitePath options) = Inr suiteBytes"
    "Decode suiteBytes dec_Suite zero_Suite True = Inr suite" "suite_ok suite"
    "filepath_Abs (x_Wd x) (o_RepositoryRoot options) = Inr root"
    "ev_Suite evidence = \<lparr>si_Path = identityPath (x_Wd x) root (o_SuitePath options),
       si_SHA256 = hashBytes sha suiteBytes, si_SchemaVersion = SuiteSchema, si_Name = bs_Name suite\<rparr>"
    "length (ev_Experiments evidence) = length (bs_Scenarios suite)" "length (bs_Scenarios suite) \<le> 64"
    "\<And>k. k < length (bs_Scenarios suite) \<Longrightarrow> \<not> x_Cancelled x (Suc k) \<and>
       run root k (bs_Scenarios suite ! k) = Some (Inr (ev_Experiments evidence ! k))"
proof (rule gather_ok [OF assms])
  fix suiteBytes suite root
  assume s: "read_suite (injected (o_ReadFile options) (x_ReadFile x)) (o_SuitePath options) = Inr (suiteBytes, suite)"
    and run: "run_scenarios (x_Cancelled x) (run root) 0 (bs_Scenarios suite) [] = Some (Inr (ev_Experiments evidence))"
    and rest: "filepath_Abs (x_Wd x) (o_RepositoryRoot options) = Inr root"
      "ev_Suite evidence = \<lparr>si_Path = identityPath (x_Wd x) root (o_SuitePath options),
       si_SHA256 = hashBytes sha suiteBytes, si_SchemaVersion = bs_SchemaVersion suite, si_Name = bs_Name suite\<rparr>"
  have "suite_ok suite" "bs_SchemaVersion suite = SuiteSchema" "length (bs_Scenarios suite) \<le> 64"
    using s by (simp_all add: read_suite_ok suite_ok_def)
  then show thesis
    using s rest run_scenarios_ok [OF run] by (intro that [of suiteBytes suite root]) (auto simp: read_suite_ok)
qed

context benchmark_runner
begin

lemma gathered:
  assumes "gather sha x options schema (run_scenario sha x readFile runner options) = Some (Inr capture)"
  obtains suiteBytes suite root where
    "injected (o_ReadFile options) (x_ReadFile x) 0 (o_SuitePath options) = Inr suiteBytes"
    "Decode suiteBytes dec_Suite zero_Suite True = Inr suite" "suite_ok suite"
    "filepath_Abs (x_Wd x) (o_RepositoryRoot options) = Inr root"
    "ev_Suite capture = \<lparr>si_Path = identityPath (x_Wd x) root (o_SuitePath options),
       si_SHA256 = hashBytes sha suiteBytes, si_SchemaVersion = SuiteSchema, si_Name = bs_Name suite\<rparr>"
    "length (ev_Experiments capture) = length (bs_Scenarios suite)"
    "\<forall>k<length (bs_Scenarios suite). \<not> x_Cancelled x (Suc k) \<and>
       (\<exists>workloadBytes projection.
          read_workload x readFile root k (bs_Scenarios suite ! k) = Inr (workloadBytes, projection) \<and>
          experiment_ok sha (bs_Scenarios suite ! k) workloadBytes projection (ev_Experiments capture ! k))"
    "distinct (map (er_ExperimentID \<circ> ex_EngineResult) (ev_Experiments capture))"
    "list_all (\<lambda>e. eb_SourceCommit (er_EngineBuild (ex_EngineResult e)) = FullCommit (o_Build options) \<and>
      eb_SourceState (er_EngineBuild (ex_EngineResult e)) = SourceState (o_Build options)) (ev_Experiments capture)"
proof (rule gather_scenarios [OF assms])
  fix suiteBytes root and suite :: Suite
  let ?ss = "bs_Scenarios suite" and ?es = "ev_Experiments capture"
  assume run: "\<And>k. k < length ?ss \<Longrightarrow> \<not> x_Cancelled x (Suc k) \<and>
       run_scenario sha x readFile runner options root k (?ss ! k) = Some (Inr (?es ! k))"
    and len: "length ?es = length ?ss" "length ?ss \<le> 64"
    and rest: "injected (o_ReadFile options) (x_ReadFile x) 0 (o_SuitePath options) = Inr suiteBytes"
      "Decode suiteBytes dec_Suite zero_Suite True = Inr suite" "suite_ok suite"
      "filepath_Abs (x_Wd x) (o_RepositoryRoot options) = Inr root"
      "ev_Suite capture = \<lparr>si_Path = identityPath (x_Wd x) root (o_SuitePath options),
       si_SHA256 = hashBytes sha suiteBytes, si_SchemaVersion = SuiteSchema, si_Name = bs_Name suite\<rparr>"
  have rec: "(\<exists>b p. read_workload x readFile root k (?ss ! k) = Inr (b, p) \<and> experiment_ok sha (?ss ! k) b p (?es ! k)) \<and>
      er_ExperimentID (ex_EngineResult (?es ! k)) = numbered ''day05:'' k \<and>
      validateSourceAlignment (er_EngineBuild (ex_EngineResult (?es ! k))) (o_Build options) = Inr ()"
    if "k < length ?ss" for k
    using run [OF that] by (auto elim!: run_scenario_ok)
  have "distinct (map (er_ExperimentID \<circ> ex_EngineResult) ?es)"
    using rec len by (intro numbered_distinct [of _ _ "''day05:''"]) auto
  moreover have "list_all (\<lambda>e. eb_SourceCommit (er_EngineBuild (ex_EngineResult e)) = FullCommit (o_Build options) \<and>
      eb_SourceState (er_EngineBuild (ex_EngineResult e)) = SourceState (o_Build options)) ?es"
    unfolding list_all_length using rec len aligned_iff by auto
  ultimately show thesis
    using rest len(1) rec run by (intro that [of suiteBytes suite root]) auto
qed

end

lemma sample_one: "trim_space ''1'' \<noteq> []" "trim_space ''2'' \<noteq> []"
  by (simp_all add: trim_space_Nil_iff byte_def is_space_def)

section \<open>Properties\<close>

text \<open>
  Claim C24. A benchmark capture is all or nothing. The command never panics. If the output already exists
  nothing changes on the disk; an error before the persisting leaves the disk as others made it;
  an error of the persisting leaves the output name as it was or as others made it, or with the complete
  encoded evidence; success means that the complete encoded capture is at the output path, synced,
  and that nothing was there before.
\<close>

theorem Execute_all_or_nothing:
  assumes "o_Persist options = None" and "exclusive_temp (x_Os x) (o_OutputPath options) (x_Elsewhere x d)"
  shows "\<exists>r d'. Execute sha marshal x options d = Some (r, d') \<and>
    (links d (o_OutputPath options) \<noteq> None \<longrightarrow> d' = d \<and> (\<exists>e. r = Inl e)) \<and>
    (\<forall>e. r = Inl e \<longrightarrow> d' = d \<or> d' = x_Elsewhere x d \<or>
       (\<exists>cause capture. e = PersistFailed (o_OutputPath options) cause \<and>
         (\<forall>encoded. marshal capture = Inr encoded \<longrightarrow>
           (let path = o_OutputPath options; before = x_Elsewhere x d;
                at = at_link (x_Os x) (encoded @ [CHR 0x0A]) before in
            links d' path = links before path \<or> links d' path = links at path \<or>
            links at path = None \<and> published path (encoded @ [CHR 0x0A]) d')))) \<and>
    (\<forall>capture. r = Inr capture \<longrightarrow> (\<exists>encoded. marshal capture = Inr encoded \<and>
       published (o_OutputPath options) (encoded @ [CHR 0x0A]) d' \<and> names_synced d'))"
proof -
  let ?run = "run_scenario sha x (injected (o_ReadFile options) (x_ReadFile x))
      (injected (o_Runner options) (default_runner x)) options"
  have total: "?run root k s \<noteq> None" for root k s by (rule run_scenario_not_None)
  show ?thesis
    using total assms
  proof (cases rule: execute_suite_outcome [where run = ?run and options = options and x = x and d = d and
        sha = sha and marshal = marshal and schema = CaptureSchema])
    case (early e)
    then show ?thesis by (intro exI conjI) (auto simp: Execute_def)
  next
    case (gathering e)
    then show ?thesis by (intro exI conjI) (auto simp: Execute_def)
  next
    case (persisting e capture d')
    have "links d' (o_OutputPath options) = links (x_Elsewhere x d) (o_OutputPath options) \<or>
        links d' (o_OutputPath options) = links (at_link (x_Os x) (encoded @ [CHR 0x0A]) (x_Elsewhere x d)) (o_OutputPath options) \<or>
        links (at_link (x_Os x) (encoded @ [CHR 0x0A]) (x_Elsewhere x d)) (o_OutputPath options) = None \<and>
        published (o_OutputPath options) (encoded @ [CHR 0x0A]) d'" if "marshal capture = Inr encoded" for encoded
      using persist_path [OF assms(2)] persisting(2) that by simp
    with persisting show ?thesis by (intro exI conjI) (auto simp: Execute_def Let_def)
  next
    case (complete capture d')
    from persist_success [OF assms(2) complete(2)] obtain encoded where "marshal capture = Inr encoded"
      "published (o_OutputPath options) (encoded @ [CHR 0x0A]) d'" "names_synced d'" .
    with complete show ?thesis by (intro exI conjI) (auto simp: Execute_def)
  qed
qed

theorem Execute_all_or_nothing_witness:
  "\<exists>d'. Execute sample_sha (\<lambda>_. Inr ''{}'') sample_surroundings (sample_options ''1'') empty_disk = Some (Inr (sample_capture ''1''), d') \<and>
     published ''p'' (''{}'' @ [CHR 0x0A]) d'"
proof -
  have "exclusive_temp (x_Os sample_surroundings) (o_OutputPath (sample_options ''1'')) (x_Elsewhere sample_surroundings empty_disk)"
    by (simp add: exclusive_temp_def sample_fields sample_os_def empty_disk_def)
  from Execute_all_or_nothing [OF _ this, of sample_sha "\<lambda>_. Inr ''{}''"] sample_Execute [of "''1''"]
  show ?thesis by (auto simp: sample_fields sample_one)
qed

text \<open>
  Claim C25. A capture records what was measured. Its suite was read from the suite path, decoded strictly and
  validated; there is one experiment per scenario, in the order of the suite, each for the workload
  below the root that the scenario names, with its digest and dimensions, a result that was
  validated against that scenario and workload by the engine run, an orchestration time that
  covers the experiment and the summary of its retained samples; experiments have different
  identifiers; every engine build has the controller's commit and source state; the engine binary had
  the recorded digest before and after; the host was ready and the clock did not go backwards.
\<close>

theorem Execute_records:
  assumes "Execute sha marshal x options d = Some (Inr capture, d')" and "o_Runner options = None"
  shows "validateOptions options = Inr () \<and>
    (\<exists>suiteBytes suite root.
       injected (o_ReadFile options) (x_ReadFile x) 0 (o_SuitePath options) = Inr suiteBytes \<and>
       Decode suiteBytes dec_Suite zero_Suite True = Inr suite \<and> suite_ok suite \<and>
       filepath_Abs (x_Wd x) (o_RepositoryRoot options) = Inr root \<and>
       ev_Suite capture = \<lparr>si_Path = identityPath (x_Wd x) root (o_SuitePath options),
         si_SHA256 = hashBytes sha suiteBytes, si_SchemaVersion = SuiteSchema, si_Name = bs_Name suite\<rparr> \<and>
       length (ev_Experiments capture) = length (bs_Scenarios suite) \<and>
       (\<forall>k<length (bs_Scenarios suite). \<not> x_Cancelled x (Suc k) \<and>
          (\<exists>workloadBytes projection.
             read_workload x (injected (o_ReadFile options) (x_ReadFile x)) root k (bs_Scenarios suite ! k) =
               Inr (workloadBytes, projection) \<and>
             experiment_ok sha (bs_Scenarios suite ! k) workloadBytes projection (ev_Experiments capture ! k)))) \<and>
    distinct (map (er_ExperimentID \<circ> ex_EngineResult) (ev_Experiments capture)) \<and>
    list_all (\<lambda>e. eb_SourceCommit (er_EngineBuild (ex_EngineResult e)) = FullCommit (o_Build options) \<and>
      eb_SourceState (er_EngineBuild (ex_EngineResult e)) = SourceState (o_Build options)) (ev_Experiments capture) \<and>
    (\<forall>k\<in>{0, 1}. hashFile sha (x_EngineFile x k (o_EnginePath options)) = Inr (ar_SHA256 (ev_EngineArtifact capture))) \<and>
    rp_Ready (ev_Environment capture) \<and> ev_Controller capture = o_Build options \<and>
    ev_StartedAt capture \<le> ev_CompletedAt capture"
proof -
  let ?read = "injected (o_ReadFile options) (x_ReadFile x)"
  let ?run = "run_scenario sha x ?read (default_runner x) options"
  from assms have v: "validateOptions options = Inr ()" and g: "gather sha x options CaptureSchema ?run = Some (Inr capture)"
    using execute_suite_ok [of sha marshal x options CaptureSchema ?run d capture d']
    by (simp_all add: Execute_def injected_def [of None])
  show ?thesis
    by (rule benchmark_engine.gathered [OF g], rule gather_ok [OF g]) (use v in auto)
qed

theorem Execute_records_witness:
  "ar_SHA256 (ev_EngineArtifact (sample_capture ''1'')) = hashBytes sample_sha ''ELF'' \<and>
   distinct (map (er_ExperimentID \<circ> ex_EngineResult) (ev_Experiments (sample_capture ''1'')))"
  using sample_Execute [of "''1''"] Execute_records [of sample_sha "\<lambda>_. Inr ''{}''" sample_surroundings "sample_options ''1''" empty_disk "sample_capture ''1''"]
  by (auto simp: sample_fields sample_one hashFile_def)

end
