(* ===== verification/Verify.thy ===== *)
theory Verify
  imports Execute
begin

text \<open>
  \<open>internal/benchmark/verify.go\<close>: the offline check of evidence against the content of a repository.
  The common part of \<open>verifyCapture\<close> and \<open>verifyProfileReport\<close> is written once, around the check of
  one experiment. Files are read at numbered moments: 0 for the evidence, 1 for the suite and
  \<open>k + 2\<close> for the workload of experiment \<open>k\<close>.
\<close>

section \<open>Data\<close>

record EvidenceVerification =
  rc_SchemaVersion :: bytes
  rc_Status :: bytes
  rc_EvidencePath :: bytes
  rc_EvidenceSHA256 :: bytes
  rc_EvidenceSchema :: bytes
  rc_SuiteName :: bytes
  rc_ExperimentCount :: nat
  rc_RetainedSampleCount :: nat
  rc_RepositoryIdentitiesVerified :: nat
  rc_EngineArtifactVerified :: bool

text \<open>What the outside answers: the working directory, \<open>filepath.EvalSymlinks\<close>, the files, and the engine
  binary.\<close>

record repository =
  v_Wd :: "bytes + bytes"
  v_EvalSymlinks :: "bytes \<Rightarrow> bytes + bytes"
  v_ReadFile :: "nat \<Rightarrow> bytes \<Rightarrow> bytes + bytes"
  v_EngineFile :: "bytes \<Rightarrow> bytes + bytes"

datatype resolve_error =
    RepositoryPath path_error
  | RootSymlinks bytes
  | PathSymlinks bytes bytes
  | CompareResolved bytes
  | ResolvesOutside bytes

datatype suite_failure =
    SuiteUnresolved resolve_error
  | SuiteUnreadable bytes bytes
  | SuiteHashMismatch bytes
  | SuiteUndecodable bytes json_error
  | SuiteInvalid bytes suite_invalid
  | SuiteFieldsDiffer bytes

datatype experiment_failure =
    NameDiffers bytes
  | WorkloadUnresolved resolve_error
  | WorkloadUnreadable bytes bytes
  | WorkloadUninspectable bytes protocol_error
  | WorkloadUnsupported bytes bytes
  | WorkloadIdentityDiffers
  | DuplicateID bytes
  | ResultInvalid validation_error
  | StageResultInvalid validation_error
  | StageBuildDiffers
  | BuildMisaligned alignment_error
  | VersionMismatch bytes bytes
  | BuildChanged
  | OrchestrationSmaller
  | StageOrchestrationSmaller
  | SummaryFails
  | SummaryDiffers
  | StageSummaryFails profile_error
  | StageSummaryDiffers
  | AnalysisFails profile_error
  | AnalysisDiffers

datatype verify_error =
    EvidencePathEmpty
  | RepositoryRootEmpty
  | RootUnresolved bytes bytes
  | EvidenceUnreadable bytes bytes
  | DiscriminatorUndecodable json_error
  | EvidenceUndecodable json_error
  | EvidenceUnsupported bytes
  | SchemaUnexpected bytes
  | TimestampZero
  | CompletionBeforeStart
  | ControllerUnidentified
  | EnvironmentSchemaUnexpected bytes
  | EnvironmentSourceDiffers
  | MilestoneUnexpected bytes
  | EnvironmentNotReady
  | EnvironmentTimestampZero
  | EnvironmentIncomplete
  | SuitePathUnexpected bytes
  | SuiteHashNotCanonical
  | EngineUnidentified
  | SuiteFailure suite_failure
  | ExperimentCountDiffers nat nat
  | ExperimentFailure bytes experiment_failure
  | EngineUnreadable bytes bytes
  | EngineIdentityUndecodable bytes json_error
  | EngineHashInvalid
  | EngineHashMismatch bytes bytes

section \<open>Small functions\<close>

definition validSHA256 :: "bytes \<Rightarrow> bool" where
  "validSHA256 v = (if length v \<noteq> 64 then False else list_all lower_hex_rune (runes v))"

definition verifyEngineIdentity :: "EngineBuild \<Rightarrow> Info \<Rightarrow> experiment_failure + unit" where
  "verifyEngineIdentity engine controller =
     bindE (wrapE BuildMisaligned (validateSourceAlignment engine controller)) (\<lambda>_.
       if eb_Version engine \<noteq> Version controller
       then Inl (VersionMismatch (eb_Version engine) (Version controller))
       else Inr ())"

text \<open>The build of the first experiment is kept and every later one is compared with it.\<close>

definition requireStableEngineBuild ::
  "EngineBuild option \<Rightarrow> EngineBuild \<Rightarrow> experiment_failure + EngineBuild option" where
  "requireStableEngineBuild expected actual =
     (case expected of
        None \<Rightarrow> Inr (Some actual)
      | Some build \<Rightarrow> if build \<noteq> actual then Inl BuildChanged else Inr (Some build))"

definition resolveVerifiedRepositoryFile :: "repository \<Rightarrow> bytes \<Rightarrow> bytes \<Rightarrow> resolve_error + bytes" where
  "resolveVerifiedRepositoryFile v root repositoryPath =
     bindE (wrapE RepositoryPath (resolveRepositoryPath (v_Wd v) root repositoryPath)) (\<lambda>candidate.
     bindE (wrapE RootSymlinks (v_EvalSymlinks v root)) (\<lambda>resolvedRoot.
     bindE (wrapE (PathSymlinks repositoryPath) (v_EvalSymlinks v candidate)) (\<lambda>resolvedCandidate.
       (case filepath_Rel resolvedRoot resolvedCandidate of
          None \<Rightarrow> Inl (CompareResolved repositoryPath)
        | Some relative \<Rightarrow>
            if climbs relative then Inl (ResolvesOutside repositoryPath) else Inr resolvedCandidate))))"

definition readVerifiedSuite :: "(bytes \<Rightarrow> bytes) \<Rightarrow> repository \<Rightarrow> bytes \<Rightarrow> SuiteIdentity \<Rightarrow> suite_failure + Suite" where
  "readVerifiedSuite sha v root identity =
     bindE (wrapE SuiteUnresolved (resolveVerifiedRepositoryFile v root (si_Path identity))) (\<lambda>suitePath.
     bindE (wrapE (SuiteUnreadable (si_Path identity)) (v_ReadFile v 1 suitePath)) (\<lambda>suiteBytes.
     if hashBytes sha suiteBytes \<noteq> si_SHA256 identity then Inl (SuiteHashMismatch (si_Path identity))
     else
       bindE (wrapE (SuiteUndecodable (si_Path identity)) (Decode suiteBytes dec_Suite zero_Suite True)) (\<lambda>suite.
       bindE (wrapE (SuiteInvalid (si_Path identity)) (Suite_Validate suite)) (\<lambda>_.
         if bs_SchemaVersion suite \<noteq> si_SchemaVersion identity \<or> bs_Name suite \<noteq> si_Name identity
         then Inl (SuiteFieldsDiffer (si_Path identity))
         else Inr suite))))"

definition readVerifiedWorkload ::
  "repository \<Rightarrow> bytes \<Rightarrow> nat \<Rightarrow> bytes \<Rightarrow> experiment_failure + (bytes \<times> WorkloadProjection)" where
  "readVerifiedWorkload v root index repositoryPath =
     bindE (wrapE WorkloadUnresolved (resolveVerifiedRepositoryFile v root repositoryPath)) (\<lambda>workloadPath.
     bindE (wrapE (WorkloadUnreadable repositoryPath) (v_ReadFile v (index + 2) workloadPath)) (\<lambda>workloadBytes.
     bindE (wrapE (WorkloadUninspectable repositoryPath) (ProjectWorkload workloadBytes)) (\<lambda>projection.
       if wp_SchemaVersion projection \<noteq> WorkloadSchema
       then Inl (WorkloadUnsupported repositoryPath (wp_SchemaVersion projection))
       else Inr (workloadBytes, projection))))"

definition verifyCommonEvidence ::
  "time \<Rightarrow> time \<Rightarrow> SuiteIdentity \<Rightarrow> Info \<Rightarrow> Report \<Rightarrow> Artifact \<Rightarrow> verify_error + unit" where
  "verifyCommonEvidence startedAt completedAt suiteIdentity controller environment engine =
     (if startedAt = 0 \<or> completedAt = 0 then Inl TimestampZero
      else if completedAt < startedAt then Inl CompletionBeforeStart
      else if trim_space (Version controller) = [] \<or> trim_space (FullCommit controller) = [] \<or>
         \<not> validSourceState (SourceState controller)
      then Inl ControllerUnidentified
      else if rp_SchemaVersion environment \<noteq> ''paraflow.environment/v3''
      then Inl (EnvironmentSchemaUnexpected (rp_SchemaVersion environment))
      else if rp_Source environment \<noteq> controller then Inl EnvironmentSourceDiffers
      else if rp_Milestone environment \<noteq> ''day-05'' \<and> rp_Milestone environment \<noteq> ''day-06'' \<and>
         rp_Milestone environment \<noteq> ''day-07''
      then Inl (MilestoneUnexpected (rp_Milestone environment))
      else if \<not> rp_Ready environment then Inl EnvironmentNotReady
      else if rp_CapturedAt environment = 0 then Inl EnvironmentTimestampZero
      else if trim_space (rp_OS environment) = [] \<or> trim_space (rp_Architecture environment) = [] \<or>
         trim_space (rp_GoVersion environment) = [] \<or> rp_LogicalCPUs environment < 1 \<or>
         rp_GoMaxProcs environment < 1 \<or> length (rp_Tools environment) = 0
      then Inl EnvironmentIncomplete
      else if \<not> validRepositoryJSONPath (si_Path suiteIdentity) then Inl (SuitePathUnexpected (si_Path suiteIdentity))
      else if \<not> validSHA256 (si_SHA256 suiteIdentity) then Inl SuiteHashNotCanonical
      else if trim_space (ar_Path engine) = [] \<or> \<not> validSHA256 (ar_SHA256 engine) then Inl EngineUnidentified
      else Inr ())"

section \<open>One experiment\<close>

text \<open>The identifiers seen so far and the engine build go in and out; the last component of the answer is
  the number of retained samples.\<close>

definition verify_experiment ::
  "(bytes \<Rightarrow> bytes) \<Rightarrow> repository \<Rightarrow> bytes \<Rightarrow> Info \<Rightarrow> nat \<Rightarrow> Scenario \<Rightarrow> Experiment \<Rightarrow>
     bytes set \<Rightarrow> EngineBuild option \<Rightarrow> (experiment_failure + (bytes set \<times> EngineBuild option \<times> nat)) option" where
  "verify_experiment sha v root controller index scenario experiment ids build =
     (if ex_ScenarioName experiment \<noteq> sc_Name scenario then Some (Inl (NameDiffers (ex_ScenarioName experiment)))
      else
        tryP id (Some (readVerifiedWorkload v root index (sc_Workload scenario))) (\<lambda>(workloadBytes, projection).
        if ex_Workload experiment \<noteq> workload_identity sha (sc_Workload scenario) workloadBytes projection
        then Some (Inl WorkloadIdentityDiffers)
        else
          let engineResult = ex_EngineResult experiment in
          if er_ExperimentID engineResult \<in> ids then Some (Inl (DuplicateID (er_ExperimentID engineResult)))
          else
            tryP ResultInvalid (Some (validateEngineResult engineResult
                (request_for RequestSchema (er_ExperimentID engineResult) scenario workloadBytes) projection)) (\<lambda>_.
            tryP id (Some (verifyEngineIdentity (er_EngineBuild engineResult) controller)) (\<lambda>_.
            tryP id (Some (requireStableEngineBuild build (er_EngineBuild engineResult))) (\<lambda>build'.
            if ex_OrchestrationTotalNS experiment < benchmark_total engineResult then Some (Inl OrchestrationSmaller)
            else
              tryP (\<lambda>_. SummaryFails) (Summarize (er_Samples engineResult)) (\<lambda>summary.
              if ex_Summary experiment \<noteq> summary then Some (Inl SummaryDiffers)
              else Some (Inr (insert (er_ExperimentID engineResult) ids, build', length (er_Samples engineResult)))))))))"

section \<open>The whole evidence\<close>

text \<open>The two lists have the same length when the loop starts.\<close>

fun verify_experiments ::
  "(nat \<Rightarrow> Scenario \<Rightarrow> 'x \<Rightarrow> bytes set \<Rightarrow> EngineBuild option \<Rightarrow>
      (experiment_failure + (bytes set \<times> EngineBuild option \<times> nat)) option) \<Rightarrow>
   nat \<Rightarrow> Scenario list \<Rightarrow> 'x list \<Rightarrow> bytes set \<Rightarrow> EngineBuild option \<Rightarrow> nat \<Rightarrow> (verify_error + nat) option" where
  "verify_experiments check index (scenario # scenarios) (experiment # experiments) ids build retained =
     tryP (ExperimentFailure (sc_Name scenario)) (check index scenario experiment ids build) (\<lambda>(ids', build', n).
       verify_experiments check (Suc index) scenarios experiments ids' build' (retained + n))"
| "verify_experiments check index scenarios experiments ids build retained = Some (Inr retained)"

text \<open>The receipt before \<open>VerifyEvidence\<close> fills in the rest.\<close>

definition receipt_for :: "Suite \<Rightarrow> nat \<Rightarrow> nat \<Rightarrow> EvidenceVerification" where
  "receipt_for suite experiments retained =
     \<lparr>rc_SchemaVersion = [], rc_Status = [], rc_EvidencePath = [], rc_EvidenceSHA256 = [], rc_EvidenceSchema = [],
      rc_SuiteName = bs_Name suite, rc_ExperimentCount = experiments, rc_RetainedSampleCount = retained,
      rc_RepositoryIdentitiesVerified = 1 + experiments, rc_EngineArtifactVerified = False\<rparr>"

definition verify_evidence ::
  "(bytes \<Rightarrow> bytes) \<Rightarrow> repository \<Rightarrow> bytes \<Rightarrow> bytes \<Rightarrow>
   (nat \<Rightarrow> Scenario \<Rightarrow> 'x \<Rightarrow> bytes set \<Rightarrow> EngineBuild option \<Rightarrow>
      (experiment_failure + (bytes set \<times> EngineBuild option \<times> nat)) option) \<Rightarrow>
   'x evidence \<Rightarrow> (verify_error + EvidenceVerification) option" where
  "verify_evidence sha v root schema check evidence =
     (if ev_SchemaVersion evidence \<noteq> schema then Some (Inl (SchemaUnexpected (ev_SchemaVersion evidence)))
      else
        tryP id (Some (verifyCommonEvidence (ev_StartedAt evidence) (ev_CompletedAt evidence) (ev_Suite evidence)
            (ev_Controller evidence) (ev_Environment evidence) (ev_EngineArtifact evidence))) (\<lambda>_.
        tryP SuiteFailure (Some (readVerifiedSuite sha v root (ev_Suite evidence))) (\<lambda>suite.
        if length (ev_Experiments evidence) \<noteq> length (bs_Scenarios suite)
        then Some (Inl (ExperimentCountDiffers (length (ev_Experiments evidence)) (length (bs_Scenarios suite))))
        else
          tryP id (verify_experiments check 0 (bs_Scenarios suite) (ev_Experiments evidence) {} None 0) (\<lambda>retained.
            Some (Inr (receipt_for suite (length (ev_Experiments evidence)) retained))))))"

definition verifyCapture ::
  "(bytes \<Rightarrow> bytes) \<Rightarrow> repository \<Rightarrow> bytes \<Rightarrow> Capture \<Rightarrow> (verify_error + EvidenceVerification) option" where
  "verifyCapture sha v root capture =
     verify_evidence sha v root CaptureSchema (verify_experiment sha v root (ev_Controller capture)) capture"

section \<open>What acceptance means\<close>

lemma lower_hex_runes_iff: "validSHA256 v \<longleftrightarrow> length v = 64 \<and> list_all lower_hex v"
  by (simp add: validSHA256_def list_all_lower_hex_runes)

definition engine_matches :: "EngineBuild \<Rightarrow> Info \<Rightarrow> bool" where
  "engine_matches build controller \<longleftrightarrow>
     eb_SourceCommit build = FullCommit controller \<and> eb_SourceState build = SourceState controller \<and>
     eb_Version build = Version controller"

lemma verifyEngineIdentity_iff: "verifyEngineIdentity build controller = Inr () \<longleftrightarrow> engine_matches build controller"
  by (auto simp: verifyEngineIdentity_def engine_matches_def result_simps aligned_iff)

lemma requireStable_iff:
  "requireStableEngineBuild expected actual = Inr next_build \<longleftrightarrow>
     (\<forall>b. expected = Some b \<longrightarrow> b = actual) \<and> next_build = Some actual"
  by (auto simp: requireStableEngineBuild_def split: option.splits)

definition common_ok :: "'x evidence \<Rightarrow> bool" where
  "common_ok evidence \<longleftrightarrow>
     (let environment = ev_Environment evidence; controller = ev_Controller evidence in
      ev_StartedAt evidence \<noteq> 0 \<and> ev_CompletedAt evidence \<noteq> 0 \<and> ev_StartedAt evidence \<le> ev_CompletedAt evidence \<and>
      trim_space (Version controller) \<noteq> [] \<and> trim_space (FullCommit controller) \<noteq> [] \<and>
      validSourceState (SourceState controller) \<and>
      rp_SchemaVersion environment = ''paraflow.environment/v3'' \<and> rp_Source environment = controller \<and>
      rp_Milestone environment \<in> {''day-05'', ''day-06'', ''day-07''} \<and> rp_Ready environment \<and>
      rp_CapturedAt environment \<noteq> 0 \<and> trim_space (rp_OS environment) \<noteq> [] \<and>
      trim_space (rp_Architecture environment) \<noteq> [] \<and> trim_space (rp_GoVersion environment) \<noteq> [] \<and>
      1 \<le> rp_LogicalCPUs environment \<and> 1 \<le> rp_GoMaxProcs environment \<and> rp_Tools environment \<noteq> [] \<and>
      validRepositoryJSONPath (si_Path (ev_Suite evidence)) \<and> validSHA256 (si_SHA256 (ev_Suite evidence)) \<and>
      trim_space (ar_Path (ev_EngineArtifact evidence)) \<noteq> [] \<and> validSHA256 (ar_SHA256 (ev_EngineArtifact evidence)))"

lemma verifyCommonEvidence_iff:
  "verifyCommonEvidence (ev_StartedAt e) (ev_CompletedAt e) (ev_Suite e) (ev_Controller e) (ev_Environment e)
     (ev_EngineArtifact e) = Inr () \<longleftrightarrow> common_ok e"
  unfolding verifyCommonEvidence_def common_ok_def Let_def guard_Inr_iff
  by (simp add: not_less)

text \<open>The common part relies on each check of an experiment deciding one acceptance condition, collecting
  the identifiers and comparing the engine build with the one before.\<close>

locale experiment_check =
  fixes check :: "nat \<Rightarrow> Scenario \<Rightarrow> 'x \<Rightarrow> bytes set \<Rightarrow> EngineBuild option \<Rightarrow>
      (experiment_failure + (bytes set \<times> EngineBuild option \<times> nat)) option"
    and accept :: "nat \<Rightarrow> Scenario \<Rightarrow> 'x \<Rightarrow> bool"
    and ids_of :: "'x \<Rightarrow> bytes list"
    and build_of :: "'x \<Rightarrow> EngineBuild"
    and retained_of :: "'x \<Rightarrow> nat"
  assumes decides: "check index scenario e ids build = Some (Inr (ids', build', n)) \<longleftrightarrow>
      accept index scenario e \<and> distinct (ids_of e) \<and> set (ids_of e) \<inter> ids = {} \<and>
      (\<forall>b. build = Some b \<longrightarrow> b = build_of e) \<and>
      ids' = ids \<union> set (ids_of e) \<and> build' = Some (build_of e) \<and> n = retained_of e"
    and returns: "check index scenario e ids build \<noteq> None"
begin

lemma loop_iff:
  "length scenarios = length es \<Longrightarrow>
   verify_experiments check index scenarios es ids build retained = Some (Inr n) \<longleftrightarrow>
     (\<forall>k<length es. accept (index + k) (scenarios ! k) (es ! k)) \<and>
     distinct (concat (map ids_of es)) \<and> set (concat (map ids_of es)) \<inter> ids = {} \<and>
     (\<exists>b. (\<forall>b'. build = Some b' \<longrightarrow> b' = b) \<and> (\<forall>e\<in>set es. build_of e = b)) \<and>
     n = retained + sum_list (map retained_of es)"
proof (induction scenarios es arbitrary: index ids build retained rule: list_induct2)
  case Nil
  then show ?case by (auto intro: exI [of _ "the build"])
next
  case (Cons s ss e es)
  have step: "verify_experiments check index (s # ss) (e # es) ids build retained = Some (Inr n) \<longleftrightarrow>
      (accept index s e \<and> distinct (ids_of e) \<and> set (ids_of e) \<inter> ids = {} \<and> (\<forall>b. build = Some b \<longrightarrow> b = build_of e)) \<and>
      verify_experiments check (Suc index) ss es (ids \<union> set (ids_of e)) (Some (build_of e)) (retained + retained_of e) =
        Some (Inr n)"
    by (auto simp: result_simps decides)
  have "(\<forall>k<length (e # es). accept (index + k) ((s # ss) ! k) ((e # es) ! k)) \<longleftrightarrow>
      accept index s e \<and> (\<forall>k<length es. accept (Suc index + k) (ss ! k) (es ! k))"
    by (auto simp: less_Suc_eq_0_disj nth_Cons')
  then show ?case unfolding step Cons.IH by (simp add: ac_simps Int_Un_distrib) (auto; blast)
qed

lemma loop_returns: "verify_experiments check index scenarios es ids build retained \<noteq> None"
proof (induction scenarios arbitrary: index es ids build retained)
  case (Cons s ss)
  then show ?case using returns by (cases es) (auto simp: tryP_None_iff simp del: not_None_eq split: prod.splits)
qed simp

lemma evidence_iff:
  "verify_evidence sha v root schema check evidence = Some (Inr receipt) \<longleftrightarrow>
     ev_SchemaVersion evidence = schema \<and> common_ok evidence \<and>
     (\<exists>suite. readVerifiedSuite sha v root (ev_Suite evidence) = Inr suite \<and>
        length (ev_Experiments evidence) = length (bs_Scenarios suite) \<and>
        (\<forall>k<length (ev_Experiments evidence). accept k (bs_Scenarios suite ! k) (ev_Experiments evidence ! k)) \<and>
        distinct (concat (map ids_of (ev_Experiments evidence))) \<and>
        (\<exists>b. \<forall>e\<in>set (ev_Experiments evidence). build_of e = b) \<and>
        receipt = receipt_for suite (length (ev_Experiments evidence)) (sum_list (map retained_of (ev_Experiments evidence))))"
proof -
  have len: "(if length es \<noteq> length ss then Some (Inl e) else m) = Some (Inr r) \<longleftrightarrow> length es = length ss \<and> m = Some (Inr r)"
    for es :: "'x list" and ss :: "Scenario list" and e :: verify_error and m r
    by simp
  show ?thesis
    unfolding verify_evidence_def
    by (auto simp: result_simps verifyCommonEvidence_iff len loop_iff)
qed

lemma evidence_returns: "verify_evidence sha v root schema check evidence \<noteq> None"
  using loop_returns by (auto simp: verify_evidence_def tryP_None_iff simp del: not_None_eq)

end

section \<open>Captures\<close>

definition capture_accept ::
  "(bytes \<Rightarrow> bytes) \<Rightarrow> repository \<Rightarrow> bytes \<Rightarrow> Info \<Rightarrow> nat \<Rightarrow> Scenario \<Rightarrow> Experiment \<Rightarrow> bool" where
  "capture_accept sha v root controller index scenario e \<longleftrightarrow>
     (\<exists>workloadBytes projection.
        readVerifiedWorkload v root index (sc_Workload scenario) = Inr (workloadBytes, projection) \<and>
        experiment_ok sha scenario workloadBytes projection e) \<and>
     engine_matches (er_EngineBuild (ex_EngineResult e)) controller"

lemma verify_experiment_iff:
  "verify_experiment sha v root controller index scenario e ids build = Some (Inr (ids', build', n)) \<longleftrightarrow>
     capture_accept sha v root controller index scenario e \<and> er_ExperimentID (ex_EngineResult e) \<notin> ids \<and>
     (\<forall>b. build = Some b \<longrightarrow> b = er_EngineBuild (ex_EngineResult e)) \<and>
     ids' = insert (er_ExperimentID (ex_EngineResult e)) ids \<and> build' = Some (er_EngineBuild (ex_EngineResult e)) \<and>
     n = length (er_Samples (ex_EngineResult e))"
proof -
  have guard: "(if b then Some (Inl x) else m) = Some (Inr y) \<longleftrightarrow> \<not> b \<and> m = Some (Inr y)"
    for b and x :: experiment_failure and m and y :: "bytes set \<times> EngineBuild option \<times> nat"
    by simp
  show ?thesis
    unfolding verify_experiment_def Let_def guard
    by (auto simp: result_simps guard verifyEngineIdentity_iff requireStable_iff capture_accept_def experiment_ok_def not_less)
qed

lemma verify_experiment_returns: "verify_experiment sha v root controller index scenario e ids build \<noteq> None"
  by (auto simp: verify_experiment_def Let_def tryP_None_iff Summarize_not_None simp del: not_None_eq)

interpretation capture_check: experiment_check "verify_experiment sha v root controller"
  "capture_accept sha v root controller" "\<lambda>e. [er_ExperimentID (ex_EngineResult e)]"
  "\<lambda>e. er_EngineBuild (ex_EngineResult e)" "\<lambda>e. length (er_Samples (ex_EngineResult e))"
  for sha v root controller
  by unfold_locales (auto simp: verify_experiment_iff verify_experiment_returns simp del: not_None_eq)

section \<open>From execution to verification\<close>

lemma length_hashBytes: "length (hashBytes sha data) = 2 * length (sha data)"
  by (simp add: hashBytes_def length_concat o_def sum_list_triv)

lemma hashBytes_valid: "length (sha data) = 32 \<Longrightarrow> validSHA256 (hashBytes sha data)"
  using hex_digits_lower_hex by (auto simp: lower_hex_runes_iff length_hashBytes) (auto simp: hashBytes_def list_all_iff)

text \<open>What the command does not check of its host, of the engine's path and of the engine's version.\<close>

definition host_identified :: "host \<Rightarrow> bool" where
  "host_identified h \<longleftrightarrow>
     h_Now h \<noteq> 0 \<and> trim_space (h_GOOS h) \<noteq> [] \<and> trim_space (h_GOARCH h) \<noteq> [] \<and> trim_space (h_GoVersion h) \<noteq> [] \<and>
     1 \<le> h_NumCPU h \<and> 1 \<le> h_GoMaxProcs h"

text \<open>The repository still has the files: the recorded paths resolve, symbolic links included, to files below
  the root whose contents are what the command read.\<close>

definition unchanged ::
  "repository \<Rightarrow> surroundings \<Rightarrow> ('x, 'm) common_options_scheme \<Rightarrow> bytes \<Rightarrow> bytes \<Rightarrow> bytes list \<Rightarrow> bool" where
  "unchanged v x options root suitePath workloads \<longleftrightarrow>
     (let readFile = injected (o_ReadFile options) (x_ReadFile x) in
      (\<exists>q. resolveVerifiedRepositoryFile v root suitePath = Inr q \<and>
         v_ReadFile v 1 q = readFile 0 (o_SuitePath options)) \<and>
      (\<forall>k<length workloads. \<exists>c q. resolveRepositoryPath (x_Wd x) root (workloads ! k) = Inr c \<and>
         resolveVerifiedRepositoryFile v root (workloads ! k) = Inr q \<and>
         v_ReadFile v (k + 2) q = readFile (Suc k) c))"

lemma reread_workload:
  assumes "read_workload x readFile root k scenario = Inr (workloadBytes, projection)"
    and "resolveRepositoryPath (x_Wd x) root (sc_Workload scenario) = Inr c"
    and "resolveVerifiedRepositoryFile v root (sc_Workload scenario) = Inr q"
    and "v_ReadFile v (k + 2) q = readFile (Suc k) c"
  shows "readVerifiedWorkload v root k (sc_Workload scenario) = Inr (workloadBytes, projection)"
  using assms by (auto simp: read_workload_def readVerifiedWorkload_def result_simps)

lemma reread_suite:
  assumes "Decode suiteBytes dec_Suite zero_Suite True = Inr suite" "suite_ok suite"
    and "resolveVerifiedRepositoryFile v root (si_Path identity) = Inr q" "v_ReadFile v 1 q = Inr suiteBytes"
    and "si_SHA256 identity = hashBytes sha suiteBytes" "si_SchemaVersion identity = SuiteSchema"
    and "si_Name identity = bs_Name suite"
  shows "readVerifiedSuite sha v root identity = Inr suite"
  using assms by (auto simp: readVerifiedSuite_def result_simps Suite_Validate_iff suite_ok_def)

text \<open>So the verification reads what the command read.\<close>

lemma unchanged_suite:
  assumes "unchanged v x options root (si_Path identity) workloads"
    and "injected (o_ReadFile options) (x_ReadFile x) 0 (o_SuitePath options) = Inr suiteBytes"
    and "Decode suiteBytes dec_Suite zero_Suite True = Inr suite" "suite_ok suite"
    and "si_SHA256 identity = hashBytes sha suiteBytes" "si_SchemaVersion identity = SuiteSchema"
    and "si_Name identity = bs_Name suite"
  shows "readVerifiedSuite sha v root identity = Inr suite"
proof -
  from assms(1) obtain q where "resolveVerifiedRepositoryFile v root (si_Path identity) = Inr q"
    "v_ReadFile v 1 q = Inr suiteBytes"
    unfolding unchanged_def Let_def assms(2) by blast
  from reread_suite [OF assms(3,4) this assms(5-7)] show ?thesis .
qed

lemma unchanged_workload:
  assumes "unchanged v x options root suitePath workloads" "k < length workloads" "workloads ! k = sc_Workload scenario"
    and "read_workload x (injected (o_ReadFile options) (x_ReadFile x)) root k scenario = Inr (workloadBytes, projection)"
  shows "readVerifiedWorkload v root k (sc_Workload scenario) = Inr (workloadBytes, projection)"
proof -
  from assms(1-3) obtain c q where "resolveRepositoryPath (x_Wd x) root (sc_Workload scenario) = Inr c"
    "resolveVerifiedRepositoryFile v root (sc_Workload scenario) = Inr q"
    "v_ReadFile v (k + 2) q = injected (o_ReadFile options) (x_ReadFile x) (Suc k) c"
    unfolding unchanged_def Let_def by fastforce
  from reread_workload [OF assms(4) this] show ?thesis .
qed

text \<open>The common part of the evidence of a command passes the common check.\<close>

lemma gathered_common:
  assumes "gather sha x options schema run = Some (Inr evidence)" "validateOptions options = Inr ()"
    and "\<And>data. length (sha data) = 32" "host_identified (x_Host x)"
    and "0 < ev_StartedAt evidence" "validRepositoryJSONPath (si_Path (ev_Suite evidence))"
    and "trim_space (ar_Path (ev_EngineArtifact evidence)) \<noteq> []"
  shows "common_ok evidence"
proof -
  have check: "rp_SchemaVersion (Check h probe source) = ''paraflow.environment/v3''"
      "rp_Source (Check h probe source) = source" "rp_Milestone (Check h probe source) = ''day-07''"
      "rp_CapturedAt (Check h probe source) = h_Now h" "rp_OS (Check h probe source) = h_GOOS h"
      "rp_Architecture (Check h probe source) = h_GOARCH h" "rp_GoVersion (Check h probe source) = h_GoVersion h"
      "rp_LogicalCPUs (Check h probe source) = int (h_NumCPU h)"
      "rp_GoMaxProcs (Check h probe source) = int (h_GoMaxProcs h)" "rp_Tools (Check h probe source) \<noteq> []"
    for h probe source
    by (simp_all add: Check_def check_tools_exact reportSchema_def currentMilestone_def tools_def)
  have build: "trim_space (Version (o_Build options)) \<noteq> []" "trim_space (FullCommit (o_Build options)) \<noteq> []"
      "validSourceState (SourceState (o_Build options))"
    using assms(2) by (auto simp: validateOptions_def split: option.splits if_splits)
  from assms(1) show ?thesis
    by (rule gather_ok)
      (use assms(3-7) build in \<open>auto simp: common_ok_def Let_def check host_identified_def hashFile_def result_simps
         intro: hashBytes_valid\<close>)
qed

lemma concat_ids:
  "concat (map (\<lambda>e. [er_ExperimentID (ex_EngineResult e)]) es) = map (er_ExperimentID \<circ> ex_EngineResult) es"
  by (induction es) auto

section \<open>A sample verification\<close>

definition sample_repository :: repository where
  "sample_repository = \<lparr>v_Wd = Inr ''/'', v_EvalSymlinks = Inr, v_ReadFile = (\<lambda>n. sample_files (n - 1)),
     v_EngineFile = (\<lambda>_. Inr ''ELF'')\<rparr>"

lemma sample_resolve:
  "resolveVerifiedRepositoryFile sample_repository ''/repo'' ''s.json'' = Inr ''/repo/s.json''"
  "resolveVerifiedRepositoryFile sample_repository ''/repo'' ''w/a.json'' = Inr ''/repo/w/a.json''"
  "resolveRepositoryPath (Inr ''/'') ''/repo'' ''w/a.json'' = Inr ''/repo/w/a.json''"
proof -
  have r: "resolveRepositoryPath (Inr ''/'') ''/repo'' ''s.json'' = Inr ''/repo/s.json''"
    "resolveRepositoryPath (Inr ''/'') ''/repo'' ''w/a.json'' = Inr ''/repo/w/a.json''"
    using resolve_proper [of "[''repo'']" "[''s.json'']" "Inr ''/''"] resolve_proper [of "[''repo'']" "[''w'', ''a.json'']" "Inr ''/''"]
    by (simp_all add: rooted_def slash_def)
  have "filepath_Rel ''/repo'' ''/repo/s.json'' = Some ''s.json''" "filepath_Rel ''/repo'' ''/repo/w/a.json'' = Some ''w/a.json''"
    using Rel_below [of "[''repo'']" "[''s.json'']"] Rel_below [of "[''repo'']" "[''w'', ''a.json'']"]
    by (simp_all add: rooted_def slash_def)
  with r show "resolveVerifiedRepositoryFile sample_repository ''/repo'' ''s.json'' = Inr ''/repo/s.json''"
    "resolveVerifiedRepositoryFile sample_repository ''/repo'' ''w/a.json'' = Inr ''/repo/w/a.json''"
    "resolveRepositoryPath (Inr ''/'') ''/repo'' ''w/a.json'' = Inr ''/repo/w/a.json''"
    by (simp_all add: resolveVerifiedRepositoryFile_def sample_repository_def climbs_def slash_def)
qed

lemma sample_suite_path: "validRepositoryJSONPath ''s.json''"
  unfolding validRepositoryJSONPath_iff
  by (rule exI [of _ "[''s.json'']"]) (simp add: repository_path_def slash_def path_Ext_def rune_count_def byte_def)

section \<open>Properties\<close>

text \<open>
  Claim C23. A capture is accepted exactly when its schema and common identities are in order, the suite it names is
  found below the root with the recorded digest, valid and with the recorded fields, and there is
  one experiment per scenario, in order, that records the workload found now under the scenario's
  path, holds a result that answers the scenario for that workload with valid timings and a
  consistent result, an orchestration time that covers it and exactly the summary of its retained
  samples, from an engine with the controller's commit, source state and version; all identifiers
  are different and all engine builds equal. The receipt counts what was checked, and verification
  never panics.
\<close>

theorem verifyCapture_exact:
  "verifyCapture sha v root capture \<noteq> None \<and>
   (verifyCapture sha v root capture = Some (Inr receipt) \<longleftrightarrow>
     ev_SchemaVersion capture = CaptureSchema \<and> common_ok capture \<and>
     (\<exists>suite. readVerifiedSuite sha v root (ev_Suite capture) = Inr suite \<and>
        list_all2 (\<lambda>(k, scenario) e.
            (\<exists>workloadBytes projection.
               readVerifiedWorkload v root k (sc_Workload scenario) = Inr (workloadBytes, projection) \<and>
               experiment_ok sha scenario workloadBytes projection e) \<and>
            engine_matches (er_EngineBuild (ex_EngineResult e)) (ev_Controller capture))
          (enumerate 0 (bs_Scenarios suite)) (ev_Experiments capture) \<and>
        distinct (map (er_ExperimentID \<circ> ex_EngineResult) (ev_Experiments capture)) \<and>
        (\<exists>build. list_all (\<lambda>e. er_EngineBuild (ex_EngineResult e) = build) (ev_Experiments capture)) \<and>
        receipt = receipt_for suite (length (ev_Experiments capture))
          (\<Sum>e\<leftarrow>ev_Experiments capture. length (er_Samples (ex_EngineResult e)))))"
proof -
  show ?thesis
    unfolding verifyCapture_def capture_check.evidence_iff concat_ids capture_accept_def
    using capture_check.evidence_returns [of sha v root CaptureSchema sha v root "ev_Controller capture" capture]
    by (auto simp: list_all2_conv_all_nth nth_enumerate_eq list_all_iff)
qed

text \<open>
  What a capture run produced is accepted by the verification of the same repository: if the files
  have not changed, the suite is a \<open>.json\<close> file of the repository, host and engine path are
  identified, and every experiment came from one engine build with the controller's version, then
  the verification returns the receipt for all experiments of the suite and all their samples. (The
  last conditions are not checked when the capture is taken.)
\<close>

lemma Execute_verifies:
  assumes "Execute sha marshal x options d = Some (Inr capture, d')" and "o_Runner options = None"
    and "filepath_Abs (x_Wd x) (o_RepositoryRoot options) = Inr root"
    and "unchanged v x options root (si_Path (ev_Suite capture)) (map (wi_Path \<circ> ex_Workload) (ev_Experiments capture))"
    and "validRepositoryJSONPath (si_Path (ev_Suite capture))" and "host_identified (x_Host x)"
    and "trim_space (ar_Path (ev_EngineArtifact capture)) \<noteq> []" and "0 < ev_StartedAt capture"
    and "\<And>data. length (sha data) = 32"
    and "list_all (\<lambda>e. er_EngineBuild (ex_EngineResult e) = build) (ev_Experiments capture)"
    and "eb_Version build = Version (o_Build options)"
  shows "\<exists>suite. suite_ok suite \<and> length (ev_Experiments capture) = length (bs_Scenarios suite) \<and>
    verifyCapture sha v root capture = Some (Inr (receipt_for suite (length (ev_Experiments capture))
      (\<Sum>e\<leftarrow>ev_Experiments capture. length (er_Samples (ex_EngineResult e)))))"
proof -
  let ?run = "run_scenario sha x (injected (o_ReadFile options) (x_ReadFile x)) (default_runner x) options"
  from assms(1,2) have valid: "validateOptions options = Inr ()"
    and g: "gather sha x options CaptureSchema ?run = Some (Inr capture)"
    using execute_suite_ok [of sha marshal x options CaptureSchema ?run d capture d']
    by (simp_all add: Execute_def injected_def [of None])
  have common: "common_ok capture" by (rule gathered_common [OF g valid assms(9,6,8,5,7)])
  have schema: "ev_SchemaVersion capture = CaptureSchema" "ev_Controller capture = o_Build options"
    by (rule gather_ok [OF g]; simp)+
  show ?thesis
  proof (rule benchmark_engine.gathered [OF g])
    fix suiteBytes suite root'
    assume s: "injected (o_ReadFile options) (x_ReadFile x) 0 (o_SuitePath options) = Inr suiteBytes"
        "Decode suiteBytes dec_Suite zero_Suite True = Inr suite" "suite_ok suite"
      and root': "filepath_Abs (x_Wd x) (o_RepositoryRoot options) = Inr root'"
      and id: "ev_Suite capture = \<lparr>si_Path = identityPath (x_Wd x) root' (o_SuitePath options),
         si_SHA256 = hashBytes sha suiteBytes, si_SchemaVersion = SuiteSchema, si_Name = bs_Name suite\<rparr>"
      and len: "length (ev_Experiments capture) = length (bs_Scenarios suite)"
      and rec: "\<forall>k<length (bs_Scenarios suite). \<not> x_Cancelled x (Suc k) \<and> (\<exists>workloadBytes projection.
          read_workload x (injected (o_ReadFile options) (x_ReadFile x)) root' k (bs_Scenarios suite ! k) =
            Inr (workloadBytes, projection) \<and>
          experiment_ok sha (bs_Scenarios suite ! k) workloadBytes projection (ev_Experiments capture ! k))"
      and distinct: "distinct (map (er_ExperimentID \<circ> ex_EngineResult) (ev_Experiments capture))"
      and aligned: "list_all (\<lambda>e. eb_SourceCommit (er_EngineBuild (ex_EngineResult e)) = FullCommit (o_Build options) \<and>
          eb_SourceState (er_EngineBuild (ex_EngineResult e)) = SourceState (o_Build options)) (ev_Experiments capture)"
    have r: "root' = root" using root' assms(3) by simp
    have suite: "readVerifiedSuite sha v root (ev_Suite capture) = Inr suite"
      by (rule unchanged_suite [OF assms(4) s]) (simp_all add: id)
    have "capture_accept sha v root (ev_Controller capture) k (bs_Scenarios suite ! k) (ev_Experiments capture ! k)"
      if k: "k < length (bs_Scenarios suite)" for k
    proof -
      let ?scenario = "bs_Scenarios suite ! k" and ?e = "ev_Experiments capture ! k"
      from rec k r obtain workloadBytes projection where
        w: "read_workload x (injected (o_ReadFile options) (x_ReadFile x)) root k ?scenario = Inr (workloadBytes, projection)"
        and ok: "experiment_ok sha ?scenario workloadBytes projection ?e" by blast
      then have path: "wi_Path (ex_Workload ?e) = sc_Workload ?scenario"
        by (simp add: experiment_ok_def workload_identity_def)
      have "readVerifiedWorkload v root k (sc_Workload ?scenario) = Inr (workloadBytes, projection)"
        by (rule unchanged_workload [OF assms(4) _ _ w]) (use k len path in auto)
      moreover have "engine_matches (er_EngineBuild (ex_EngineResult ?e)) (ev_Controller capture)"
        using aligned assms(10,11) k len nth_mem [of k "ev_Experiments capture"]
        by (auto simp: engine_matches_def schema list_all_iff)
      ultimately show ?thesis using ok unfolding capture_accept_def by blast
    qed
    then have "verifyCapture sha v root capture = Some (Inr (receipt_for suite (length (ev_Experiments capture))
        (\<Sum>e\<leftarrow>ev_Experiments capture. length (er_Samples (ex_EngineResult e)))))"
      unfolding verifyCapture_def capture_check.evidence_iff concat_ids
      using schema common suite len distinct assms(10) by (auto simp: list_all_iff)
    with s(3) len show ?thesis by blast
  qed
qed

end
