(* ===== verification/ProfileExecute.thy ===== *)
theory ProfileExecute
  imports Execute
begin

text \<open>
  \<open>internal/benchmark/profile_execute.go\<close>: per scenario a fused baseline run and a stage-profile run, the
  summaries of both and their analysis, around the common part of \<open>Execute\<close>.
\<close>

section \<open>Data\<close>

definition ScalarProfileReportSchema :: bytes where
  "ScalarProfileReportSchema = ''paraflow.scalar-profile-report/v1''"

record ProfileWorkloadIdentity = WorkloadIdentity +
  wi_Distribution :: bytes

record BaselineEvidence =
  be_OrchestrationTotalNS :: u64
  be_EngineResult :: EngineResult
  be_Summary :: Summary

record StageProfileEvidence =
  pe_OrchestrationTotalNS :: u64
  pe_EngineResult :: ProfileEngineResult
  pe_Summary :: ProfileSummary

record ProfileExperiment =
  px_ScenarioName :: bytes
  px_Workload :: ProfileWorkloadIdentity
  px_Baseline :: BaselineEvidence
  px_StageProfile :: StageProfileEvidence
  px_Analysis :: ScenarioProfileAnalysis

type_synonym ScalarProfileReport = "ProfileExperiment evidence"

record ProfileOptions = "ProfileExperiment common_options" +
  o_BaselineRunner :: "EngineResult runner option"
  o_ProfileRunner :: "ProfileEngineResult runner option"

definition profile_workload_identity ::
  "(bytes \<Rightarrow> bytes) \<Rightarrow> bytes \<Rightarrow> bytes \<Rightarrow> WorkloadProjection \<Rightarrow> ProfileWorkloadIdentity" where
  "profile_workload_identity sha path workloadBytes projection =
     \<lparr>wi_Path = path, wi_SHA256 = hashBytes sha workloadBytes, wi_SchemaVersion = wp_SchemaVersion projection,
      wi_Name = wp_Name projection, wi_RecordCount = wp_RecordCount projection,
      wi_CategoryCount = wp_CategoryCount projection, wi_Distribution = wp_Distribution projection\<rparr>"

section \<open>One scenario of a report\<close>

definition run_profile_scenario ::
  "(bytes \<Rightarrow> bytes) \<Rightarrow> surroundings \<Rightarrow> (nat \<Rightarrow> bytes \<Rightarrow> bytes + bytes) \<Rightarrow> EngineResult runner \<Rightarrow>
     ProfileEngineResult runner \<Rightarrow> ('x, 'm) common_options_scheme \<Rightarrow> bytes \<Rightarrow> nat \<Rightarrow> Scenario \<Rightarrow>
     (scenario_error + ProfileExperiment) option" where
  "run_profile_scenario sha x readFile baselineRunner profileRunner options root index scenario =
     tryP id (Some (read_workload x readFile root index scenario)) (\<lambda>(workloadBytes, projection).
     if wp_Distribution projection \<noteq> ''uniform'' \<and> wp_Distribution projection \<noteq> ''hotspot''
     then Some (Inl (UnsupportedDistribution (wp_Distribution projection)))
     else
       tryP BaselineFailed (Some (baselineRunner index (o_EnginePath options)
           (request_for RequestSchema (numbered ''day06:baseline:'' index) scenario workloadBytes) projection))
         (\<lambda>(baselineResult, baselineOrchestration).
       tryP BaselineMisaligned (Some (validateSourceAlignment (er_EngineBuild baselineResult) (o_Build options))) (\<lambda>_.
       tryP ProfileFailed (Some (profileRunner index (o_EnginePath options)
           (request_for ProfileRequestSchema (numbered ''day06:profile:'' index) scenario workloadBytes) projection))
         (\<lambda>(profileResult, profileOrchestration).
       tryP ProfileMisaligned (Some (validateSourceAlignment (er_EngineBuild profileResult) (o_Build options))) (\<lambda>_.
       if er_EngineBuild profileResult \<noteq> er_EngineBuild baselineResult then Some (Inl BuildsDiffer)
       else
         tryP (\<lambda>_. SummarizeFailed) (Summarize (er_Samples baselineResult)) (\<lambda>baselineSummary.
         tryP SummarizeStages (SummarizeProfile (er_Samples profileResult)) (\<lambda>profileSummary.
         tryP AnalyzeFailed
             (AnalyzeScenario projection baselineResult baselineSummary profileResult profileSummary) (\<lambda>analysis.
           Some (Inr \<lparr>px_ScenarioName = sc_Name scenario,
             px_Workload = profile_workload_identity sha (sc_Workload scenario) workloadBytes projection,
             px_Baseline = \<lparr>be_OrchestrationTotalNS = baselineOrchestration, be_EngineResult = baselineResult,
               be_Summary = baselineSummary\<rparr>,
             px_StageProfile = \<lparr>pe_OrchestrationTotalNS = profileOrchestration, pe_EngineResult = profileResult,
               pe_Summary = profileSummary\<rparr>,
             px_Analysis = analysis\<rparr>)))))))))"

text \<open>The processes of scenario \<open>k\<close> are number \<open>2 k\<close> and \<open>2 k + 1\<close>.\<close>

definition default_baseline :: "surroundings \<Rightarrow> EngineResult runner" where
  "default_baseline x n = RunEngine (x_Stop x (2 * n)) (x_Engine x (2 * n)) (x_Elapsed x (2 * n))"

definition default_profile :: "surroundings \<Rightarrow> ProfileEngineResult runner" where
  "default_profile x n =
     RunProfileEngine (x_Stop x (2 * n + 1)) (x_Engine x (2 * n + 1)) (x_Elapsed x (2 * n + 1))"

definition ExecuteProfile ::
  "(bytes \<Rightarrow> bytes) \<Rightarrow> (ScalarProfileReport \<Rightarrow> bytes + bytes) \<Rightarrow> surroundings \<Rightarrow> ProfileOptions \<Rightarrow> disk \<Rightarrow>
     ((execute_error + ScalarProfileReport) \<times> disk) option" where
  "ExecuteProfile sha marshal x options d =
     execute_suite sha marshal x options ScalarProfileReportSchema
       (run_profile_scenario sha x (injected (o_ReadFile options) (x_ReadFile x))
          (injected (o_BaselineRunner options) (default_baseline x))
          (injected (o_ProfileRunner options) (default_profile x)) options) d"

section \<open>What a scenario records\<close>

abbreviation profile_total :: "ProfileEngineResult \<Rightarrow> u64" where
  "profile_total result \<equiv> ti_ExperimentTotalNS (er_Timing result)"

interpretation baseline_engine: engine_runner "default_baseline x" validateEngineResult benchmark_total for x
  by unfold_locales (auto simp: default_baseline_def RunEngine_Inr_iff)

interpretation profile_engine: engine_runner "default_profile x" validateProfileEngineResult profile_total for x
  by unfold_locales (auto simp: default_profile_def RunProfileEngine_Inr_iff)

definition profile_experiment_ok ::
  "(bytes \<Rightarrow> bytes) \<Rightarrow> Scenario \<Rightarrow> bytes \<Rightarrow> WorkloadProjection \<Rightarrow> ProfileExperiment \<Rightarrow> bool" where
  "profile_experiment_ok sha scenario workloadBytes projection e \<longleftrightarrow>
     (let b = be_EngineResult (px_Baseline e); p = pe_EngineResult (px_StageProfile e) in
      px_ScenarioName e = sc_Name scenario \<and>
      px_Workload e = profile_workload_identity sha (sc_Workload scenario) workloadBytes projection \<and>
      validateEngineResult b (request_for RequestSchema (er_ExperimentID b) scenario workloadBytes) projection = Inr () \<and>
      validateProfileEngineResult p
        (request_for ProfileRequestSchema (er_ExperimentID p) scenario workloadBytes) projection = Inr () \<and>
      er_EngineBuild b = er_EngineBuild p \<and>
      benchmark_total b \<le> be_OrchestrationTotalNS (px_Baseline e) \<and>
      profile_total p \<le> pe_OrchestrationTotalNS (px_StageProfile e) \<and>
      Summarize (er_Samples b) = Some (Inr (be_Summary (px_Baseline e))) \<and>
      SummarizeProfile (er_Samples p) = Some (Inr (pe_Summary (px_StageProfile e))) \<and>
      AnalyzeScenario projection b (be_Summary (px_Baseline e)) p (pe_Summary (px_StageProfile e)) =
        Some (Inr (px_Analysis e)))"

text \<open>The two identifiers of an experiment.\<close>

definition profile_ids :: "ProfileExperiment \<Rightarrow> bytes list" where
  "profile_ids e = [er_ExperimentID (be_EngineResult (px_Baseline e)), er_ExperimentID (pe_EngineResult (px_StageProfile e))]"

lemma validated_profile_id:
  "validateProfileEngineResult result request w = Inr () \<Longrightarrow> er_ExperimentID result = rq_ExperimentID request"
  by (simp add: validateProfileEngineResult_iff answers_request_def)

locale profile_runners =
  baseline: engine_runner baseline validateEngineResult benchmark_total +
  staged: engine_runner staged validateProfileEngineResult profile_total
  for baseline :: "EngineResult runner" and staged :: "ProfileEngineResult runner"
begin

lemma run_profile_scenario_ok:
  assumes "run_profile_scenario sha x readFile baseline staged options root index scenario = Some (Inr e)"
  obtains workloadBytes projection where
    "read_workload x readFile root index scenario = Inr (workloadBytes, projection)"
    "wp_Distribution projection \<in> {''uniform'', ''hotspot''}"
    "profile_experiment_ok sha scenario workloadBytes projection e"
    "profile_ids e = [numbered ''day06:baseline:'' index, numbered ''day06:profile:'' index]"
    "validateSourceAlignment (er_EngineBuild (be_EngineResult (px_Baseline e))) (o_Build options) = Inr ()"
proof -
  have guard: "(if c then Some (Inl x) else m) = Some (Inr y) \<longleftrightarrow> \<not> c \<and> m = Some (Inr y)"
    for c and x :: scenario_error and m and y :: ProfileExperiment by simp
  from assms obtain b p br bt pr pt bs ps a where
    r: "read_workload x readFile root index scenario = Inr (b, p)"
    and dist: "wp_Distribution p \<in> {''uniform'', ''hotspot''}"
    and brun: "baseline index (o_EnginePath options)
        (request_for RequestSchema (numbered ''day06:baseline:'' index) scenario b) p = Inr (br, bt)"
    and ok: "validateSourceAlignment (er_EngineBuild br) (o_Build options) = Inr ()"
      "er_EngineBuild pr = er_EngineBuild br" "Summarize (er_Samples br) = Some (Inr bs)"
      "SummarizeProfile (er_Samples pr) = Some (Inr ps)" "AnalyzeScenario p br bs pr ps = Some (Inr a)"
    and prun: "staged index (o_EnginePath options)
        (request_for ProfileRequestSchema (numbered ''day06:profile:'' index) scenario b) p = Inr (pr, pt)"
    and e: "e = \<lparr>px_ScenarioName = sc_Name scenario,
        px_Workload = profile_workload_identity sha (sc_Workload scenario) b p,
        px_Baseline = \<lparr>be_OrchestrationTotalNS = bt, be_EngineResult = br, be_Summary = bs\<rparr>,
        px_StageProfile = \<lparr>pe_OrchestrationTotalNS = pt, pe_EngineResult = pr, pe_Summary = ps\<rparr>,
        px_Analysis = a\<rparr>"
    by (auto simp: run_profile_scenario_def result_simps guard)
  note valid = baseline.validated [OF brun] staged.validated [OF prun]
  have ids: "er_ExperimentID br = numbered ''day06:baseline:'' index" "er_ExperimentID pr = numbered ''day06:profile:'' index"
    using validated_id [OF valid(1)] validated_profile_id [OF valid(2)] by (simp_all add: request_for_def)
  show thesis
    by (rule that [OF r dist])
      (use e ok ids valid baseline.within [OF brun] staged.within [OF prun] in
        \<open>simp_all add: profile_experiment_ok_def profile_ids_def\<close>)
qed

end

interpretation profile_engines: profile_runners "default_baseline x" "default_profile x" for x
  by unfold_locales

lemma run_profile_scenario_not_None:
  "run_profile_scenario sha x readFile baseline staged options root index scenario \<noteq> None"
proof -
  have "SummarizeProfile samples \<noteq> None" for samples using SummarizeProfile_total [of samples] by auto
  then show ?thesis
    by (auto simp: run_profile_scenario_def tryP_None_iff Summarize_not_None AnalyzeScenario_not_None
        simp del: not_None_eq)
qed

section \<open>A whole report\<close>

lemma labels_differ: "numbered ''day06:baseline:'' i \<noteq> numbered ''day06:profile:'' j"
proof
  assume "numbered ''day06:baseline:'' i = numbered ''day06:profile:'' j"
  then have "length (numbered ''day06:baseline:'' i) = length (numbered ''day06:profile:'' j)" by (rule arg_cong)
  then show False by (simp add: numbered_def)
qed

lemma profile_ids_distinct:
  assumes "length es \<le> 64"
    and "\<And>k. k < length es \<Longrightarrow> profile_ids (es ! k) = [numbered ''day06:baseline:'' k, numbered ''day06:profile:'' k]"
  shows "distinct (concat (map profile_ids es))"
proof -
  have same: "i = j" if "numbered label i = numbered label j" "i \<le> 64" "j \<le> 64" for i j label
    using that by (intro numbered_inject [of i j label]) auto
  have "distinct (concat (map (\<lambda>k. [numbered ''day06:baseline:'' k, numbered ''day06:profile:'' k]) [0..<n]))" if "n \<le> 64" for n
    using that
  proof (induction n)
    case (Suc n)
    have other: "numbered label k \<noteq> numbered label n" "numbered label n \<noteq> numbered label k" if "k < n" for k label
      using same [of label k n] same [of label n k] that Suc.prems by auto
    have "distinct (concat (map (\<lambda>k. [numbered ''day06:baseline:'' k, numbered ''day06:profile:'' k]) [0..<n]))"
      using Suc by simp
    then show ?case using other labels_differ labels_differ [symmetric] by auto
  qed simp
  moreover have "map profile_ids es = map (\<lambda>k. [numbered ''day06:baseline:'' k, numbered ''day06:profile:'' k]) [0..<length es]"
    using assms(2) by (intro nth_equalityI) auto
  ultimately show ?thesis using assms(1) by simp
qed

context profile_runners
begin

lemma gathered:
  assumes "gather sha x options schema (run_profile_scenario sha x readFile baseline staged options) = Some (Inr report)"
  obtains suiteBytes suite root where
    "injected (o_ReadFile options) (x_ReadFile x) 0 (o_SuitePath options) = Inr suiteBytes"
    "Decode suiteBytes dec_Suite zero_Suite True = Inr suite" "suite_ok suite"
    "filepath_Abs (x_Wd x) (o_RepositoryRoot options) = Inr root"
    "ev_Suite report = \<lparr>si_Path = identityPath (x_Wd x) root (o_SuitePath options),
       si_SHA256 = hashBytes sha suiteBytes, si_SchemaVersion = SuiteSchema, si_Name = bs_Name suite\<rparr>"
    "length (ev_Experiments report) = length (bs_Scenarios suite)"
    "\<forall>k<length (bs_Scenarios suite). \<not> x_Cancelled x (Suc k) \<and>
       (\<exists>workloadBytes projection.
          read_workload x readFile root k (bs_Scenarios suite ! k) = Inr (workloadBytes, projection) \<and>
          wp_Distribution projection \<in> {''uniform'', ''hotspot''} \<and>
          profile_experiment_ok sha (bs_Scenarios suite ! k) workloadBytes projection (ev_Experiments report ! k))"
    "distinct (concat (map profile_ids (ev_Experiments report)))"
    "list_all (\<lambda>e. let build = er_EngineBuild (be_EngineResult (px_Baseline e)) in
       eb_SourceCommit build = FullCommit (o_Build options) \<and> eb_SourceState build = SourceState (o_Build options))
       (ev_Experiments report)"
proof (rule gather_scenarios [OF assms])
  fix suiteBytes root and suite :: Suite
  let ?ss = "bs_Scenarios suite" and ?es = "ev_Experiments report"
  assume run: "\<And>k. k < length ?ss \<Longrightarrow> \<not> x_Cancelled x (Suc k) \<and>
       run_profile_scenario sha x readFile baseline staged options root k (?ss ! k) = Some (Inr (?es ! k))"
    and len: "length ?es = length ?ss" "length ?ss \<le> 64"
    and rest: "injected (o_ReadFile options) (x_ReadFile x) 0 (o_SuitePath options) = Inr suiteBytes"
      "Decode suiteBytes dec_Suite zero_Suite True = Inr suite" "suite_ok suite"
      "filepath_Abs (x_Wd x) (o_RepositoryRoot options) = Inr root"
      "ev_Suite report = \<lparr>si_Path = identityPath (x_Wd x) root (o_SuitePath options),
       si_SHA256 = hashBytes sha suiteBytes, si_SchemaVersion = SuiteSchema, si_Name = bs_Name suite\<rparr>"
  have rec: "(\<exists>b p. read_workload x readFile root k (?ss ! k) = Inr (b, p) \<and>
        wp_Distribution p \<in> {''uniform'', ''hotspot''} \<and> profile_experiment_ok sha (?ss ! k) b p (?es ! k)) \<and>
      profile_ids (?es ! k) = [numbered ''day06:baseline:'' k, numbered ''day06:profile:'' k] \<and>
      validateSourceAlignment (er_EngineBuild (be_EngineResult (px_Baseline (?es ! k)))) (o_Build options) = Inr ()"
    if "k < length ?ss" for k
    using run [OF that] by (auto elim!: run_profile_scenario_ok)
  have "distinct (concat (map profile_ids ?es))"
    using rec len by (intro profile_ids_distinct) auto
  moreover have "list_all (\<lambda>e. let build = er_EngineBuild (be_EngineResult (px_Baseline e)) in
       eb_SourceCommit build = FullCommit (o_Build options) \<and> eb_SourceState build = SourceState (o_Build options)) ?es"
    unfolding list_all_length Let_def using rec len aligned_iff by auto
  ultimately show thesis
    using rest len(1) rec run by (intro that [of suiteBytes suite root]) auto
qed

end

section \<open>A sample report\<close>

definition sample_profile_doc :: "bytes \<Rightarrow> doc" where
  "sample_profile_doc xid = response_doc ''paraflow.profile-engine-result/v1'' xid
     [(''topology'', DStr ''materialized-stage-passes-v1''), (''observer'', DStr ''boundary-timers-v1'')]
     [DObj [(''ordinal'', DNum 0), (''generation_ns'', hex_doc 1), (''normalize_ns'', hex_doc 1), (''score_ns'', hex_doc 1),
        (''filter_ns'', hex_doc 1), (''aggregate_ns'', hex_doc 1), (''stage_sum_ns'', hex_doc 5),
        (''profile_total_ns'', hex_doc 6)]]"

definition sample_profile_result :: "bytes \<Rightarrow> ProfileEngineResult" where
  "sample_profile_result xid =
     \<lparr>er_SchemaVersion = ProfileEngineResultSchema, er_ExperimentID = xid, er_ScenarioName = ''s'',
      er_WorkloadName = ''w'', er_Execution = \<lparr>be_Backend = ''scalar''\<rparr>,
      er_Sampling = \<lparr>sm_WarmupIterations = 0, sm_SampleIterations = 1\<rparr>,
      er_Timing = \<lparr>ti_Clock = BenchmarkClock, ti_Unit = BenchmarkTimeUnit, ti_ProcessStartInSamples = False,
        ti_ExperimentTotalNS = 16, ti_Topology = ProfileTopology, ti_Observer = ProfileObserver\<rparr>,
      er_Correctness = \<lparr>co_Status = ''passed'', co_Oracle = BenchmarkOracle, co_Comparison = BenchmarkComparison\<rparr>,
      er_EngineBuild = \<lparr>eb_Version = ''1'', eb_Profile = ''release'', eb_Target = ''t'', eb_Rustc = ''r'',
        eb_SourceCommit = ''c'', eb_SourceState = ''clean''\<rparr>,
      er_Samples = [\<lparr>ps_Ordinal = 0, ps_GenerationNS = 1, ps_NormalizeNS = 1, ps_ScoreNS = 1, ps_FilterNS = 1,
        ps_AggregateNS = 1, ps_StageSumNS = 5, ps_ProfileTotalNS = 6\<rparr>],
      er_Result = render sample_result_doc\<rparr>"

lemma sample_profile_Decode:
  assumes "short xid"
  shows "Decode (render (sample_profile_doc xid)) dec_ProfileEngineResult zero_ProfileEngineResult True =
    Inr (sample_profile_result xid)"
proof (rule Decode_render)
  show "plain_doc (sample_profile_doc xid)" "distinct_doc (sample_profile_doc xid)"
    "depth (sample_profile_doc xid) \<le> max_nesting_depth"
    using assms
    by (simp_all add: short_def sample_profile_doc_def response_doc_def sample_result_doc_def max_nesting_depth_def
        plain_hex_doc doc_eval)
  show "dec_ProfileEngineResult True (tree (sample_profile_doc xid)) zero_ProfileEngineResult =
      Some (sample_profile_result xid)"
    using assms
    by (simp add: short_def sample_profile_doc_def response_doc_def sample_profile_result_def dec_ProfileEngineResult_def
        dec_engine_result_def zero_ProfileEngineResult_def zero_engine_result_def dec_Execution_def dec_Sampling_def
        dec_ProfileTiming_def dec_Correctness_def dec_EngineBuild_def dec_ProfileSample_def zero_ProfileSample_def
        dec_hex_doc doc_eval ProfileEngineResultSchema_def BenchmarkClock_def BenchmarkTimeUnit_def BenchmarkOracle_def
        BenchmarkComparison_def ProfileTopology_def ProfileObserver_def)
qed

lemma sample_profile_valid:
  "validateProfileEngineResult (sample_profile_result xid) (sample_request schema xid) sample_workload = Inr ()"
proof -
  have "rawPresent (render sample_result_doc)"
    by (simp add: sample_result_doc_def rawPresent_brace)
  moreover have "\<exists>r. DecodeResult (render sample_result_doc) sample_workload = Inr r"
    using sample_DecodeResult by (simp add: sample_result_render)
  ultimately show ?thesis
    by (simp add: validateProfileEngineResult_iff answers_request_def sample_profile_result_def sample_request_def
        sample_workload_def validSourceState_def trim_space_Nil_iff byte_def is_space_def profile_sample_exact_def stage_sum_def)
qed

lemma sample_RunProfileEngine:
  assumes "short xid"
  shows "RunProfileEngine False (sample_engine_host (sample_profile_doc xid)) 100 ''engine''
    (sample_request ProfileRequestSchema xid) sample_workload = Inr (sample_profile_result xid, 100)"
proof -
  have "length (render (sample_profile_doc xid)) \<le> MaxFrameBytes"
    using assms
    by (simp add: short_def sample_profile_doc_def response_doc_def sample_result_doc_def hex_doc_def decimal_0 decimal_1
        MaxFrameBytes_def)
  then have "one_response (sample_engine_host (sample_profile_doc xid)) ''engine'' ''profile''
      (sample_request ProfileRequestSchema xid) (render (sample_profile_doc xid))"
    using sample_one_response [OF assms short_schemas(2)]
    by (simp add: sample_profile_doc_def response_doc_def del: render.simps)
  then show ?thesis
    using sample_profile_Decode [OF assms] sample_profile_valid engine_not_blank unfolding RunProfileEngine_Inr_iff
    by (simp add: sample_profile_result_def durationNanoseconds_def) blast
qed

text \<open>One sample per stage: the summaries are the samples.\<close>

lemma summarize_single: "summarizeValues [x] = Some (sample_statistics x)"
  by (simp add: summarizeValues_def integerMedian_def go_index_def deviation_def sample_statistics_def)

definition sample_stages :: ProfileSummary where
  "sample_stages = \<lparr>pf_Generation = sample_statistics 1, pf_Normalize = sample_statistics 1, pf_Score = sample_statistics 1,
     pf_Filter = sample_statistics 1, pf_Aggregate = sample_statistics 1, pf_StageSum = sample_statistics 5,
     pf_PipelineStages = sample_statistics 4, pf_ProfileTotal = sample_statistics 6\<rparr>"

lemma sample_SummarizeProfile: "SummarizeProfile (er_Samples (sample_profile_result xid)) = Some (Inr sample_stages)"
proof -
  have "sumUint64 [1, 1, 1, 1] = Inr 4" by (simp add: sumUint64_eq)
  then show ?thesis
    by (simp add: SummarizeProfile_def sample_profile_result_def summarize_single sample_stages_def)
qed

definition sample_sums :: Summary where
  "sample_sums = \<lparr>su_Generation = sample_statistics 1, su_Pipeline = sample_statistics 2, su_EngineTotal = sample_statistics 3\<rparr>"

lemma sample_Summarize: "Summarize (er_Samples (sample_engine_result xid)) = Some (Inr sample_sums)"
  by (simp add: Summarize_total sample_engine_result_def summarize_single sample_sums_def)

lemma sample_AnalyzeScenario:
  "\<exists>a. AnalyzeScenario sample_workload (sample_engine_result xid) sample_sums (sample_profile_result xid') sample_stages =
     Some (Inr a)"
proof -
  let ?b = "sample_engine_result xid" and ?p = "sample_profile_result xid'"
  have r: "er_Result ?b = sample_result_text" "er_Result ?p = sample_result_text"
    by (simp_all only: sample_engine_result_def sample_profile_result_def engine_result.simps sample_result_render)
  obtain shares where sh: "apportionBasisPoints [1, 1, 1, 1, 1] = Some (Inr shares)" "length shares = 5"
    by (rule apportion_shares [of "[1, 1, 1, 1, 1]"]) simp_all
  then obtain g n s c ag where "shares = [g, n, s, c, ag]"
    by (auto simp: numeral_eq_Suc length_Suc_conv)
  with sh(1) show ?thesis
    by (simp add: AnalyzeScenario_def r sample_DecodeResult tryP_def decodedResultsEqual_iff sample_statistics_def
        sample_sums_def sample_stages_def sumUint64_eq scaledRatio_eq ratioBasisPoints_def
        sample_workload_def [THEN arg_cong [where f = wp_RecordCount]] sample_result_def [THEN arg_cong [where f = AcceptedCount]])
qed

definition baseline_id :: bytes where "baseline_id = ''day06:baseline:0000000000000001''"
definition profile_id :: bytes where "profile_id = ''day06:profile:0000000000000001''"

definition profile_surroundings :: surroundings where
  "profile_surroundings = sample_surroundings\<lparr>x_Engine := (\<lambda>n. sample_engine_host
     (if even n then sample_response_doc baseline_id else sample_profile_doc profile_id))\<rparr>"

definition profile_options :: ProfileOptions where
  "profile_options = \<lparr>o_EnginePath = ''engine'', o_SuitePath = ''/repo/s.json'', o_OutputPath = ''p'',
     o_RepositoryRoot = ''/repo'', o_Build = sample_build ''1'', o_Probe = Some sample_probe, o_ReadFile = None,
     o_Now = None, o_Persist = None, o_BaselineRunner = None, o_ProfileRunner = None\<rparr>"

definition sample_paired :: "ScenarioProfileAnalysis \<Rightarrow> ProfileExperiment" where
  "sample_paired a = \<lparr>px_ScenarioName = ''s'',
     px_Workload = profile_workload_identity sample_sha ''w/a.json'' sample_workload_text sample_workload,
     px_Baseline = \<lparr>be_OrchestrationTotalNS = 100, be_EngineResult = sample_engine_result baseline_id,
       be_Summary = sample_sums\<rparr>,
     px_StageProfile = \<lparr>pe_OrchestrationTotalNS = 100, pe_EngineResult = sample_profile_result profile_id,
       pe_Summary = sample_stages\<rparr>,
     px_Analysis = a\<rparr>"

definition sample_report :: "ScenarioProfileAnalysis \<Rightarrow> ScalarProfileReport" where
  "sample_report a = \<lparr>ev_SchemaVersion = ScalarProfileReportSchema, ev_StartedAt = 63900000000000000000,
     ev_CompletedAt = 63900000000000000001, ev_Suite = ev_Suite (sample_capture ''1''),
     ev_Controller = sample_build ''1'', ev_Environment = Check sample_host sample_probe (sample_build ''1''),
     ev_EngineArtifact = ev_EngineArtifact (sample_capture ''1''), ev_Experiments = [sample_paired a]\<rparr>"

lemma profile_fields:
  "x_Wd profile_surroundings = Inr ''/''" "x_Cancelled profile_surroundings = (\<lambda>_. False)"
  "x_ReadFile profile_surroundings = sample_files" "x_EngineFile profile_surroundings = (\<lambda>_ _. Inr ''ELF'')"
  "x_Now profile_surroundings = (\<lambda>k. 63900000000000000000 + int k)" "x_Host profile_surroundings = sample_host"
  "x_StatOutput profile_surroundings = None" "x_Elsewhere profile_surroundings = id"
  "x_Os profile_surroundings = sample_os id None"
  "o_EnginePath profile_options = ''engine''" "o_SuitePath profile_options = ''/repo/s.json''"
  "o_OutputPath profile_options = ''p''" "o_RepositoryRoot profile_options = ''/repo''"
  "o_Build profile_options = sample_build ''1''" "o_Probe profile_options = Some sample_probe"
  "o_ReadFile profile_options = None" "o_Now profile_options = None" "o_Persist profile_options = None"
  "o_BaselineRunner profile_options = None" "o_ProfileRunner profile_options = None"
  by (simp_all add: profile_surroundings_def profile_options_def sample_fields)

lemma profile_requests:
  "request_for RequestSchema (numbered ''day06:baseline:'' 0) sample_scenario sample_workload_text =
     sample_request RequestSchema baseline_id"
  "request_for ProfileRequestSchema (numbered ''day06:profile:'' 0) sample_scenario sample_workload_text =
     sample_request ProfileRequestSchema profile_id"
  by (simp_all add: request_for_def numbered_def sample_scenario_def sample_request_def format_016x_def hex_digits_numeral
      hex_digit_def baseline_id_def profile_id_def)

lemma short_ids: "short baseline_id" "short profile_id"
  by (simp_all add: short_def baseline_id_def profile_id_def plain_def quote_def backslash_def byte_def)

lemma profile_read_workload:
  "read_workload profile_surroundings sample_files ''/repo'' 0 sample_scenario = Inr (sample_workload_text, sample_workload)"
  using sample_read_workload by (simp add: read_workload_def profile_fields sample_fields)

text \<open>The analysis in the sample report.\<close>

definition sample_analysis :: "ScenarioProfileAnalysis \<Rightarrow> bool" where
  "sample_analysis a \<longleftrightarrow> AnalyzeScenario sample_workload (sample_engine_result baseline_id) sample_sums
     (sample_profile_result profile_id) sample_stages = Some (Inr a)"

lemma sample_analysed: "\<exists>a. sample_analysis a"
  using sample_AnalyzeScenario unfolding sample_analysis_def .

lemma sample_run_profile:
  assumes "sample_analysis a"
  shows "run_profile_scenario sample_sha profile_surroundings sample_files (default_baseline profile_surroundings)
     (default_profile profile_surroundings) profile_options ''/repo'' 0 sample_scenario = Some (Inr (sample_paired a))"
proof -
  have "default_baseline profile_surroundings 0 ''engine'' (sample_request RequestSchema baseline_id) sample_workload =
      Inr (sample_engine_result baseline_id, 100)"
    "default_profile profile_surroundings 0 ''engine'' (sample_request ProfileRequestSchema profile_id) sample_workload =
      Inr (sample_profile_result profile_id, 100)"
    using sample_RunEngine [OF short_ids(1)] sample_RunProfileEngine [OF short_ids(2)]
    by (simp_all add: default_baseline_def default_profile_def profile_surroundings_def sample_surroundings_def)
  moreover have "validateSourceAlignment (er_EngineBuild (sample_engine_result baseline_id)) (sample_build ''1'') = Inr ()"
    "validateSourceAlignment (er_EngineBuild (sample_profile_result profile_id)) (sample_build ''1'') = Inr ()"
    "er_EngineBuild (sample_profile_result profile_id) = er_EngineBuild (sample_engine_result baseline_id)"
    by (simp_all add: aligned_iff sample_engine_result_def sample_profile_result_def sample_build_def)
  moreover have "wp_Distribution sample_workload = ''uniform''" by (simp add: sample_workload_def)
  ultimately show ?thesis
    using assms unfolding sample_analysis_def
    by (simp add: run_profile_scenario_def profile_read_workload profile_requests tryP_def sample_Summarize
        sample_SummarizeProfile profile_fields sample_paired_def)
      (simp add: sample_scenario_def)
qed

lemma sample_profile_gather:
  assumes "sample_analysis a"
  shows "gather sample_sha profile_surroundings profile_options ScalarProfileReportSchema
     (run_profile_scenario sample_sha profile_surroundings sample_files (default_baseline profile_surroundings)
        (default_profile profile_surroundings) profile_options) = Some (Inr (sample_report a))"
proof -
  have "run_scenarios (\<lambda>_. False) (run_profile_scenario sample_sha profile_surroundings sample_files
        (default_baseline profile_surroundings) (default_profile profile_surroundings) profile_options ''/repo'') 0
        (bs_Scenarios sample_suite) [] = Some (Inr [sample_paired a])"
    using sample_run_profile [OF assms] by (simp add: sample_suite_def tryP_def)
  then show ?thesis
    using sample_ready
    by (simp add: gather_def injected_def tryP_def profile_fields sample_read_suite sample_root(1) hashFile_def sample_identity)
      (simp add: sample_report_def sample_capture_def sample_suite_def)
qed

lemma sample_ExecuteProfile:
  assumes "sample_analysis a"
  shows "\<exists>d'. ExecuteProfile sample_sha (\<lambda>_. Inr ''{}'') profile_surroundings profile_options empty_disk =
     Some (Inr (sample_report a), d')"
proof -
  have "validateOptions profile_options = Inr ()"
    by (simp add: validateOptions_def profile_fields sample_build_def validSourceState_def trim_space_Nil_iff byte_def
        is_space_def)
  moreover have "requireAbsent (sample_os id None) ''p'' empty_disk = Inr ()" by (simp add: persist_eval)
  moreover have "(sample_os id None)\<lparr>os_stat := None\<rparr> = sample_os id None" by (simp add: sample_os_def)
  ultimately show ?thesis
    using sample_profile_gather [OF assms] sample_persist
    by (auto simp: ExecuteProfile_def execute_suite_def profile_fields injected_def persist_evidence_def Let_def)
qed

section \<open>Properties\<close>

text \<open>
  A profile report is complete and records what was measured. Success means that the encoded report is
  published under the output path. Every scenario of the validated suite has one experiment, in
  order, for its workload with a known distribution: a fused and a staged result, both validated
  against that scenario and workload and from the same engine build with the controller's commit and
  source state, the exact summaries of both and the analysis computed from them; all
  identifiers of the report are different; the engine binary had the recorded digest before and after.
  The command never panics.
\<close>

lemma ExecuteProfile_records:
  assumes "o_BaselineRunner options = None" and "o_ProfileRunner options = None" and "o_Persist options = None"
    and "exclusive_temp (x_Os x) (o_OutputPath options) (x_Elsewhere x d)"
  shows "ExecuteProfile sha marshal x options d \<noteq> None \<and>
    (\<forall>report d'. ExecuteProfile sha marshal x options d = Some (Inr report, d') \<longrightarrow>
      (\<exists>encoded. marshal report = Inr encoded \<and> published (o_OutputPath options) (encoded @ [CHR 0x0A]) d') \<and>
      links d (o_OutputPath options) = None \<and>
      (\<exists>suiteBytes suite root.
         injected (o_ReadFile options) (x_ReadFile x) 0 (o_SuitePath options) = Inr suiteBytes \<and>
         Decode suiteBytes dec_Suite zero_Suite True = Inr suite \<and> suite_ok suite \<and>
         filepath_Abs (x_Wd x) (o_RepositoryRoot options) = Inr root \<and>
         length (ev_Experiments report) = length (bs_Scenarios suite) \<and>
         (\<forall>k<length (bs_Scenarios suite). \<exists>workloadBytes projection.
            read_workload x (injected (o_ReadFile options) (x_ReadFile x)) root k (bs_Scenarios suite ! k) =
              Inr (workloadBytes, projection) \<and>
            wp_Distribution projection \<in> {''uniform'', ''hotspot''} \<and>
            profile_experiment_ok sha (bs_Scenarios suite ! k) workloadBytes projection (ev_Experiments report ! k))) \<and>
      distinct (concat (map profile_ids (ev_Experiments report))) \<and>
      list_all (\<lambda>e. let build = er_EngineBuild (be_EngineResult (px_Baseline e)) in
         eb_SourceCommit build = FullCommit (o_Build options) \<and> eb_SourceState build = SourceState (o_Build options))
         (ev_Experiments report) \<and>
      (\<forall>k\<in>{0, 1}. hashFile sha (x_EngineFile x k (o_EnginePath options)) = Inr (ar_SHA256 (ev_EngineArtifact report))))"
proof (intro conjI allI impI)
  let ?run = "run_profile_scenario sha x (injected (o_ReadFile options) (x_ReadFile x))
      (default_baseline x) (default_profile x) options"
  have exec: "ExecuteProfile sha marshal x options d = execute_suite sha marshal x options ScalarProfileReportSchema ?run d"
    by (simp add: ExecuteProfile_def assms(1,2) injected_def [of None])
  have total: "?run root k s \<noteq> None" for root k s by (rule run_profile_scenario_not_None)
  show "ExecuteProfile sha marshal x options d \<noteq> None"
    unfolding exec using total assms(3,4)
    by (cases rule: execute_suite_outcome [where run = ?run and options = options and x = x and d = d and
        sha = sha and marshal = marshal and schema = ScalarProfileReportSchema]) auto
  fix report d'
  assume "ExecuteProfile sha marshal x options d = Some (Inr report, d')"
  then have g: "gather sha x options ScalarProfileReportSchema ?run = Some (Inr report)"
    and p: "persistJSONNoOverwrite (x_Os x) (o_OutputPath options) (marshal report) (x_Elsewhere x d) = (Inr (), d')"
    and absent: "links d (o_OutputPath options) = None"
    unfolding exec using execute_suite_ok [of sha marshal x options ScalarProfileReportSchema ?run d report d'] assms(3)
    by (simp_all add: injected_def [of None] persist_evidence_def)
  show "\<exists>encoded. marshal report = Inr encoded \<and> published (o_OutputPath options) (encoded @ [CHR 0x0A]) d'"
    by (rule persist_success [OF assms(4) p]) blast
  show "links d (o_OutputPath options) = None" by (fact absent)
  show "\<exists>suiteBytes suite root.
         injected (o_ReadFile options) (x_ReadFile x) 0 (o_SuitePath options) = Inr suiteBytes \<and>
         Decode suiteBytes dec_Suite zero_Suite True = Inr suite \<and> suite_ok suite \<and>
         filepath_Abs (x_Wd x) (o_RepositoryRoot options) = Inr root \<and>
         length (ev_Experiments report) = length (bs_Scenarios suite) \<and>
         (\<forall>k<length (bs_Scenarios suite). \<exists>workloadBytes projection.
            read_workload x (injected (o_ReadFile options) (x_ReadFile x)) root k (bs_Scenarios suite ! k) =
              Inr (workloadBytes, projection) \<and>
            wp_Distribution projection \<in> {''uniform'', ''hotspot''} \<and>
            profile_experiment_ok sha (bs_Scenarios suite ! k) workloadBytes projection (ev_Experiments report ! k))"
    by (rule profile_engines.gathered [OF g]) blast
  show "distinct (concat (map profile_ids (ev_Experiments report)))"
    by (rule profile_engines.gathered [OF g])
  show "list_all (\<lambda>e. let build = er_EngineBuild (be_EngineResult (px_Baseline e)) in
         eb_SourceCommit build = FullCommit (o_Build options) \<and> eb_SourceState build = SourceState (o_Build options))
         (ev_Experiments report)"
    by (rule profile_engines.gathered [OF g])
  show "\<forall>k\<in>{0, 1}. hashFile sha (x_EngineFile x k (o_EnginePath options)) = Inr (ar_SHA256 (ev_EngineArtifact report))"
    by (rule gather_ok [OF g]) auto
qed

lemma ExecuteProfile_records_witness:
  "\<exists>a d'. ExecuteProfile sample_sha (\<lambda>_. Inr ''{}'') profile_surroundings profile_options empty_disk =
      Some (Inr (sample_report a), d') \<and> published ''p'' (''{}'' @ [CHR 0x0A]) d'"
proof -
  have "exclusive_temp (x_Os profile_surroundings) (o_OutputPath profile_options) (x_Elsewhere profile_surroundings empty_disk)"
    by (simp add: exclusive_temp_def profile_fields sample_os_def empty_disk_def)
  from ExecuteProfile_records [OF _ _ _ this, of sample_sha "\<lambda>_. Inr ''{}''"] sample_analysed sample_ExecuteProfile
  show ?thesis by (fastforce simp: profile_fields)
qed

end
