(* ===== verification/ProfileVerify.thy ===== *)
theory ProfileVerify
  imports Verify ProfileExecute
begin

text \<open>
  \<open>verifyProfileReport\<close> of \<open>internal/benchmark/verify.go\<close>: the check of one paired experiment inside the
  common part of the verification, and that it accepts what \<open>ExecuteProfile\<close> produces.
\<close>

section \<open>One experiment\<close>

text \<open>The loop over the two identifiers.\<close>

fun record_ids :: "bytes list \<Rightarrow> bytes set \<Rightarrow> experiment_failure + bytes set" where
  "record_ids [] ids = Inr ids"
| "record_ids (i # is) ids = (if i \<in> ids then Inl (DuplicateID i) else record_ids is (insert i ids))"

definition verify_profile_experiment ::
  "(bytes \<Rightarrow> bytes) \<Rightarrow> repository \<Rightarrow> bytes \<Rightarrow> Info \<Rightarrow> nat \<Rightarrow> Scenario \<Rightarrow> ProfileExperiment \<Rightarrow>
     bytes set \<Rightarrow> EngineBuild option \<Rightarrow> (experiment_failure + (bytes set \<times> EngineBuild option \<times> nat)) option" where
  "verify_profile_experiment sha v root controller index scenario experiment ids build =
     (if px_ScenarioName experiment \<noteq> sc_Name scenario then Some (Inl (NameDiffers (px_ScenarioName experiment)))
      else
        tryP id (Some (readVerifiedWorkload v root index (sc_Workload scenario))) (\<lambda>(workloadBytes, projection).
        if px_Workload experiment \<noteq> profile_workload_identity sha (sc_Workload scenario) workloadBytes projection
        then Some (Inl WorkloadIdentityDiffers)
        else
          let baseline = be_EngineResult (px_Baseline experiment);
              profile = pe_EngineResult (px_StageProfile experiment) in
          tryP id (Some (record_ids [er_ExperimentID baseline, er_ExperimentID profile] ids)) (\<lambda>ids'.
          tryP ResultInvalid (Some (validateEngineResult baseline
              (request_for RequestSchema (er_ExperimentID baseline) scenario workloadBytes) projection)) (\<lambda>_.
          tryP StageResultInvalid (Some (validateProfileEngineResult profile
              (request_for ProfileRequestSchema (er_ExperimentID profile) scenario workloadBytes) projection)) (\<lambda>_.
          if er_EngineBuild baseline \<noteq> er_EngineBuild profile then Some (Inl StageBuildDiffers)
          else
            tryP id (Some (verifyEngineIdentity (er_EngineBuild baseline) controller)) (\<lambda>_.
            tryP id (Some (requireStableEngineBuild build (er_EngineBuild baseline))) (\<lambda>build'.
            if be_OrchestrationTotalNS (px_Baseline experiment) < benchmark_total baseline
            then Some (Inl OrchestrationSmaller)
            else if pe_OrchestrationTotalNS (px_StageProfile experiment) < profile_total profile
            then Some (Inl StageOrchestrationSmaller)
            else
              tryP (\<lambda>_. SummaryFails) (Summarize (er_Samples baseline)) (\<lambda>baselineSummary.
              if be_Summary (px_Baseline experiment) \<noteq> baselineSummary then Some (Inl SummaryDiffers)
              else
                tryP StageSummaryFails (SummarizeProfile (er_Samples profile)) (\<lambda>profileSummary.
                if pe_Summary (px_StageProfile experiment) \<noteq> profileSummary then Some (Inl StageSummaryDiffers)
                else
                  tryP AnalysisFails
                      (AnalyzeScenario projection baseline baselineSummary profile profileSummary) (\<lambda>analysis.
                  if px_Analysis experiment \<noteq> analysis then Some (Inl AnalysisDiffers)
                  else Some (Inr (ids', build',
                    length (er_Samples baseline) + length (er_Samples profile)))))))))))))"

definition verifyProfileReport ::
  "(bytes \<Rightarrow> bytes) \<Rightarrow> repository \<Rightarrow> bytes \<Rightarrow> ScalarProfileReport \<Rightarrow> (verify_error + EvidenceVerification) option" where
  "verifyProfileReport sha v root report =
     verify_evidence sha v root ScalarProfileReportSchema (verify_profile_experiment sha v root (ev_Controller report))
       report"

section \<open>What acceptance means\<close>

definition profile_accept ::
  "(bytes \<Rightarrow> bytes) \<Rightarrow> repository \<Rightarrow> bytes \<Rightarrow> Info \<Rightarrow> nat \<Rightarrow> Scenario \<Rightarrow> ProfileExperiment \<Rightarrow> bool" where
  "profile_accept sha v root controller index scenario e \<longleftrightarrow>
     (\<exists>workloadBytes projection.
        readVerifiedWorkload v root index (sc_Workload scenario) = Inr (workloadBytes, projection) \<and>
        profile_experiment_ok sha scenario workloadBytes projection e) \<and>
     engine_matches (er_EngineBuild (be_EngineResult (px_Baseline e))) controller"

abbreviation retained_samples :: "ProfileExperiment \<Rightarrow> nat" where
  "retained_samples e \<equiv>
     length (er_Samples (be_EngineResult (px_Baseline e))) + length (er_Samples (pe_EngineResult (px_StageProfile e)))"

lemma record_ids_iff:
  "record_ids is ids = Inr ids' \<longleftrightarrow> distinct is \<and> set is \<inter> ids = {} \<and> ids' = ids \<union> set is"
  by (induction "is" arbitrary: ids) auto

lemma verify_profile_experiment_iff:
  "verify_profile_experiment sha v root controller index scenario e ids build = Some (Inr (ids', build', n)) \<longleftrightarrow>
     profile_accept sha v root controller index scenario e \<and> distinct (profile_ids e) \<and> set (profile_ids e) \<inter> ids = {} \<and>
     (\<forall>b. build = Some b \<longrightarrow> b = er_EngineBuild (be_EngineResult (px_Baseline e))) \<and>
     ids' = ids \<union> set (profile_ids e) \<and> build' = Some (er_EngineBuild (be_EngineResult (px_Baseline e))) \<and>
     n = retained_samples e"
proof -
  have guard: "(if b then Some (Inl x) else m) = Some (Inr y) \<longleftrightarrow> \<not> b \<and> m = Some (Inr y)"
    for b and x :: experiment_failure and m and y :: "bytes set \<times> EngineBuild option \<times> nat"
    by simp
  show ?thesis
    unfolding verify_profile_experiment_def Let_def guard record_ids_iff profile_ids_def [symmetric]
    by (auto simp: result_simps guard verifyEngineIdentity_iff requireStable_iff record_ids_iff profile_accept_def
        profile_experiment_ok_def not_less Let_def)
qed

lemma verify_profile_experiment_returns:
  "verify_profile_experiment sha v root controller index scenario e ids build \<noteq> None"
proof -
  have "SummarizeProfile samples \<noteq> None" for samples using SummarizeProfile_total [of samples] by auto
  then show ?thesis
    by (auto simp: verify_profile_experiment_def Let_def tryP_None_iff Summarize_not_None AnalyzeScenario_not_None
        simp del: not_None_eq)
qed

interpretation profile_check: experiment_check "verify_profile_experiment sha v root controller"
  "profile_accept sha v root controller" profile_ids
  "\<lambda>e. er_EngineBuild (be_EngineResult (px_Baseline e))" retained_samples
  for sha v root controller
  by unfold_locales (simp_all add: verify_profile_experiment_iff verify_profile_experiment_returns del: not_None_eq)

section \<open>Properties\<close>

text \<open>
  Claim C26. A profile report is accepted exactly when its schema and common identities are in order, its suite is found
  with the recorded digest and fields, and every experiment, in the order of the suite, records the
  workload found now, holds a fused and a staged result that both answer the scenario, from one and
  the same engine build with the controller's commit, source state and version, orchestration times that
  cover them, exactly the summaries of their retained samples and exactly the analysis recomputed
  from both; all identifiers of the report are different and all builds equal. Verification never panics.
\<close>

theorem verifyProfileReport_exact:
  "verifyProfileReport sha v root report \<noteq> None \<and>
   (verifyProfileReport sha v root report = Some (Inr receipt) \<longleftrightarrow>
     ev_SchemaVersion report = ScalarProfileReportSchema \<and> common_ok report \<and>
     (\<exists>suite. readVerifiedSuite sha v root (ev_Suite report) = Inr suite \<and>
        list_all2 (\<lambda>(k, scenario) e.
            (\<exists>workloadBytes projection.
               readVerifiedWorkload v root k (sc_Workload scenario) = Inr (workloadBytes, projection) \<and>
               profile_experiment_ok sha scenario workloadBytes projection e) \<and>
            engine_matches (er_EngineBuild (be_EngineResult (px_Baseline e))) (ev_Controller report))
          (enumerate 0 (bs_Scenarios suite)) (ev_Experiments report) \<and>
        distinct (concat (map profile_ids (ev_Experiments report))) \<and>
        (\<exists>build. list_all (\<lambda>e. er_EngineBuild (be_EngineResult (px_Baseline e)) = build) (ev_Experiments report)) \<and>
        receipt = receipt_for suite (length (ev_Experiments report)) (sum_list (map retained_samples (ev_Experiments report)))))"
  unfolding verifyProfileReport_def profile_check.evidence_iff profile_accept_def
  using profile_check.evidence_returns [of sha v root ScalarProfileReportSchema sha v root "ev_Controller report" report]
  by (auto simp: list_all2_conv_all_nth nth_enumerate_eq list_all_iff)

text \<open>
  What a profile run produced is accepted by the verification of the same repository, under the same
  conditions as for a capture: unchanged files, a suite of the repository, an identified host and
  engine path, and one engine build with the controller's version.
\<close>

lemma ExecuteProfile_verifies:
  assumes "ExecuteProfile sha marshal x options d = Some (Inr report, d')"
    and "o_BaselineRunner options = None" and "o_ProfileRunner options = None"
    and "filepath_Abs (x_Wd x) (o_RepositoryRoot options) = Inr root"
    and "unchanged v x options root (si_Path (ev_Suite report)) (map (wi_Path \<circ> px_Workload) (ev_Experiments report))"
    and "validRepositoryJSONPath (si_Path (ev_Suite report))" and "host_identified (x_Host x)"
    and "trim_space (ar_Path (ev_EngineArtifact report)) \<noteq> []" and "0 < ev_StartedAt report"
    and "\<And>data. length (sha data) = 32"
    and "list_all (\<lambda>e. er_EngineBuild (be_EngineResult (px_Baseline e)) = build) (ev_Experiments report)"
    and "eb_Version build = Version (o_Build options)"
  shows "\<exists>suite. suite_ok suite \<and> length (ev_Experiments report) = length (bs_Scenarios suite) \<and>
    verifyProfileReport sha v root report = Some (Inr (receipt_for suite (length (ev_Experiments report))
      (sum_list (map retained_samples (ev_Experiments report)))))"
proof -
  let ?run = "run_profile_scenario sha x (injected (o_ReadFile options) (x_ReadFile x))
      (default_baseline x) (default_profile x) options"
  from assms(1-3) have valid: "validateOptions options = Inr ()"
    and g: "gather sha x options ScalarProfileReportSchema ?run = Some (Inr report)"
    using execute_suite_ok [of sha marshal x options ScalarProfileReportSchema ?run d report d']
    by (simp_all add: ExecuteProfile_def injected_def [of None])
  have common: "common_ok report" by (rule gathered_common [OF g valid assms(10,7,9,6,8)])
  have schema: "ev_SchemaVersion report = ScalarProfileReportSchema" "ev_Controller report = o_Build options"
    by (rule gather_ok [OF g]; simp)+
  show ?thesis
  proof (rule profile_engines.gathered [OF g])
    fix suiteBytes root' and suite :: Suite
    let ?ss = "bs_Scenarios suite" and ?es = "ev_Experiments report"
    assume s: "injected (o_ReadFile options) (x_ReadFile x) 0 (o_SuitePath options) = Inr suiteBytes"
        "Decode suiteBytes dec_Suite zero_Suite True = Inr suite" "suite_ok suite"
      and root': "filepath_Abs (x_Wd x) (o_RepositoryRoot options) = Inr root'"
      and id: "ev_Suite report = \<lparr>si_Path = identityPath (x_Wd x) root' (o_SuitePath options),
         si_SHA256 = hashBytes sha suiteBytes, si_SchemaVersion = SuiteSchema, si_Name = bs_Name suite\<rparr>"
      and len: "length ?es = length ?ss"
      and rec: "\<forall>k<length ?ss. \<not> x_Cancelled x (Suc k) \<and> (\<exists>workloadBytes projection.
          read_workload x (injected (o_ReadFile options) (x_ReadFile x)) root' k (?ss ! k) = Inr (workloadBytes, projection) \<and>
          wp_Distribution projection \<in> {''uniform'', ''hotspot''} \<and>
          profile_experiment_ok sha (?ss ! k) workloadBytes projection (?es ! k))"
      and distinct: "distinct (concat (map profile_ids ?es))"
      and aligned: "list_all (\<lambda>e. let build = er_EngineBuild (be_EngineResult (px_Baseline e)) in
          eb_SourceCommit build = FullCommit (o_Build options) \<and> eb_SourceState build = SourceState (o_Build options)) ?es"
    have r: "root' = root" using root' assms(4) by simp
    have suite: "readVerifiedSuite sha v root (ev_Suite report) = Inr suite"
      by (rule unchanged_suite [OF assms(5) s]) (simp_all add: id)
    have "profile_accept sha v root (ev_Controller report) k (?ss ! k) (?es ! k)" if k: "k < length ?ss" for k
    proof -
      from rec k r obtain workloadBytes projection where
        w: "read_workload x (injected (o_ReadFile options) (x_ReadFile x)) root k (?ss ! k) = Inr (workloadBytes, projection)"
        and ok: "profile_experiment_ok sha (?ss ! k) workloadBytes projection (?es ! k)" by blast
      then have path: "wi_Path (px_Workload (?es ! k)) = sc_Workload (?ss ! k)"
        by (simp add: profile_experiment_ok_def profile_workload_identity_def Let_def)
      have "readVerifiedWorkload v root k (sc_Workload (?ss ! k)) = Inr (workloadBytes, projection)"
        by (rule unchanged_workload [OF assms(5) _ _ w]) (use k len path in auto)
      moreover have "engine_matches (er_EngineBuild (be_EngineResult (px_Baseline (?es ! k)))) (ev_Controller report)"
        using aligned assms(11,12) k len nth_mem [of k ?es]
        by (auto simp: engine_matches_def schema list_all_iff Let_def)
      ultimately show ?thesis using ok unfolding profile_accept_def by blast
    qed
    then have "verifyProfileReport sha v root report = Some (Inr (receipt_for suite (length ?es)
        (sum_list (map retained_samples ?es))))"
      unfolding verifyProfileReport_def profile_check.evidence_iff
      using schema common suite len distinct assms(11) by (auto simp: list_all_iff)
    with s(3) len show ?thesis by blast
  qed
qed

end
