(* ===== verification/GoTime.thy ===== *)
theory GoTime
  imports Json
begin

text \<open>
  What decoding a \<open>time.Time\<close> from JSON means. \<open>UnmarshalJSON\<close> takes the bytes between the quotes,
  without resolving escapes, and parses them as \<open>time.RFC3339\<close>; its fast path accepts less than
  \<open>time.Parse\<close> and agrees with it, so \<open>Parse\<close> decides. It is lenient: an hour may have one digit, a
  comma may start the fraction, digits after the ninth are ignored, and a zone may be
  24 hours and 60 minutes away.
\<close>

section \<open>The calendar\<close>

definition leap_year :: "nat \<Rightarrow> bool" where
  "leap_year y \<longleftrightarrow> y mod 4 = 0 \<and> (y mod 100 \<noteq> 0 \<or> y mod 400 = 0)"

text \<open>The lengths of the months, from January.\<close>

definition month_lengths :: "nat \<Rightarrow> nat list" where
  "month_lengths y = [31, if leap_year y then 29 else 28, 31, 30, 31, 30, 31, 31, 30, 31, 30, 31]"

text \<open>The days from 1 January of the year 1 to 1 January of another year, which may be the year 0.\<close>

definition days_before_year :: "nat \<Rightarrow> int" where
  "days_before_year y = (let n = int y - 1 in 365 * n + n div 4 - n div 100 + n div 400)"

definition date_time :: "nat \<Rightarrow> nat \<Rightarrow> nat \<Rightarrow> nat \<Rightarrow> nat \<Rightarrow> nat \<Rightarrow> nat \<Rightarrow> time" where
  "date_time year month day hour minute second nsec =
     (let days = days_before_year year + int (sum_list (take (month - 1) (month_lengths year)) + day - 1) in
      (days * 86400 + int (hour * 3600 + minute * 60 + second)) * 1000000000 + int nsec)"

section \<open>Pieces of a layout\<close>

definition digit_of :: "char \<Rightarrow> nat" where
  "digit_of c = byte c - 48"

text \<open>\<open>getnum\<close>: two digits, or one if that is allowed and the next is not a digit.\<close>

definition getnum :: "bytes \<Rightarrow> bool \<Rightarrow> (nat \<times> bytes) option" where
  "getnum s fixed =
     (case s of
        [] \<Rightarrow> None
      | c # cs \<Rightarrow>
          if \<not> is_digit c then None
          else
            (case cs of
               d # ds \<Rightarrow>
                 if is_digit d then Some (10 * digit_of c + digit_of d, ds)
                 else if fixed then None else Some (digit_of c, cs)
             | [] \<Rightarrow> if fixed then None else Some (digit_of c, cs)))"

definition skip_char :: "char \<Rightarrow> bytes \<Rightarrow> bytes option" where
  "skip_char c s = (case s of [] \<Rightarrow> None | d # ds \<Rightarrow> if d = c then Some ds else None)"

text \<open>A number that has to be in a range, after a separator.\<close>

definition ranged :: "nat \<Rightarrow> nat \<Rightarrow> (nat \<times> bytes) option \<Rightarrow> (nat \<times> bytes) option" where
  "ranged low high r = Option.bind r (\<lambda>(n, s). if low \<le> n \<and> n \<le> high then Some (n, s) else None)"

definition four_digits :: "bytes \<Rightarrow> (nat \<times> bytes) option" where
  "four_digits s =
     (if length s < 4 then None
      else map_option (\<lambda>n. (n, drop 4 s)) (if list_all is_digit (take 4 s) then parse_digits 10 (take 4 s) 0 else None))"

text \<open>A fractional second, which the layout does not mention but \<open>Parse\<close> accepts.\<close>

definition fraction :: "bytes \<Rightarrow> nat \<times> bytes" where
  "fraction s =
     (case s of
        p # c # cs \<Rightarrow>
          if (p = CHR ''.'' \<or> p = CHR '','') \<and> is_digit c then
            (let digits = take 9 (takeWhile is_digit (c # cs)) in
             ((case parse_digits 10 digits 0 of Some n \<Rightarrow> n | None \<Rightarrow> 0) * 10 ^ (9 - length digits),
              dropWhile is_digit (c # cs)))
          else (0, s)
      | _ \<Rightarrow> (0, s))"

text \<open>The zone: \<open>Z\<close>, or a sign, hours, a colon and minutes. The answer is the offset in seconds.\<close>

definition zone :: "bytes \<Rightarrow> (int \<times> bytes) option" where
  "zone s =
     (case s of
        [] \<Rightarrow> None
      | sign # cs \<Rightarrow>
          if sign = CHR ''Z'' then Some (0, cs)
          else if length s < 6 \<or> s ! 3 \<noteq> CHR '':'' then None
          else
            Option.bind (ranged 0 24 (getnum (take 2 cs) True)) (\<lambda>(hr, _).
            Option.bind (ranged 0 60 (getnum (take 2 (drop 3 cs)) True)) (\<lambda>(mm, _).
              let offset = int ((hr * 60 + mm) * 60) in
              if sign = CHR ''+'' then Some (offset, drop 6 s)
              else if sign = CHR ''-'' then Some (- offset, drop 6 s)
              else None)))"

section \<open>Parsing\<close>

definition parse_rfc3339 :: "bytes \<Rightarrow> time option" where
  "parse_rfc3339 s =
     Option.bind (four_digits s) (\<lambda>(year, s1).
     Option.bind (Option.bind (skip_char (CHR ''-'') s1) (\<lambda>t. ranged 1 12 (getnum t True))) (\<lambda>(month, s2).
     Option.bind (Option.bind (skip_char (CHR ''-'') s2) (\<lambda>t. getnum t True)) (\<lambda>(day, s3).
     Option.bind (Option.bind (skip_char (CHR ''T'') s3) (\<lambda>t. ranged 0 23 (getnum t False))) (\<lambda>(hour, s4).
     Option.bind (Option.bind (skip_char (CHR '':'') s4) (\<lambda>t. ranged 0 59 (getnum t True))) (\<lambda>(minute, s5).
     Option.bind (Option.bind (skip_char (CHR '':'') s5) (\<lambda>t. ranged 0 59 (getnum t True))) (\<lambda>(second, s6).
     let (nsec, s7) = fraction s6 in
     Option.bind (zone s7) (\<lambda>(offset, rest).
       if rest \<noteq> [] \<or> day < 1 \<or> month_lengths year ! (month - 1) < day then None
       else Some (date_time year month day hour minute second nsec - offset * 1000000000))))))))"

definition dec_Time :: "time jdec" where
  "dec_Time j old =
     (case j of JStr raw \<Rightarrow> parse_rfc3339 raw | JNull \<Rightarrow> Some old | _ \<Rightarrow> None)"

section \<open>Facts\<close>

text \<open>The zero time is the first instant of the year 1.\<close>

lemma date_time_zero: "date_time 1 1 1 0 0 0 0 = 0"
  by (simp add: date_time_def days_before_year_def)

lemma days_next_year: "days_before_year (Suc y) = days_before_year y + int (sum_list (month_lengths y))"
proof (cases y)
  case 0
  then show ?thesis by (simp add: days_before_year_def month_lengths_def leap_year_def)
next
  case (Suc m)
  have step: "(int m + 1) div int k = int m div int k + (if y mod k = 0 then 1 else 0)" for k
    using div_Suc [of m k] zdiv_int [of "Suc m" k] zdiv_int [of m k] Suc
    by (auto simp: dvd_eq_mod_eq_0 add.commute split: if_splits)
  have steps: "(int m + 1) div 4 = int m div 4 + (if y mod 4 = 0 then 1 else 0)"
    "(int m + 1) div 100 = int m div 100 + (if y mod 100 = 0 then 1 else 0)"
    "(int m + 1) div 400 = int m div 400 + (if y mod 400 = 0 then 1 else 0)"
    using step [of 4] step [of 100] step [of 400] by (simp_all only: of_nat_numeral)
  have years: "int (Suc y) - 1 = int m + 1" "int y - 1 = int m" using Suc by simp_all
  have sum: "365 * (n + 1) + (a + i) - (b + j) + (c + k) = 365 * n + a - b + c + (365 + i - j + k)"
    for n a b c i j k :: int by simp
  have "days_before_year (Suc y) = days_before_year y + (365 + (if y mod 4 = 0 then 1 else 0) -
      (if y mod 100 = 0 then 1 else 0) + (if y mod 400 = 0 then 1 else 0))"
    by (simp only: days_before_year_def Let_def years steps sum)
  moreover have "y mod 400 = 0 \<Longrightarrow> y mod 100 = 0" "y mod 100 = 0 \<Longrightarrow> y mod 4 = 0"
    using dvd_trans [of 100 400 y] dvd_trans [of 4 100 y] by (simp_all add: dvd_eq_mod_eq_0)
  ultimately show ?thesis by (cases "y mod 4 = 0"; cases "y mod 100 = 0"; cases "y mod 400 = 0")
      (simp_all add: month_lengths_def leap_year_def)
qed

end
