(* ===== verification/EvidenceJson.thy ===== *)
theory EvidenceJson
  imports ProfileExecute GoTime
begin

text \<open>
  How stored evidence is decoded: the struct tags of \<open>types.go\<close>, \<open>profile_types.go\<close>, \<open>doctor.go\<close> and
  \<open>buildinfo.go\<close>. The verification decodes the same bytes three times, once strictly and twice
  leniently into structs with a single field; the last section shows that the lenient readings of
  strictly valid evidence never disagree with the strict one.
\<close>

section \<open>Decoders\<close>

definition dec_int :: "int jdec" where
  "dec_int j old = (case j of JNum n \<Rightarrow> atoi n | JNull \<Rightarrow> Some old | _ \<Rightarrow> None)"

definition dec_Info :: "bool \<Rightarrow> Info jdec" where
  "dec_Info strict = dec_struct strict
     [(''version'', on_field Version Version_update dec_string),
      (''full_commit'', on_field FullCommit FullCommit_update dec_string),
      (''source_state'', on_field SourceState SourceState_update dec_string)]"

text \<open>A stored problem is the text it was rendered to.\<close>

definition dec_problem :: "problem jdec" where
  "dec_problem j old =
     (case j of JStr b \<Rightarrow> Some (Text (unquote b)) | JNull \<Rightarrow> Some old | _ \<Rightarrow> None)"

definition dec_ToolResult :: "bool \<Rightarrow> ToolResult jdec" where
  "dec_ToolResult strict = dec_struct strict
     [(''name'', on_field r_Name r_Name_update dec_string),
      (''required_now'', on_field r_Required r_Required_update dec_bool),
      (''minimum_version'', on_field r_MinimumVersion r_MinimumVersion_update dec_string),
      (''introduced'', on_field r_Introduced r_Introduced_update dec_string),
      (''purpose'', on_field r_Purpose r_Purpose_update dec_string),
      (''found'', on_field r_Found r_Found_update dec_bool),
      (''usable'', on_field r_Usable r_Usable_update dec_bool),
      (''path'', on_field r_Path r_Path_update dec_string),
      (''version'', on_field r_Version r_Version_update dec_string),
      (''problem'', on_field r_Problem r_Problem_update dec_problem)]"

definition zero_ToolResult :: ToolResult where
  "zero_ToolResult = \<lparr>r_Name = [], r_Required = False, r_MinimumVersion = [], r_Introduced = [], r_Purpose = [],
     r_Found = False, r_Usable = False, r_Path = [], r_Version = [], r_Problem = Text []\<rparr>"

definition dec_Report :: "bool \<Rightarrow> Report jdec" where
  "dec_Report strict = dec_struct strict
     [(''schema_version'', on_field rp_SchemaVersion rp_SchemaVersion_update dec_string),
      (''milestone'', on_field rp_Milestone rp_Milestone_update dec_string),
      (''captured_at'', on_field rp_CapturedAt rp_CapturedAt_update dec_Time),
      (''os'', on_field rp_OS rp_OS_update dec_string),
      (''kernel_version'', on_field rp_KernelVersion rp_KernelVersion_update dec_string),
      (''architecture'', on_field rp_Architecture rp_Architecture_update dec_string),
      (''cpu_model'', on_field rp_CPUModel rp_CPUModel_update dec_string),
      (''physical_cores'', on_field rp_PhysicalCores rp_PhysicalCores_update dec_int),
      (''logical_cpus'', on_field rp_LogicalCPUs rp_LogicalCPUs_update dec_int),
      (''gomaxprocs'', on_field rp_GoMaxProcs rp_GoMaxProcs_update dec_int),
      (''go_version'', on_field rp_GoVersion rp_GoVersion_update dec_string),
      (''source'', on_field rp_Source rp_Source_update (dec_Info strict)),
      (''ready'', on_field rp_Ready rp_Ready_update dec_bool),
      (''tools'', on_field rp_Tools rp_Tools_update (dec_slice zero_ToolResult (dec_ToolResult strict)))]"

definition dec_Statistics :: "bool \<Rightarrow> Statistics jdec" where
  "dec_Statistics strict = dec_struct strict
     [(''count'', on_field st_Count st_Count_update dec_int),
      (''minimum_ns'', on_field st_MinimumNS st_MinimumNS_update dec_Nanoseconds),
      (''median_ns'', on_field st_MedianNS st_MedianNS_update dec_Nanoseconds),
      (''median_absolute_deviation_ns'', on_field st_MedianAbsoluteDeviationNS st_MedianAbsoluteDeviationNS_update dec_Nanoseconds),
      (''maximum_ns'', on_field st_MaximumNS st_MaximumNS_update dec_Nanoseconds)]"

definition dec_Summary :: "bool \<Rightarrow> Summary jdec" where
  "dec_Summary strict = dec_struct strict
     [(''generation'', on_field su_Generation su_Generation_update (dec_Statistics strict)),
      (''pipeline'', on_field su_Pipeline su_Pipeline_update (dec_Statistics strict)),
      (''engine_total'', on_field su_EngineTotal su_EngineTotal_update (dec_Statistics strict))]"

definition dec_ProfileSummary :: "bool \<Rightarrow> ProfileSummary jdec" where
  "dec_ProfileSummary strict = dec_struct strict
     [(''generation'', on_field pf_Generation pf_Generation_update (dec_Statistics strict)),
      (''normalize'', on_field pf_Normalize pf_Normalize_update (dec_Statistics strict)),
      (''score'', on_field pf_Score pf_Score_update (dec_Statistics strict)),
      (''filter'', on_field pf_Filter pf_Filter_update (dec_Statistics strict)),
      (''aggregate'', on_field pf_Aggregate pf_Aggregate_update (dec_Statistics strict)),
      (''stage_sum'', on_field pf_StageSum pf_StageSum_update (dec_Statistics strict)),
      (''pipeline_stages'', on_field pf_PipelineStages pf_PipelineStages_update (dec_Statistics strict)),
      (''profile_total'', on_field pf_ProfileTotal pf_ProfileTotal_update (dec_Statistics strict))]"

definition dec_Artifact :: "bool \<Rightarrow> Artifact jdec" where
  "dec_Artifact strict = dec_struct strict
     [(''path'', on_field ar_Path ar_Path_update dec_string),
      (''sha256'', on_field ar_SHA256 ar_SHA256_update dec_string)]"

definition dec_SuiteIdentity :: "bool \<Rightarrow> SuiteIdentity jdec" where
  "dec_SuiteIdentity strict = dec_struct strict
     [(''path'', on_field si_Path si_Path_update dec_string),
      (''sha256'', on_field si_SHA256 si_SHA256_update dec_string),
      (''schema_version'', on_field si_SchemaVersion si_SchemaVersion_update dec_string),
      (''name'', on_field si_Name si_Name_update dec_string)]"

definition dec_WorkloadIdentity :: "bool \<Rightarrow> WorkloadIdentity jdec" where
  "dec_WorkloadIdentity strict = dec_struct strict
     [(''path'', on_field wi_Path wi_Path_update dec_string),
      (''sha256'', on_field wi_SHA256 wi_SHA256_update dec_string),
      (''schema_version'', on_field wi_SchemaVersion wi_SchemaVersion_update dec_string),
      (''name'', on_field wi_Name wi_Name_update dec_string),
      (''record_count'', on_field wi_RecordCount wi_RecordCount_update dec_u64),
      (''category_count'', on_field wi_CategoryCount wi_CategoryCount_update dec_u64)]"

definition dec_ProfileWorkloadIdentity :: "bool \<Rightarrow> ProfileWorkloadIdentity jdec" where
  "dec_ProfileWorkloadIdentity strict = dec_struct strict
     [(''path'', on_field wi_Path wi_Path_update dec_string),
      (''sha256'', on_field wi_SHA256 wi_SHA256_update dec_string),
      (''schema_version'', on_field wi_SchemaVersion wi_SchemaVersion_update dec_string),
      (''name'', on_field wi_Name wi_Name_update dec_string),
      (''record_count'', on_field wi_RecordCount wi_RecordCount_update dec_u64),
      (''category_count'', on_field wi_CategoryCount wi_CategoryCount_update dec_u64),
      (''distribution'', on_field wi_Distribution wi_Distribution_update dec_string)]"

definition dec_StageSharesBPS :: "bool \<Rightarrow> StageSharesBPS jdec" where
  "dec_StageSharesBPS strict = dec_struct strict
     [(''generation'', on_field sh_Generation sh_Generation_update dec_u32),
      (''normalize'', on_field sh_Normalize sh_Normalize_update dec_u32),
      (''score'', on_field sh_Score sh_Score_update dec_u32),
      (''filter'', on_field sh_Filter sh_Filter_update dec_u32),
      (''aggregate'', on_field sh_Aggregate sh_Aggregate_update dec_u32)]"

definition dec_ScenarioProfileAnalysis :: "bool \<Rightarrow> ScenarioProfileAnalysis jdec" where
  "dec_ScenarioProfileAnalysis strict = dec_struct strict
     [(''accepted_count'', on_field an_AcceptedCount an_AcceptedCount_update dec_u64),
      (''selectivity_bps'', on_field an_SelectivityBPS an_SelectivityBPS_update dec_u32),
      (''stage_median_sum_ns'', on_field an_StageMedianSumNS an_StageMedianSumNS_update dec_Nanoseconds),
      (''stage_pipeline_median_sum_ns'', on_field an_StagePipelineMedianSumNS an_StagePipelineMedianSumNS_update dec_Nanoseconds),
      (''stage_share_bps'', on_field an_StageShareBPS an_StageShareBPS_update (dec_StageSharesBPS strict)),
      (''dominant_stage'', on_field an_DominantStage an_DominantStage_update dec_string),
      (''dominant_pipeline_stage'', on_field an_DominantPipelineStage an_DominantPipelineStage_update dec_string),
      (''fused_pipeline_median_ns_per_record_milli'', on_field an_FusedPerRecordMilli an_FusedPerRecordMilli_update dec_u64),
      (''stage_pass_pipeline_median_ns_per_record_milli'', on_field an_StagePassPerRecordMilli an_StagePassPerRecordMilli_update dec_u64),
      (''stage_pass_to_fused_pipeline_ratio_milli'', on_field an_StagePassToFusedRatioMilli an_StagePassToFusedRatioMilli_update dec_u64),
      (''fused_pipeline_median_absolute_deviation_bps'', on_field an_FusedMADBPS an_FusedMADBPS_update dec_u32),
      (''profile_total_median_absolute_deviation_bps'', on_field an_ProfileTotalMADBPS an_ProfileTotalMADBPS_update dec_u32)]"

definition dec_Experiment :: "bool \<Rightarrow> Experiment jdec" where
  "dec_Experiment strict = dec_struct strict
     [(''scenario_name'', on_field ex_ScenarioName ex_ScenarioName_update dec_string),
      (''workload'', on_field ex_Workload ex_Workload_update (dec_WorkloadIdentity strict)),
      (''orchestration_total_ns'', on_field ex_OrchestrationTotalNS ex_OrchestrationTotalNS_update dec_Nanoseconds),
      (''engine_result'', on_field ex_EngineResult ex_EngineResult_update (dec_EngineResult strict)),
      (''summary'', on_field ex_Summary ex_Summary_update (dec_Summary strict))]"

definition dec_BaselineEvidence :: "bool \<Rightarrow> BaselineEvidence jdec" where
  "dec_BaselineEvidence strict = dec_struct strict
     [(''orchestration_total_ns'', on_field be_OrchestrationTotalNS be_OrchestrationTotalNS_update dec_Nanoseconds),
      (''engine_result'', on_field be_EngineResult be_EngineResult_update (dec_EngineResult strict)),
      (''summary'', on_field be_Summary be_Summary_update (dec_Summary strict))]"

definition dec_StageProfileEvidence :: "bool \<Rightarrow> StageProfileEvidence jdec" where
  "dec_StageProfileEvidence strict = dec_struct strict
     [(''orchestration_total_ns'', on_field pe_OrchestrationTotalNS pe_OrchestrationTotalNS_update dec_Nanoseconds),
      (''engine_result'', on_field pe_EngineResult pe_EngineResult_update (dec_ProfileEngineResult strict)),
      (''summary'', on_field pe_Summary pe_Summary_update (dec_ProfileSummary strict))]"

definition dec_ProfileExperiment :: "bool \<Rightarrow> ProfileExperiment jdec" where
  "dec_ProfileExperiment strict = dec_struct strict
     [(''scenario_name'', on_field px_ScenarioName px_ScenarioName_update dec_string),
      (''workload'', on_field px_Workload px_Workload_update (dec_ProfileWorkloadIdentity strict)),
      (''baseline'', on_field px_Baseline px_Baseline_update (dec_BaselineEvidence strict)),
      (''stage_profile'', on_field px_StageProfile px_StageProfile_update (dec_StageProfileEvidence strict)),
      (''analysis'', on_field px_Analysis px_Analysis_update (dec_ScenarioProfileAnalysis strict))]"

text \<open>The zero values a decoder starts from.\<close>

definition zero_Statistics :: Statistics where
  "zero_Statistics = \<lparr>st_Count = 0, st_MinimumNS = 0, st_MedianNS = 0, st_MedianAbsoluteDeviationNS = 0, st_MaximumNS = 0\<rparr>"

definition zero_Summary :: Summary where
  "zero_Summary = \<lparr>su_Generation = zero_Statistics, su_Pipeline = zero_Statistics, su_EngineTotal = zero_Statistics\<rparr>"

definition zero_WorkloadIdentity :: WorkloadIdentity where
  "zero_WorkloadIdentity = \<lparr>wi_Path = [], wi_SHA256 = [], wi_SchemaVersion = [], wi_Name = [], wi_RecordCount = 0,
     wi_CategoryCount = 0\<rparr>"

definition zero_Experiment :: Experiment where
  "zero_Experiment = \<lparr>ex_ScenarioName = [], ex_Workload = zero_WorkloadIdentity, ex_OrchestrationTotalNS = 0,
     ex_EngineResult = zero_EngineResult, ex_Summary = zero_Summary\<rparr>"

definition zero_ProfileExperiment :: ProfileExperiment where
  "zero_ProfileExperiment = \<lparr>px_ScenarioName = [],
     px_Workload = \<lparr>wi_Path = [], wi_SHA256 = [], wi_SchemaVersion = [], wi_Name = [], wi_RecordCount = 0,
       wi_CategoryCount = 0, wi_Distribution = []\<rparr>,
     px_Baseline = \<lparr>be_OrchestrationTotalNS = 0, be_EngineResult = zero_EngineResult, be_Summary = zero_Summary\<rparr>,
     px_StageProfile = \<lparr>pe_OrchestrationTotalNS = 0, pe_EngineResult = zero_ProfileEngineResult,
       pe_Summary = \<lparr>pf_Generation = zero_Statistics, pf_Normalize = zero_Statistics, pf_Score = zero_Statistics,
         pf_Filter = zero_Statistics, pf_Aggregate = zero_Statistics, pf_StageSum = zero_Statistics,
         pf_PipelineStages = zero_Statistics, pf_ProfileTotal = zero_Statistics\<rparr>\<rparr>,
     px_Analysis = \<lparr>an_AcceptedCount = 0, an_SelectivityBPS = 0, an_StageMedianSumNS = 0, an_StagePipelineMedianSumNS = 0,
       an_StageShareBPS = \<lparr>sh_Generation = 0, sh_Normalize = 0, sh_Score = 0, sh_Filter = 0, sh_Aggregate = 0\<rparr>,
       an_DominantStage = [], an_DominantPipelineStage = [], an_FusedPerRecordMilli = 0, an_StagePassPerRecordMilli = 0,
       an_StagePassToFusedRatioMilli = 0, an_FusedMADBPS = 0, an_ProfileTotalMADBPS = 0\<rparr>\<rparr>"

definition zero_evidence :: "'x evidence" where
  "zero_evidence = \<lparr>ev_SchemaVersion = [], ev_StartedAt = 0, ev_CompletedAt = 0,
     ev_Suite = \<lparr>si_Path = [], si_SHA256 = [], si_SchemaVersion = [], si_Name = []\<rparr>,
     ev_Controller = \<lparr>Version = [], FullCommit = [], SourceState = []\<rparr>,
     ev_Environment = \<lparr>rp_SchemaVersion = [], rp_Milestone = [], rp_CapturedAt = 0, rp_OS = [], rp_KernelVersion = [],
       rp_Architecture = [], rp_CPUModel = [], rp_PhysicalCores = 0, rp_LogicalCPUs = 0, rp_GoMaxProcs = 0,
       rp_GoVersion = [], rp_Source = \<lparr>Version = [], FullCommit = [], SourceState = []\<rparr>, rp_Ready = False, rp_Tools = []\<rparr>,
     ev_EngineArtifact = \<lparr>ar_Path = [], ar_SHA256 = []\<rparr>, ev_Experiments = []\<rparr>"

definition dec_evidence :: "'x \<Rightarrow> (bool \<Rightarrow> 'x jdec) \<Rightarrow> bool \<Rightarrow> 'x evidence jdec" where
  "dec_evidence zero_experiment dec_experiment strict = dec_struct strict
     [(''schema_version'', on_field ev_SchemaVersion ev_SchemaVersion_update dec_string),
      (''started_at'', on_field ev_StartedAt ev_StartedAt_update dec_Time),
      (''completed_at'', on_field ev_CompletedAt ev_CompletedAt_update dec_Time),
      (''suite'', on_field ev_Suite ev_Suite_update (dec_SuiteIdentity strict)),
      (''controller'', on_field ev_Controller ev_Controller_update (dec_Info strict)),
      (''environment'', on_field ev_Environment ev_Environment_update (dec_Report strict)),
      (''engine_artifact'', on_field ev_EngineArtifact ev_EngineArtifact_update (dec_Artifact strict)),
      (''experiments'', on_field ev_Experiments ev_Experiments_update (dec_slice zero_experiment (dec_experiment strict)))]"

definition dec_Capture :: "bool \<Rightarrow> Capture jdec" where
  "dec_Capture = dec_evidence zero_Experiment dec_Experiment"

definition dec_ScalarProfileReport :: "bool \<Rightarrow> ScalarProfileReport jdec" where
  "dec_ScalarProfileReport = dec_evidence zero_ProfileExperiment dec_ProfileExperiment"

section \<open>Reading one field leniently\<close>

text \<open>A decoder that leaves a part of the struct alone.\<close>

definition keeps :: "('s \<Rightarrow> 'f) \<Rightarrow> 's jdec \<Rightarrow> bool" where
  "keeps get e \<longleftrightarrow> (\<forall>j s s'. e j s = Some s' \<longrightarrow> get s' = get s)"

lemma keeps_on_field: "(\<And>x s. get (upd (\<lambda>_. x) s) = get s) \<Longrightarrow> keeps get (on_field get' upd d)"
  by (auto simp: keeps_def on_field_def)

text \<open>A strict decoding into a struct, and a lenient one of the same members into a struct that has only
  one of its fields: the lenient one succeeds with the same value in the field.\<close>

lemma dec_fields_project:
  assumes strict: "dec_fields True tags ms s = Some v"
    and distinct: "distinct (map (fold_name \<circ> fst) tags)"
    and member: "(name, on_field get upd d) \<in> set tags"
    and others: "list_all (\<lambda>(n, e). n = name \<or> keeps get e) tags"
    and lens: "\<And>x s. get (upd (\<lambda>_. x) s) = x" "\<And>x s. get' (upd' (\<lambda>_. x) s) = x"
    and lax: "\<And>j x y. d j x = Some y \<Longrightarrow> d' j x = Some y"
    and same: "get' s' = get s"
  shows "\<exists>v'. dec_fields False [(name, on_field get' upd' d')] ms s' = Some v' \<and> get' v' = get v"
  using strict same
proof (induction ms arbitrary: s s')
  case Nil
  then show ?case by simp
next
  case (Cons m ms)
  obtain k j where m: "m = (k, j)" by force
  let ?key = "fold_name (unquote k)"
  have of_all: "find_field tags (unquote k) = map_of (map (\<lambda>(n, d). (fold_name n, d)) tags) ?key"
    by (rule find_field_fold [OF distinct])
  have of_one: "find_field [(name, e)] (unquote k) = (if ?key = fold_name name then Some e else None)" for e
    by (auto simp: find_field_def)
  from Cons.prems(1) m obtain e s1 where e: "find_field tags (unquote k) = Some e" "e j s = Some s1"
    and rest: "dec_fields True tags ms s1 = Some v"
    by (auto split: option.splits)
  have uniq: "map_of (map (\<lambda>(n, d). (fold_name n, d)) tags) (fold_name name) = Some (on_field get upd d)"
    using member distinct by (intro map_of_is_SomeI) (auto simp: comp_def case_prod_beta intro: rev_image_eqI)
  show ?case
  proof (cases "?key = fold_name name")
    case True
    with e uniq of_all have "e = on_field get upd d" by simp
    with e(2) obtain y where y: "d j (get s) = Some y" "s1 = upd (\<lambda>_. y) s" by (auto simp: on_field_def)
    then have "on_field get' upd' d' j s' = Some (upd' (\<lambda>_. y) s')"
      using lax Cons.prems(2) by (simp add: on_field_def)
    moreover have "get' (upd' (\<lambda>_. y) s') = get s1" using y lens by simp
    ultimately show ?thesis using Cons.IH [OF rest] m True by (simp add: of_one)
  next
    case False
    from e(1) of_all obtain n where n: "(n, e) \<in> set tags" "fold_name n = ?key"
      by (auto dest!: map_of_SomeD)
    with False have "n \<noteq> name" by auto
    then have "get s1 = get s" using others n(1) e(2) by (fastforce simp: list_all_iff keeps_def)
    then show ?thesis using Cons.IH [OF rest] Cons.prems(2) m False by (simp add: of_one)
  qed
qed

lemma dec_struct_project:
  assumes "dec_struct True tags j s = Some v" "distinct (map (fold_name \<circ> fst) tags)"
    and "(name, on_field get upd d) \<in> set tags"
    and "list_all (\<lambda>(n, e). n = name \<or> keeps get e) tags"
    and "\<And>x s. get (upd (\<lambda>_. x) s) = x" "\<And>x s. get' (upd' (\<lambda>_. x) s) = x"
    and "\<And>j x y. d j x = Some y \<Longrightarrow> d' j x = Some y" and "get' s' = get s"
  shows "\<exists>v'. dec_struct False [(name, on_field get' upd' d')] j s' = Some v' \<and> get' v' = get v"
proof -
  have "\<exists>v'. dec_fields False [(name, on_field get' upd' d')] ms s' = Some v' \<and> get' v' = get v"
    if "dec_fields True tags ms s = Some v" for ms
    by (rule dec_fields_project [where get = get and upd = upd and d = d, OF that]) (fact assms)+
  with assms(1,8) show ?thesis by (auto simp: dec_struct_def split: json.splits)
qed

text \<open>Leaving out \<open>DisallowUnknownFields\<close> accepts more and changes nothing else.\<close>

lemma dec_fields_lax: "dec_fields True tags ms s = Some v \<Longrightarrow> dec_fields False tags ms s = Some v"
  by (induction ms arbitrary: s) (auto split: option.splits)

lemma dec_struct_lax: "dec_struct True tags j s = Some v \<Longrightarrow> dec_struct False tags j s = Some v"
  by (auto simp: dec_struct_def dec_fields_lax split: json.splits)

end
