(* ===== verification/App.thy ===== *)
theory App
  imports SessionSafety Doctor
begin

text \<open>
  \<open>internal/app/app.go\<close>: the commands of \<open>labctl\<close>. Everything with a side effect is injected in the
  code, and is a field of a record here; running a command gives its exit code and the effects it
  had, in order. A message is kept as what it reports instead of as its rendered text.
\<close>

section \<open>Options\<close>

record run_options =
  o_RepositoryRoot :: bytes
  o_EnginePath :: bytes
  o_SuitePath :: bytes
  o_OutputPath :: bytes

record verify_options =
  v_RepositoryRoot :: bytes
  v_EnginePath :: bytes
  v_EvidencePath :: bytes

datatype option_error =
    UsageRequired
  | DuplicateFlag bytes
  | ValueRequired bytes
  | UnknownFlag bytes
  | MissingRequired
  | OneEvidencePath
  | EvidenceRequired

definition default_options :: run_options where
  "default_options = \<lparr>o_RepositoryRoot = ''.'', o_EnginePath = [], o_SuitePath = [], o_OutputPath = []\<rparr>"

text \<open>The flag loops go over the arguments in pairs; their number was checked to be even, so a single
  left-over argument does not occur.\<close>

fun benchmark_loop :: "bytes set \<Rightarrow> run_options \<Rightarrow> bytes list \<Rightarrow> option_error + run_options" where
  "benchmark_loop seen options [] = Inr options"
| "benchmark_loop seen options [flag] = Inl UsageRequired"
| "benchmark_loop seen options (flag # v # args) =
     (if flag \<in> seen then Inl (DuplicateFlag flag)
      else if v = [] then Inl (ValueRequired flag)
      else if flag = ''--engine'' then benchmark_loop (insert flag seen) (options\<lparr>o_EnginePath := v\<rparr>) args
      else if flag = ''--suite'' then benchmark_loop (insert flag seen) (options\<lparr>o_SuitePath := v\<rparr>) args
      else if flag = ''--output'' then benchmark_loop (insert flag seen) (options\<lparr>o_OutputPath := v\<rparr>) args
      else if flag = ''--repository-root''
      then benchmark_loop (insert flag seen) (options\<lparr>o_RepositoryRoot := v\<rparr>) args
      else Inl (UnknownFlag flag))"

definition parseBenchmarkOptions :: "bytes list \<Rightarrow> option_error + run_options" where
  "parseBenchmarkOptions args =
     (if length args = 0 \<or> length args mod 2 \<noteq> 0 then Inl UsageRequired
      else
        bindE (benchmark_loop {} default_options args) (\<lambda>options.
          if o_EnginePath options = [] \<or> o_SuitePath options = [] \<or> o_OutputPath options = []
          then Inl MissingRequired
          else Inr options))"

fun profile_loop :: "bytes set \<Rightarrow> run_options \<Rightarrow> bytes list \<Rightarrow> option_error + run_options" where
  "profile_loop seen options [] = Inr options"
| "profile_loop seen options [flag] = Inl UsageRequired"
| "profile_loop seen options (flag # v # args) =
     (if flag \<in> seen then Inl (DuplicateFlag flag)
      else
        let seen' = insert flag seen in
        if v = [] then Inl (ValueRequired flag)
        else if flag = ''--engine'' then profile_loop seen' (options\<lparr>o_EnginePath := v\<rparr>) args
        else if flag = ''--suite'' then profile_loop seen' (options\<lparr>o_SuitePath := v\<rparr>) args
        else if flag = ''--output'' then profile_loop seen' (options\<lparr>o_OutputPath := v\<rparr>) args
        else if flag = ''--repository-root'' then profile_loop seen' (options\<lparr>o_RepositoryRoot := v\<rparr>) args
        else Inl (UnknownFlag flag))"

definition parseProfileOptions :: "bytes list \<Rightarrow> option_error + run_options" where
  "parseProfileOptions args =
     (if length args = 0 \<or> length args mod 2 \<noteq> 0 then Inl UsageRequired
      else
        bindE (profile_loop {} default_options args) (\<lambda>options.
          if o_EnginePath options = [] \<or> o_SuitePath options = [] \<or> o_OutputPath options = []
          then Inl MissingRequired
          else Inr options))"

fun verify_loop ::
  "bytes set \<Rightarrow> bool \<Rightarrow> verify_options \<Rightarrow> bytes list \<Rightarrow> option_error + (verify_options \<times> bool)" where
  "verify_loop seen json_output options [] = Inr (options, json_output)"
| "verify_loop seen json_output options (argument # args) =
     (if argument = ''--json'' then
        (if argument \<in> seen then Inl (DuplicateFlag argument)
         else verify_loop (insert argument seen) True options args)
      else if argument = ''--repository-root'' \<or> argument = ''--engine'' then
        (if argument \<in> seen then Inl (DuplicateFlag argument)
         else
           (case args of
              [] \<Rightarrow> Inl (ValueRequired argument)
            | v # remaining \<Rightarrow>
                if v = [] \<or> has_prefix v ''--'' then Inl (ValueRequired argument)
                else
                  verify_loop (insert argument seen) json_output
                    (if argument = ''--repository-root'' then options\<lparr>v_RepositoryRoot := v\<rparr>
                     else options\<lparr>v_EnginePath := v\<rparr>) remaining))
      else if has_prefix argument ''-'' then Inl (UnknownFlag argument)
      else if v_EvidencePath options \<noteq> [] then Inl OneEvidencePath
      else verify_loop seen json_output (options\<lparr>v_EvidencePath := argument\<rparr>) args)"

definition parseVerifyOptions :: "bytes list \<Rightarrow> option_error + (verify_options \<times> bool)" where
  "parseVerifyOptions args =
     bindE (verify_loop {} False \<lparr>v_RepositoryRoot = ''.'', v_EnginePath = [], v_EvidencePath = []\<rparr> args)
       (\<lambda>(options, json_output).
          if v_EvidencePath options = [] then Inl EvidenceRequired else Inr (options, json_output))"

section \<open>Messages and effects\<close>

datatype float_text = PlusInf | MinusInf | NaNText | Finite float64

definition formatFloat :: "float64 \<Rightarrow> float_text" where
  "formatFloat v =
     (if v = 0x7FF0000000000000 then PlusInf
      else if is_neg_inf v then MinusInf
      else if is_nan v then NaNText
      else Finite v)"

text \<open>\<open>json.Marshal\<close> of the histogram.\<close>

definition marshal_histogram :: "u64 list \<Rightarrow> bytes" where
  "marshal_histogram h = ''['' @ join_with '','' (map (\<lambda>n. decimal (unat n)) h) @ '']''"

datatype usage_text =
    HelpNoArguments | VersionNoArguments | UnknownCommand bytes | BadOptions option_error
  | RunUsage | RunEmptyPath | DoctorUsage

datatype 'e failure =
    ReadWorkload bytes bytes
  | InspectWorkload bytes protocol_error
  | StartEngine bytes start_error
  | ExecuteWorkload bytes session_error
  | ShutDownEngine bytes session_error
  | CommandFailure 'e
  | WriteReceipt
  | WriteReport

record run_report =
  rr_Workload :: bytes
  rr_Backend :: bytes
  rr_AcceptedCount :: u64
  rr_ScoreSum :: float_text
  rr_ScoreSumBits :: u64
  rr_CategoryHistogram :: bytes
  rr_AcceptedIDSum :: u64
  rr_AcceptedIDXOR :: u64

datatype ('e, 'c, 'p, 'v) message =
    HelpText
  | VersionText bytes
  | Usage usage_text
  | Failure "'e failure"
  | RunText run_report
  | CaptureText run_options 'c
  | ProfileText run_options 'p
  | ReceiptText 'v
  | ReceiptJSON 'v
  | DoctorText Report
  | DoctorJSON Report

datatype ('e, 'c, 'p, 'v) effect =
    Stdout "('e, 'c, 'p, 'v) message"
  | Stderr "('e, 'c, 'p, 'v) message"
  | ReadFile bytes
  | StartWorker bytes
  | SessionExecute bytes
  | SessionShutdown
  | SessionClose
  | RunBenchmark run_options
  | RunProfile run_options
  | VerifyEvidence verify_options
  | ProbeHost

text \<open>\<open>Dependencies\<close> and the two writers. A \<open>nil\<close> probe is \<^const>\<open>None\<close>; the other functions the code
  falls back on are what these fields are when nothing is injected.\<close>

record ('e, 'c, 'p, 'v) dependencies =
  d_Build :: Info
  d_Probe :: "(Tool \<Rightarrow> ToolResult) option"
  d_CommandProbe :: tool_host
  d_Host :: host
  d_ReadFile :: "bytes \<Rightarrow> bytes + bytes"
  d_StartWorker :: "bytes \<Rightarrow> start_error option"
  d_Execute :: "bytes \<Rightarrow> session_error + ResultV1"
  d_Shutdown :: "session_error option"
  d_RunBenchmark :: "run_options \<Rightarrow> 'e + 'c"
  d_RunProfile :: "run_options \<Rightarrow> 'e + 'p"
  d_VerifyEvidence :: "verify_options \<Rightarrow> 'e + 'v"
  d_StdoutOk :: bool
  d_StderrOk :: bool

definition write_out ::
  "('e, 'c, 'p, 'v) dependencies \<Rightarrow> ('e, 'c, 'p, 'v) message \<Rightarrow> nat \<times> ('e, 'c, 'p, 'v) effect list" where
  "write_out d m = (if d_StdoutOk d then 0 else 1, [Stdout m])"

definition usageError ::
  "('e, 'c, 'p, 'v) dependencies \<Rightarrow> usage_text \<Rightarrow> nat \<times> ('e, 'c, 'p, 'v) effect list" where
  "usageError d u = (if d_StderrOk d then 2 else 1, [Stderr (Usage u)])"

definition commandError ::
  "('e, 'c, 'p, 'v) dependencies \<Rightarrow> 'e failure \<Rightarrow> nat \<times> ('e, 'c, 'p, 'v) effect list" where
  "commandError d e = (1, [Stderr (Failure e)])"

text \<open>An effect before the rest of a command, and after it (\<open>defer\<close>).\<close>

definition before :: "'f list \<Rightarrow> nat \<times> 'f list \<Rightarrow> nat \<times> 'f list" where
  "before fs r = (fst r, fs @ snd r)"

definition deferred :: "nat \<times> 'f list \<Rightarrow> 'f list \<Rightarrow> nat \<times> 'f list" where
  "deferred r fs = (fst r, snd r @ fs)"

section \<open>Commands\<close>

definition writeRunResult ::
  "('e, 'c, 'p, 'v) dependencies \<Rightarrow> bytes \<Rightarrow> ResultV1 \<Rightarrow> nat \<times> ('e, 'c, 'p, 'v) effect list" where
  "writeRunResult d workloadName result =
     write_out d (RunText
       \<lparr>rr_Workload = workloadName, rr_Backend = BackendScalar,
        rr_AcceptedCount = AcceptedCount result, rr_ScoreSum = formatFloat (ScoreSum result),
        rr_ScoreSumBits = ScoreSum result,
        rr_CategoryHistogram = marshal_histogram (CategoryHistogram result),
        rr_AcceptedIDSum = AcceptedIDSum result, rr_AcceptedIDXOR = AcceptedIDXOR result\<rparr>)"

definition runWorkload ::
  "('e, 'c, 'p, 'v) dependencies \<Rightarrow> bytes list \<Rightarrow> nat \<times> ('e, 'c, 'p, 'v) effect list" where
  "runWorkload d args =
     (if length args \<noteq> 3 \<or> args ! 0 \<noteq> ''--engine'' then usageError d RunUsage
      else
        let enginePath = args ! 1; workloadPath = args ! 2 in
        if enginePath = [] \<or> workloadPath = [] then usageError d RunEmptyPath
        else before [ReadFile workloadPath]
          (case d_ReadFile d workloadPath of
             Inl e \<Rightarrow> commandError d (ReadWorkload workloadPath e)
           | Inr source \<Rightarrow>
               (case ProjectWorkload source of
                  Inl e \<Rightarrow> commandError d (InspectWorkload workloadPath e)
                | Inr projection \<Rightarrow> before [StartWorker enginePath]
                    (case d_StartWorker d enginePath of
                       Some e \<Rightarrow> commandError d (StartEngine enginePath e)
                     | None \<Rightarrow>
                         deferred (before [SessionExecute source]
                           (case d_Execute d source of
                              Inl e \<Rightarrow> commandError d (ExecuteWorkload workloadPath e)
                            | Inr result \<Rightarrow> before [SessionShutdown]
                                (case d_Shutdown d of
                                   Some e \<Rightarrow> commandError d (ShutDownEngine enginePath e)
                                 | None \<Rightarrow> writeRunResult d (wp_Name projection) result)))
                         [SessionClose]))))"

definition runBenchmark ::
  "('e, 'c, 'p, 'v) dependencies \<Rightarrow> bytes list \<Rightarrow> nat \<times> ('e, 'c, 'p, 'v) effect list" where
  "runBenchmark d args =
     (case parseBenchmarkOptions args of
        Inl e \<Rightarrow> usageError d (BadOptions e)
      | Inr options \<Rightarrow> before [RunBenchmark options]
          (case d_RunBenchmark d options of
             Inl e \<Rightarrow> commandError d (CommandFailure e)
           | Inr capture \<Rightarrow> write_out d (CaptureText options capture)))"

definition runProfile ::
  "('e, 'c, 'p, 'v) dependencies \<Rightarrow> bytes list \<Rightarrow> nat \<times> ('e, 'c, 'p, 'v) effect list" where
  "runProfile d args =
     (case parseProfileOptions args of
        Inl e \<Rightarrow> usageError d (BadOptions e)
      | Inr options \<Rightarrow> before [RunProfile options]
          (case d_RunProfile d options of
             Inl e \<Rightarrow> commandError d (CommandFailure e)
           | Inr report \<Rightarrow> write_out d (ProfileText options report)))"

definition runVerify ::
  "('e, 'c, 'p, 'v) dependencies \<Rightarrow> bytes list \<Rightarrow> nat \<times> ('e, 'c, 'p, 'v) effect list" where
  "runVerify d args =
     (case parseVerifyOptions args of
        Inl e \<Rightarrow> usageError d (BadOptions e)
      | Inr (options, jsonOutput) \<Rightarrow> before [VerifyEvidence options]
          (case d_VerifyEvidence d options of
             Inl e \<Rightarrow> commandError d (CommandFailure e)
           | Inr verification \<Rightarrow>
               if jsonOutput then
                 (if d_StdoutOk d then (0, [Stdout (ReceiptJSON verification)])
                  else before [Stdout (ReceiptJSON verification)] (commandError d WriteReceipt))
               else write_out d (ReceiptText verification)))"

definition runDoctor ::
  "('e, 'c, 'p, 'v) dependencies \<Rightarrow> bytes list \<Rightarrow> nat \<times> ('e, 'c, 'p, 'v) effect list" where
  "runDoctor d args =
     (if args \<noteq> [] \<and> args \<noteq> [''--json''] then usageError d DoctorUsage
      else
        let probe = (case d_Probe d of Some p \<Rightarrow> p | None \<Rightarrow> commandProbe (d_CommandProbe d));
            report = Check (d_Host d) probe (d_Build d) in
        before [ProbeHost]
          (if args = [''--json''] then
             (if \<not> d_StdoutOk d then (1, [Stdout (DoctorJSON report), Stderr (Failure WriteReport)])
              else (if rp_Ready report then 0 else 1, [Stdout (DoctorJSON report)]))
           else
             (let (exit_code, fs) = write_out d (DoctorText report) in
              if exit_code \<noteq> 0 then (exit_code, fs)
              else (if rp_Ready report then 0 else 1, fs))))"

definition Run ::
  "('e, 'c, 'p, 'v) dependencies \<Rightarrow> bytes list \<Rightarrow> nat \<times> ('e, 'c, 'p, 'v) effect list" where
  "Run d args =
     (case args of
        [] \<Rightarrow> write_out d HelpText
      | command # remaining \<Rightarrow>
          if command = ''help'' \<or> command = ''--help'' \<or> command = ''-h'' then
            (if length args \<noteq> 1 then usageError d HelpNoArguments else write_out d HelpText)
          else if command = ''version'' \<or> command = ''--version'' then
            (if length args \<noteq> 1 then usageError d VersionNoArguments
             else write_out d (VersionText (''labctl '' @ Info_String (d_Build d))))
          else if command = ''doctor'' then runDoctor d remaining
          else if command = ''benchmark'' then runBenchmark d remaining
          else if command = ''profile'' then runProfile d remaining
          else if command = ''verify'' then runVerify d remaining
          else if command = ''run'' then runWorkload d remaining
          else usageError d (UnknownCommand command))"

text \<open>\<open>main\<close>: the identity the binary was linked with, resolved, then the dispatch.\<close>

definition main ::
  "(bytes \<times> bytes) list option \<Rightarrow> ('e, 'c, 'p, 'v) dependencies \<Rightarrow> Info \<Rightarrow> bytes list \<Rightarrow>
     nat \<times> ('e, 'c, 'p, 'v) effect list" where
  "main build d linked args = Run (d\<lparr>d_Build := Resolve linked build, d_Probe := Some (commandProbe (d_CommandProbe d))\<rparr>) args"

section \<open>Flag/value options\<close>

text \<open>What one pair does, and the contract of a loop over pairs: both option loops of the code are
  instances, so what is accepted is characterised once.\<close>

definition apply_flag :: "bytes \<Rightarrow> bytes \<Rightarrow> run_options \<Rightarrow> run_options option" where
  "apply_flag flag v options =
     (if flag = ''--engine'' then Some (options\<lparr>o_EnginePath := v\<rparr>)
      else if flag = ''--suite'' then Some (options\<lparr>o_SuitePath := v\<rparr>)
      else if flag = ''--output'' then Some (options\<lparr>o_OutputPath := v\<rparr>)
      else if flag = ''--repository-root'' then Some (options\<lparr>o_RepositoryRoot := v\<rparr>)
      else None)"

definition known_flags :: "bytes set" where
  "known_flags = {''--engine'', ''--suite'', ''--output'', ''--repository-root''}"

definition flatten :: "(bytes \<times> bytes) list \<Rightarrow> bytes list" where
  "flatten ps = concat (map (\<lambda>(f, v). [f, v]) ps)"

definition apply_flags :: "(bytes \<times> bytes) list \<Rightarrow> run_options \<Rightarrow> run_options" where
  "apply_flags ps options = fold (\<lambda>(f, v) o'. the (apply_flag f v o')) ps options"

lemma apply_flag_known: "apply_flag f v options = None \<longleftrightarrow> f \<notin> known_flags"
  by (simp add: apply_flag_def known_flags_def)

lemma flatten_simps [simp]:
  "flatten [] = []" "flatten ((f, v) # ps) = f # v # flatten ps"
  by (simp_all add: flatten_def)

lemma flatten_length: "length (flatten ps) = 2 * length ps"
  by (induction ps) auto

definition well_formed :: "bytes set \<Rightarrow> (bytes \<times> bytes) list \<Rightarrow> bool" where
  "well_formed seen ps \<longleftrightarrow>
     distinct (map fst ps) \<and> set (map fst ps) \<inter> seen = {} \<and>
     list_all (\<lambda>(f, v). f \<in> known_flags \<and> v \<noteq> []) ps"

lemma well_formed_Cons:
  "well_formed seen ((f, v) # ps) \<longleftrightarrow>
     f \<notin> seen \<and> v \<noteq> [] \<and> f \<in> known_flags \<and> well_formed (insert f seen) ps"
  by (auto simp: well_formed_def)

locale pair_parser =
  fixes loop :: "bytes set \<Rightarrow> run_options \<Rightarrow> bytes list \<Rightarrow> option_error + run_options"
  assumes loop_Nil: "loop seen options [] = Inr options"
    and loop_one: "loop seen options [f] = Inl UsageRequired"
    and loop_pair: "loop seen options (f # v # args) =
      (if f \<in> seen then Inl (DuplicateFlag f)
       else if v = [] then Inl (ValueRequired f)
       else
         (case apply_flag f v options of
            None \<Rightarrow> Inl (UnknownFlag f)
          | Some o' \<Rightarrow> loop (insert f seen) o' args))"
begin

lemma accepts: "well_formed seen ps \<Longrightarrow> loop seen options (flatten ps) = Inr (apply_flags ps options)"
proof (induction ps arbitrary: seen options)
  case Nil
  then show ?case by (simp add: loop_Nil apply_flags_def)
next
  case (Cons p ps)
  obtain f v where "p = (f, v)" by fastforce
  with Cons.prems have "apply_flag f v options \<noteq> None" by (simp add: well_formed_Cons apply_flag_known)
  then obtain o' where "apply_flag f v options = Some o'" by auto
  with Cons \<open>p = (f, v)\<close> show ?case by (simp add: loop_pair well_formed_Cons apply_flags_def)
qed

lemma accepted:
  "loop seen options args = Inr o' \<Longrightarrow>
     \<exists>ps. args = flatten ps \<and> well_formed seen ps \<and> o' = apply_flags ps options"
proof (induction "length args" arbitrary: args seen options rule: less_induct)
  case less
  consider "args = []" | f where "args = [f]" | f v more where "args = f # v # more"
    by (cases args; cases "List.tl args") auto
  then show ?case
  proof cases
    case 1
    with less.prems show ?thesis
      by (intro exI [of _ "[]"]) (simp add: loop_Nil apply_flags_def well_formed_def)
  next
    case 2
    with less.prems show ?thesis by (simp add: loop_one)
  next
    case 3
    with less.prems obtain o1 where s: "f \<notin> seen" "v \<noteq> []" "apply_flag f v options = Some o1"
      "loop (insert f seen) o1 more = Inr o'"
      by (auto simp: loop_pair split: if_splits option.splits)
    then obtain ps where "more = flatten ps" "well_formed (insert f seen) ps" "o' = apply_flags ps o1"
      using less.hyps [of more] 3 by auto
    moreover have "f \<in> known_flags" using s(3) apply_flag_known [of f v options] by auto
    ultimately show ?thesis
      using s 3 by (intro exI [of _ "(f, v) # ps"]) (simp add: well_formed_Cons apply_flags_def)
  qed
qed

lemma accepts_iff:
  "loop {} options args = Inr o' \<longleftrightarrow>
     (\<exists>ps. args = flatten ps \<and> well_formed {} ps \<and> o' = apply_flags ps options)"
  using accepts accepted by blast

end

interpretation benchmark_options: pair_parser benchmark_loop
  by unfold_locales (simp_all add: apply_flag_def)

interpretation profile_options: pair_parser profile_loop
  by unfold_locales (simp_all add: apply_flag_def Let_def)

lemma loops_agree: "profile_loop seen options args = benchmark_loop seen options args"
  by (induction seen options args rule: benchmark_loop.induct) (simp_all add: Let_def)

definition lookup :: "(bytes \<times> bytes) list \<Rightarrow> bytes \<Rightarrow> bytes \<Rightarrow> bytes" where
  "lookup ps flag fallback = (case map_of ps flag of None \<Rightarrow> fallback | Some v \<Rightarrow> v)"

lemma lookup_Cons: "lookup ((f, v) # ps) flag fallback = (if f = flag then v else lookup ps flag fallback)"
  by (simp add: lookup_def)

lemma lookup_absent: "flag \<notin> set (map fst ps) \<Longrightarrow> lookup ps flag fallback = fallback"
  by (simp add: lookup_def map_of_eq_None_iff [THEN iffD2] split: option.split)

lemma apply_flags_lookup:
  assumes "well_formed seen ps"
  shows "apply_flags ps options =
    \<lparr>o_RepositoryRoot = lookup ps ''--repository-root'' (o_RepositoryRoot options),
     o_EnginePath = lookup ps ''--engine'' (o_EnginePath options),
     o_SuitePath = lookup ps ''--suite'' (o_SuitePath options),
     o_OutputPath = lookup ps ''--output'' (o_OutputPath options)\<rparr>"
  using assms
proof (induction ps arbitrary: seen options)
  case Nil
  then show ?case by (cases options) (simp add: apply_flags_def lookup_def)
next
  case (Cons p ps)
  obtain f v where p: "p = (f, v)" by fastforce
  from Cons.prems p have w: "well_formed (insert f seen) ps" and k: "f \<in> known_flags"
    by (simp_all add: well_formed_Cons)
  then have "f \<notin> set (map fst ps)" by (auto simp: well_formed_def)
  then have absent: "lookup ps f x = x" for x by (rule lookup_absent)
  have step: "apply_flags (p # ps) options = apply_flags ps (the (apply_flag f v options))"
    by (simp add: apply_flags_def p)
  from k consider "f = ''--engine''" | "f = ''--suite''" | "f = ''--output''" | "f = ''--repository-root''"
    unfolding known_flags_def by blast
  then show ?case
    unfolding step unfolding Cons.IH [OF w] p lookup_Cons
    by cases (use absent in \<open>simp_all add: apply_flag_def\<close>)
qed

section \<open>Exit codes\<close>

text \<open>A result past the check of the arguments, and a result in general.\<close>

definition quiet ::
  "('e, 'c, 'p, 'v) dependencies \<Rightarrow> nat \<times> ('e, 'c, 'p, 'v) effect list \<Rightarrow> bool" where
  "quiet d r \<longleftrightarrow>
     fst r \<in> {0, 1} \<and> (\<forall>u. Stderr (Usage u) \<notin> set (snd r)) \<and>
     (fst r = 0 \<longrightarrow> d_StdoutOk d \<and> (\<forall>m. Stderr m \<notin> set (snd r)))"

definition exits ::
  "('e, 'c, 'p, 'v) dependencies \<Rightarrow> nat \<times> ('e, 'c, 'p, 'v) effect list \<Rightarrow> bool" where
  "exits d r \<longleftrightarrow> quiet d r \<or> (\<exists>u. r = usageError d u)"

lemma quiet_write [simp]: "quiet d (write_out d m)"
  by (simp add: quiet_def write_out_def)

lemma quiet_commandError [simp]: "quiet d (commandError d e)"
  by (simp add: quiet_def commandError_def)

lemma quiet_before [simp]: "quiet d r \<Longrightarrow> \<forall>m. Stderr m \<notin> set fs \<Longrightarrow> quiet d (before fs r)"
  by (auto simp: quiet_def before_def)

lemma quiet_deferred [simp]: "quiet d r \<Longrightarrow> \<forall>m. Stderr m \<notin> set fs \<Longrightarrow> quiet d (deferred r fs)"
  by (auto simp: quiet_def deferred_def)

lemma exits_intros [intro, simp]: "quiet d r \<Longrightarrow> exits d r" "exits d (usageError d u)"
  by (auto simp: exits_def)

lemma runWorkload_exits: "exits d (runWorkload d args)"
  by (auto simp: runWorkload_def Let_def writeRunResult_def split: sum.split option.split)

lemma runBenchmark_exits: "exits d (runBenchmark d args)"
  by (auto simp: runBenchmark_def split: sum.split)

lemma runProfile_exits: "exits d (runProfile d args)"
  by (auto simp: runProfile_def split: sum.split)

lemma runVerify_exits: "exits d (runVerify d args)"
  by (auto simp: runVerify_def quiet_def split: sum.split prod.split)
    (auto simp: exits_def quiet_def before_def write_out_def commandError_def)

lemma runDoctor_exits: "exits d (runDoctor d args)"
  by (auto simp: runDoctor_def Let_def quiet_def before_def write_out_def)

lemma Run_exits: "exits d (Run d args)"
  by (cases args)
    (simp_all add: Run_def runWorkload_exits runBenchmark_exits runProfile_exits runVerify_exits runDoctor_exits)

section \<open>The report of a run\<close>

context worker_session
begin

lemma run_report_consistent:
  assumes "d_Execute d = execute" "fst (runWorkload d args) = 0"
  shows "\<exists>path source projection result.
     args ! 2 = path \<and> d_ReadFile d path = Inr source \<and> ProjectWorkload source = Inr projection \<and>
     execute source = Inr result \<and> consistent_result projection result \<and>
     set (snd (writeRunResult d (wp_Name projection) result)) \<subseteq> set (snd (runWorkload d args))"
proof -
  have law: "d_Execute d source = Inr result \<Longrightarrow> ProjectWorkload source = Inr projection \<Longrightarrow>
      consistent_result projection result" for source result projection
    using execute_projection assms(1) by simp
  show ?thesis
    unfolding assms(1) [symmetric] using assms(2) law
    by (auto simp: runWorkload_def Let_def before_def deferred_def usageError_def commandError_def
        split: sum.splits option.splits if_splits)
qed

end

section \<open>Sample dependencies\<close>

definition sample_dependencies :: "(unit, unit, unit, unit) dependencies" where
  "sample_dependencies =
     \<lparr>d_Build = \<lparr>Version = ''dev'', FullCommit = ''abc'', SourceState = SourceClean\<rparr>, d_Probe = None,
      d_CommandProbe = \<lparr>th_LookPath = (\<lambda>_. Inl ''not found''), th_Run = (\<lambda>_ _. ([], RunOk))\<rparr>,
      d_Host = sample_host, d_ReadFile = (\<lambda>_. Inr sample_workload_text), d_StartWorker = (\<lambda>_. None),
      d_Execute = (\<lambda>_. Inr sample_result), d_Shutdown = None, d_RunBenchmark = (\<lambda>_. Inl ()),
      d_RunProfile = (\<lambda>_. Inl ()), d_VerifyEvidence = (\<lambda>_. Inl ()), d_StdoutOk = True, d_StderrOk = True\<rparr>"

section \<open>Properties\<close>

text \<open>
  Claim C34. The options of \<open>benchmark\<close> are accepted exactly when the arguments are pairs of distinct
  known flags and non-empty values that include the engine, the suite and the output; each option
  is then the value given for its flag and the repository root defaults to the current directory,
  whatever the order of the pairs. \<open>profile\<close>, which has its own copy of the loop, accepts the same
  arguments with the same result.
\<close>

theorem parse_options_exact:
  "(parseBenchmarkOptions args = Inr options \<longleftrightarrow>
      (\<exists>ps. args = flatten ps \<and> well_formed {} ps \<and>
         {''--engine'', ''--suite'', ''--output''} \<subseteq> set (map fst ps) \<and>
         options = \<lparr>o_RepositoryRoot = lookup ps ''--repository-root'' ''.'',
           o_EnginePath = lookup ps ''--engine'' [], o_SuitePath = lookup ps ''--suite'' [],
           o_OutputPath = lookup ps ''--output'' []\<rparr>)) \<and>
   parseProfileOptions args = parseBenchmarkOptions args"
proof
  have value_given: "lookup ps f [] \<noteq> [] \<longleftrightarrow> f \<in> set (map fst ps)" if "well_formed {} ps" for ps f
    using that by (induction ps) (auto simp: well_formed_def lookup_def split: if_splits)
  show "parseBenchmarkOptions args = Inr options \<longleftrightarrow>
      (\<exists>ps. args = flatten ps \<and> well_formed {} ps \<and>
         {''--engine'', ''--suite'', ''--output''} \<subseteq> set (map fst ps) \<and>
         options = \<lparr>o_RepositoryRoot = lookup ps ''--repository-root'' ''.'',
           o_EnginePath = lookup ps ''--engine'' [], o_SuitePath = lookup ps ''--suite'' [],
           o_OutputPath = lookup ps ''--output'' []\<rparr>)" (is "?l \<longleftrightarrow> ?r")
  proof
    assume ?l
    then obtain ps where ps: "args = flatten ps" "well_formed {} ps" "options = apply_flags ps default_options"
      "o_EnginePath options \<noteq> []" "o_SuitePath options \<noteq> []" "o_OutputPath options \<noteq> []"
      by (auto simp: parseBenchmarkOptions_def result_simps benchmark_options.accepts_iff)
    then show ?r
      using value_given [OF ps(2)] apply_flags_lookup [OF ps(2), of default_options]
      by (intro exI [of _ ps]) (simp add: default_options_def)
  next
    assume ?r
    then obtain ps where ps: "args = flatten ps" "well_formed {} ps"
      "{''--engine'', ''--suite'', ''--output''} \<subseteq> set (map fst ps)" and o':
      "options = \<lparr>o_RepositoryRoot = lookup ps ''--repository-root'' ''.'',
           o_EnginePath = lookup ps ''--engine'' [], o_SuitePath = lookup ps ''--suite'' [],
           o_OutputPath = lookup ps ''--output'' []\<rparr>" by blast
    have "options = apply_flags ps default_options"
      using apply_flags_lookup [OF ps(2), of default_options] o' by (simp add: default_options_def)
    moreover have "args \<noteq> []" "length args mod 2 = 0" using ps by (cases ps; auto simp: flatten_length)+
    moreover have "o_EnginePath options \<noteq> []" "o_SuitePath options \<noteq> []" "o_OutputPath options \<noteq> []"
      unfolding o' using value_given [OF ps(2)] ps(3) by simp_all
    ultimately show ?l
      using ps(1) benchmark_options.accepts [OF ps(2), of default_options]
      by (simp add: parseBenchmarkOptions_def)
  qed
  show "parseProfileOptions args = parseBenchmarkOptions args"
    by (simp add: parseProfileOptions_def parseBenchmarkOptions_def loops_agree)
qed

text \<open>The arguments that ask \<open>verify\<close> for given options.\<close>

definition verify_args :: "verify_options \<Rightarrow> bool \<Rightarrow> bytes list" where
  "verify_args options json_output =
     (if json_output then [''--json''] else []) @
     [''--repository-root'', v_RepositoryRoot options] @
     (if v_EnginePath options = [] then [] else [''--engine'', v_EnginePath options]) @
     [v_EvidencePath options]"

definition verify_ok :: "verify_options \<Rightarrow> bool" where
  "verify_ok options \<longleftrightarrow>
     v_RepositoryRoot options \<noteq> [] \<and> \<not> has_prefix (v_RepositoryRoot options) ''--'' \<and>
     \<not> has_prefix (v_EnginePath options) ''--'' \<and>
     v_EvidencePath options \<noteq> [] \<and> \<not> has_prefix (v_EvidencePath options) ''-''"

lemma flag_prefix: "\<not> has_prefix s ''-'' \<Longrightarrow> s \<noteq> ''--json'' \<and> s \<noteq> ''--repository-root'' \<and> s \<noteq> ''--engine''"
  by auto

lemma verify_loop_ok:
  "verify_loop seen json_output options args = Inr (options', json') \<Longrightarrow>
     v_RepositoryRoot options \<noteq> [] \<and> \<not> has_prefix (v_RepositoryRoot options) ''--'' \<and>
     \<not> has_prefix (v_EnginePath options) ''--'' \<and> \<not> has_prefix (v_EvidencePath options) ''-'' \<Longrightarrow>
     v_RepositoryRoot options' \<noteq> [] \<and> \<not> has_prefix (v_RepositoryRoot options') ''--'' \<and>
     \<not> has_prefix (v_EnginePath options') ''--'' \<and> \<not> has_prefix (v_EvidencePath options') ''-''"
proof (induction seen json_output options args rule: verify_loop.induct)
  case (2 seen json_output options argument args)
  consider (json) "argument = ''--json''"
    | (flag) "argument \<noteq> ''--json''" "argument = ''--repository-root'' \<or> argument = ''--engine''"
    | (path) "argument \<noteq> ''--json''" "argument \<noteq> ''--repository-root''" "argument \<noteq> ''--engine''" by blast
  then show ?case
  proof cases
    case json
    with 2 show ?thesis by (simp split: if_splits)
  next
    case flag
    with 2(4) obtain v remaining where r: "args = v # remaining" "argument \<notin> seen" "v \<noteq> []" "\<not> has_prefix v ''--''"
      by (auto split: if_splits list.splits)
    with flag 2 show ?thesis by (auto split: if_splits)
  next
    case path
    with 2 show ?thesis by (simp split: if_splits)
  qed
qed simp

text \<open>An empty argument leaves the evidence path empty, so it does not count as one.\<close>

lemma empty_argument_ignored:
  "parseVerifyOptions [[], ''capture.json''] =
     Inr (\<lparr>v_RepositoryRoot = ''.'', v_EnginePath = [], v_EvidencePath = ''capture.json''\<rparr>, False)"
  by (simp add: parseVerifyOptions_def)

text \<open>
  Claim C35. Every set of verification options whose paths are not mistaken for flags can be asked for,
  and parsing gives it back; and whatever is accepted is such a set.
\<close>

theorem verify_options_roundtrip:
  "(verify_ok options \<longleftrightarrow> parseVerifyOptions (verify_args options json_output) = Inr (options, json_output)) \<and>
   (case parseVerifyOptions args of Inl e \<Rightarrow> True | Inr (parsed, flag) \<Rightarrow> verify_ok parsed)"
proof
  have sound: "verify_ok o'" if "parseVerifyOptions args = Inr (o', flag)" for args o' flag
  proof -
    from that have "verify_loop {} False \<lparr>v_RepositoryRoot = ''.'', v_EnginePath = [], v_EvidencePath = []\<rparr> args =
        Inr (o', flag)" "v_EvidencePath o' \<noteq> []"
      by (auto simp: parseVerifyOptions_def result_simps split: prod.splits if_splits)
    then show ?thesis by (auto simp: verify_ok_def dest: verify_loop_ok)
  qed
  then show "case parseVerifyOptions args of Inl e \<Rightarrow> True | Inr (parsed, flag) \<Rightarrow> verify_ok parsed"
    by (auto split: sum.split)
  have "parseVerifyOptions (verify_args options json_output) = Inr (options, json_output)" if "verify_ok options"
  proof -
    from that have "verify_loop {} False \<lparr>v_RepositoryRoot = ''.'', v_EnginePath = [], v_EvidencePath = []\<rparr>
        (verify_args options json_output) = Inr (options, json_output)"
      using flag_prefix [of "v_EvidencePath options"]
      by (cases options) (auto simp: verify_args_def verify_ok_def)
    with that show ?thesis by (simp add: parseVerifyOptions_def verify_ok_def)
  qed
  with sound show "verify_ok options \<longleftrightarrow>
      parseVerifyOptions (verify_args options json_output) = Inr (options, json_output)" by blast
qed





text \<open>
  \<open>labctl doctor\<close> exits with 0 exactly when its arguments are right, the report was written
  and the host is ready.
\<close>

lemma doctor_exit:
  "fst (runDoctor d args) = 0 \<longleftrightarrow>
     (args = [] \<or> args = [''--json'']) \<and> d_StdoutOk d \<and>
     rp_Ready (Check (d_Host d)
       (case d_Probe d of Some p \<Rightarrow> p | None \<Rightarrow> commandProbe (d_CommandProbe d)) (d_Build d))"
  by (auto simp: runDoctor_def Let_def before_def usageError_def write_out_def)

end
