(* ===== verification/Receipts.thy ===== *)
theory Receipts
  imports ProfileVerify EvidenceJson App
begin

text \<open>
  \<open>VerifyEvidence\<close> of \<open>internal/benchmark/verify.go\<close>: reading a stored evidence file, telling its kind,
  checking it and issuing the receipt, optionally against the engine binary.
\<close>

section \<open>Structs with one field\<close>

definition EvidenceVerificationSchema :: bytes where
  "EvidenceVerificationSchema = ''paraflow.evidence-verification/v1''"

record discriminator =
  di_SchemaVersion :: bytes

definition dec_discriminator :: "bool \<Rightarrow> discriminator jdec" where
  "dec_discriminator strict = dec_struct strict
     [(''schema_version'', on_field di_SchemaVersion di_SchemaVersion_update dec_string)]"

record engine_identity =
  ei_EngineArtifact :: Artifact

definition dec_engine_identity :: "bool \<Rightarrow> engine_identity jdec" where
  "dec_engine_identity strict = dec_struct strict
     [(''engine_artifact'', on_field ei_EngineArtifact ei_EngineArtifact_update (dec_Artifact strict))]"

definition zero_engine_identity :: engine_identity where
  "zero_engine_identity = \<lparr>ei_EngineArtifact = \<lparr>ar_Path = [], ar_SHA256 = []\<rparr>\<rparr>"

section \<open>Verification of a file\<close>

definition evidenceEngineSHA :: "bytes \<Rightarrow> bytes \<Rightarrow> verify_error + bytes" where
  "evidenceEngineSHA data schema =
     bindE (wrapE (EngineIdentityUndecodable schema) (Decode data dec_engine_identity zero_engine_identity False))
       (\<lambda>identity.
         if \<not> validSHA256 (ar_SHA256 (ei_EngineArtifact identity)) then Inl EngineHashInvalid
         else Inr (ar_SHA256 (ei_EngineArtifact identity)))"

text \<open>The rest of the receipt, once the content has passed.\<close>

definition issue_receipt ::
  "(bytes \<Rightarrow> bytes) \<Rightarrow> repository \<Rightarrow> verify_options \<Rightarrow> bytes \<Rightarrow> bytes \<Rightarrow> bytes \<Rightarrow> EvidenceVerification \<Rightarrow>
     verify_error + EvidenceVerification" where
  "issue_receipt sha v options root evidenceBytes schema verified =
     (let result = verified\<lparr>rc_SchemaVersion := EvidenceVerificationSchema, rc_Status := ''passed'',
            rc_EvidencePath := identityPath (v_Wd v) root (v_EvidencePath options),
            rc_EvidenceSHA256 := hashBytes sha evidenceBytes, rc_EvidenceSchema := schema\<rparr>;
          engine = v_EnginePath options in
      if engine \<noteq> [] then
        bindE (wrapE (EngineUnreadable engine) (hashFile sha (v_EngineFile v engine))) (\<lambda>actual.
        bindE (evidenceEngineSHA evidenceBytes schema) (\<lambda>expected.
          if actual \<noteq> expected then Inl (EngineHashMismatch actual expected)
          else Inr (result\<lparr>rc_EngineArtifactVerified := True\<rparr>)))
      else Inr result)"

definition read_evidence ::
  "repository \<Rightarrow> verify_options \<Rightarrow> verify_error + (bytes \<times> bytes \<times> bytes)" where
  "read_evidence v options =
     (if trim_space (v_EvidencePath options) = [] then Inl EvidencePathEmpty
      else if trim_space (v_RepositoryRoot options) = [] then Inl RepositoryRootEmpty
      else
        bindE (wrapE (RootUnresolved (v_RepositoryRoot options)) (filepath_Abs (v_Wd v) (v_RepositoryRoot options)))
          (\<lambda>root.
        bindE (wrapE (EvidenceUnreadable (v_EvidencePath options)) (v_ReadFile v 0 (v_EvidencePath options)))
          (\<lambda>evidenceBytes.
        bindE (wrapE DiscriminatorUndecodable
            (Decode evidenceBytes dec_discriminator \<lparr>di_SchemaVersion = []\<rparr> False)) (\<lambda>discriminator.
          Inr (root, evidenceBytes, di_SchemaVersion discriminator)))))"

definition verify_content ::
  "(bytes \<Rightarrow> bytes) \<Rightarrow> repository \<Rightarrow> bytes \<Rightarrow> bytes \<Rightarrow> bytes \<Rightarrow> (verify_error + EvidenceVerification) option" where
  "verify_content sha v root evidenceBytes schema =
     (if schema = CaptureSchema then
        tryP EvidenceUndecodable (Some (Decode evidenceBytes dec_Capture zero_evidence True)) (verifyCapture sha v root)
      else if schema = ScalarProfileReportSchema then
        tryP EvidenceUndecodable (Some (Decode evidenceBytes dec_ScalarProfileReport zero_evidence True))
          (verifyProfileReport sha v root)
      else Some (Inl (EvidenceUnsupported schema)))"

definition VerifyEvidence ::
  "(bytes \<Rightarrow> bytes) \<Rightarrow> repository \<Rightarrow> verify_options \<Rightarrow> (verify_error + EvidenceVerification) option" where
  "VerifyEvidence sha v options =
     tryP id (Some (read_evidence v options)) (\<lambda>(root, evidenceBytes, schema).
     tryP id (verify_content sha v root evidenceBytes schema) (\<lambda>verified.
       Some (issue_receipt sha v options root evidenceBytes schema verified)))"

section \<open>The three readings agree\<close>

lemma fold_names:
  "fold_name ''schema_version'' = [83, 67, 72, 69, 77, 65, 95, 86, 69, 82, 83, 73, 79, 78]"
  "fold_name ''started_at'' = [83, 84, 65, 82, 84, 69, 68, 95, 65, 84]"
  "fold_name ''completed_at'' = [67, 79, 77, 80, 76, 69, 84, 69, 68, 95, 65, 84]"
  "fold_name ''suite'' = [83, 85, 73, 84, 69]"
  "fold_name ''controller'' = [67, 79, 78, 84, 82, 79, 76, 76, 69, 82]"
  "fold_name ''environment'' = [69, 78, 86, 73, 82, 79, 78, 77, 69, 78, 84]"
  "fold_name ''engine_artifact'' = [69, 78, 71, 73, 78, 69, 95, 65, 82, 84, 73, 70, 65, 67, 84]"
  "fold_name ''experiments'' = [69, 88, 80, 69, 82, 73, 77, 69, 78, 84, 83]"
  by (simp_all add: fold_name_def runes_all_ascii byte_def) (simp_all add: fold_rune_def)

lemma evidence_project:
  assumes "dec_evidence z d True j zero_evidence = Some e"
  shows "dec_discriminator False j \<lparr>di_SchemaVersion = []\<rparr> = Some \<lparr>di_SchemaVersion = ev_SchemaVersion e\<rparr>"
    and "dec_engine_identity False j zero_engine_identity = Some \<lparr>ei_EngineArtifact = ev_EngineArtifact e\<rparr>"
proof -
  have "\<exists>v'. dec_discriminator False j \<lparr>di_SchemaVersion = []\<rparr> = Some v' \<and> di_SchemaVersion v' = ev_SchemaVersion e"
    unfolding dec_discriminator_def
    by (rule dec_struct_project [OF assms [unfolded dec_evidence_def], where get = ev_SchemaVersion
          and upd = ev_SchemaVersion_update and d = dec_string])
      (simp_all add: fold_names keeps_on_field zero_evidence_def)
  then show "dec_discriminator False j \<lparr>di_SchemaVersion = []\<rparr> = Some \<lparr>di_SchemaVersion = ev_SchemaVersion e\<rparr>"
    by auto
  have "\<exists>v'. dec_engine_identity False j zero_engine_identity = Some v' \<and> ei_EngineArtifact v' = ev_EngineArtifact e"
    unfolding dec_engine_identity_def
    by (rule dec_struct_project [OF assms [unfolded dec_evidence_def], where get = ev_EngineArtifact
          and upd = ev_EngineArtifact_update and d = "dec_Artifact True"])
      (simp_all add: fold_names keeps_on_field zero_evidence_def zero_engine_identity_def dec_Artifact_def dec_struct_lax)
  then show "dec_engine_identity False j zero_engine_identity = Some \<lparr>ei_EngineArtifact = ev_EngineArtifact e\<rparr>"
    by auto
qed

lemma lenient_readings:
  assumes "Decode data (dec_evidence z d) zero_evidence True = Inr e"
  shows "Decode data dec_discriminator \<lparr>di_SchemaVersion = []\<rparr> False = Inr \<lparr>di_SchemaVersion = ev_SchemaVersion e\<rparr>"
    and "Decode data dec_engine_identity zero_engine_identity False = Inr \<lparr>ei_EngineArtifact = ev_EngineArtifact e\<rparr>"
  using assms evidence_project [of z d _ e] by (auto simp: Decode_Inr_iff)

lemma engine_digest:
  assumes "Decode data (dec_evidence z d) zero_evidence True = Inr e" and "common_ok e"
  shows "evidenceEngineSHA data schema = Inr (ar_SHA256 (ev_EngineArtifact e))"
  using lenient_readings(2) [OF assms(1)] assms(2)
  by (simp add: evidenceEngineSHA_def common_ok_def Let_def)

section \<open>Checked evidence\<close>

text \<open>Both kinds of evidence, once they have been decoded and checked: the schema, the identity of the
  engine binary and the receipt so far.\<close>

definition checked ::
  "(bytes \<Rightarrow> bytes) \<Rightarrow> repository \<Rightarrow> bytes \<Rightarrow> bytes \<Rightarrow> bytes \<Rightarrow> Artifact \<Rightarrow> EvidenceVerification \<Rightarrow> bool" where
  "checked sha v root evidenceBytes schema artifact verified \<longleftrightarrow>
     (\<exists>capture. Decode evidenceBytes dec_Capture zero_evidence True = Inr capture \<and>
        verifyCapture sha v root capture = Some (Inr verified) \<and>
        schema = CaptureSchema \<and> artifact = ev_EngineArtifact capture) \<or>
     (\<exists>report. Decode evidenceBytes dec_ScalarProfileReport zero_evidence True = Inr report \<and>
        verifyProfileReport sha v root report = Some (Inr verified) \<and>
        schema = ScalarProfileReportSchema \<and> artifact = ev_EngineArtifact report)"

lemma accepted_capture:
  assumes "verifyCapture sha v root capture = Some (Inr verified)"
  shows "ev_SchemaVersion capture = CaptureSchema \<and> common_ok capture \<and> \<not> rc_EngineArtifactVerified verified"
  using assms unfolding verifyCapture_def capture_check.evidence_iff by (auto simp: receipt_for_def)

lemma accepted_report:
  assumes "verifyProfileReport sha v root report = Some (Inr verified)"
  shows "ev_SchemaVersion report = ScalarProfileReportSchema \<and> common_ok report \<and> \<not> rc_EngineArtifactVerified verified"
  using assms unfolding verifyProfileReport_def profile_check.evidence_iff by (auto simp: receipt_for_def)

lemma checked_readings:
  assumes "checked sha v root evidenceBytes schema artifact verified"
  shows "Decode evidenceBytes dec_discriminator \<lparr>di_SchemaVersion = []\<rparr> False = Inr \<lparr>di_SchemaVersion = schema\<rparr>"
    and "evidenceEngineSHA evidenceBytes schema = Inr (ar_SHA256 artifact)"
    and "\<not> rc_EngineArtifactVerified verified"
  using assms
  by (auto simp: checked_def dec_Capture_def dec_ScalarProfileReport_def lenient_readings(1)
      dest!: accepted_capture accepted_report intro: engine_digest)

lemma verify_content_iff:
  assumes "Decode evidenceBytes dec_discriminator \<lparr>di_SchemaVersion = []\<rparr> False = Inr \<lparr>di_SchemaVersion = schema\<rparr>"
  shows "verify_content sha v root evidenceBytes schema = Some (Inr verified) \<longleftrightarrow>
    (\<exists>artifact. checked sha v root evidenceBytes schema artifact verified)"
  by (auto simp: verify_content_def checked_def tryP_Inr_iff CaptureSchema_def ScalarProfileReportSchema_def)

lemma verify_content_returns: "verify_content sha v root evidenceBytes schema \<noteq> None"
  by (auto simp: verify_content_def tryP_None_iff verifyCapture_def verifyProfileReport_def
      capture_check.evidence_returns profile_check.evidence_returns simp del: not_None_eq)

lemma issue_receipt_iff:
  assumes "evidenceEngineSHA evidenceBytes schema = Inr digest" and "\<not> rc_EngineArtifactVerified verified"
  shows "issue_receipt sha v options root evidenceBytes schema verified = Inr receipt \<longleftrightarrow>
    (v_EnginePath options = [] \<or> hashFile sha (v_EngineFile v (v_EnginePath options)) = Inr digest) \<and>
    receipt = verified\<lparr>rc_SchemaVersion := EvidenceVerificationSchema, rc_Status := ''passed'',
      rc_EvidencePath := identityPath (v_Wd v) root (v_EvidencePath options),
      rc_EvidenceSHA256 := hashBytes sha evidenceBytes, rc_EvidenceSchema := schema,
      rc_EngineArtifactVerified := v_EnginePath options \<noteq> []\<rparr>"
  using assms by (auto simp: issue_receipt_def Let_def result_simps)

lemma VerifyEvidence_returns: "VerifyEvidence sha v options \<noteq> None"
  by (auto simp: VerifyEvidence_def tryP_None_iff verify_content_returns simp del: not_None_eq split: prod.splits)

lemma VerifyEvidence_iff:
  "VerifyEvidence sha v options = Some (Inr receipt) \<longleftrightarrow>
     trim_space (v_EvidencePath options) \<noteq> [] \<and> trim_space (v_RepositoryRoot options) \<noteq> [] \<and>
     (\<exists>root evidenceBytes schema artifact verified.
        filepath_Abs (v_Wd v) (v_RepositoryRoot options) = Inr root \<and>
        v_ReadFile v 0 (v_EvidencePath options) = Inr evidenceBytes \<and>
        checked sha v root evidenceBytes schema artifact verified \<and>
        (v_EnginePath options = [] \<or>
           hashFile sha (v_EngineFile v (v_EnginePath options)) = Inr (ar_SHA256 artifact)) \<and>
        receipt = verified\<lparr>rc_SchemaVersion := EvidenceVerificationSchema, rc_Status := ''passed'',
          rc_EvidencePath := identityPath (v_Wd v) root (v_EvidencePath options),
          rc_EvidenceSHA256 := hashBytes sha evidenceBytes, rc_EvidenceSchema := schema,
          rc_EngineArtifactVerified := v_EnginePath options \<noteq> []\<rparr>)"
  (is "?l \<longleftrightarrow> ?p \<and> ?q \<and> (\<exists>root data schema artifact verified. ?ok root data schema artifact verified)")
proof
  assume ?l
  then obtain root data schema verified where r: "read_evidence v options = Inr (root, data, schema)"
    and c: "verify_content sha v root data schema = Some (Inr verified)"
    and i: "issue_receipt sha v options root data schema verified = Inr receipt"
    by (auto simp: VerifyEvidence_def tryP_Inr_iff)
  from r have d: "Decode data dec_discriminator \<lparr>di_SchemaVersion = []\<rparr> False = Inr \<lparr>di_SchemaVersion = schema\<rparr>"
    and "?p" "?q" "filepath_Abs (v_Wd v) (v_RepositoryRoot options) = Inr root"
      "v_ReadFile v 0 (v_EvidencePath options) = Inr data"
    by (auto simp: read_evidence_def bindE_Inr_iff wrapE_Inr_iff split: if_splits)
  moreover obtain artifact where k: "checked sha v root data schema artifact verified"
    using c verify_content_iff [OF d] by blast
  ultimately show "?p \<and> ?q \<and> (\<exists>root data schema artifact verified. ?ok root data schema artifact verified)"
    using i issue_receipt_iff [OF checked_readings(2,3) [OF k]] by blast
next
  assume r: "?p \<and> ?q \<and> (\<exists>root data schema artifact verified. ?ok root data schema artifact verified)"
  then obtain root data schema artifact verified where ok: "?ok root data schema artifact verified" by blast
  then have k: "checked sha v root data schema artifact verified" by blast
  have "read_evidence v options = Inr (root, data, schema)"
    using r ok checked_readings(1) [OF k] by (simp add: read_evidence_def)
  moreover have "verify_content sha v root data schema = Some (Inr verified)"
    using k verify_content_iff [OF checked_readings(1) [OF k]] by blast
  moreover have "issue_receipt sha v options root data schema verified = Inr receipt"
    using ok issue_receipt_iff [OF checked_readings(2,3) [OF k]] by blast
  ultimately show ?l by (simp add: VerifyEvidence_def tryP_Inr_iff)
qed

section \<open>Properties\<close>

text \<open>
  Claim C27. Verification never panics, and it issues a receipt exactly when the evidence path and the root are not
  blank, the root resolves, the evidence is read, decodes strictly as a capture or as a profile
  report, passes the check of its kind, and, if an engine binary is given, that binary has the
  digest recorded in the evidence. The receipt is the one of the check, completed with the schema, status, path
  and digest of the evidence file. There is no other reason to refuse: the two lenient readings of the same
  bytes, of the kind and of the engine identity, never disagree with the strict one.
\<close>

theorem VerifyEvidence_exact:
  "VerifyEvidence sha v options \<noteq> None \<and>
   (VerifyEvidence sha v options = Some (Inr receipt) \<longleftrightarrow>
     trim_space (v_EvidencePath options) \<noteq> [] \<and> trim_space (v_RepositoryRoot options) \<noteq> [] \<and>
     (\<exists>root evidenceBytes schema artifact verified.
        filepath_Abs (v_Wd v) (v_RepositoryRoot options) = Inr root \<and>
        v_ReadFile v 0 (v_EvidencePath options) = Inr evidenceBytes \<and>
        checked sha v root evidenceBytes schema artifact verified \<and>
        (v_EnginePath options = [] \<or>
           hashFile sha (v_EngineFile v (v_EnginePath options)) = Inr (ar_SHA256 artifact)) \<and>
        receipt = verified\<lparr>rc_SchemaVersion := EvidenceVerificationSchema, rc_Status := ''passed'',
          rc_EvidencePath := identityPath (v_Wd v) root (v_EvidencePath options),
          rc_EvidenceSHA256 := hashBytes sha evidenceBytes, rc_EvidenceSchema := schema,
          rc_EngineArtifactVerified := v_EnginePath options \<noteq> []\<rparr>))"
  by (intro conjI VerifyEvidence_returns VerifyEvidence_iff)

end
