(* ===== verification/JsonText.thy ===== *)
theory JsonText
  imports Jsoncheck
begin

text \<open>
  What \<open>encoding/json\<close> writes is read back: strings through their escapes, compacted raw messages, and
  documents in any layout of white space, of which \<open>Marshal\<close> and \<open>MarshalIndent\<close> are two.
\<close>

section \<open>Runes of more than one byte\<close>

lemma char_of_byte [simp]: "char_of (byte c) = c"
  by (simp add: byte_def)

lemma encode_two:
  assumes "194 \<le> b0" "b0 < 224" "128 \<le> b1" "b1 < 192"
  shows "encode_rune ((b0 - 192) * 64 + (b1 - 128)) = map char_of [b0, b1]"
proof -
  define a b where "a = b0 - 192" and "b = b1 - 128"
  have b: "b0 = 192 + a" "b1 = 128 + b" "2 \<le> a" "a < 32" "b < 64" using assms by (simp_all add: a_def b_def)
  then have "(a * 64 + b) div 64 = a" "(a * 64 + b) mod 64 = b" by simp_all
  with b show ?thesis by (simp add: encode_rune_def)
qed

lemma split_64: "b < 64 \<Longrightarrow> (a * 64 + b) div 64 = a" "b < 64 \<Longrightarrow> (a * 64 + b) mod 64 = (b::nat)"
  by simp_all

lemma encode_three:
  assumes "224 \<le> b0" "b0 < 240" "128 \<le> b1" "b1 < 192" "128 \<le> b2" "b2 < 192" "b0 = 224 \<longrightarrow> 160 \<le> b1"
  shows "encode_rune (((b0 - 224) * 64 + (b1 - 128)) * 64 + (b2 - 128)) = map char_of [b0, b1, b2]"
proof -
  define a b d where "a = b0 - 224" and "b = b1 - 128" and "d = b2 - 128"
  have b: "b0 = 224 + a" "b1 = 128 + b" "b2 = 128 + d" "a < 16" "b < 64" "d < 64" "a = 0 \<longrightarrow> 32 \<le> b"
    using assms unfolding a_def b_def d_def by arith+
  define r where "r = (a * 64 + b) * 64 + d"
  have r: "r div 64 = a * 64 + b" "r mod 64 = d" using b by (simp_all only: r_def split_64)
  then have "r div 64 mod 64 = b" "r div 64 div 64 = a" using b by (simp_all only: split_64)
  moreover have "r div 4096 = r div 64 div 64" by (simp flip: div_mult2_eq)
  moreover have "2048 \<le> r" "r < 65536" using b by (cases "a = 0"; simp add: r_def)+
  ultimately have "encode_rune r = map char_of [224 + a, 128 + b, 128 + d]"
    using r by (simp add: encode_rune_def)
  then show ?thesis using b(1-3) by (simp add: r_def)
qed

lemma encode_four:
  assumes "240 \<le> b0" "b0 < 245" "128 \<le> b1" "b1 < 192" "128 \<le> b2" "b2 < 192" "128 \<le> b3" "b3 < 192"
    "b0 = 240 \<longrightarrow> 144 \<le> b1"
  shows "encode_rune ((((b0 - 240) * 64 + (b1 - 128)) * 64 + (b2 - 128)) * 64 + (b3 - 128)) = map char_of [b0, b1, b2, b3]"
proof -
  define a b d e where "a = b0 - 240" and "b = b1 - 128" and "d = b2 - 128" and "e = b3 - 128"
  have b: "b0 = 240 + a" "b1 = 128 + b" "b2 = 128 + d" "b3 = 128 + e" "a < 5" "b < 64" "d < 64" "e < 64"
    "a = 0 \<longrightarrow> 16 \<le> b"
    using assms unfolding a_def b_def d_def e_def by arith+
  define r where "r = ((a * 64 + b) * 64 + d) * 64 + e"
  have r: "r div 64 = (a * 64 + b) * 64 + d" "r mod 64 = e" using b by (simp_all only: r_def split_64)
  then have r2: "r div 64 mod 64 = d" "r div 64 div 64 = a * 64 + b" using b by (simp_all only: split_64)
  then have "r div 64 div 64 mod 64 = b" "r div 64 div 64 div 64 = a" using b by (simp_all only: split_64)
  moreover have "r div 4096 = r div 64 div 64" "r div 262144 = r div 64 div 64 div 64" by (simp_all flip: div_mult2_eq)
  moreover have "65536 \<le> r" using b by (cases "a = 0"; simp add: r_def)
  ultimately have "encode_rune r = map char_of [240 + a, 128 + b, 128 + d, 128 + e]"
    using r r2 by (simp add: encode_rune_def)
  then show ?thesis using b(1-4) by (simp add: r_def)
qed

text \<open>The bytes behind the first one of a longer rune, which only they decide.\<close>

lemma decode_high:
  assumes "\<not> byte c < 128"
  obtains
    (bad) "decode_rune (c # cs) = (rune_error, 1)"
  | (good) ts rest r where "cs = ts @ rest" "ts \<noteq> []" "list_all cont_byte ts" "128 \<le> r" "encode_rune r = c # ts"
      "\<And>rest'. decode_rune (c # ts @ rest') = (r, Suc (length ts))"
proof -
  consider "byte c < 194 \<or> 245 \<le> byte c" | "194 \<le> byte c" "byte c < 224"
    | "224 \<le> byte c" "byte c < 240" | "240 \<le> byte c" "byte c < 245"
    by linarith
  then show thesis
  proof cases
    case 1
    with assms bad show ?thesis by (auto simp: decode_rune.simps(2))
  next
    case 2
    show ?thesis
    proof (cases "\<exists>c1 rest. cs = c1 # rest \<and> cont_byte c1")
      case True
      then obtain c1 rest where c1: "cs = c1 # rest" "cont_byte c1" by blast
      show ?thesis
      proof (rule good)
        have d: "decode_rune (c # c1 # rest') = ((byte c - 192) * 64 + (byte c1 - 128), 2)" for rest'
          using 2 c1 by (simp add: decode_rune.simps(2))
        show "cs = [c1] @ rest" using c1 by simp
        show "list_all cont_byte [c1]" using 2 c1 by (auto simp: cont_byte_def second_of_three_def second_of_four_def split: if_splits)
        show "decode_rune (c # [c1] @ rest') = ((byte c - 192) * 64 + (byte c1 - 128), Suc (length [c1]))" for rest'
          using d [of rest'] by simp
        show "128 \<le> (byte c - 192) * 64 + (byte c1 - 128)" using decode_rune_high [OF assms, of "c1 # rest"] d by simp
        have "encode_rune ((byte c - 192) * 64 + (byte c1 - 128)) = map char_of [byte c, byte c1]"
          by (rule encode_two) (use 2 c1 in \<open>auto simp: cont_byte_def second_of_three_def second_of_four_def split: if_splits\<close>)
        then show "encode_rune ((byte c - 192) * 64 + (byte c1 - 128)) = c # [c1]" by simp
      qed simp
    next
      case False
      with 2 bad show ?thesis by (cases cs) (auto simp: decode_rune.simps(2))
    qed
  next
    case 3
    show ?thesis
    proof (cases "\<exists>c1 c2 rest. cs = c1 # c2 # rest \<and> second_of_three (byte c) c1 \<and> cont_byte c2")
      case True
      then obtain c1 c2 rest where c1: "cs = c1 # c2 # rest" "second_of_three (byte c) c1" "cont_byte c2" by blast
      show ?thesis
      proof (rule good)
        have d: "decode_rune (c # c1 # c2 # rest') = (((byte c - 224) * 64 + (byte c1 - 128)) * 64 + (byte c2 - 128), 3)" for rest'
          using 3 c1 by (simp add: decode_rune.simps(2))
        show "cs = [c1, c2] @ rest" using c1 by simp
        show "list_all cont_byte [c1, c2]" using 3 c1 by (auto simp: cont_byte_def second_of_three_def second_of_four_def split: if_splits)
        show "decode_rune (c # [c1, c2] @ rest') = (((byte c - 224) * 64 + (byte c1 - 128)) * 64 + (byte c2 - 128), Suc (length [c1, c2]))" for rest'
          using d [of rest'] by simp
        show "128 \<le> ((byte c - 224) * 64 + (byte c1 - 128)) * 64 + (byte c2 - 128)" using decode_rune_high [OF assms, of "c1 # c2 # rest"] d by simp
        have "encode_rune (((byte c - 224) * 64 + (byte c1 - 128)) * 64 + (byte c2 - 128)) = map char_of [byte c, byte c1, byte c2]"
          by (rule encode_three) (use 3 c1 in \<open>auto simp: cont_byte_def second_of_three_def second_of_four_def split: if_splits\<close>)
        then show "encode_rune (((byte c - 224) * 64 + (byte c1 - 128)) * 64 + (byte c2 - 128)) = c # [c1, c2]" by simp
      qed simp
    next
      case False
      with 3 bad show ?thesis by (cases "(byte c, cs)" rule: decode_three.cases) (auto simp: decode_rune.simps(2))
    qed
  next
    case 4
    show ?thesis
    proof (cases "\<exists>c1 c2 c3 rest. cs = c1 # c2 # c3 # rest \<and> second_of_four (byte c) c1 \<and> cont_byte c2 \<and> cont_byte c3")
      case True
      then obtain c1 c2 c3 rest where c1: "cs = c1 # c2 # c3 # rest" "second_of_four (byte c) c1" "cont_byte c2" "cont_byte c3"
        by blast
      show ?thesis
      proof (rule good)
        have d: "decode_rune (c # c1 # c2 # c3 # rest') = ((((byte c - 240) * 64 + (byte c1 - 128)) * 64 + (byte c2 - 128)) * 64 + (byte c3 - 128), 4)" for rest'
          using 4 c1 by (simp add: decode_rune.simps(2))
        show "cs = [c1, c2, c3] @ rest" using c1 by simp
        show "list_all cont_byte [c1, c2, c3]" using 4 c1 by (auto simp: cont_byte_def second_of_three_def second_of_four_def split: if_splits)
        show "decode_rune (c # [c1, c2, c3] @ rest') = ((((byte c - 240) * 64 + (byte c1 - 128)) * 64 + (byte c2 - 128)) * 64 + (byte c3 - 128), Suc (length [c1, c2, c3]))" for rest'
          using d [of rest'] by simp
        show "128 \<le> (((byte c - 240) * 64 + (byte c1 - 128)) * 64 + (byte c2 - 128)) * 64 + (byte c3 - 128)" using decode_rune_high [OF assms, of "c1 # c2 # c3 # rest"] d by simp
        have "encode_rune ((((byte c - 240) * 64 + (byte c1 - 128)) * 64 + (byte c2 - 128)) * 64 + (byte c3 - 128)) = map char_of [byte c, byte c1, byte c2, byte c3]"
          by (rule encode_four) (use 4 c1 in \<open>auto simp: cont_byte_def second_of_three_def second_of_four_def split: if_splits\<close>)
        then show "encode_rune ((((byte c - 240) * 64 + (byte c1 - 128)) * 64 + (byte c2 - 128)) * 64 + (byte c3 - 128)) = c # [c1, c2, c3]" by simp
      qed simp
    next
      case False
      with 4 bad show ?thesis by (cases "(byte c, cs)" rule: decode_four.cases) (auto simp: decode_rune.simps(2))
    qed
  qed
qed

section \<open>String bodies\<close>

text \<open>The text between two quotes: bytes that stand for themselves, and escapes.\<close>

definition normal_byte :: "char \<Rightarrow> bool" where
  "normal_byte c \<longleftrightarrow> 32 \<le> byte c \<and> c \<noteq> quote \<and> c \<noteq> backslash"

definition escape_seq :: "bytes \<Rightarrow> bool" where
  "escape_seq e \<longleftrightarrow> (\<forall>r. scan_escape (e @ r) = Some (e, r))"

inductive body :: "bytes \<Rightarrow> bool" where
  body_Nil: "body []"
| body_byte: "normal_byte c \<Longrightarrow> body b \<Longrightarrow> body (c # b)"
| body_escape: "escape_seq e \<Longrightarrow> body b \<Longrightarrow> body (backslash # e @ b)"

lemma body_scan: "body b \<Longrightarrow> scan_string (b @ quote # r) = Some (b, r)"
proof (induction rule: body.induct)
  case (body_escape e b)
  then show ?case by (simp add: scan_string.simps(2) escape_seq_def) (simp add: quote_def backslash_def)
qed (simp_all add: scan_string.simps(2) normal_byte_def)

lemma escape_letters: "e \<in> set ''bfnrt/'' \<or> e = quote \<or> e = backslash \<Longrightarrow> escape_seq [e]"
  by (simp add: escape_seq_def scan_escape_def)

lemma escape_u: "length h = 4 \<Longrightarrow> list_all is_hex h \<Longrightarrow> escape_seq (CHR ''u'' # h)"
  by (simp add: escape_seq_def scan_escape_def quote_def backslash_def)

lemma scan_escape_seq: "scan_escape s = Some (e, es) \<Longrightarrow> escape_seq e"
proof (cases s)
  case (Cons c cs)
  assume "scan_escape s = Some (e, es)"
  moreover have "scan_escape s =
      (if c \<in> set ''bfnrt/'' \<or> c = quote \<or> c = backslash then Some ([c], cs)
       else if c = CHR ''u'' \<and> 4 \<le> length cs \<and> list_all is_hex (take 4 cs)
       then Some (c # take 4 cs, drop 4 cs) else None)"
    by (simp only: Cons scan_escape_def list.case)
  ultimately consider "e = [c]" "c \<in> set ''bfnrt/'' \<or> c = quote \<or> c = backslash"
    | "e = CHR ''u'' # take 4 cs" "4 \<le> length cs" "list_all is_hex (take 4 cs)"
    by (metis option.distinct(1) option.inject prod.inject)
  then show ?thesis
  proof cases
    case 1
    then show ?thesis using escape_letters by blast
  next
    case 2
    then show ?thesis using escape_u [of "take 4 cs"] by simp
  qed
qed (simp add: scan_escape_def)

lemma scan_body: "scan_string s = Some (b, r) \<Longrightarrow> body b"
proof (induction s arbitrary: b rule: scan_string.induct)
  case (2 c cs)
  consider "c = quote" | "c \<noteq> quote" "c = backslash" | "c \<noteq> quote" "c \<noteq> backslash" by blast
  then show ?case
  proof cases
    case 1
    with 2 show ?thesis by (simp add: scan_string.simps(2) body_Nil)
  next
    case 2
    with "2.prems" obtain e es b' where e: "scan_escape cs = Some (e, es)" "scan_string es = Some (b', r)" "b = c # e @ b'"
      by (auto simp: scan_string.simps(2) split: option.splits)
    have "escape_seq e" using e(1) by (rule scan_escape_seq)
    then show ?thesis using "2.IH"(1) 2 e body_escape by blast
  next
    case 3
    with "2.prems" obtain b' where b: "\<not> byte c < 32" "scan_string cs = Some (b', r)" "b = c # b'"
      by (auto simp: scan_string.simps(2) split: if_splits)
    then show ?thesis using "2.IH"(2) 3 by (auto simp: normal_byte_def intro: body_byte)
  qed
qed simp

lemma body_append: "body a \<Longrightarrow> body b \<Longrightarrow> body (a @ b)"
  by (induction rule: body.induct) (auto intro: body.intros)

lemma body_bytes: "list_all normal_byte s \<Longrightarrow> body s"
  by (induction s) (auto intro: body.intros)

lemma body_single: "escape_seq e \<Longrightarrow> body (backslash # e)"
  using body_escape [OF _ body_Nil] by simp

lemma hex_digit_hex: "n < 16 \<Longrightarrow> is_hex (hex_digit n)"
  using hex_digit_cases [of n] by (auto simp: hex_digit_def is_hex_def is_digit_def byte_def)

lemma hex_digits_hex: "list_all is_hex (hex_digits k n)"
  by (induction k arbitrary: n) (simp_all add: hex_digit_hex)

lemma body_quote_body: "body (quote_body s)"
proof (induction s rule: quote_body.induct)
  case (2 c cs)
  show ?case
  proof (cases "byte c < 128")
    case True
    have u: "body (backslash # ''u'' @ hex_digits 4 (byte c))"
      using body_single [OF escape_u [OF _ hex_digits_hex]] by simp
    have single: "body [backslash, e]" if "e \<in> set ''bfnrt/'' \<or> e = quote \<or> e = backslash" for e
      using body_single [OF escape_letters [OF that]] .
    have "body [c]" if "normal_byte c" using that by (intro body_bytes) simp
    then show ?thesis
      using True u single 2(1) unfolding quote_body.simps(2) if_P [OF True]
      by (intro body_append) (simp_all add: normal_byte_def)
  next
    case False
    then show ?thesis
    proof (cases rule: decode_high [where cs = cs])
      case bad
      have "escape_seq ''ufffd''" by (rule escape_u) (simp_all add: is_hex_def is_digit_def byte_def)
      with bad 2(2) False show ?thesis
        using body_escape [of "''ufffd''"] by (simp add: quote_body.simps(2))
    next
      case (good ts rest r)
      have "list_all normal_byte (c # ts)"
        using False good(3) by (auto simp: list_all_iff normal_byte_def cont_byte_def quote_def backslash_def byte_def)
      moreover have "body (quote_body (drop (length ts) cs))" using 2(2) False good(1,5,6) by (simp add: good(6))
      moreover have "escape_seq (CHR ''u'' # hex_digits 4 r)" by (rule escape_u) (simp_all add: hex_digits_hex)
      ultimately show ?thesis
        using False good(1,2,6) body_append [OF body_bytes, of "c # ts"] body_escape [of "CHR ''u'' # hex_digits 4 r"]
        by (auto simp: quote_body.simps(2) Let_def)
    qed
  qed
qed (simp add: body_Nil)

section \<open>Strings survive encoding\<close>

lemma unquote_byte: "byte c < 128 \<Longrightarrow> c \<noteq> backslash \<Longrightarrow> unquote (c # s) = c # unquote s"
  by (simp add: unquote.simps(2))

lemma get_u4_other: "e \<noteq> CHR ''u'' \<Longrightarrow> get_u4 (backslash # e # s) = None"
  by (cases "backslash # e # s" rule: get_u4.cases) auto

lemma unquote_letter: "e \<noteq> CHR ''u'' \<Longrightarrow> unquote (backslash # e # s) = unescape_char e # unquote s"
  by (simp add: unquote.simps(2) get_u4_other)

lemma get_u4_hex:
  assumes "length h = 4" "list_all is_hex h"
  shows "get_u4 (backslash # CHR ''u'' # h @ s) = Some (hex4 h)"
proof -
  obtain a b c d where "h = [a, b, c, d]" using assms(1) by (auto simp: length_Suc_conv numeral_eq_Suc)
  with assms(2) show ?thesis by simp
qed

lemma hex4_digits: "n < 65536 \<Longrightarrow> hex4 (hex_digits 4 n) = n"
  using parse_hex_digits [of 4 n] by (simp add: hex4_def)

lemma unquote_u:
  assumes "n < 65536" "\<not> (55296 \<le> n \<and> n < 57344)"
  shows "unquote (backslash # CHR ''u'' # hex_digits 4 n @ s) = encode_rune n @ unquote s"
proof -
  have "get_u4 (backslash # CHR ''u'' # hex_digits 4 n @ s) = Some n"
    using get_u4_hex [OF _ hex_digits_hex, of 4 n s] hex4_digits [OF assms(1)] by simp
  moreover have "drop 5 (CHR ''u'' # hex_digits 4 n @ s) = s" by simp
  ultimately show ?thesis
    unfolding unquote.simps(2) [of backslash] by (simp only: if_not_P [OF assms(2)] option.case simp_thms if_True)
qed

lemma encode_ascii: "byte c < 128 \<Longrightarrow> encode_rune (byte c) = [c]"
  by (simp add: encode_rune_def)

lemma backslash_ascii: "byte backslash < 128" "byte quote < 128"
  by (simp_all add: backslash_def quote_def byte_def)

lemma unquote_quote_body: "utf8_valid s \<Longrightarrow> unquote (quote_body s) = s"
proof (induction s rule: quote_body.induct)
  case (2 c cs)
  show ?case
  proof (cases "byte c < 128")
    case True
    with "2.prems" have ih: "unquote (quote_body cs) = cs" using 2(1) by simp
    have ctl: "unquote (backslash # ''u'' @ hex_digits 4 (byte c) @ quote_body cs) = c # cs"
      using unquote_u [of "byte c" "quote_body cs"] True ih by (simp add: encode_ascii)
    have letters: "unquote (backslash # e # quote_body cs) = unescape_char e # cs" if "e \<noteq> CHR ''u''" for e
      using unquote_letter [OF that] ih by simp
    have chars: "byte c = 8 \<Longrightarrow> c = CHR 0x08" "byte c = 12 \<Longrightarrow> c = CHR 0x0C" "byte c = 10 \<Longrightarrow> c = CHR 0x0A"
      "byte c = 13 \<Longrightarrow> c = CHR 0x0D" "byte c = 9 \<Longrightarrow> c = CHR 0x09"
      by (simp_all flip: byte_inject) (simp_all add: byte_def)
    have "unescape_char quote = quote" "unescape_char backslash = backslash" "quote \<noteq> CHR ''u''" "backslash \<noteq> CHR ''u''"
      by (simp_all add: unescape_char_def quote_def backslash_def)
    moreover have "unquote (c # quote_body cs) = c # cs" if "c \<noteq> backslash"
      using unquote_byte [OF True that] ih by simp
    ultimately show ?thesis
      unfolding quote_body.simps(2) if_P [OF True]
      using ctl letters chars by (auto simp: unescape_char_def)
  next
    case False
    then show ?thesis
    proof (cases rule: decode_high [where cs = cs])
      case bad
      with "2.prems" show ?thesis by (simp add: utf8_valid.simps(2))
    next
      case (good ts rest r)
      then have v: "utf8_valid rest" using "2.prems" by (simp add: utf8_valid.simps(2))
      then have ih: "unquote (quote_body rest) = rest" using 2(2) [OF False] good(1,2,6) by (simp add: prod.case_eq_if)
      have "unquote (c # ts @ quote_body rest) = c # ts @ rest"
        using False good(5,6) ih backslash_ascii by (auto simp: unquote.simps(2))
      moreover have "unquote (backslash # ''u'' @ hex_digits 4 r @ quote_body rest) = c # ts @ rest" if "r = 8232 \<or> r = 8233"
        using unquote_u [of r "quote_body rest"] that ih good(5) by auto
      ultimately show ?thesis
        using False good(1,2,6) by (auto simp: quote_body.simps(2) Let_def)
    qed
  qed
qed simp

section \<open>HTML escapes in a compacted body\<close>

text \<open>\<open>html_escape\<close> looks three bytes ahead for the two separators; every other byte stands alone.\<close>

definition separator :: "bytes \<Rightarrow> bool" where
  "separator s \<longleftrightarrow> (case s of a # b # c # _ \<Rightarrow> byte a = 226 \<and> byte b = 128 \<and> (byte c = 168 \<or> byte c = 169) | _ \<Rightarrow> False)"

lemma html_escape_Cons:
  "html_escape (a # s) =
     (if a \<in> set ''<>&'' then backslash # ''u'' @ hex_digits 4 (byte a) @ html_escape s
      else if separator (a # s) then backslash # ''u202'' @ [hex_digit (byte (s ! 1) mod 16)] @ html_escape (drop 2 s)
      else a # html_escape s)"
  by (cases "a # s" rule: html_escape.cases) (auto simp: separator_def)

lemma html_escape_other: "a \<notin> set ''<>&'' \<Longrightarrow> \<not> separator (a # s) \<Longrightarrow> html_escape (a # s) = a # html_escape s"
  by (simp add: html_escape_Cons)

lemma separator_byte: "byte a \<noteq> 226 \<Longrightarrow> \<not> separator (a # s)"
  by (auto simp: separator_def split: list.splits)

lemma html_escape_keep: "list_all (\<lambda>a. a \<notin> set ''<>&'' \<and> byte a \<noteq> 226) e \<Longrightarrow> html_escape (e @ s) = e @ html_escape s"
  by (induction e) (auto simp: html_escape_Cons separator_byte)

lemma html_escape_backslash: "html_escape (backslash # s) = backslash # html_escape s"
proof -
  have "byte backslash \<noteq> 226" by (simp add: backslash_def byte_def)
  moreover have "backslash \<notin> set ''<>&''" by (simp add: backslash_def)
  ultimately show ?thesis by (intro html_escape_other separator_byte)
qed

lemma cont_keep: "list_all cont_byte ts \<Longrightarrow> list_all (\<lambda>a. a \<notin> set ''<>&'' \<and> byte a \<noteq> 226) ts"
  by (auto simp: list_all_iff cont_byte_def byte_def)

lemma hex_keep: "list_all is_hex h \<Longrightarrow> list_all (\<lambda>a. a \<notin> set ''<>&'' \<and> byte a \<noteq> 226) h"
  by (auto simp: list_all_iff is_hex_def is_digit_def byte_def)

text \<open>Bytes that continue a rune come out of the escaping only where they went in.\<close>

lemma html_escape_cont:
  "list_all cont_byte ts \<Longrightarrow> html_escape s = ts @ r \<Longrightarrow> \<exists>r'. s = ts @ r' \<and> html_escape r' = r"
proof (induction ts arbitrary: s)
  case (Cons t ts)
  then obtain a s' where s: "s = a # s'" by (cases s) auto
  have "t \<noteq> backslash" using Cons.prems(1) by (auto simp: cont_byte_def backslash_def byte_def)
  then have "a = t" "html_escape s' = ts @ r" using Cons.prems(2) by (auto simp: s html_escape_Cons split: if_splits)
  then show ?case using Cons.IH [of s'] Cons.prems(1) by (auto simp: s)
qed simp

inductive_cases body_ConsE: "body (c # b)"

lemma body_tail: "body (c # b) \<Longrightarrow> c \<noteq> backslash \<Longrightarrow> body b"
  by (auto elim: body_ConsE)

lemma separator_split:
  "separator s \<Longrightarrow> \<exists>a b c r. s = a # b # c # r \<and> byte a = 226 \<and> byte b = 128 \<and> (byte c = 168 \<or> byte c = 169)"
  by (auto simp: separator_def split: list.splits)

lemma escape_keep:
  assumes "escape_seq e"
  shows "list_all (\<lambda>a. a \<notin> set ''<>&'' \<and> byte a \<noteq> 226) e"
proof -
  have e: "scan_escape (e @ []) = Some (e, [])" using assms unfolding escape_seq_def by blast
  then show ?thesis
    using hex_keep [unfolded byte_def]
    by (auto simp: scan_escape_def quote_def backslash_def byte_def split: list.splits if_splits)
qed

lemma body_html_escape: "body b \<Longrightarrow> body (html_escape b)"
proof (induction "length b" arbitrary: b rule: less_induct)
  case less
  from less.prems show ?case
  proof cases
    case (body_byte c b')
    then have ih: "body (html_escape b')" using less by simp
    have u: "escape_seq (CHR ''u'' # hex_digits 4 n)" for n by (rule escape_u) (simp_all add: hex_digits_hex)
    consider (html) "c \<in> set ''<>&''" | (sep) "c \<notin> set ''<>&''" "separator (c # b')"
      | (other) "c \<notin> set ''<>&''" "\<not> separator (c # b')" by blast
    then show ?thesis
    proof cases
      case html
      then show ?thesis using body_escape [OF u ih] body_byte by (simp add: html_escape_Cons)
    next
      case sep
      then obtain b1 b2 r where b: "b' = b1 # b2 # r" "byte b1 = 128" "byte b2 = 168 \<or> byte b2 = 169"
        using separator_split by blast
      then have "b1 \<noteq> backslash" "b2 \<noteq> backslash" by (auto simp: byte_def backslash_def)
      then have "body r" using b(1) body_byte(3) body_tail by blast
      then have "body (html_escape r)" using less.hyps [of r] body_byte b by simp
      moreover have "escape_seq (''u202'' @ [hex_digit n])" if "n < 16" for n
        using escape_u [of "''202'' @ [hex_digit n]"] hex_digit_hex [OF that] by (simp add: is_hex_def [of "CHR ''2''"]
            is_hex_def [of "CHR ''0''"] is_digit_def byte_def)
      ultimately have "body (backslash # (''u202'' @ [hex_digit (byte b2 mod 16)]) @ html_escape r)"
        by (intro body_escape) simp_all
      with sep b body_byte show ?thesis by (simp add: html_escape_Cons)
    next
      case other
      then show ?thesis using body_byte ih by (simp add: html_escape_Cons body.body_byte)
    qed
  next
    case (body_escape e b')
    then have "html_escape b = backslash # e @ html_escape b'"
      using html_escape_keep [OF escape_keep] by (simp add: html_escape_backslash)
    then show ?thesis using body_escape less by (simp add: body.body_escape)
  qed (simp add: body_Nil)
qed

text \<open>Unquoting does not see the escapes. After a surrogate it looks at the escape that follows.\<close>

lemma hex_digits_4:
  "hex_digits 4 n = [hex_digit (n div 16 div 16 div 16 mod 16), hex_digit (n div 16 div 16 mod 16), hex_digit (n div 16 mod 16),
     hex_digit (n mod 16)]"
proof -
  have "(4::nat) = Suc (Suc (Suc (Suc 0)))" by simp
  then show ?thesis by (simp only: hex_digits.simps append.simps)
qed

lemma get_u4_head: "s = [] \<or> hd s \<noteq> backslash \<Longrightarrow> get_u4 s = None"
  by (cases s rule: get_u4.cases) auto

lemma escape_seq_cases:
  assumes "escape_seq e"
  obtains (letter) x where "e = [x]" "x \<noteq> CHR ''u''"
    | (hex) h where "e = CHR ''u'' # h" "length h = 4" "list_all is_hex h"
proof -
  have e: "scan_escape (e @ []) = Some (e, [])" using assms unfolding escape_seq_def by blast
  then show thesis
    by (auto simp: scan_escape_def quote_def backslash_def split: list.splits if_splits intro: that)
qed

lemma get_u4_html:
  assumes "body b"
  shows "(\<exists>h b'. b = backslash # CHR ''u'' # h @ b' \<and> length h = 4 \<and> list_all is_hex h \<and> body b' \<and> get_u4 b = Some (hex4 h)) \<or>
    get_u4 b = None \<and> (case get_u4 (html_escape b) of None \<Rightarrow> True | Some n \<Rightarrow> n < 55296)"
  using assms
proof cases
  case (body_byte c b')
  then have c: "c \<noteq> backslash" by (simp add: normal_byte_def)
  then have "get_u4 b = None" using body_byte get_u4_head by simp
  moreover have "case get_u4 (html_escape b) of None \<Rightarrow> True | Some n \<Rightarrow> n < 55296"
  proof -
    consider (html) "c \<in> set ''<>&''" | (sep) "c \<notin> set ''<>&''" "separator (c # b')"
      | (other) "c \<notin> set ''<>&''" "\<not> separator (c # b')" by blast
    then show ?thesis
    proof cases
      case html
      then have "byte c < 55296" "byte c < 65536" by (auto simp: byte_def)
      then show ?thesis using html body_byte get_u4_hex [OF _ hex_digits_hex, of 4 "byte c"] hex4_digits [of "byte c"]
        by (simp add: html_escape_Cons)
    next
      case sep
      then obtain b1 b2 r where b: "b' = b1 # b2 # r" "byte b2 = 168 \<or> byte b2 = 169" using separator_split by blast
      have "html_escape b = backslash # CHR ''u'' # hex_digits 4 (8224 + byte b2 mod 16) @ html_escape r"
        using sep b body_byte by (auto simp: html_escape_Cons hex_digits_4 hex_digit_def)
      moreover have "8224 + byte b2 mod 16 < 55296" using mod_less_divisor [of 16 "byte b2"] by linarith
      ultimately show ?thesis using get_u4_hex [OF _ hex_digits_hex, of 4 "8224 + byte b2 mod 16"] hex4_digits [of "8224 + byte b2 mod 16"]
        by simp
    next
      case other
      then have "get_u4 (html_escape b) = None" using body_byte c by (intro get_u4_head) (simp add: html_escape_other)
      then show ?thesis by simp
    qed
  qed
  ultimately show ?thesis by blast
next
  case (body_escape e b')
  from body_escape(2) show ?thesis
  proof (cases rule: escape_seq_cases)
    case (letter x)
    then have "get_u4 b = None" "get_u4 (html_escape b) = None"
      using body_escape html_escape_keep [OF escape_keep [OF body_escape(2)]] by (simp_all add: html_escape_backslash get_u4_other)
    then show ?thesis by simp
  next
    case (hex h)
    then show ?thesis using body_escape get_u4_hex [of h b'] by auto
  qed
qed simp

lemma unquote_surrogate:
  assumes "length h = 4" "list_all is_hex h" "55296 \<le> hex4 h" "hex4 h < 57344"
  shows "unquote (backslash # CHR ''u'' # h @ s) =
    (case get_u4 s of
       Some r \<Rightarrow>
         if hex4 h < 56320 \<and> 56320 \<le> r \<and> r < 57344
         then encode_rune (65536 + (hex4 h - 55296) * 1024 + (r - 56320)) @ unquote (drop 6 s)
         else encode_rune rune_error @ unquote s
     | None \<Rightarrow> encode_rune rune_error @ unquote s)"
proof -
  have d: "drop 5 (CHR ''u'' # h @ s) = s" "drop 11 (CHR ''u'' # h @ s) = drop 6 s" using assms(1) by simp_all
  have "get_u4 (backslash # CHR ''u'' # h @ s) = Some (hex4 h)" using get_u4_hex assms by simp
  then show ?thesis
    unfolding unquote.simps(2) [of backslash] d using assms(3,4) by (simp only: option.case simp_thms if_True)
qed

lemma unquote_u_hex:
  assumes "length h = 4" "list_all is_hex h" "\<not> (55296 \<le> hex4 h \<and> hex4 h < 57344)"
  shows "unquote (backslash # CHR ''u'' # h @ s) = encode_rune (hex4 h) @ unquote s"
proof -
  have d: "drop 5 (CHR ''u'' # h @ s) = s" using assms(1) by simp
  have "get_u4 (backslash # CHR ''u'' # h @ s) = Some (hex4 h)" using get_u4_hex assms by simp
  then show ?thesis
    unfolding unquote.simps(2) [of backslash] d by (simp only: if_not_P [OF assms(3)] option.case simp_thms if_True)
qed

lemma body_conts: "list_all cont_byte ts \<Longrightarrow> body (ts @ b) \<Longrightarrow> body b"
proof (induction ts)
  case (Cons t ts)
  then have "t \<noteq> backslash" by (auto simp: cont_byte_def backslash_def byte_def)
  with Cons show ?case by (auto dest: body_tail)
qed simp

text \<open>A whole rune is escaped or copied.\<close>

lemma html_escape_rune:
  assumes "\<not> byte c < 128" "cs = ts @ cs'" "list_all cont_byte ts"
    and d: "\<And>s. decode_rune (c # ts @ s) = (r, Suc (length ts))"
  shows "html_escape (c # cs) = (if separator (c # cs) then backslash # CHR ''u'' # hex_digits 4 r else c # ts) @ html_escape cs'"
    and "separator (c # cs) \<Longrightarrow> r = 8232 \<or> r = 8233"
proof -
  have c: "c \<notin> set ''<>&''" using assms(1) by (auto simp: byte_def)
  have sep: "(r = 8232 \<or> r = 8233) \<and> html_escape (c # cs) = backslash # CHR ''u'' # hex_digits 4 r @ html_escape cs'"
    if sp: "separator (c # cs)"
  proof -
    from separator_split [OF sp] obtain b1 b2 r2 where b: "byte c = 226" "cs = b1 # b2 # r2" "byte b1 = 128"
      "byte b2 = 168 \<or> byte b2 = 169"
      by blast
    then have "decode_rune (c # cs) = (8192 + (byte b2 - 128), 3)"
      by (auto simp: decode_rune.simps(2) second_of_three_def cont_byte_def)
    then have len: "length ts = 2" and r: "r = 8192 + (byte b2 - 128)" using assms(2) d [of cs'] by simp_all
    from len assms(2) b(2) have "cs' = r2" by (auto simp: length_Suc_conv numeral_2_eq_2)
    moreover have "html_escape (c # cs) = backslash # CHR ''u'' # hex_digits 4 r @ html_escape r2"
      using sp b c r by (auto simp: html_escape_Cons hex_digits_4 hex_digit_def)
    ultimately show ?thesis using r b(4) by auto
  qed
  then show "separator (c # cs) \<Longrightarrow> r = 8232 \<or> r = 8233" by blast
  show "html_escape (c # cs) = (if separator (c # cs) then backslash # CHR ''u'' # hex_digits 4 r else c # ts) @ html_escape cs'"
    using sep c assms(2) html_escape_keep [OF cont_keep [OF assms(3)]] by (simp add: html_escape_other)
qed

lemma unquote_html_high:
  assumes "\<not> byte c < 128" and "body cs"
    and "\<And>b. length b \<le> length cs \<Longrightarrow> body b \<Longrightarrow> unquote (html_escape b) = unquote b"
  shows "unquote (html_escape (c # cs)) = unquote (c # cs)"
proof -
  have c: "c \<noteq> backslash" "c \<notin> set ''<>&''" using assms(1) by (auto simp: backslash_def byte_def)
  have high: "unquote (c # s) = encode_rune (fst (decode_rune (c # s))) @ unquote (drop (snd (decode_rune (c # s)) - 1) s)" for s
    using assms(1) c by (simp add: unquote.simps(2))
  from assms(1) show ?thesis
  proof (cases rule: decode_high [where cs = cs])
    case bad
    have sep: "\<not> separator (c # cs)" using bad by (auto simp: separator_def decode_rune.simps(2) second_of_three_def cont_byte_def split: list.splits)
    from assms(1) have "decode_rune (c # html_escape cs) = (rune_error, 1)"
    proof (cases rule: decode_high [where cs = "html_escape cs"])
      case (good ts rest r)
      from html_escape_cont [OF good(3) good(1)] obtain r' where "cs = ts @ r'" by blast
      with good(2,6) bad show ?thesis by simp
    qed
    then show ?thesis using bad assms(2,3) sep c by (simp add: html_escape_other high)
  next
    case (good ts rest r)
    then have rest: "body rest" "unquote (html_escape rest) = unquote rest" using assms(2,3) body_conts by simp_all
    have plain: "unquote (c # ts @ s) = c # ts @ unquote s" for s using good(5,6) by (simp add: high)
    from html_escape_rune [OF assms(1) good(1,3,6)] have
      "unquote (html_escape (c # cs)) = encode_rune r @ unquote (html_escape rest)"
      using plain [of "html_escape rest"] good(5) unquote_u [of r "html_escape rest"] by (cases "separator (c # cs)") auto
    then show ?thesis using rest(2) good(1,5) plain [of rest] by simp
  qed
qed

lemma unquote_html_escape: "body b \<Longrightarrow> unquote (html_escape b) = unquote b"
proof (induction "length b" arbitrary: b rule: less_induct)
  case less
  from less.prems show ?case
  proof cases
    case (body_byte c b')
    then have ih: "unquote (html_escape b') = unquote b'" using less.hyps by simp
    have c: "c \<noteq> backslash" using body_byte by (simp add: normal_byte_def)
    show ?thesis
    proof (cases "byte c < 128")
      case True
      then have sep: "\<not> separator (c # b')" by (intro separator_byte) simp
      have "unquote (backslash # CHR ''u'' # hex_digits 4 (byte c) @ html_escape b') = c # unquote b'"
        using unquote_u [of "byte c" "html_escape b'"] True ih by (simp add: encode_ascii)
      then show ?thesis using body_byte sep ih unquote_byte [OF True c] by (simp add: html_escape_Cons)
    next
      case False
      then show ?thesis using unquote_html_high [OF False body_byte(3)] less.hyps body_byte(1) by (simp add: less_Suc_eq_le)
    qed
  next
    case (body_escape e b')
    then have ih: "unquote (html_escape b') = unquote b'" using less.hyps by simp
    have out: "html_escape b = backslash # e @ html_escape b'"
      using body_escape html_escape_keep [OF escape_keep] by (simp add: html_escape_backslash)
    from body_escape(2) show ?thesis
    proof (cases rule: escape_seq_cases)
      case (letter x)
      then show ?thesis using out body_escape(1) ih unquote_letter by simp
    next
      case (hex h)
      show ?thesis
      proof (cases "55296 \<le> hex4 h \<and> hex4 h < 57344")
        case False
        then show ?thesis using out body_escape(1) ih hex unquote_u_hex by simp
      next
        case True
        note sur = unquote_surrogate [OF hex(2,3) True [THEN conjunct1] True [THEN conjunct2]]
        from get_u4_html [OF body_escape(3)] show ?thesis
        proof (elim disjE exE conjE)
          fix h' b''
          assume b': "b' = backslash # CHR ''u'' # h' @ b''" "length h' = 4" "list_all is_hex h'" "body b''"
            and u: "get_u4 b' = Some (hex4 h')"
          have esc: "html_escape b' = backslash # CHR ''u'' # h' @ html_escape b''"
            using b'(1) html_escape_keep [OF escape_keep [OF escape_u [OF b'(2,3)]]] by (simp add: html_escape_backslash)
          then have "get_u4 (html_escape b') = Some (hex4 h')" "drop 6 (html_escape b') = html_escape b''" "drop 6 b' = b''"
            using get_u4_hex [OF b'(2,3)] b'(1,2) by simp_all
          moreover have "unquote (html_escape b'') = unquote b''"
            using b' body_escape(1) by (intro less.hyps) simp_all
          ultimately show ?thesis using out body_escape(1) hex(1) ih u by (simp add: sur)
        next
          assume "get_u4 b' = None" "case get_u4 (html_escape b') of None \<Rightarrow> True | Some n \<Rightarrow> n < 55296"
          then show ?thesis using out body_escape(1) hex(1) ih by (simp add: sur split: option.splits)
        qed
      qed
    qed
  qed simp
qed

end
