(* ===== verification/JsonLayout.thy ===== *)
theory JsonLayout
  imports JsonText JsonDoc
begin

text \<open>
  \<open>json.MarshalIndent\<close> with two blanks: the layout of a document, and the theorem that scanning it gives
  the document back, with the new texts in the places of the raw ones.
\<close>

section \<open>Layout\<close>

definition line_break :: "nat \<Rightarrow> bytes" where
  "line_break n = CHR 0x0A # replicate (2 * n) (CHR '' '')"

fun pretty :: "nat \<Rightarrow> json \<Rightarrow> bytes" where
  "pretty n (JArr _ js) =
     (if js = [] then ''[]''
      else CHR ''['' # line_break (Suc n) @ join_with (CHR '','' # line_break (Suc n)) (map (pretty (Suc n)) js) @
        line_break n @ '']'')"
| "pretty n (JObj _ ms) =
     (if ms = [] then ''{}''
      else CHR ''{'' # line_break (Suc n) @
        join_with (CHR '','' # line_break (Suc n)) (map (\<lambda>m. quote # fst m @ [quote] @ '': '' @ pretty (Suc n) (snd m)) ms) @
        line_break n @ ''}'')"
| "pretty n j = raw_of j"

text \<open>The tree of that text.\<close>

fun retext :: "nat \<Rightarrow> json \<Rightarrow> json" where
  "retext n (JArr r js) = JArr (pretty n (JArr r js)) (map (retext (Suc n)) js)"
| "retext n (JObj r ms) = JObj (pretty n (JObj r ms)) (map (\<lambda>m. (fst m, retext (Suc n) (snd m))) ms)"
| "retext n j = j"

lemma raw_of_retext [simp]: "raw_of (retext n j) = pretty n j"
  by (cases j) simp_all

fun nesting :: "json \<Rightarrow> nat" where
  "nesting (JArr _ js) = Suc (foldr (max \<circ> nesting) js 0)"
| "nesting (JObj _ ms) = Suc (foldr (\<lambda>m. max (nesting (snd m))) ms 0)"
| "nesting _ = 0"

fun calls :: "json \<Rightarrow> nat" where
  "calls (JArr _ js) = Suc (length js + sum_list (map calls js))"
| "calls (JObj _ ms) = Suc (length ms + sum_list (map (\<lambda>m. calls (snd m)) ms))"
| "calls _ = 1"

text \<open>The literals are texts that the scanner takes for what they are.\<close>

definition number_text :: "bytes \<Rightarrow> bool" where
  "number_text t \<longleftrightarrow> (\<forall>r. num_end r \<longrightarrow> scan_number (t @ r) = Some (t, r)) \<and>
     (\<exists>c cs. t = c # cs \<and> (is_digit c \<or> c = CHR ''-''))"

fun literals :: "json \<Rightarrow> bool" where
  "literals (JNum t) = number_text t"
| "literals (JStr b) = body b"
| "literals (JArr _ js) = list_all literals js"
| "literals (JObj _ ms) = list_all (\<lambda>m. body (fst m) \<and> literals (snd m)) ms"
| "literals _ = True"

section \<open>Scanning white space\<close>

lemma skip_line_break [simp]: "skip_space (line_break n @ s) = skip_space s"
proof -
  have "json_space c" if "c \<in> set (line_break n)" for c using that by (auto simp: line_break_def json_space_def byte_def)
  then show ?thesis by (simp add: skip_space_def dropWhile_append2)
qed

lemma parse_value_space: "skip_space s = skip_space t \<Longrightarrow> parse_value f d s = parse_value f d t"
  by (cases f) (simp_all add: parse_value.simps)

lemma parse_value_break [simp]: "parse_value f d (line_break n @ s) = parse_value f d s"
  by (rule parse_value_space) simp

lemma parse_value_blank [simp]: "parse_value f d (CHR '' '' # s) = parse_value f d s"
  by (rule parse_value_space) (simp add: skip_space_def json_space_def byte_def)

lemma parse_elems_break [simp]: "parse_elems f d (line_break n @ s) = parse_elems f d s"
  by (cases f) (simp_all add: parse_elems.simps)

lemma parse_members_break [simp]: "parse_members f d (line_break n @ s) = parse_members f d s"
  by (cases f) (simp_all add: parse_members.simps)

lemma num_end_break [simp]: "num_end (line_break n @ s)"
  by (simp add: line_break_def num_end_def is_digit_def byte_def)

section \<open>Numbers\<close>

lemma takeWhile_all: "list_all P t \<Longrightarrow> takeWhile P (t @ s) = t @ takeWhile P s"
  by (simp add: list_all_iff takeWhile_append)

lemma dropWhile_all: "list_all P t \<Longrightarrow> dropWhile P (t @ s) = dropWhile P s"
  by (simp add: list_all_iff)

lemma list_all_takeWhile: "list_all P (takeWhile P s)"
  by (auto simp: list_all_iff dest: set_takeWhileD)

definition no_digit :: "bytes \<Rightarrow> bool" where
  "no_digit r \<longleftrightarrow> takeWhile is_digit r = [] \<and> dropWhile is_digit r = r"

lemma num_end_no_digit: "num_end r \<Longrightarrow> no_digit r"
  by (auto simp: num_end_def no_digit_def split: list.splits)

lemma digits_rest: "list_all is_digit t \<Longrightarrow> no_digit r \<Longrightarrow> takeWhile is_digit (t @ r) = t \<and> dropWhile is_digit (t @ r) = r"
  by (simp add: takeWhile_all dropWhile_all no_digit_def)

lemma scan_int_keep: "scan_int s = Some (i, s') \<Longrightarrow> no_digit r \<Longrightarrow> scan_int (i @ r) = Some (i, r)"
  by (auto simp: scan_int_def digits_rest list_all_takeWhile split: list.splits if_splits)

lemma scan_frac_keep:
  assumes "scan_frac s = Some (f, s')" "no_digit r" "f = [] \<Longrightarrow> \<exists>t. scan_frac r = Some ([], t)"
  shows "scan_frac (f @ r) = Some (f, r)"
  using assms by (auto simp: scan_frac_def digits_rest list_all_takeWhile split: list.splits if_splits)

lemma scan_exp_keep:
  assumes "scan_exp s = Some (e, s')" "num_end r"
  shows "scan_exp (e @ r) = Some (e, r)"
proof -
  have d: "takeWhile is_digit (takeWhile is_digit t @ r) = takeWhile is_digit t"
    "dropWhile is_digit (takeWhile is_digit t @ r) = r" for t
    using digits_rest [OF list_all_takeWhile num_end_no_digit [OF assms(2)]] by simp_all
  have sign: "scan_sign (sgn @ takeWhile is_digit ds @ r) = (sgn, takeWhile is_digit ds @ r)"
    if s: "scan_sign cs = (sgn, ds)" "takeWhile is_digit ds \<noteq> []" for cs sgn ds
  proof -
    obtain x xs where x: "takeWhile is_digit ds = x # xs" "is_digit x"
      using s(2) list_all_takeWhile [of is_digit ds] by (cases "takeWhile is_digit ds") auto
    then have "x \<noteq> CHR ''+''" "x \<noteq> CHR ''-''" by (auto simp: is_digit_def byte_def)
    then show ?thesis using s(1) x by (auto simp: scan_sign_def split: list.splits if_splits)
  qed
  show ?thesis
  proof (cases e)
    case Nil
    then show ?thesis using assms(2) by (auto simp: scan_exp_def num_end_def split: list.splits)
  next
    case (Cons c cs)
    with assms(1) obtain cs' sgn ds where "c = CHR ''e'' \<or> c = CHR ''E''" "scan_sign cs' = (sgn, ds)"
      "takeWhile is_digit ds \<noteq> []" "cs = sgn @ takeWhile is_digit ds"
      by (auto simp: scan_exp_def split: list.splits if_splits prod.splits)
    then show ?thesis using Cons sign d by (auto simp: scan_exp_def)
  qed
qed

lemma scan_number_parts:
  assumes "scan_number s = Some (t, s')"
  shows "\<exists>m s0 i s1 f s2 e. (m = [] \<or> m = ''-'') \<and> scan_int s0 = Some (i, s1) \<and> scan_frac s1 = Some (f, s2) \<and>
    scan_exp s2 = Some (e, s') \<and> t = m @ i @ f @ e"
proof -
  define p where "p = (case s of [] \<Rightarrow> ([], []) | c # cs \<Rightarrow> if c = CHR ''-'' then ([c], cs) else ([], s))"
  have m: "fst p = [] \<or> fst p = ''-''" by (auto simp: p_def split: list.splits if_splits)
  have "scan_number s = (case scan_int (snd p) of None \<Rightarrow> None | Some (i, s1) \<Rightarrow>
      (case scan_frac s1 of None \<Rightarrow> None | Some (f, s2) \<Rightarrow>
      (case scan_exp s2 of None \<Rightarrow> None | Some (e, s3) \<Rightarrow> Some (fst p @ i @ f @ e, s3))))"
    by (simp only: scan_number_def Let_def p_def [symmetric] case_prod_beta)
  with assms have "\<exists>i s1 f s2 e. scan_int (snd p) = Some (i, s1) \<and> scan_frac s1 = Some (f, s2) \<and>
      scan_exp s2 = Some (e, s') \<and> t = fst p @ i @ f @ e"
    by (auto split: option.splits)
  with m show ?thesis by blast
qed

lemma scan_int_head: "scan_int s = Some (i, r) \<Longrightarrow> \<exists>c cs. i = c # cs \<and> is_digit c"
proof (cases s)
  case (Cons c cs)
  have zero: "is_digit (CHR ''0'')" by (simp add: is_digit_def byte_def)
  assume "scan_int s = Some (i, r)"
  then have "(c = CHR ''0'' \<or> is_digit c) \<and> (\<exists>t. i = c # t)"
    unfolding Cons scan_int_def list.case by (metis option.distinct(1) option.inject prod.inject)
  with zero show ?thesis by blast
qed (simp add: scan_int_def)

lemma scan_number_text:
  assumes "scan_number s = Some (t, s')"
  shows "number_text t"
proof -
  obtain m s0 i s1 f s2 e where minus_only: "m = [] \<or> m = ''-''" and i: "scan_int s0 = Some (i, s1)"
    and f: "scan_frac s1 = Some (f, s2)" and e: "scan_exp s2 = Some (e, s')" and t: "t = m @ i @ f @ e"
    using scan_number_parts [OF assms] by blast
  from scan_int_head [OF i] obtain c cs where c: "i = c # cs" "is_digit c" by blast
  then have minus: "c \<noteq> CHR ''-''" by (auto simp: is_digit_def byte_def)
  have "scan_number (t @ r) = Some (t, r)" if r: "num_end r" for r
  proof -
    have e': "scan_exp (e @ r) = Some (e, r)" by (rule scan_exp_keep [OF e r])
    have en: "no_digit (e @ r)" "\<exists>t. scan_frac (e @ r) = Some ([], t)"
      using e r num_end_no_digit [OF r]
      by (cases e; auto simp: scan_exp_def scan_frac_def num_end_def no_digit_def is_digit_def byte_def
          split: list.splits if_splits prod.splits)+
    have f': "scan_frac (f @ e @ r) = Some (f, e @ r)" by (rule scan_frac_keep [OF f en(1)]) (rule en(2))
    have "no_digit (f @ e @ r)"
      using f en(1) by (cases f; auto simp: scan_frac_def no_digit_def is_digit_def byte_def split: list.splits if_splits)
    then have "scan_int (i @ f @ e @ r) = Some (i, f @ e @ r)" by (rule scan_int_keep [OF i])
    then show ?thesis
      using e' f' minus c(1) minus_only by (auto simp: t scan_number_def)
  qed
  moreover have "\<exists>c cs. t = c # cs \<and> (is_digit c \<or> c = CHR ''-'')"
    using c minus_only by (auto simp: t)
  ultimately show ?thesis by (simp add: number_text_def)
qed

lemma decimal_number_text: "number_text (decimal n)"
  unfolding number_text_def
proof (intro conjI allI impI)
  obtain c cs where c: "decimal n = c # cs" using decimal_digits [of n] by (cases "decimal n") auto
  then show "\<exists>c cs. decimal n = c # cs \<and> (is_digit c \<or> c = CHR ''-'')" using decimal_digits [of n] by auto
  fix r assume r: "num_end r"
  have "is_digit c" using decimal_digits [of n] c by simp
  then have "c \<noteq> quote" "\<not> has_prefix (c # cs @ r) ''true''" "\<not> has_prefix (c # cs @ r) ''false''" "\<not> has_prefix (c # cs @ r) ''null''"
    by (auto simp: is_digit_def quote_def byte_def)
  then show "scan_number (decimal n @ r) = Some (decimal n, r)"
    using scan_literal_decimal [OF r, of n] by (auto simp: c scan_literal_def)
qed

lemma scan_literal_literals: "scan_literal s = Some (j, r) \<Longrightarrow> literals j"
  by (auto simp: scan_literal_def split: list.splits if_splits dest: scan_body scan_number_text)

lemma parse_literals:
  "(\<forall>d s j r. parse_value f d s = Parsed j r \<longrightarrow> literals j) \<and>
   (\<forall>d s js r. parse_elems f d s = Parsed js r \<longrightarrow> list_all literals js) \<and>
   (\<forall>d s ms r. parse_members f d s = Parsed ms r \<longrightarrow> list_all (\<lambda>m. body (fst m) \<and> literals (snd m)) ms)"
proof (induction f)
  case 0
  show ?case by (simp add: parse_unfold)
next
  case (Suc f)
  then have IHv: "\<And>d s j r. parse_value f d s = Parsed j r \<Longrightarrow> literals j"
    and IHe: "\<And>d s js r. parse_elems f d s = Parsed js r \<Longrightarrow> list_all literals js"
    and IHm: "\<And>d s ms r. parse_members f d s = Parsed ms r \<Longrightarrow> list_all (\<lambda>m. body (fst m) \<and> literals (snd m)) ms"
    by blast+
  have V: "literals j" if "parse_value (Suc f) d s = Parsed j r" for d s j r
    using that by (cases rule: parse_value_cases) (auto dest: scan_literal_literals IHe IHm)
  have E: "list_all literals js" if "parse_elems (Suc f) d s = Parsed js r" for d s js r
    using that by (cases rule: parse_elems_cases) (auto dest: IHv IHe)
  have M: "list_all (\<lambda>m. body (fst m) \<and> literals (snd m)) ms" if "parse_members (Suc f) d s = Parsed ms r" for d s ms r
    using that by (cases rule: parse_members_cases) (auto dest: scan_body IHv IHm)
  from V E M show ?case by blast
qed

lemma parse_json_literals: "parse_json s = Parsed j r \<Longrightarrow> literals j"
  using parse_literals unfolding parse_json_def by blast

section \<open>Scanning a layout\<close>

definition scans :: "json \<Rightarrow> bool" where
  "scans j \<longleftrightarrow> (\<forall>f d n r. calls j \<le> f \<and> d + nesting j \<le> max_nesting_depth \<and> num_end r \<longrightarrow>
     parse_value f d (pretty n j @ r) = Parsed (retext n j) r)"

lemma nesting_list: "j \<in> set js \<Longrightarrow> nesting j \<le> foldr (max \<circ> nesting) js 0"
  by (induction js) auto

lemma nesting_members: "m \<in> set ms \<Longrightarrow> nesting (snd m) \<le> foldr (\<lambda>m. max (nesting (snd m))) ms 0"
  by (induction ms) auto

lemma elems_pretty:
  assumes "js \<noteq> []" "\<And>j. j \<in> set js \<Longrightarrow> scans j \<and> d + nesting j \<le> max_nesting_depth"
    "length js + sum_list (map calls js) \<le> f"
  shows "parse_elems f d (join_with (CHR '','' # line_break n) (map (pretty n) js) @ line_break m @ CHR '']'' # r) =
    Parsed (map (retext n) js) r"
  using assms
proof (induction js arbitrary: f)
  case (Cons j js)
  obtain f' where f: "f = Suc f'" using Cons.prems(3) by (cases f) auto
  have x: "parse_value f' d (pretty n j @ s) = Parsed (retext n j) s" if "num_end s" for s
    using Cons.prems that by (simp add: scans_def f)
  show ?case
  proof (cases js)
    case Nil
    then show ?thesis by (simp add: f parse_elems.simps x skip_space_head)
  next
    case (Cons y ys)
    have "parse_elems f' d (join_with (CHR '','' # line_break n) (map (pretty n) js) @ line_break m @ CHR '']'' # r) =
        Parsed (map (retext n) js) r"
      using Cons Cons.prems by (intro Cons.IH) (auto simp: f)
    then show ?thesis by (simp add: f Cons parse_elems.simps x skip_space_head)
  qed
qed simp

lemma members_pretty:
  assumes "ms \<noteq> []" "\<And>m. m \<in> set ms \<Longrightarrow> scans (snd m) \<and> body (fst m) \<and> d + nesting (snd m) \<le> max_nesting_depth"
    "length ms + sum_list (map (\<lambda>m. calls (snd m)) ms) \<le> f"
  shows "parse_members f d
      (join_with (CHR '','' # line_break n) (map (\<lambda>m. quote # fst m @ [quote] @ '': '' @ pretty n (snd m)) ms) @
       line_break k @ CHR ''}'' # r) =
    Parsed (map (\<lambda>m. (fst m, retext n (snd m))) ms) r"
  using assms
proof (induction ms arbitrary: f)
  case (Cons m ms)
  obtain f' where f: "f = Suc f'" using Cons.prems(3) by (cases f) auto
  have x: "parse_value f' d (pretty n (snd m) @ s) = Parsed (retext n (snd m)) s" if "num_end s" for s
    using Cons.prems that by (simp add: scans_def f)
  have key: "scan_string (fst m @ quote # s) = Some (fst m, s)" for s
    using Cons.prems(2) [of m] by (simp add: body_scan)
  show ?case
  proof (cases ms)
    case Nil
    then show ?thesis by (simp add: f parse_members.simps x key skip_space_head)
  next
    case (Cons m' ms')
    have "parse_members f' d
        (join_with (CHR '','' # line_break n) (map (\<lambda>m. quote # fst m @ [quote] @ '': '' @ pretty n (snd m)) ms) @
         line_break k @ CHR ''}'' # r) =
      Parsed (map (\<lambda>m. (fst m, retext n (snd m))) ms) r"
      using Cons Cons.prems by (intro Cons.IH) (auto simp: f)
    then show ?thesis by (simp add: f Cons parse_members.simps x key skip_space_head)
  qed
qed simp

lemma pretty_head: "literals j \<Longrightarrow> \<exists>c cs. pretty n j = c # cs \<and> \<not> json_space c \<and> c \<noteq> CHR '']'' \<and> c \<noteq> CHR ''}''"
proof (cases j)
  case (JNum t)
  assume "literals j"
  then obtain c cs where "t = c # cs" "is_digit c \<or> c = CHR ''-''" by (auto simp: JNum number_text_def)
  then show ?thesis by (auto simp: JNum is_digit_def json_space_def byte_def)
qed (auto simp: json_space_def quote_def byte_def)

lemma scans_JArr:
  assumes "\<And>j. j \<in> set js \<Longrightarrow> scans j" "list_all literals js"
  shows "scans (JArr r0 js)"
  unfolding scans_def
proof (intro allI impI)
  fix f d n r assume a: "calls (JArr r0 js) \<le> f \<and> d + nesting (JArr r0 js) \<le> max_nesting_depth \<and> num_end r"
  then obtain f' where f: "f = Suc f'" by (cases f) auto
  show "parse_value f d (pretty n (JArr r0 js) @ r) = Parsed (retext n (JArr r0 js)) r"
  proof (cases "js = []")
    case True
    then show ?thesis using a by (simp add: f parse_value.simps skip_space_head text_upto_def)
  next
    case False
    then obtain y ys where y: "js = y # ys" by (cases js) auto
    let ?body = "join_with (CHR '','' # line_break (Suc n)) (map (pretty (Suc n)) js) @ line_break n @ CHR '']'' # r"
    have e: "parse_elems f' (Suc d) ?body = Parsed (map (retext (Suc n)) js) r"
      using a assms(1) False nesting_list [of _ js] by (intro elems_pretty) (fastforce simp: f)+
    obtain c cs where c: "?body = c # cs" "\<not> json_space c" "c \<noteq> CHR '']''"
      using pretty_head [of y "Suc n"] assms(2) y by (auto simp: join_with_head simp del: join_with.simps)
    have "CHR ''['' # line_break (Suc n) @ ?body = pretty n (JArr r0 js) @ r" using False by simp
    then have t: "text_upto (CHR ''['' # line_break (Suc n) @ ?body) r = pretty n (JArr r0 js)" by (simp only: text_upto_append)
    have "parse_value f d (CHR ''['' # line_break (Suc n) @ ?body) =
        Parsed (JArr (text_upto (CHR ''['' # line_break (Suc n) @ ?body) r) (map (retext (Suc n)) js)) r"
      using a e c by (simp add: f parse_value.simps skip_space_head)
    then show ?thesis unfolding t using False by simp
  qed
qed

lemma scans_JObj:
  assumes "\<And>m. m \<in> set ms \<Longrightarrow> scans (snd m) \<and> body (fst m)"
  shows "scans (JObj r0 ms)"
  unfolding scans_def
proof (intro allI impI)
  fix f d n r assume a: "calls (JObj r0 ms) \<le> f \<and> d + nesting (JObj r0 ms) \<le> max_nesting_depth \<and> num_end r"
  then obtain f' where f: "f = Suc f'" by (cases f) auto
  show "parse_value f d (pretty n (JObj r0 ms) @ r) = Parsed (retext n (JObj r0 ms)) r"
  proof (cases "ms = []")
    case True
    then show ?thesis using a by (simp add: f parse_value.simps skip_space_head text_upto_def)
  next
    case False
    let ?body = "join_with (CHR '','' # line_break (Suc n))
        (map (\<lambda>m. quote # fst m @ [quote] @ '': '' @ pretty (Suc n) (snd m)) ms) @ line_break n @ CHR ''}'' # r"
    have e: "parse_members f' (Suc d) ?body = Parsed (map (\<lambda>m. (fst m, retext (Suc n) (snd m))) ms) r"
      using a assms False nesting_members [of _ ms] by (intro members_pretty) (fastforce simp: f)+
    obtain cs where c: "?body = quote # cs"
      using False by (cases ms) (auto simp: join_with_head simp del: join_with.simps)
    have "CHR ''{'' # line_break (Suc n) @ ?body = pretty n (JObj r0 ms) @ r" using False by simp
    then have t: "text_upto (CHR ''{'' # line_break (Suc n) @ ?body) r = pretty n (JObj r0 ms)" by (simp only: text_upto_append)
    have "parse_value f d (CHR ''{'' # line_break (Suc n) @ ?body) =
        Parsed (JObj (text_upto (CHR ''{'' # line_break (Suc n) @ ?body) r) (map (\<lambda>m. (fst m, retext (Suc n) (snd m))) ms)) r"
      using a e c by (simp add: f parse_value.simps skip_space_head)
    then show ?thesis unfolding t using False by simp
  qed
qed

lemma scans_literal:
  assumes "\<And>r. num_end r \<Longrightarrow> scan_literal (t @ r) = Some (j, r)" "\<And>n. pretty n j = t" "\<And>n. retext n j = j"
    and "\<exists>c cs. t = c # cs \<and> \<not> json_space c \<and> c \<noteq> CHR ''['' \<and> c \<noteq> CHR ''{''"
    and "calls j = 1"
  shows "scans j"
proof -
  obtain c cs where c: "t = c # cs" "\<not> json_space c" "c \<noteq> CHR ''[''" "c \<noteq> CHR ''{''" using assms(4) by blast
  show ?thesis
    unfolding scans_def
  proof (intro allI impI)
    fix f d n r assume a: "calls j \<le> f \<and> d + nesting j \<le> max_nesting_depth \<and> num_end r"
    then obtain f' where f: "f = Suc f'" using assms(5) by (cases f) auto
    show "parse_value f d (pretty n j @ r) = Parsed (retext n j) r"
      using assms(1) [of r] a c by (simp add: f parse_value.simps skip_space_head assms(2,3))
  qed
qed

lemma scans_literals: "literals j \<Longrightarrow> scans j"
proof (induction j)
  case JNull
  show ?case
    by (rule scans_literal [of "''null''"]) (simp_all add: scan_literal_def quote_def json_space_def byte_def numeral_eq_Suc)
next
  case (JBool b)
  show ?case
    by (rule scans_literal [of "if b then ''true'' else ''false''"])
      (simp_all add: scan_literal_def quote_def json_space_def byte_def numeral_eq_Suc)
next
  case (JNum t)
  then obtain c cs where t: "t = c # cs" "is_digit c \<or> c = CHR ''-''" by (auto simp: number_text_def)
  then have c: "c \<noteq> quote" "c \<noteq> CHR ''t''" "c \<noteq> CHR ''f''" "c \<noteq> CHR ''n''" "\<not> json_space c" "c \<noteq> CHR ''[''" "c \<noteq> CHR ''{''"
    by (auto simp: is_digit_def json_space_def quote_def byte_def)
  show ?case
  proof (rule scans_literal [of t])
    fix r assume "num_end r"
    then have "scan_number (t @ r) = Some (t, r)" using JNum by (simp add: number_text_def)
    then show "scan_literal (t @ r) = Some (JNum t, r)" using t c by (simp add: scan_literal_def)
  qed (use t c in auto)
next
  case (JStr b)
  then have "scan_literal ((quote # b @ [quote]) @ r) = Some (JStr b, r)" for r by (simp add: body_scan)
  then show ?case
    by (intro scans_literal [of "quote # b @ [quote]"]) (simp_all, simp add: quote_def)
next
  case (JArr r js)
  then show ?case by (intro scans_JArr) (auto simp: list_all_iff)
next
  case (JObj r ms)
  then have "scans (snd m) \<and> body (fst m)" if "m \<in> set ms" for m
    using that by (cases m) (auto simp: list_all_iff)
  then show ?case by (rule scans_JObj)
qed

lemma length_join_with:
  "xs \<noteq> [] \<Longrightarrow> length xs + sum_list (map length xs) \<le> Suc (length (join_with (c # d) xs))"
  by (induction xs rule: induct_list012) auto

lemma calls_le: "literals j \<Longrightarrow> calls j \<le> 2 * length (pretty n j)"
proof (induction j arbitrary: n)
  case (JNum t)
  then show ?case by (auto simp: number_text_def)
next
  case (JArr r js)
  have "sum_list (map calls js) \<le> sum_list (map (\<lambda>x. 2 * length (pretty (Suc n) x)) js)"
    using JArr by (intro sum_list_mono) (auto simp: list_all_iff)
  also have "\<dots> = 2 * sum_list (map length (map (pretty (Suc n)) js))" by (simp add: sum_list_const_mult comp_def)
  finally show ?case
    using length_join_with [of "map (pretty (Suc n)) js" "CHR '',''" "line_break (Suc n)"] by (cases "js = []") auto
next
  case (JObj r ms)
  let ?g = "\<lambda>m. quote # fst m @ [quote] @ '': '' @ pretty (Suc n) (snd m)"
  have "calls (snd m) \<le> 2 * length (?g m)" if "m \<in> set ms" for m
  proof -
    have "calls (snd m) \<le> 2 * length (pretty (Suc n) (snd m))"
      using that JObj.prems JObj.IH [OF that, of "snd m"] by (auto simp: list_all_iff snds.simps)
    then show ?thesis by simp
  qed
  then have "sum_list (map (\<lambda>m. calls (snd m)) ms) \<le> sum_list (map (\<lambda>m. 2 * length (?g m)) ms)"
    by (intro sum_list_mono) blast
  also have "\<dots> = 2 * sum_list (map length (map ?g ms))" by (simp only: sum_list_const_mult map_map comp_def)
  finally show ?case
    using length_join_with [of "map ?g ms" "CHR '',''" "line_break (Suc n)"] by (cases "ms = []") auto
qed auto

text \<open>The round trip, with any text behind the document that cannot continue a number.\<close>

lemma parse_pretty:
  assumes "literals j" "nesting j \<le> max_nesting_depth" "num_end r"
  shows "parse_json (pretty n j @ r) = Parsed (retext n j) r"
  using scans_literals [OF assms(1)] calls_le [OF assms(1), of n] assms(2,3)
  by (simp add: scans_def parse_json_def)

end
