(* ===== verification/JsonValue.thy ===== *)
theory JsonValue
  imports JsonLayout
begin

text \<open>
  \<open>json.MarshalIndent\<close> on Go values: what the encoder makes of the kinds of value that the controller
  stores, and the general round trip: the text is decoded to what the decoders make of the tree.
\<close>

section \<open>Values\<close>

text \<open>What reflection shows the encoder. \<open>VRaw\<close> is the text that a \<open>MarshalJSON\<close> method returned and
  \<open>VFailed\<close> its error.\<close>

datatype val =
    VBool bool
  | VInt int
  | VUint nat
  | VStr bytes
  | VRaw bytes
  | VFailed
  | VList "val list"
  | VStruct "(bytes \<times> val) list"

definition int_digits :: "int \<Rightarrow> bytes" where
  "int_digits n = (if n < 0 then CHR ''-'' # decimal (nat (- n)) else decimal (nat n))"

text \<open>The output of a method is compacted and its HTML characters are escaped.\<close>

fun escaped :: "json \<Rightarrow> json" where
  "escaped (JStr b) = JStr (html_escape b)"
| "escaped (JArr r js) = JArr [] (map escaped js)"
| "escaped (JObj r ms) = JObj [] (map (\<lambda>m. (html_escape (fst m), escaped (snd m))) ms)"
| "escaped j = j"

definition raw_tree :: "bytes \<Rightarrow> json" where
  "raw_tree m = (case parse_json m of Parsed j _ \<Rightarrow> j | _ \<Rightarrow> JNull)"

fun tree_of :: "val \<Rightarrow> json" where
  "tree_of (VBool b) = JBool b"
| "tree_of (VInt n) = JNum (int_digits n)"
| "tree_of (VUint n) = JNum (decimal n)"
| "tree_of (VStr s) = JStr (quote_body s)"
| "tree_of (VRaw m) = escaped (raw_tree m)"
| "tree_of VFailed = JNull"
| "tree_of (VList vs) = JArr [] (map tree_of vs)"
| "tree_of (VStruct ms) = JObj [] (map (\<lambda>m. (quote_body (fst m), tree_of (snd m))) ms)"

text \<open>Encoding fails when a method failed or returned something that is not JSON, and laying out fails
  when values are nested too deeply.\<close>

definition is_json :: "bytes \<Rightarrow> bool" where
  "is_json m = (case parse_json m of Parsed _ r \<Rightarrow> skip_space r = [] | _ \<Rightarrow> False)"

fun encodable :: "val \<Rightarrow> bool" where
  "encodable (VRaw m) = is_json m"
| "encodable VFailed = False"
| "encodable (VList vs) = list_all encodable vs"
| "encodable (VStruct ms) = list_all (\<lambda>m. encodable (snd m)) ms"
| "encodable _ = True"

definition MarshalIndent :: "val \<Rightarrow> bytes option" where
  "MarshalIndent v =
     (if encodable v \<and> nesting (tree_of v) \<le> max_nesting_depth then Some (pretty 0 (tree_of v)) else None)"

section \<open>The tree of a value\<close>

lemma literals_escaped: "literals j \<Longrightarrow> literals (escaped j)"
  by (induction j) (auto simp: list_all_iff body_html_escape snds.simps)

lemma literals_raw: "literals (raw_tree m)"
  by (simp add: raw_tree_def parse_json_literals split: parsed.split)

lemma number_text_int: "number_text (int_digits n)"
proof (cases "n < 0")
  case True
  have "scan_number ((CHR ''-'' # decimal (nat (- n))) @ r) = Some (CHR ''-'' # decimal (nat (- n)), r)" if r: "num_end r" for r
  proof -
    have "scan_frac r = Some ([], r)" "scan_exp r = Some ([], r)"
      using r by (auto simp: num_end_def scan_frac_def scan_exp_def split: list.splits)
    then show ?thesis using scan_int_decimal [OF r] by (simp add: scan_number_def)
  qed
  with True show ?thesis by (simp add: number_text_def int_digits_def)
qed (simp add: int_digits_def decimal_number_text)

lemma literals_tree_of: "literals (tree_of v)"
  by (induction v)
    (auto simp: list_all_iff body_quote_body literals_escaped literals_raw number_text_int decimal_number_text snds.simps)

section \<open>Valid text\<close>

lemma utf8_valid_append: "utf8_valid a \<Longrightarrow> utf8_valid b \<Longrightarrow> utf8_valid (a @ b)"
proof (induction a rule: utf8_valid.induct)
  case (2 c cs)
  show ?case
  proof (cases "byte c < 128")
    case True
    with 2 show ?thesis by simp
  next
    case False
    then show ?thesis
    proof (cases rule: decode_high [where cs = cs])
      case bad
      with 2 show ?thesis by (simp add: utf8_valid.simps(2))
    next
      case (good ts rest r)
      have d: "decode_rune (c # cs @ b) = decode_rune (c # cs)" using good(1,6) by simp
      have "drop (length ts) cs @ b = drop (length ts) (cs @ b)" using good(1) by simp
      then show ?thesis using 2 good(1,6) by (simp add: utf8_valid.simps(2) d)
    qed
  qed
qed simp

lemma utf8_valid_ascii_append: "list_all (\<lambda>c. byte c < 128) a \<Longrightarrow> utf8_valid b \<Longrightarrow> utf8_valid (a @ b)"
  by (simp add: utf8_valid_append utf8_valid_all_ascii)

lemma hex_digits_ascii: "list_all (\<lambda>c. byte c < 128) (hex_digits k n)"
  using hex_digits_lower_hex [of k n] by (auto simp: list_all_iff lower_hex_def lower_hex_rune_def)

lemmas byte_char = byte_def [of "Char b0 b1 b2 b3 b4 b5 b6 b7" for b0 b1 b2 b3 b4 b5 b6 b7]

lemma utf8_quote_body: "utf8_valid (quote_body s)"
proof (induction s rule: quote_body.induct)
  case (2 c cs)
  show ?case
  proof (cases "byte c < 128")
    case True
    have u: "utf8_valid (backslash # ''u'' @ hex_digits 4 (byte c))"
      by (rule utf8_valid_all_ascii) (simp add: hex_digits_ascii backslash_ascii byte_char)
    show ?thesis
      using True u 2(1) backslash_ascii unfolding quote_body.simps(2) if_P [OF True]
      by (intro utf8_valid_append) (simp_all add: byte_char)
  next
    case False
    then show ?thesis
    proof (cases rule: decode_high [where cs = cs])
      case bad
      then show ?thesis using 2(2) False backslash_ascii by (simp add: quote_body.simps(2) byte_char)
    next
      case (good ts rest r)
      have "utf8_valid (c # ts)"
        using good(2) good(6) [of "[]"] by (simp add: utf8_valid.simps(2))
      moreover have "utf8_valid (backslash # ''u'' @ hex_digits 4 r)"
        by (rule utf8_valid_all_ascii) (simp add: hex_digits_ascii backslash_ascii byte_char)
      moreover have "utf8_valid (quote_body rest)" using 2(2) [OF False] good(1,2,6) by (simp add: prod.case_eq_if)
      ultimately show ?thesis
        using False good(1,2,6) utf8_valid_append [of "c # ts" "quote_body rest"] backslash_ascii
          utf8_valid_append [of "backslash # ''u'' @ hex_digits 4 r" "quote_body rest"]
        by (auto simp: quote_body.simps(2) Let_def byte_char)
    qed
  qed
qed simp

text \<open>Cutting at an ASCII byte keeps both parts valid.\<close>

lemma utf8_valid_split:
  assumes "utf8_valid (a @ c # b)" "byte c < 128"
  shows "utf8_valid a \<and> utf8_valid b"
  using assms(1)
proof (induction "length a" arbitrary: a rule: less_induct)
  case less
  show ?case
  proof (cases a)
    case Nil
    then show ?thesis using less.prems assms(2) by simp
  next
    case (Cons x xs)
    show ?thesis
    proof (cases "byte x < 128")
      case True
      then show ?thesis using less.hyps [of xs] less.prems Cons by simp
    next
      case False
      then show ?thesis
      proof (cases rule: decode_high [where cs = "xs @ c # b"])
        case bad
        then show ?thesis using less.prems Cons by (simp add: utf8_valid.simps(2))
      next
        case (good ts rest r)
        have "\<not> cont_byte c" using assms(2) by (simp add: cont_byte_def)
        then have "c \<notin> set ts" using good(3) by (auto simp: list_all_iff)
        then obtain xs' where xs: "xs = ts @ xs'" "rest = xs' @ c # b"
          using good(1) by (fastforce simp: append_eq_append_conv2 Cons_eq_append_conv append_eq_Cons_conv)
        have "utf8_valid (x # ts @ xs')" if "utf8_valid xs'"
          using that good(2) good(6) [of xs'] by (simp add: utf8_valid.simps(2))
        moreover have "utf8_valid (xs' @ c # b)"
          using less.prems good(6) [of rest] Cons good(1) xs(2) by (simp add: utf8_valid.simps(2))
        then have "utf8_valid xs' \<and> utf8_valid b" using less.hyps [of xs'] Cons xs(1) by simp
        ultimately show ?thesis using Cons xs(1) by simp
      qed
    qed
  qed
qed

lemma utf8_valid_drop_ascii: "utf8_valid (a @ b) \<Longrightarrow> list_all (\<lambda>c. byte c < 128) a \<Longrightarrow> utf8_valid b"
  by (induction a) auto

text \<open>All text in a tree is valid.\<close>

fun texts_valid :: "json \<Rightarrow> bool" where
  "texts_valid (JNum t) = list_all (\<lambda>c. byte c < 128) t"
| "texts_valid (JStr b) = utf8_valid b"
| "texts_valid (JArr _ js) = list_all texts_valid js"
| "texts_valid (JObj _ ms) = list_all (\<lambda>m. utf8_valid (fst m) \<and> texts_valid (snd m)) ms"
| "texts_valid _ = True"

lemma skip_space_valid: "utf8_valid s \<Longrightarrow> utf8_valid (skip_space s)"
proof -
  have "list_all (\<lambda>c. byte c < 128) (takeWhile json_space s)"
    by (auto simp: list_all_iff json_space_def dest!: set_takeWhileD)
  then show "utf8_valid s \<Longrightarrow> utf8_valid (skip_space s)"
    using utf8_valid_drop_ascii [of "takeWhile json_space s" "dropWhile json_space s"] by (simp add: skip_space_def)
qed

lemma is_digit_ascii: "is_digit c \<Longrightarrow> byte c < 128"
  by (simp add: is_digit_def)

lemma takeWhile_digit_ascii: "list_all (\<lambda>c. byte c < 128) (takeWhile is_digit s)"
  by (auto simp: list_all_iff dest: set_takeWhileD is_digit_ascii)

lemma scan_number_ascii: "scan_number s = Some (b, r) \<Longrightarrow> list_all (\<lambda>c. byte c < 128) b"
  by (auto simp: scan_number_def scan_int_def scan_frac_def scan_exp_def scan_sign_def
      takeWhile_digit_ascii is_digit_ascii byte_char
      split: list.splits if_splits option.splits prod.splits)

lemma scan_string_valid: "scan_string s = Some (b, r) \<Longrightarrow> utf8_valid s \<Longrightarrow> utf8_valid b \<and> utf8_valid r"
  using utf8_valid_split [of b quote r] backslash_ascii by (auto dest: scan_string_split)

lemma scan_literal_valid:
  assumes "scan_literal s = Some (j, r)" "utf8_valid s"
  shows "texts_valid j \<and> utf8_valid r"
proof (cases "\<exists>cs. s = quote # cs")
  case True
  then show ?thesis using assms scan_string_valid backslash_ascii by auto
next
  case False
  have "texts_valid j \<and> list_all (\<lambda>c. byte c < 128) (raw_of j)"
    using assms(1) False scan_number_ascii by (auto simp: scan_literal_def byte_char split: list.splits if_splits)
  then show ?thesis using scan_literal_split [OF assms(1)] assms(2) utf8_valid_drop_ascii by blast
qed

lemma parse_valid:
  "(\<forall>d s j r. parse_value f d s = Parsed j r \<longrightarrow> utf8_valid s \<longrightarrow> texts_valid j \<and> utf8_valid r) \<and>
   (\<forall>d s js r. parse_elems f d s = Parsed js r \<longrightarrow> utf8_valid s \<longrightarrow> list_all texts_valid js \<and> utf8_valid r) \<and>
   (\<forall>d s ms r. parse_members f d s = Parsed ms r \<longrightarrow> utf8_valid s \<longrightarrow>
      list_all (\<lambda>m. utf8_valid (fst m) \<and> texts_valid (snd m)) ms \<and> utf8_valid r)"
proof (induction f)
  case 0
  show ?case by (simp add: parse_unfold)
next
  case (Suc f)
  then have IHv: "\<And>d s j r. parse_value f d s = Parsed j r \<Longrightarrow> utf8_valid s \<Longrightarrow> texts_valid j \<and> utf8_valid r"
    and IHe: "\<And>d s js r. parse_elems f d s = Parsed js r \<Longrightarrow> utf8_valid s \<Longrightarrow> list_all texts_valid js \<and> utf8_valid r"
    and IHm: "\<And>d s ms r. parse_members f d s = Parsed ms r \<Longrightarrow> utf8_valid s \<Longrightarrow>
      list_all (\<lambda>m. utf8_valid (fst m) \<and> texts_valid (snd m)) ms \<and> utf8_valid r"
    by blast+
  have skip: "utf8_valid (c # cs)" if "skip_space s = c # cs" "utf8_valid s" for s c cs
    using that skip_space_valid [of s] by simp
  have drop: "utf8_valid cs" if "skip_space s = c # cs" "utf8_valid s" "byte c < 128" for s c cs
    using skip [OF that(1,2)] that(3) by simp
  note ascii = backslash_ascii byte_char
  have V: "texts_valid j \<and> utf8_valid r" if "parse_value (Suc f) d s = Parsed j r" "utf8_valid s" for d s j r
    using that(1)
  proof (cases rule: parse_value_cases)
    case (lit c cs)
    then show ?thesis using scan_literal_valid [OF lit(4)] skip that(2) by blast
  next
    case (arr0 cs)
    then show ?thesis using drop [OF arr0(1) that(2)] drop [OF arr0(2)] by (simp add: ascii)
  next
    case (arr f' cs x xs es)
    then show ?thesis using IHe [of "Suc d" "x # xs" es r] skip [OF arr(3)] drop [OF arr(2) that(2)] by (simp add: ascii)
  next
    case (obj0 cs)
    then show ?thesis using drop [OF obj0(1) that(2)] drop [OF obj0(2)] by (simp add: ascii)
  next
    case (obj f' cs x xs ms)
    then show ?thesis using IHm [of "Suc d" "x # xs" ms r] skip [OF obj(3)] drop [OF obj(2) that(2)] by (simp add: ascii)
  qed
  have E: "list_all texts_valid js \<and> utf8_valid r" if "parse_elems (Suc f) d s = Parsed js r" "utf8_valid s" for d s js r
    using that(1)
  proof (cases rule: parse_elems_cases)
    case (last f' j r1)
    then show ?thesis using IHv [of d s j r1] that(2) drop [OF last(3)] by (simp add: ascii)
  next
    case (more f' j r1 r2 js')
    then show ?thesis using IHv [of d s j r1] that(2) drop [OF more(3)] IHe [of d r2 js' r] by (simp add: ascii)
  qed
  have M: "list_all (\<lambda>m. utf8_valid (fst m) \<and> texts_valid (snd m)) ms \<and> utf8_valid r"
    if "parse_members (Suc f) d s = Parsed ms r" "utf8_valid s" for d s ms r
    using that(1)
  proof (cases rule: parse_members_cases)
    case (last f' cs k r1 r2 j r3)
    have "utf8_valid cs" using drop [OF last(2) that(2)] by (simp add: ascii)
    then have k: "utf8_valid k" "utf8_valid r1" using scan_string_valid [OF last(3)] by auto
    then have "utf8_valid r2" using drop [OF last(4)] by (simp add: ascii)
    then show ?thesis using last IHv [of d r2 j r3] drop [OF last(6)] k by (simp add: ascii)
  next
    case (more f' cs k r1 r2 j r3 r4 ms')
    have "utf8_valid cs" using drop [OF more(2) that(2)] by (simp add: ascii)
    then have k: "utf8_valid k" "utf8_valid r1" using scan_string_valid [OF more(3)] by auto
    then have "utf8_valid r2" using drop [OF more(4)] by (simp add: ascii)
    then show ?thesis using more IHv [of d r2 j r3] drop [OF more(6)] IHm [of d r4 ms' r] k by (simp add: ascii)
  qed
  from V E M show ?case by blast
qed

lemma html_escape_valid: "utf8_valid s \<Longrightarrow> utf8_valid (html_escape s)"
proof (induction "length s" arbitrary: s rule: less_induct)
  case less
  show ?case
  proof (cases s)
    case (Cons c cs)
    have u: "utf8_valid (backslash # CHR ''u'' # hex_digits 4 n)" for n
      by (rule utf8_valid_all_ascii) (simp add: hex_digits_ascii backslash_ascii byte_char)
    show ?thesis
    proof (cases "byte c < 128")
      case True
      then have "utf8_valid (html_escape cs)" "\<not> separator (c # cs)" using less Cons separator_byte by auto
      then show ?thesis using True Cons utf8_valid_append [OF u] by (simp add: html_escape_Cons)
    next
      case False
      then show ?thesis
      proof (cases rule: decode_high [where cs = cs])
        case bad
        then show ?thesis using less.prems Cons by (simp add: utf8_valid.simps(2))
      next
        case (good ts rest r)
        have "utf8_valid (c # ts)" using good(2) good(6) [of "[]"] by (simp add: utf8_valid.simps(2))
        moreover have "utf8_valid rest" using less.prems Cons good(1,6) by (simp add: utf8_valid.simps(2))
        then have "utf8_valid (html_escape rest)" using less.hyps [of rest] Cons good(1) by simp
        ultimately show ?thesis
          using html_escape_rune(1) [OF False good(1,3,6)] utf8_valid_append [OF u] utf8_valid_append [of "c # ts"] Cons by auto
      qed
    qed
  qed simp
qed

lemma escaped_valid: "texts_valid j \<Longrightarrow> texts_valid (escaped j)"
  by (induction j) (auto simp: list_all_iff html_escape_valid snds.simps)

lemma utf8_valid_join: "utf8_valid d \<Longrightarrow> list_all utf8_valid xs \<Longrightarrow> utf8_valid (join_with d xs)"
  by (induction d xs rule: join_with.induct) (auto intro: utf8_valid_append)

lemma line_break_valid: "utf8_valid (line_break n)"
  by (rule utf8_valid_all_ascii) (auto simp: line_break_def list_all_iff byte_char)

lemma pretty_valid: "texts_valid j \<Longrightarrow> utf8_valid (pretty n j)"
proof (induction j arbitrary: n)
  case (JNum t)
  then show ?case by (simp add: utf8_valid_all_ascii)
next
  case (JStr b)
  then have "utf8_valid (b @ [quote])" by (intro utf8_valid_append) (simp_all add: backslash_ascii)
  then show ?case by (simp add: backslash_ascii)
next
  case (JArr r js)
  then have "list_all utf8_valid (map (pretty (Suc n)) js)" by (auto simp: list_all_iff)
  then have "utf8_valid (join_with (CHR '','' # line_break (Suc n)) (map (pretty (Suc n)) js))"
    by (intro utf8_valid_join) (simp_all add: line_break_valid byte_char)
  then show ?case by (auto simp: byte_char intro!: utf8_valid_append line_break_valid)
next
  case (JObj r ms)
  have "utf8_valid (quote # fst m @ [quote] @ '': '' @ pretty (Suc n) (snd m))" if "m \<in> set ms" for m
  proof -
    have "utf8_valid (fst m)" "utf8_valid (pretty (Suc n) (snd m))"
      using that JObj.prems JObj.IH [OF that, of "snd m"] by (auto simp: list_all_iff snds.simps)
    then show ?thesis by (auto simp: byte_char backslash_ascii intro!: utf8_valid_append)
  qed
  then have "list_all utf8_valid (map (\<lambda>m. quote # fst m @ [quote] @ '': '' @ pretty (Suc n) (snd m)) ms)"
    by (simp add: list_all_iff)
  then have "utf8_valid (join_with (CHR '','' # line_break (Suc n))
      (map (\<lambda>m. quote # fst m @ [quote] @ '': '' @ pretty (Suc n) (snd m)) ms))"
    by (intro utf8_valid_join) (simp_all add: line_break_valid byte_char)
  then show ?case by (auto simp: byte_char intro!: utf8_valid_append line_break_valid)
qed (auto simp: byte_char)

section \<open>Keys\<close>

lemma distinct_keys_retext [simp]: "distinct_keys (retext n j) = distinct_keys j"
  by (induction j arbitrary: n) (auto simp: list_all_iff snds.simps comp_def)

lemma distinct_keys_escaped: "literals j \<Longrightarrow> distinct_keys (escaped j) = distinct_keys j"
proof (induction j)
  case (JObj r ms)
  have keys: "map (\<lambda>m. unquote (html_escape (fst m))) ms = map (\<lambda>m. unquote (fst m)) ms"
    using JObj.prems by (auto simp: list_all_iff unquote_html_escape)
  have "distinct_keys (escaped (snd m)) = distinct_keys (snd m)" if "m \<in> set ms" for m
    using that JObj.prems JObj.IH [OF that, of "snd m"] by (auto simp: list_all_iff snds.simps)
  then show ?case by (auto simp: list_all_iff comp_def keys)
qed (auto simp: list_all_iff)

section \<open>Storable values\<close>

text \<open>Values that survive: texts are valid UTF-8, integers are in the range of their types, keys are not
  repeated.\<close>

fun storable :: "val \<Rightarrow> bool" where
  "storable (VInt n) \<longleftrightarrow> - (2 ^ 63) \<le> n \<and> n < 2 ^ 63"
| "storable (VStr s) \<longleftrightarrow> utf8_valid s"
| "storable (VRaw m) \<longleftrightarrow> utf8_valid m \<and> distinct_keys (raw_tree m)"
| "storable (VList vs) \<longleftrightarrow> list_all storable vs"
| "storable (VStruct ms) \<longleftrightarrow>
     distinct (map fst ms) \<and> list_all (\<lambda>m. utf8_valid (fst m) \<and> storable (snd m)) ms"
| "storable _ \<longleftrightarrow> True"

lemma raw_tree_valid: "utf8_valid m \<Longrightarrow> texts_valid (raw_tree m)"
  using parse_valid by (auto simp: raw_tree_def parse_json_def split: parsed.split)

lemma decimal_ascii: "list_all (\<lambda>c. byte c < 128) (decimal n)"
  using decimal_digits [of n] by (auto simp: list_all_iff is_digit_def)

lemma tree_of_valid: "storable v \<Longrightarrow> texts_valid (tree_of v)"
  by (induction v)
    (auto simp: list_all_iff utf8_quote_body escaped_valid raw_tree_valid int_digits_def decimal_ascii [unfolded list_all_iff]
      byte_char snds.simps)

lemma tree_of_keys: "storable v \<Longrightarrow> distinct_keys (tree_of v)"
proof (induction v)
  case (VStruct ms)
  have keys: "map (\<lambda>m. unquote (quote_body (fst m))) ms = map fst ms"
    using VStruct.prems by (auto simp: list_all_iff unquote_quote_body)
  have "distinct_keys (tree_of (snd m))" if "m \<in> set ms" for m
    using that VStruct.prems VStruct.IH [OF that, of "snd m"] by (auto simp: list_all_iff snds.simps)
  then show ?case using VStruct.prems by (auto simp: list_all_iff comp_def keys)
qed (auto simp: list_all_iff distinct_keys_escaped literals_raw)

text \<open>What was encoded, a line feed behind it as \<open>persistJSONNoOverwrite\<close> and \<open>Encoder.Encode\<close> write it, is decoded to
  what the decoder makes of the laid out tree.\<close>

lemma MarshalIndent_Decode:
  assumes "MarshalIndent v = Some data" "storable v" "d strict (retext 0 (tree_of v)) target = Some x"
  shows "Decode (data @ [CHR 0x0A]) d target strict = Inr x"
proof (rule DecodeI)
  from assms(1) have t: "data = pretty 0 (tree_of v)" "nesting (tree_of v) \<le> max_nesting_depth"
    by (simp_all add: MarshalIndent_def split: if_splits)
  show "utf8_valid (data @ [CHR 0x0A])"
    unfolding t(1) by (rule utf8_valid_append) (simp_all add: pretty_valid tree_of_valid assms(2) byte_char)
  show "parse_json (data @ [CHR 0x0A]) = Parsed (retext 0 (tree_of v)) [CHR 0x0A]"
    unfolding t(1) by (rule parse_pretty) (simp_all add: literals_tree_of t(2) num_end_def is_digit_def byte_char)
  show "skip_space [CHR 0x0A] = []" by (simp add: skip_space_def json_space_def byte_char)
  show "distinct_keys (retext 0 (tree_of v))" by (simp add: tree_of_keys assms(2))
qed (fact assms(3))

end
