(* ===== verification/DoctorText.thy ===== *)
theory DoctorText
  imports Doctor GoTime
begin

text \<open>
  The human-readable side of \<open>internal/doctor/doctor.go\<close>: the sentences of the problems, and
  \<open>Report.String\<close> with what it uses of \<open>fmt\<close>, \<open>strconv\<close> and \<open>time\<close>. Which runes beyond ASCII are printable
  is Unicode data and an argument.
\<close>

section \<open>Quoting\<close>

text \<open>\<open>strconv.Quote\<close>, which is \<open>%q\<close>.\<close>

definition printable_rune :: "(nat \<Rightarrow> bool) \<Rightarrow> nat \<Rightarrow> bool" where
  "printable_rune is_print r \<longleftrightarrow> (if r < 128 then 32 \<le> r \<and> r < 127 else is_print r)"

definition escaped_rune :: "nat \<Rightarrow> bytes" where
  "escaped_rune r =
     (if r = 7 then backslash # ''a'' else if r = 8 then backslash # ''b'' else if r = 12 then backslash # ''f''
      else if r = 10 then backslash # ''n'' else if r = 13 then backslash # ''r'' else if r = 9 then backslash # ''t''
      else if r = 11 then backslash # ''v''
      else if r < 32 \<or> r = 127 then backslash # ''x'' @ hex_digits 2 r
      else if r < 65536 then backslash # ''u'' @ hex_digits 4 r
      else backslash # ''U'' @ hex_digits 8 r)"

function go_quote_body :: "(nat \<Rightarrow> bool) \<Rightarrow> bytes \<Rightarrow> bytes" where
  "go_quote_body is_print [] = []"
| "go_quote_body is_print (c # cs) =
     (let (r, width) = decode_rune (c # cs) in
      (if 128 \<le> byte c \<and> width = 1 then backslash # ''x'' @ hex_digits 2 (byte c)
       else if c = quote \<or> c = backslash then [backslash, c]
       else if printable_rune is_print r then take width (c # cs)
       else escaped_rune r) @ go_quote_body is_print (drop (width - 1) cs))"
  by pat_completeness auto
termination
  by (relation "measure (length \<circ> snd)") (auto simp: le_imp_less_Suc)

definition go_quote :: "(nat \<Rightarrow> bool) \<Rightarrow> bytes \<Rightarrow> bytes" where
  "go_quote is_print s = quote # go_quote_body is_print s @ [quote]"

section \<open>Problems\<close>

definition version_error_text :: "(nat \<Rightarrow> bool) \<Rightarrow> version_error \<Rightarrow> bytes" where
  "version_error_text is_print e =
     (case e of
        NoNumericVersion v \<Rightarrow> ''no numeric version in '' @ go_quote is_print v
      | ComponentOutOfRange s \<Rightarrow> ''parse component '' @ go_quote is_print s @ '': strconv.Atoi: parsing '' @
          go_quote is_print s @ '': value out of range'')"

text \<open>The probe's time limit is two seconds.\<close>

definition problem_text :: "(nat \<Rightarrow> bool) \<Rightarrow> problem \<Rightarrow> bytes" where
  "problem_text is_print p =
     (case p of
        Text t \<Rightarrow> t
      | ProbeTimedOut \<Rightarrow> ''version probe timed out after 2s''
      | ProbeCanceled \<Rightarrow> ''version probe canceled''
      | CommandFailed e outputLine \<Rightarrow>
          ''version command failed: '' @ e @ (if outputLine \<noteq> [] then '': '' @ outputLine else [])
      | NoVersionOutput \<Rightarrow> ''version command returned no output''
      | MustContain want found \<Rightarrow>
          ''version output must contain '' @ go_quote is_print want @ ''; found '' @ go_quote is_print found
      | CannotParseVersion e \<Rightarrow> ''cannot parse tool version: '' @ version_error_text is_print e
      | InvalidMinimum v e \<Rightarrow>
          ''invalid minimum version '' @ go_quote is_print v @ '': '' @ version_error_text is_print e
      | TooOld minimum actual \<Rightarrow>
          ''requires >= '' @ numericVersion_String minimum @ ''; found '' @ numericVersion_String actual)"

text \<open>The test for a problem in the model is the code's test for a non-empty text.\<close>

lemma problem_text_Nil_iff: "problem_text is_print p = [] \<longleftrightarrow> \<not> has_problem p"
  by (cases p) (simp_all add: problem_text_def has_problem_def)

section \<open>Times\<close>

text \<open>A decimal number, padded with zeros.\<close>

definition zero_padded :: "nat \<Rightarrow> nat \<Rightarrow> bytes" where
  "zero_padded width n = replicate (width - length (decimal n)) (CHR ''0'') @ decimal n"

lemma year_length: "0 < sum_list (month_lengths y)"
  by (simp add: month_lengths_def)

text \<open>The year that a day belongs to, searched upwards, and the month and day within it.\<close>

function year_of :: "nat \<Rightarrow> int \<Rightarrow> nat" where
  "year_of y days = (if days_before_year (Suc y) \<le> days then year_of (Suc y) days else y)"
  by pat_completeness auto

termination
proof (relation "measure (\<lambda>(y, days). nat (days - days_before_year y))", goal_cases)
  case (2 y days)
  then show ?case using days_next_year [of y] year_length [of y] by simp
qed simp

declare year_of.simps [simp del]

fun month_of :: "nat list \<Rightarrow> nat \<Rightarrow> nat \<times> nat" where
  "month_of [] day = (0, Suc day)"
| "month_of (l # ls) day =
     (if day < l then (1, Suc day) else (let (month, d) = month_of ls (day - l) in (Suc month, d)))"

text \<open>A layout of \<open>time\<close>, in UTC, for an instant that is not before the year 0, with the text of the fraction of the second.\<close>

definition time_stamp :: "bytes \<Rightarrow> time \<Rightarrow> bytes" where
  "time_stamp fraction_text t =
     (let seconds = t div 1000000000; days = seconds div 86400; clock = nat (seconds mod 86400);
          year = year_of 0 days; (month, day) = month_of (month_lengths year) (nat (days - days_before_year year)) in
      zero_padded 4 year @ ''-'' @ zero_padded 2 month @ ''-'' @ zero_padded 2 day @ ''T'' @
      zero_padded 2 (clock div 3600) @ '':'' @ zero_padded 2 (clock div 60 mod 60) @ '':'' @
      zero_padded 2 (clock mod 60) @ fraction_text @ ''Z'')"

text \<open>\<open>Format(time.RFC3339)\<close> has no fraction; \<open>Format(time.RFC3339Nano)\<close> has its digits up to the last that is not zero.\<close>

definition format_rfc3339 :: "time \<Rightarrow> bytes" where
  "format_rfc3339 = time_stamp []"

definition nano_fraction :: "nat \<Rightarrow> bytes" where
  "nano_fraction nsec =
     (if nsec = 0 then [] else CHR ''.'' # rev (dropWhile (\<lambda>c. c = CHR ''0'') (rev (zero_padded 9 nsec))))"

definition format_rfc3339_nano :: "time \<Rightarrow> bytes" where
  "format_rfc3339_nano t = time_stamp (nano_fraction (nat (t mod 1000000000))) t"

section \<open>The report\<close>

text \<open>\<open>%-7s\<close>: runes are counted.\<close>

definition pad_right :: "nat \<Rightarrow> bytes \<Rightarrow> bytes" where
  "pad_right width s = s @ replicate (width - rune_count s) (CHR '' '')"

definition int_text :: "int \<Rightarrow> bytes" where
  "int_text n = (if n < 0 then ''-'' @ decimal (nat (- n)) else decimal (nat n))"

definition bool_text :: "bool \<Rightarrow> bytes" where
  "bool_text b = (if b then ''true'' else ''false'')"

definition tool_line :: "(nat \<Rightarrow> bool) \<Rightarrow> ToolResult \<Rightarrow> bytes" where
  "tool_line is_print r =
     ''['' @ tool_status r @ ''] '' @ pad_right 7 (r_Name r) @ '' '' @ pad_right 8 (tool_requirement r) @ '' '' @
     pad_right 7 (r_Introduced r) @ '' '' @
     (if r_Version r = [] then problem_text is_print (r_Problem r) else r_Version r) @ [line_feed]"

definition Report_String :: "(nat \<Rightarrow> bool) \<Rightarrow> Report \<Rightarrow> bytes" where
  "Report_String is_print report =
     ''ParaFlow environment'' @ [line_feed] @
     ''OS/arch: '' @ rp_OS report @ ''/'' @ rp_Architecture report @ [line_feed] @
     ''Physical/logical CPUs: '' @ int_text (rp_PhysicalCores report) @ ''/'' @ int_text (rp_LogicalCPUs report) @
       [line_feed] @
     ''Go runtime: '' @ rp_GoVersion report @ [line_feed, line_feed] @
     ''Captured: '' @ format_rfc3339 (rp_CapturedAt report) @ [line_feed] @
     ''Kernel: '' @ rp_KernelVersion report @ [line_feed] @
     ''CPU: '' @ rp_CPUModel report @ [line_feed] @
     ''GOMAXPROCS: '' @ int_text (rp_GoMaxProcs report) @ [line_feed] @
     ''Source: '' @ Info_String (rp_Source report) @ [line_feed, line_feed] @
     concat (map (tool_line is_print) (rp_Tools report)) @
     [line_feed] @ ''Ready for current milestone ('' @ rp_Milestone report @ ''): '' @ bool_text (rp_Ready report)"

section \<open>Reading a time back\<close>

lemma decimal_bound: "n < 10 ^ k \<Longrightarrow> 0 < k \<Longrightarrow> length (decimal n) \<le> k"
proof (induction k arbitrary: n)
  case (Suc k)
  show ?case
  proof (cases "n < 10")
    case True
    then show ?thesis by (subst decimal.simps) simp
  next
    case False
    with Suc.prems have "0 < k" by (cases k) auto
    moreover have "n div 10 < 10 ^ k" using Suc.prems by (simp add: less_mult_imp_div_less mult.commute)
    ultimately have "length (decimal (n div 10)) \<le> k" using Suc.IH by blast
    with False show ?thesis by (subst decimal.simps) simp
  qed
qed simp

lemma zero_padded_digits:
  assumes "n < 10 ^ k" "0 < k"
  shows "length (zero_padded k n) = k" "list_all is_digit (zero_padded k n)" "parse_digits 10 (zero_padded k n) 0 = Some n"
proof -
  have zeros: "parse_digits 10 (replicate j (CHR ''0'') @ xs) 0 = parse_digits 10 xs 0" for j xs
    by (induction j) (simp_all add: digit_val_def byte_def)
  show "length (zero_padded k n) = k" using decimal_bound [OF assms] by (simp add: zero_padded_def)
  show "list_all is_digit (zero_padded k n)"
    using decimal_digits_only [of n]
    by (auto simp: zero_padded_def list_all_iff is_digit_def ascii_digit_def byte_def)
  show "parse_digits 10 (zero_padded k n) 0 = Some n"
    by (simp add: zero_padded_def zeros parse_decimal)
qed

lemma year_of_bounds:
  "days_before_year y \<le> days \<Longrightarrow>
     y \<le> year_of y days \<and> days_before_year (year_of y days) \<le> days \<and> days < days_before_year (Suc (year_of y days))"
proof (induction y days rule: year_of.induct)
  case (1 y days)
  then show ?case by (subst (1 2 3) year_of.simps) (auto dest: Suc_leD)
qed

lemma month_of_parts:
  "month_of ls day = (m, d) \<Longrightarrow> day < sum_list ls \<Longrightarrow>
     1 \<le> m \<and> m \<le> length ls \<and> 1 \<le> d \<and> d \<le> ls ! (m - 1) \<and> sum_list (take (m - 1) ls) + (d - 1) = day"
proof (induction ls arbitrary: day m d)
  case (Cons l ls)
  show ?case
  proof (cases "day < l")
    case True
    with Cons.prems show ?thesis by auto
  next
    case False
    obtain m' d' where r: "month_of ls (day - l) = (m', d')" by force
    with False Cons.prems have "m = Suc m'" "d = d'" by simp_all
    moreover have "1 \<le> m' \<and> m' \<le> length ls \<and> 1 \<le> d' \<and> d' \<le> ls ! (m' - 1) \<and> sum_list (take (m' - 1) ls) + (d' - 1) = day - l"
      by (rule Cons.IH [OF r]) (use Cons.prems(2) False in simp)
    ultimately show ?thesis using False by (cases m') auto
  qed
qed simp

lemma two_digits:
  assumes "n < 100"
  shows "getnum (zero_padded 2 n @ s) fixed = Some (n, s)"
proof -
  have d: "length (zero_padded 2 n) = 2" "list_all is_digit (zero_padded 2 n)"
    "parse_digits 10 (zero_padded 2 n) 0 = Some n"
    using zero_padded_digits [of n 2] assms by simp_all
  then obtain a b where ab: "zero_padded 2 n = [a, b]" "is_digit a" "is_digit b"
    by (auto simp: length_Suc_conv numeral_2_eq_2)
  moreover have "digit_val c = Some (digit_of c)" if "is_digit c" for c
    using that by (auto simp: digit_val_def digit_of_def is_digit_def byte_def)
  ultimately show ?thesis using d(3) by (auto simp: getnum_def split: if_splits)
qed

lemma four_digits_padded: "n < 10000 \<Longrightarrow> four_digits (zero_padded 4 n @ s) = Some (n, s)"
  using zero_padded_digits [of n 4] by (simp add: four_digits_def)

lemma ranged_Some: "low \<le> n \<Longrightarrow> n \<le> high \<Longrightarrow> ranged low high (Some (n, s)) = Some (n, s)"
  by (simp add: ranged_def)

lemma month_lengths_31: "m < 12 \<Longrightarrow> month_lengths y ! m \<le> 31"
  by (auto simp: month_lengths_def nth_Cons' )

lemma days_before_year_mono: "y \<le> y' \<Longrightarrow> days_before_year y \<le> days_before_year y'"
  by (induction y' rule: dec_induct) (use days_next_year in \<open>simp_all\<close>)

text \<open>What is printed parses back, with the fraction that its text stands for.\<close>

lemma stamp_roundtrip:
  assumes "date_time 0 1 1 0 0 0 0 \<le> t" and "t < date_time 10000 1 1 0 0 0 0" and frac: "fraction (text_of_fraction @ ''Z'') = (nsec, ''Z'')"
  shows "parse_rfc3339 (time_stamp text_of_fraction t) = Some (t - t mod 1000000000 + int nsec)"
proof -
  define seconds where "seconds = t div 1000000000"
  define days where "days = seconds div 86400"
  define clock where "clock = nat (seconds mod 86400)"
  define year where "year = year_of 0 days"
  obtain month day where md: "month_of (month_lengths year) (nat (days - days_before_year year)) = (month, day)" by force
  have "date_time 0 1 1 0 0 0 0 div 1000000000 div 86400 \<le> days"
    unfolding days_def seconds_def by (intro zdiv_mono1 assms(1)) simp_all
  then have days0: "days_before_year 0 \<le> days" by (simp add: date_time_def days_before_year_def)
  have clock: "clock < 86400" and clock_eq: "int clock = seconds mod 86400"
    by (simp_all add: clock_def nat_less_iff)
  have y: "days_before_year year \<le> days \<and> days < days_before_year (Suc year)"
    unfolding year_def using year_of_bounds [OF days0] by blast
  have "year < 10000"
  proof (rule ccontr)
    assume "\<not> year < 10000"
    then have "days_before_year 10000 \<le> days" using y days_before_year_mono [of 10000 year] by simp
    moreover have "days < days_before_year 10000"
      using assms(2) by (simp add: date_time_def days_def seconds_def Let_def)
    ultimately show False by simp
  qed
  have "1 \<le> month \<and> month \<le> length (month_lengths year) \<and> 1 \<le> day \<and> day \<le> month_lengths year ! (month - 1) \<and>
      sum_list (take (month - 1) (month_lengths year)) + (day - 1) = nat (days - days_before_year year)"
    by (rule month_of_parts [OF md]) (use y days_next_year [of year] in \<open>simp add: nat_less_iff\<close>)
  moreover have "length (month_lengths year) = 12" by (simp add: month_lengths_def)
  ultimately have m: "1 \<le> month" "month \<le> 12" "1 \<le> day" "day \<le> month_lengths year ! (month - 1)"
    "sum_list (take (month - 1) (month_lengths year)) + (day - 1) = nat (days - days_before_year year)" by simp_all
  then have "day \<le> 31" using month_lengths_31 [of "month - 1" year] by linarith
  have shown: "time_stamp text_of_fraction t = zero_padded 4 year @ ''-'' @ zero_padded 2 month @ ''-'' @ zero_padded 2 day @ ''T'' @
      zero_padded 2 (clock div 3600) @ '':'' @ zero_padded 2 (clock div 60 mod 60) @ '':'' @
      zero_padded 2 (clock mod 60) @ text_of_fraction @ ''Z''"
    using md by (simp add: time_stamp_def Let_def seconds_def days_def clock_def year_def)
  have hms: "clock div 3600 \<le> 23" "clock div 60 mod 60 \<le> 59" "clock mod 60 \<le> 59"
    using clock by simp_all
  have "parse_rfc3339 (time_stamp text_of_fraction t) =
      Some (date_time year month day (clock div 3600) (clock div 60 mod 60) (clock mod 60) nsec)"
    unfolding shown parse_rfc3339_def
    using m \<open>year < 10000\<close> \<open>day \<le> 31\<close> hms
    by (simp add: four_digits_padded skip_char_def two_digits ranged_Some frac zone_def not_less)
  also have "date_time year month day (clock div 3600) (clock div 60 mod 60) (clock mod 60) nsec =
      t - t mod 1000000000 + int nsec"
  proof -
    define q where "q = clock div 60"
    have "clock div 3600 = q div 60" by (simp add: q_def flip: div_mult2_eq)
    moreover have "a * 3600 + b * 60 + c = (a * 60 + b) * 60 + c" for a b c :: nat by simp
    moreover have "q div 60 * 60 + q mod 60 = q" "q * 60 + clock mod 60 = clock"
      by (rule div_mult_mod_eq) (simp only: q_def div_mult_mod_eq)
    ultimately have "clock div 3600 * 3600 + clock div 60 mod 60 * 60 + clock mod 60 = clock"
      by (simp only: flip: q_def)
    moreover have "days_before_year year + int (sum_list (take (month - 1) (month_lengths year)) + day - 1) = days"
      using y m(3,5) by simp
    ultimately have "date_time year month day (clock div 3600) (clock div 60 mod 60) (clock mod 60) nsec =
        (days * 86400 + int clock) * 1000000000 + int nsec"
      by (simp only: date_time_def Let_def)
    also have "days * 86400 + int clock = seconds" by (simp add: days_def clock_eq)
    also have "seconds * 1000000000 = t - t mod 1000000000" by (simp add: seconds_def minus_mod_eq_div_mult)
    finally show ?thesis .
  qed
  finally show ?thesis .
qed

lemma format_roundtrip:
  assumes "date_time 0 1 1 0 0 0 0 \<le> t" and "t < date_time 10000 1 1 0 0 0 0"
  shows "parse_rfc3339 (format_rfc3339 t) = Some (t - t mod 1000000000)"
  using stamp_roundtrip [OF assms, of "[]" 0] by (simp add: format_rfc3339_def fraction_def)

lemma parse_digits_zeros: "parse_digits 10 (s @ replicate k (CHR ''0'')) 0 = map_option (\<lambda>n. n * 10 ^ k) (parse_digits 10 s 0)"
proof (induction k)
  case 0
  then show ?case by (simp add: option.map_ident)
next
  case (Suc k)
  have "parse_digits 10 (s @ replicate (Suc k) (CHR ''0'')) 0 = parse_digits 10 ((s @ replicate k (CHR ''0'')) @ ''0'') 0"
    by (simp add: replicate_append_same [symmetric])
  then show ?case
    unfolding parse_digits_append [of 10 "s @ replicate k (CHR ''0'')" "''0''"] Suc.IH
    by (simp add: digit_val_def byte_def split: option.split)
qed

lemma nano_fraction_parses:
  assumes "nsec < 1000000000"
  shows "fraction (nano_fraction nsec @ ''Z'') = (nsec, ''Z'')"
proof (cases "nsec = 0")
  case True
  then show ?thesis by (simp add: nano_fraction_def fraction_def)
next
  case False
  let ?zero = "\<lambda>c. c = CHR ''0''"
  define all where "all = zero_padded 9 nsec"
  define shown where "shown = rev (dropWhile ?zero (rev all))"
  define k where "k = length (takeWhile ?zero (rev all))"
  have all: "length all = 9" "list_all is_digit all" "parse_digits 10 all 0 = Some nsec"
    using zero_padded_digits [of nsec 9] assms by (simp_all add: all_def)
  have zeros: "takeWhile ?zero (rev all) = replicate k (CHR ''0'')"
    unfolding k_def by (intro replicate_eqI) (auto dest: set_takeWhileD)
  have "rev all = replicate k (CHR ''0'') @ dropWhile ?zero (rev all)" using takeWhile_dropWhile_id [of ?zero "rev all"] zeros by simp
  then have split: "all = shown @ replicate k (CHR ''0'')"
    unfolding shown_def by (metis rev_append rev_replicate rev_rev_ident)
  then have "parse_digits 10 (shown @ replicate k (CHR ''0'')) 0 = Some nsec" using all(3) by simp
  then obtain n where n: "parse_digits 10 shown 0 = Some n" "nsec = n * 10 ^ k"
    unfolding parse_digits_zeros by auto
  have digits: "list_all is_digit shown" "length shown + k = 9" using all split by auto
  have "shown \<noteq> []" using False n by auto
  then obtain c cs where c: "shown = c # cs" by (cases shown) auto
  have z: "\<not> is_digit (CHR ''Z'')" by (simp add: is_digit_def byte_def)
  have take: "takeWhile is_digit (shown @ ''Z'') = shown" "dropWhile is_digit (shown @ ''Z'') = ''Z''"
    using digits(1) z by (simp_all add: list_all_iff takeWhile_append)
  have "nano_fraction nsec = CHR ''.'' # shown" using False by (simp add: nano_fraction_def shown_def all_def)
  moreover have "take 9 shown = shown" "9 - length shown = k" using digits(2) by simp_all
  moreover have "fraction (CHR ''.'' # s) =
      ((case parse_digits 10 (take 9 (takeWhile is_digit s)) 0 of Some n \<Rightarrow> n | None \<Rightarrow> 0) *
         10 ^ (9 - length (take 9 (takeWhile is_digit s))), dropWhile is_digit s)" if "s = d # ds" "is_digit d" for s d ds
    using that by (simp add: fraction_def Let_def)
  from this [of "shown @ ''Z''" c "cs @ ''Z''"] have "fraction (CHR ''.'' # shown @ ''Z'') =
      ((case parse_digits 10 (take 9 shown) 0 of Some n \<Rightarrow> n | None \<Rightarrow> 0) * 10 ^ (9 - length (take 9 shown)), ''Z'')"
    using c digits(1) unfolding take by simp
  ultimately show ?thesis using n by simp
qed

text \<open>To the nanosecond.\<close>

lemma nano_roundtrip:
  assumes "date_time 0 1 1 0 0 0 0 \<le> t" and "t < date_time 10000 1 1 0 0 0 0"
  shows "parse_rfc3339 (format_rfc3339_nano t) = Some t"
proof -
  have "nat (t mod 1000000000) < 1000000000" by (simp add: nat_less_iff)
  from stamp_roundtrip [OF assms nano_fraction_parses [OF this]] show ?thesis
    by (simp add: format_rfc3339_nano_def)
qed

text \<open>No failure is silent: whatever a probe by command finds out, the line of an unusable tool gives a
  version or a reason, as long as the operating system's errors have texts.\<close>

lemma unusable_explained:
  assumes "\<not> r_Usable (commandProbe h want)" and "\<And>command. th_LookPath h command \<noteq> Inl []"
  shows "r_Version (commandProbe h want) \<noteq> [] \<or> problem_text is_print (r_Problem (commandProbe h want)) \<noteq> []"
  using assms
  by (auto simp: commandProbe_def problem_text_Nil_iff assess_def stamp_def has_problem_def Let_def
      split: sum.splits prod.splits run_status.splits if_splits)

end
