(* ===== verification/EvidenceText.thy ===== *)
theory EvidenceText
  imports JsonValue DoctorText EvidenceJson
begin

text \<open>
  How evidence is encoded: the struct tags of \<open>types.go\<close>, \<open>profile_types.go\<close>, \<open>doctor.go\<close> and \<open>buildinfo.go\<close> read in
  the other direction, and the round trip through the decoders of \<open>EvidenceJson\<close>. Two parts of the
  evidence come back in another form: the text of a problem in place of the problem, and the raw
  result of the engine in the layout of the file.
\<close>

section \<open>Encoders\<close>

definition enc_Nanoseconds :: "u64 \<Rightarrow> val" where
  "enc_Nanoseconds v = VRaw (Nanoseconds_MarshalJSON v)"

text \<open>\<open>Time.MarshalJSON\<close> refuses years that do not have four digits. All stored times are in UTC.\<close>

definition enc_Time :: "time \<Rightarrow> val" where
  "enc_Time t =
     (if date_time 0 1 1 0 0 0 0 \<le> t \<and> t < date_time 10000 1 1 0 0 0 0
      then VRaw (quote # format_rfc3339_nano t @ [quote]) else VFailed)"

text \<open>\<open>json.RawMessage\<close>: a nil message is \<open>null\<close>.\<close>

definition enc_RawMessage :: "bytes \<Rightarrow> val" where
  "enc_RawMessage m = VRaw (if m = [] then ''null'' else m)"

definition enc_Info :: "Info \<Rightarrow> val" where
  "enc_Info i = VStruct
     [(''version'', VStr (Version i)),
      (''full_commit'', VStr (FullCommit i)),
      (''source_state'', VStr (SourceState i))]"

text \<open>The tags say \<open>omitempty\<close> for four fields.\<close>

definition omitempty :: "bytes \<Rightarrow> bytes \<Rightarrow> (bytes \<times> val) list" where
  "omitempty key s = (if s = [] then [] else [(key, VStr s)])"

definition enc_ToolResult :: "(nat \<Rightarrow> bool) \<Rightarrow> ToolResult \<Rightarrow> val" where
  "enc_ToolResult is_print r = VStruct
     ([(''name'', VStr (r_Name r)),
       (''required_now'', VBool (r_Required r))] @
      omitempty ''minimum_version'' (r_MinimumVersion r) @
      [(''introduced'', VStr (r_Introduced r)),
       (''purpose'', VStr (r_Purpose r)),
       (''found'', VBool (r_Found r)),
       (''usable'', VBool (r_Usable r))] @
      omitempty ''path'' (r_Path r) @
      omitempty ''version'' (r_Version r) @
      omitempty ''problem'' (problem_text is_print (r_Problem r)))"

definition enc_Report :: "(nat \<Rightarrow> bool) \<Rightarrow> Report \<Rightarrow> val" where
  "enc_Report is_print r = VStruct
     [(''schema_version'', VStr (rp_SchemaVersion r)),
      (''milestone'', VStr (rp_Milestone r)),
      (''captured_at'', enc_Time (rp_CapturedAt r)),
      (''os'', VStr (rp_OS r)),
      (''kernel_version'', VStr (rp_KernelVersion r)),
      (''architecture'', VStr (rp_Architecture r)),
      (''cpu_model'', VStr (rp_CPUModel r)),
      (''physical_cores'', VInt (rp_PhysicalCores r)),
      (''logical_cpus'', VInt (rp_LogicalCPUs r)),
      (''gomaxprocs'', VInt (rp_GoMaxProcs r)),
      (''go_version'', VStr (rp_GoVersion r)),
      (''source'', enc_Info (rp_Source r)),
      (''ready'', VBool (rp_Ready r)),
      (''tools'', VList (map (enc_ToolResult is_print) (rp_Tools r)))]"

definition enc_Execution :: "Execution \<Rightarrow> val" where
  "enc_Execution e = VStruct
     [(''backend'', VStr (be_Backend e))]"

definition enc_Sampling :: "Sampling \<Rightarrow> val" where
  "enc_Sampling s = VStruct
     [(''warmup_iterations'', VUint (unat (sm_WarmupIterations s))),
      (''sample_iterations'', VUint (unat (sm_SampleIterations s)))]"

definition enc_Timing :: "Timing \<Rightarrow> val" where
  "enc_Timing t = VStruct
     [(''clock'', VStr (ti_Clock t)),
      (''unit'', VStr (ti_Unit t)),
      (''process_start_in_samples'', VBool (ti_ProcessStartInSamples t)),
      (''experiment_total_ns'', enc_Nanoseconds (ti_ExperimentTotalNS t))]"

definition enc_ProfileTiming :: "ProfileTiming \<Rightarrow> val" where
  "enc_ProfileTiming t = VStruct
     [(''clock'', VStr (ti_Clock t)),
      (''unit'', VStr (ti_Unit t)),
      (''process_start_in_samples'', VBool (ti_ProcessStartInSamples t)),
      (''topology'', VStr (ti_Topology t)),
      (''observer'', VStr (ti_Observer t)),
      (''experiment_total_ns'', enc_Nanoseconds (ti_ExperimentTotalNS t))]"

definition enc_Correctness :: "Correctness \<Rightarrow> val" where
  "enc_Correctness c = VStruct
     [(''status'', VStr (co_Status c)),
      (''oracle'', VStr (co_Oracle c)),
      (''comparison'', VStr (co_Comparison c))]"

definition enc_EngineBuild :: "EngineBuild \<Rightarrow> val" where
  "enc_EngineBuild b = VStruct
     [(''version'', VStr (eb_Version b)),
      (''profile'', VStr (eb_Profile b)),
      (''target'', VStr (eb_Target b)),
      (''rustc'', VStr (eb_Rustc b)),
      (''source_commit'', VStr (eb_SourceCommit b)),
      (''source_state'', VStr (eb_SourceState b))]"

definition enc_Sample :: "Sample \<Rightarrow> val" where
  "enc_Sample s = VStruct
     [(''ordinal'', VUint (unat (s_Ordinal s))),
      (''generation_ns'', enc_Nanoseconds (s_GenerationNS s)),
      (''pipeline_ns'', enc_Nanoseconds (s_PipelineNS s)),
      (''engine_total_ns'', enc_Nanoseconds (s_EngineTotalNS s))]"

definition enc_ProfileSample :: "ProfileSample \<Rightarrow> val" where
  "enc_ProfileSample s = VStruct
     [(''ordinal'', VUint (unat (ps_Ordinal s))),
      (''generation_ns'', enc_Nanoseconds (ps_GenerationNS s)),
      (''normalize_ns'', enc_Nanoseconds (ps_NormalizeNS s)),
      (''score_ns'', enc_Nanoseconds (ps_ScoreNS s)),
      (''filter_ns'', enc_Nanoseconds (ps_FilterNS s)),
      (''aggregate_ns'', enc_Nanoseconds (ps_AggregateNS s)),
      (''stage_sum_ns'', enc_Nanoseconds (ps_StageSumNS s)),
      (''profile_total_ns'', enc_Nanoseconds (ps_ProfileTotalNS s))]"

definition enc_engine_result :: "('t \<Rightarrow> val) \<Rightarrow> ('s \<Rightarrow> val) \<Rightarrow> ('t, 's) engine_result \<Rightarrow> val" where
  "enc_engine_result enc_timing enc_sample r = VStruct
     [(''schema_version'', VStr (er_SchemaVersion r)),
      (''experiment_id'', VStr (er_ExperimentID r)),
      (''scenario_name'', VStr (er_ScenarioName r)),
      (''workload_name'', VStr (er_WorkloadName r)),
      (''execution'', enc_Execution (er_Execution r)),
      (''sampling'', enc_Sampling (er_Sampling r)),
      (''timing'', enc_timing (er_Timing r)),
      (''correctness'', enc_Correctness (er_Correctness r)),
      (''engine_build'', enc_EngineBuild (er_EngineBuild r)),
      (''samples'', VList (map enc_sample (er_Samples r))),
      (''result'', enc_RawMessage (er_Result r))]"

definition enc_EngineResult :: "EngineResult \<Rightarrow> val" where
  "enc_EngineResult = enc_engine_result enc_Timing enc_Sample"

definition enc_ProfileEngineResult :: "ProfileEngineResult \<Rightarrow> val" where
  "enc_ProfileEngineResult = enc_engine_result enc_ProfileTiming enc_ProfileSample"

definition enc_Statistics :: "Statistics \<Rightarrow> val" where
  "enc_Statistics s = VStruct
     [(''count'', VInt (st_Count s)),
      (''minimum_ns'', enc_Nanoseconds (st_MinimumNS s)),
      (''median_ns'', enc_Nanoseconds (st_MedianNS s)),
      (''median_absolute_deviation_ns'', enc_Nanoseconds (st_MedianAbsoluteDeviationNS s)),
      (''maximum_ns'', enc_Nanoseconds (st_MaximumNS s))]"

definition enc_Summary :: "Summary \<Rightarrow> val" where
  "enc_Summary s = VStruct
     [(''generation'', enc_Statistics (su_Generation s)),
      (''pipeline'', enc_Statistics (su_Pipeline s)),
      (''engine_total'', enc_Statistics (su_EngineTotal s))]"

definition enc_ProfileSummary :: "ProfileSummary \<Rightarrow> val" where
  "enc_ProfileSummary s = VStruct
     [(''generation'', enc_Statistics (pf_Generation s)),
      (''normalize'', enc_Statistics (pf_Normalize s)),
      (''score'', enc_Statistics (pf_Score s)),
      (''filter'', enc_Statistics (pf_Filter s)),
      (''aggregate'', enc_Statistics (pf_Aggregate s)),
      (''stage_sum'', enc_Statistics (pf_StageSum s)),
      (''pipeline_stages'', enc_Statistics (pf_PipelineStages s)),
      (''profile_total'', enc_Statistics (pf_ProfileTotal s))]"

definition enc_Artifact :: "Artifact \<Rightarrow> val" where
  "enc_Artifact a = VStruct
     [(''path'', VStr (ar_Path a)),
      (''sha256'', VStr (ar_SHA256 a))]"

definition enc_SuiteIdentity :: "SuiteIdentity \<Rightarrow> val" where
  "enc_SuiteIdentity s = VStruct
     [(''path'', VStr (si_Path s)),
      (''sha256'', VStr (si_SHA256 s)),
      (''schema_version'', VStr (si_SchemaVersion s)),
      (''name'', VStr (si_Name s))]"

definition enc_WorkloadIdentity :: "WorkloadIdentity \<Rightarrow> val" where
  "enc_WorkloadIdentity w = VStruct
     [(''path'', VStr (wi_Path w)),
      (''sha256'', VStr (wi_SHA256 w)),
      (''schema_version'', VStr (wi_SchemaVersion w)),
      (''name'', VStr (wi_Name w)),
      (''record_count'', VUint (unat (wi_RecordCount w))),
      (''category_count'', VUint (unat (wi_CategoryCount w)))]"

definition enc_ProfileWorkloadIdentity :: "ProfileWorkloadIdentity \<Rightarrow> val" where
  "enc_ProfileWorkloadIdentity w = VStruct
     [(''path'', VStr (wi_Path w)),
      (''sha256'', VStr (wi_SHA256 w)),
      (''schema_version'', VStr (wi_SchemaVersion w)),
      (''name'', VStr (wi_Name w)),
      (''record_count'', VUint (unat (wi_RecordCount w))),
      (''category_count'', VUint (unat (wi_CategoryCount w))),
      (''distribution'', VStr (wi_Distribution w))]"

definition enc_StageSharesBPS :: "StageSharesBPS \<Rightarrow> val" where
  "enc_StageSharesBPS s = VStruct
     [(''generation'', VUint (unat (sh_Generation s))),
      (''normalize'', VUint (unat (sh_Normalize s))),
      (''score'', VUint (unat (sh_Score s))),
      (''filter'', VUint (unat (sh_Filter s))),
      (''aggregate'', VUint (unat (sh_Aggregate s)))]"

definition enc_ScenarioProfileAnalysis :: "ScenarioProfileAnalysis \<Rightarrow> val" where
  "enc_ScenarioProfileAnalysis a = VStruct
     [(''accepted_count'', VUint (unat (an_AcceptedCount a))),
      (''selectivity_bps'', VUint (unat (an_SelectivityBPS a))),
      (''stage_median_sum_ns'', enc_Nanoseconds (an_StageMedianSumNS a)),
      (''stage_pipeline_median_sum_ns'', enc_Nanoseconds (an_StagePipelineMedianSumNS a)),
      (''stage_share_bps'', enc_StageSharesBPS (an_StageShareBPS a)),
      (''dominant_stage'', VStr (an_DominantStage a)),
      (''dominant_pipeline_stage'', VStr (an_DominantPipelineStage a)),
      (''fused_pipeline_median_ns_per_record_milli'', VUint (unat (an_FusedPerRecordMilli a))),
      (''stage_pass_pipeline_median_ns_per_record_milli'', VUint (unat (an_StagePassPerRecordMilli a))),
      (''stage_pass_to_fused_pipeline_ratio_milli'', VUint (unat (an_StagePassToFusedRatioMilli a))),
      (''fused_pipeline_median_absolute_deviation_bps'', VUint (unat (an_FusedMADBPS a))),
      (''profile_total_median_absolute_deviation_bps'', VUint (unat (an_ProfileTotalMADBPS a)))]"

definition enc_Experiment :: "Experiment \<Rightarrow> val" where
  "enc_Experiment e = VStruct
     [(''scenario_name'', VStr (ex_ScenarioName e)),
      (''workload'', enc_WorkloadIdentity (ex_Workload e)),
      (''orchestration_total_ns'', enc_Nanoseconds (ex_OrchestrationTotalNS e)),
      (''engine_result'', enc_EngineResult (ex_EngineResult e)),
      (''summary'', enc_Summary (ex_Summary e))]"

definition enc_BaselineEvidence :: "BaselineEvidence \<Rightarrow> val" where
  "enc_BaselineEvidence e = VStruct
     [(''orchestration_total_ns'', enc_Nanoseconds (be_OrchestrationTotalNS e)),
      (''engine_result'', enc_EngineResult (be_EngineResult e)),
      (''summary'', enc_Summary (be_Summary e))]"

definition enc_StageProfileEvidence :: "StageProfileEvidence \<Rightarrow> val" where
  "enc_StageProfileEvidence e = VStruct
     [(''orchestration_total_ns'', enc_Nanoseconds (pe_OrchestrationTotalNS e)),
      (''engine_result'', enc_ProfileEngineResult (pe_EngineResult e)),
      (''summary'', enc_ProfileSummary (pe_Summary e))]"

definition enc_ProfileExperiment :: "ProfileExperiment \<Rightarrow> val" where
  "enc_ProfileExperiment e = VStruct
     [(''scenario_name'', VStr (px_ScenarioName e)),
      (''workload'', enc_ProfileWorkloadIdentity (px_Workload e)),
      (''baseline'', enc_BaselineEvidence (px_Baseline e)),
      (''stage_profile'', enc_StageProfileEvidence (px_StageProfile e)),
      (''analysis'', enc_ScenarioProfileAnalysis (px_Analysis e))]"

definition enc_evidence :: "(nat \<Rightarrow> bool) \<Rightarrow> ('x \<Rightarrow> val) \<Rightarrow> 'x evidence \<Rightarrow> val" where
  "enc_evidence is_print enc_experiment e = VStruct
     [(''schema_version'', VStr (ev_SchemaVersion e)),
      (''started_at'', enc_Time (ev_StartedAt e)),
      (''completed_at'', enc_Time (ev_CompletedAt e)),
      (''suite'', enc_SuiteIdentity (ev_Suite e)),
      (''controller'', enc_Info (ev_Controller e)),
      (''environment'', enc_Report is_print (ev_Environment e)),
      (''engine_artifact'', enc_Artifact (ev_EngineArtifact e)),
      (''experiments'', VList (map enc_experiment (ev_Experiments e)))]"

definition enc_Capture :: "(nat \<Rightarrow> bool) \<Rightarrow> Capture \<Rightarrow> val" where
  "enc_Capture is_print = enc_evidence is_print enc_Experiment"

definition enc_ScalarProfileReport :: "(nat \<Rightarrow> bool) \<Rightarrow> ScalarProfileReport \<Rightarrow> val" where
  "enc_ScalarProfileReport is_print = enc_evidence is_print enc_ProfileExperiment"

section \<open>Decoding single values\<close>

lemma read_string: "utf8_valid s \<Longrightarrow> dec_string (retext n (tree_of (VStr s))) old = Some s"
  by (simp add: dec_string_def unquote_quote_body)

lemma read_problem: "utf8_valid s \<Longrightarrow> dec_problem (retext n (tree_of (VStr s))) old = Some (Text s)"
  by (simp add: dec_problem_def unquote_quote_body)

lemma read_bool: "dec_bool (retext n (tree_of (VBool b))) old = Some b"
  by (simp add: dec_bool_def)

lemma read_u64: "dec_u64 (retext n (tree_of (VUint (unat w)))) old = Some w"
  using unsigned_less [of w] decimal_digits [of "unat w"] by (simp add: dec_u64_def parse_uint_def parse_digits_decimal)

lemma read_u32: "dec_u32 (retext n (tree_of (VUint (unat w)))) old = Some w"
  using unsigned_less [of w] decimal_digits [of "unat w"] by (simp add: dec_u32_def parse_uint_def parse_digits_decimal)

lemma atoi_int_digits:
  assumes "- (2 ^ 63) \<le> n" "n < 2 ^ 63"
  shows "atoi (int_digits n) = Some n"
proof (cases "n < 0")
  case True
  then show ?thesis
    using assms decimal_digits [of "nat (- n)"]
    by (simp add: int_digits_def atoi_def Platform.decimal_digits_def parse_digits_decimal nat_le_iff)
next
  case False
  obtain c cs where c: "decimal (nat n) = c # cs" using decimal_digits [of "nat n"] by (cases "decimal (nat n)") auto
  then have "is_digit c" using decimal_digits [of "nat n"] by simp
  then have "c \<noteq> CHR ''-''" "c \<noteq> CHR ''+''" by (auto simp: is_digit_def byte_def)
  then show ?thesis
    using False assms c parse_digits_decimal [of "nat n"]
    by (simp add: int_digits_def atoi_def Platform.decimal_digits_def nat_less_iff)
qed

lemma read_int: "- (2 ^ 63) \<le> n \<Longrightarrow> n < 2 ^ 63 \<Longrightarrow> dec_int (retext k (tree_of (VInt n))) old = Some n"
  by (simp add: dec_int_def atoi_int_digits)

text \<open>A quoted text of plain characters is its own tree.\<close>

lemma html_escape_plain: "list_all plain s \<Longrightarrow> html_escape s = s"
proof (induction s)
  case (Cons c s)
  then have "\<not> separator (c # s)" by (intro separator_byte) (auto simp: plain_def)
  with Cons show ?case by (simp add: html_escape_other plain_def)
qed simp

lemma tree_of_quoted: "list_all plain s \<Longrightarrow> tree_of (VRaw (quote # s @ [quote])) = JStr s"
  using parse_json_quoted [OF scan_string_plain [of s "[]"]] by (simp add: raw_tree_def html_escape_plain)

lemma plain_hex: "list_all plain (''0x'' @ format_016x v)"
  using plain_0x by simp

lemma read_Nanoseconds: "dec_Nanoseconds (retext n (tree_of (enc_Nanoseconds v))) old = Some v"
  using tree_of_quoted [OF plain_hex [of v]] Nanoseconds_roundtrip [of v]
  by (simp add: enc_Nanoseconds_def dec_Nanoseconds_def Nanoseconds_MarshalJSON_def del: tree_of.simps)

lemma plain_digits: "list_all is_digit s \<Longrightarrow> list_all plain s"
  by (auto simp: list_all_iff is_digit_def plain_def byte_def quote_def backslash_def)

lemma plain_padded: "list_all plain (zero_padded k n)"
proof -
  have "list_all is_digit (zero_padded k n)"
    using decimal_digits_only [of n] by (auto simp: zero_padded_def list_all_iff is_digit_def ascii_digit_def byte_def)
  then show ?thesis by (rule plain_digits)
qed

lemma plain_nano: "list_all plain (format_rfc3339_nano t)"
proof -
  have "list_all plain (rev (dropWhile P (rev s)))" if "list_all plain s" for P and s :: bytes
    using that by (auto simp: list_all_iff dest: set_dropWhileD)
  moreover have "plain (CHR ''.'')" by (simp add: plain_def byte_def quote_def backslash_def)
  ultimately have "list_all plain (nano_fraction k)" for k
    using plain_padded [of 9 k] by (simp add: nano_fraction_def)
  moreover have "plain (CHR ''-'')" "plain (CHR '':'')" "plain (CHR ''T'')" "plain (CHR ''Z'')"
    by (simp_all add: plain_def byte_def quote_def backslash_def)
  ultimately show ?thesis
    using plain_padded by (simp add: format_rfc3339_nano_def time_stamp_def Let_def split: prod.split)
qed

lemma read_Time: "encodable (enc_Time t) \<Longrightarrow> dec_Time (retext n (tree_of (enc_Time t))) old = Some t"
  using tree_of_quoted [OF plain_nano [of t]] nano_roundtrip [of t]
  by (auto simp: enc_Time_def dec_Time_def simp del: tree_of.simps split: if_splits)

text \<open>The raw result in the layout of the file.\<close>

definition laid_out :: "nat \<Rightarrow> bytes \<Rightarrow> bytes" where
  "laid_out n m = pretty n (escaped (raw_tree (if m = [] then ''null'' else m)))"

lemma read_raw: "dec_raw (retext n (tree_of (enc_RawMessage m))) old = Some (laid_out n m)"
  by (simp add: dec_raw_def enc_RawMessage_def laid_out_def)

section \<open>Decoding structs and slices\<close>

text \<open>The members of an encoded struct are decoded one after the other.\<close>

fun read_vals :: "bool \<Rightarrow> (bytes \<times> 's jdec) list \<Rightarrow> nat \<Rightarrow> (bytes \<times> val) list \<Rightarrow> 's \<Rightarrow> 's option" where
  "read_vals strict tags n [] s = Some s"
| "read_vals strict tags n ((k, v) # ms) s =
     (case find_field tags k of
        None \<Rightarrow> if strict then None else read_vals strict tags n ms s
      | Some d \<Rightarrow> (case d (retext n (tree_of v)) s of None \<Rightarrow> None | Some s' \<Rightarrow> read_vals strict tags n ms s'))"

lemma read_struct:
  assumes "storable (VStruct ms)"
  shows "dec_struct strict tags (retext n (tree_of (VStruct ms))) s = read_vals strict tags (Suc n) ms s"
proof -
  have "dec_fields strict tags (map (\<lambda>m. (quote_body (fst m), retext (Suc n) (tree_of (snd m)))) ms) s =
      read_vals strict tags (Suc n) ms s" if "list_all (utf8_valid \<circ> fst) ms" for ms
    using that by (induction ms arbitrary: s) (auto simp: unquote_quote_body split: option.split)
  from this [of ms] assms show ?thesis by (auto simp: dec_struct_def comp_def list_all_iff)
qed

lemma read_list:
  assumes "\<And>x. x \<in> set xs \<Longrightarrow> d (retext (Suc n) (tree_of (f x))) zero = Some (g x)"
  shows "dec_slice zero d (retext n (tree_of (VList (map f xs)))) [] = Some (map g xs)"
proof -
  have "dec_elems zero d (map (\<lambda>x. retext (Suc n) (tree_of (f x))) xs) [] = Some (map g xs)"
    using assms by (induction xs) auto
  then show ?thesis by (simp add: dec_slice_def comp_def)
qed

lemma storable_list: "storable (VList (map f xs)) \<longleftrightarrow> (\<forall>x\<in>set xs. storable (f x))"
  by (simp add: list_all_iff)

lemma encodable_list: "encodable (VList (map f xs)) \<longleftrightarrow> (\<forall>x\<in>set xs. encodable (f x))"
  by (simp add: list_all_iff)

declare tree_of.simps [simp del]

lemmas reading = read_struct read_string read_problem read_bool read_u64 read_u32 read_int read_Nanoseconds read_raw
  find_field_def on_field_def

section \<open>Decoding records\<close>

lemma read_Info: "storable (enc_Info i) \<Longrightarrow> dec_Info strict (retext n (tree_of (enc_Info i))) old = Some i"
  by (cases i; cases old) (simp add: dec_Info_def enc_Info_def reading)

lemma read_Execution: "storable (enc_Execution e) \<Longrightarrow> dec_Execution strict (retext n (tree_of (enc_Execution e))) old = Some e"
  by (cases e; cases old) (simp add: dec_Execution_def enc_Execution_def reading)

lemma read_Sampling: "storable (enc_Sampling s) \<Longrightarrow> dec_Sampling strict (retext n (tree_of (enc_Sampling s))) old = Some s"
  by (cases s; cases old) (simp add: dec_Sampling_def enc_Sampling_def reading)

lemma read_Timing: "storable (enc_Timing t) \<Longrightarrow> dec_Timing strict (retext n (tree_of (enc_Timing t))) old = Some t"
  by (cases t; cases old) (simp add: dec_Timing_def enc_Timing_def reading)

lemma read_ProfileTiming:
  "storable (enc_ProfileTiming t) \<Longrightarrow> dec_ProfileTiming strict (retext n (tree_of (enc_ProfileTiming t))) old = Some t"
  by (cases t; cases old) (simp add: dec_ProfileTiming_def enc_ProfileTiming_def reading)

lemma read_Correctness:
  "storable (enc_Correctness c) \<Longrightarrow> dec_Correctness strict (retext n (tree_of (enc_Correctness c))) old = Some c"
  by (cases c; cases old) (simp add: dec_Correctness_def enc_Correctness_def reading)

lemma read_EngineBuild:
  "storable (enc_EngineBuild b) \<Longrightarrow> dec_EngineBuild strict (retext n (tree_of (enc_EngineBuild b))) old = Some b"
  by (cases b; cases old) (simp add: dec_EngineBuild_def enc_EngineBuild_def reading)

lemma read_Sample: "storable (enc_Sample s) \<Longrightarrow> dec_Sample strict (retext n (tree_of (enc_Sample s))) old = Some s"
  by (cases s; cases old) (simp add: dec_Sample_def enc_Sample_def reading)

lemma read_ProfileSample:
  "storable (enc_ProfileSample s) \<Longrightarrow> dec_ProfileSample strict (retext n (tree_of (enc_ProfileSample s))) old = Some s"
  by (cases s; cases old) (simp add: dec_ProfileSample_def enc_ProfileSample_def reading)

lemma read_engine_result:
  assumes "storable (enc_engine_result enc_timing enc_sample r)" "er_Samples old = []"
    and timing: "dec_timing (retext (Suc n) (tree_of (enc_timing (er_Timing r)))) (er_Timing old) = Some (er_Timing r)"
    and samples: "\<And>s. s \<in> set (er_Samples r) \<Longrightarrow> dec_sample (retext (Suc (Suc n)) (tree_of (enc_sample s))) zero = Some s"
  shows "dec_engine_result strict dec_timing zero dec_sample (retext n (tree_of (enc_engine_result enc_timing enc_sample r))) old =
    Some (r\<lparr>er_Result := laid_out (Suc n) (er_Result r)\<rparr>)"
proof -
  have "dec_slice zero dec_sample (retext (Suc n) (tree_of (VList (map enc_sample (er_Samples r))))) [] = Some (map (\<lambda>s. s) (er_Samples r))"
    by (rule read_list) (rule samples)
  with assms(1,2) timing show ?thesis
    by (simp add: dec_engine_result_def enc_engine_result_def reading read_Execution read_Sampling read_Correctness read_EngineBuild)
qed

lemma read_EngineResult:
  assumes "storable (enc_EngineResult r)" "er_Samples old = []"
  shows "dec_EngineResult strict (retext n (tree_of (enc_EngineResult r))) old = Some (r\<lparr>er_Result := laid_out (Suc n) (er_Result r)\<rparr>)"
  unfolding dec_EngineResult_def enc_EngineResult_def
proof (rule read_engine_result)
  have s: "storable (enc_Timing (er_Timing r))" "\<forall>s\<in>set (er_Samples r). storable (enc_Sample s)"
    using assms(1) by (simp_all add: enc_EngineResult_def enc_engine_result_def list_all_iff)
  show "dec_Timing strict (retext (Suc n) (tree_of (enc_Timing (er_Timing r)))) (er_Timing old) = Some (er_Timing r)"
    by (rule read_Timing [OF s(1)])
  show "dec_Sample strict (retext (Suc (Suc n)) (tree_of (enc_Sample x))) zero_Sample = Some x" if "x \<in> set (er_Samples r)" for x
    using s(2) that by (simp add: read_Sample)
qed (use assms in \<open>simp_all add: enc_EngineResult_def\<close>)

lemma read_ProfileEngineResult:
  assumes "storable (enc_ProfileEngineResult r)" "er_Samples old = []"
  shows "dec_ProfileEngineResult strict (retext n (tree_of (enc_ProfileEngineResult r))) old =
    Some (r\<lparr>er_Result := laid_out (Suc n) (er_Result r)\<rparr>)"
  unfolding dec_ProfileEngineResult_def enc_ProfileEngineResult_def
proof (rule read_engine_result)
  have s: "storable (enc_ProfileTiming (er_Timing r))" "\<forall>s\<in>set (er_Samples r). storable (enc_ProfileSample s)"
    using assms(1) by (simp_all add: enc_ProfileEngineResult_def enc_engine_result_def list_all_iff)
  show "dec_ProfileTiming strict (retext (Suc n) (tree_of (enc_ProfileTiming (er_Timing r)))) (er_Timing old) = Some (er_Timing r)"
    by (rule read_ProfileTiming [OF s(1)])
  show "dec_ProfileSample strict (retext (Suc (Suc n)) (tree_of (enc_ProfileSample x))) zero_ProfileSample = Some x"
    if "x \<in> set (er_Samples r)" for x
    using s(2) that by (simp add: read_ProfileSample)
qed (use assms in \<open>simp_all add: enc_ProfileEngineResult_def\<close>)

lemma read_Statistics:
  "storable (enc_Statistics s) \<Longrightarrow> dec_Statistics strict (retext n (tree_of (enc_Statistics s))) old = Some s"
  by (cases s; cases old) (simp add: dec_Statistics_def enc_Statistics_def reading)

lemma read_Summary:
  "storable (enc_Summary s) \<Longrightarrow> dec_Summary strict (retext n (tree_of (enc_Summary s))) old = Some s"
  by (cases s; cases old) (simp add: dec_Summary_def enc_Summary_def reading read_Statistics)

lemma read_ProfileSummary:
  "storable (enc_ProfileSummary s) \<Longrightarrow> dec_ProfileSummary strict (retext n (tree_of (enc_ProfileSummary s))) old = Some s"
  by (cases s; cases old) (simp add: dec_ProfileSummary_def enc_ProfileSummary_def reading read_Statistics)

lemma read_Artifact:
  "storable (enc_Artifact a) \<Longrightarrow> dec_Artifact strict (retext n (tree_of (enc_Artifact a))) old = Some a"
  by (cases a; cases old) (simp add: dec_Artifact_def enc_Artifact_def reading)

lemma read_SuiteIdentity:
  "storable (enc_SuiteIdentity s) \<Longrightarrow> dec_SuiteIdentity strict (retext n (tree_of (enc_SuiteIdentity s))) old = Some s"
  by (cases s; cases old) (simp add: dec_SuiteIdentity_def enc_SuiteIdentity_def reading)

lemma read_WorkloadIdentity:
  "storable (enc_WorkloadIdentity w) \<Longrightarrow> dec_WorkloadIdentity strict (retext n (tree_of (enc_WorkloadIdentity w))) old = Some w"
  by (cases w; cases old) (simp add: dec_WorkloadIdentity_def enc_WorkloadIdentity_def reading)

lemma read_ProfileWorkloadIdentity:
  "storable (enc_ProfileWorkloadIdentity w) \<Longrightarrow> dec_ProfileWorkloadIdentity strict (retext n (tree_of (enc_ProfileWorkloadIdentity w))) old = Some w"
  by (cases w; cases old) (simp add: dec_ProfileWorkloadIdentity_def enc_ProfileWorkloadIdentity_def reading)

lemma read_StageSharesBPS:
  "storable (enc_StageSharesBPS s) \<Longrightarrow> dec_StageSharesBPS strict (retext n (tree_of (enc_StageSharesBPS s))) old = Some s"
  by (cases s; cases old) (simp add: dec_StageSharesBPS_def enc_StageSharesBPS_def reading)

lemma read_ScenarioProfileAnalysis:
  "storable (enc_ScenarioProfileAnalysis a) \<Longrightarrow> dec_ScenarioProfileAnalysis strict (retext n (tree_of (enc_ScenarioProfileAnalysis a))) old = Some a"
  by (cases a; cases old) (simp add: dec_ScenarioProfileAnalysis_def enc_ScenarioProfileAnalysis_def reading read_StageSharesBPS)

lemma read_ToolResult:
  "storable (enc_ToolResult is_print r) \<Longrightarrow> dec_ToolResult strict (retext n (tree_of (enc_ToolResult is_print r))) zero_ToolResult =
     Some (r\<lparr>r_Problem := Text (problem_text is_print (r_Problem r))\<rparr>)"
  by (cases r; cases "r_MinimumVersion r = []"; cases "r_Path r = []"; cases "r_Version r = []";
      cases "problem_text is_print (r_Problem r) = []")
    (simp_all add: dec_ToolResult_def enc_ToolResult_def zero_ToolResult_def omitempty_def reading)

text \<open>A report whose problems have been rendered.\<close>

definition rendered :: "(nat \<Rightarrow> bool) \<Rightarrow> Report \<Rightarrow> Report" where
  "rendered is_print = rp_Tools_update (map (\<lambda>r. r\<lparr>r_Problem := Text (problem_text is_print (r_Problem r))\<rparr>))"

lemma read_Report:
  assumes "storable (enc_Report is_print r)" "encodable (enc_Report is_print r)" "rp_Tools old = []"
  shows "dec_Report strict (retext n (tree_of (enc_Report is_print r))) old = Some (rendered is_print r)"
proof -
  have "\<forall>x\<in>set (rp_Tools r). storable (enc_ToolResult is_print x)" and t: "encodable (enc_Time (rp_CapturedAt r))"
    using assms(1,2) by (simp_all add: enc_Report_def list_all_iff)
  then have "dec_slice zero_ToolResult (dec_ToolResult strict) (retext (Suc n) (tree_of (VList (map (enc_ToolResult is_print) (rp_Tools r))))) [] =
      Some (map (\<lambda>r. r\<lparr>r_Problem := Text (problem_text is_print (r_Problem r))\<rparr>) (rp_Tools r))"
    by (intro read_list) (simp add: read_ToolResult)
  with assms(1,3) show ?thesis
    by (simp add: dec_Report_def enc_Report_def reading read_Time [OF t] read_Info rendered_def)
qed

section \<open>Decoding evidence\<close>

text \<open>An engine result is three levels deep in a capture and four in a profile report.\<close>

definition stored_result :: "nat \<Rightarrow> ('t, 's) engine_result \<Rightarrow> ('t, 's) engine_result" where
  "stored_result n r = r\<lparr>er_Result := laid_out n (er_Result r)\<rparr>"

definition stored_Experiment :: "Experiment \<Rightarrow> Experiment" where
  "stored_Experiment = ex_EngineResult_update (stored_result 4)"

definition stored_ProfileExperiment :: "ProfileExperiment \<Rightarrow> ProfileExperiment" where
  "stored_ProfileExperiment =
     px_Baseline_update (be_EngineResult_update (stored_result 5)) \<circ>
     px_StageProfile_update (pe_EngineResult_update (stored_result 5))"

definition stored_evidence :: "(nat \<Rightarrow> bool) \<Rightarrow> ('x \<Rightarrow> 'x) \<Rightarrow> 'x evidence \<Rightarrow> 'x evidence" where
  "stored_evidence is_print f = ev_Environment_update (rendered is_print) \<circ> ev_Experiments_update (map f)"

lemma read_Experiment:
  assumes "storable (enc_Experiment e)"
  shows "dec_Experiment strict (retext 2 (tree_of (enc_Experiment e))) zero_Experiment = Some (stored_Experiment e)"
  using assms
  by (simp add: dec_Experiment_def enc_Experiment_def reading read_WorkloadIdentity read_EngineResult read_Summary
      zero_Experiment_def zero_EngineResult_def zero_engine_result_def stored_Experiment_def stored_result_def)

lemma read_BaselineEvidence:
  assumes "storable (enc_BaselineEvidence e)" "er_Samples (be_EngineResult old) = []"
  shows "dec_BaselineEvidence strict (retext 3 (tree_of (enc_BaselineEvidence e))) old =
    Some (be_EngineResult_update (stored_result 5) e)"
  using assms
  by (simp add: dec_BaselineEvidence_def enc_BaselineEvidence_def reading read_EngineResult read_Summary stored_result_def)

lemma read_StageProfileEvidence:
  assumes "storable (enc_StageProfileEvidence e)" "er_Samples (pe_EngineResult old) = []"
  shows "dec_StageProfileEvidence strict (retext 3 (tree_of (enc_StageProfileEvidence e))) old =
    Some (pe_EngineResult_update (stored_result 5) e)"
  using assms
  by (simp add: dec_StageProfileEvidence_def enc_StageProfileEvidence_def reading read_ProfileEngineResult read_ProfileSummary
      stored_result_def)

lemma read_ProfileExperiment:
  assumes "storable (enc_ProfileExperiment e)"
  shows "dec_ProfileExperiment strict (retext 2 (tree_of (enc_ProfileExperiment e))) zero_ProfileExperiment =
    Some (stored_ProfileExperiment e)"
  using assms
  by (simp add: dec_ProfileExperiment_def enc_ProfileExperiment_def reading read_ProfileWorkloadIdentity read_BaselineEvidence
      read_StageProfileEvidence read_ScenarioProfileAnalysis zero_ProfileExperiment_def zero_EngineResult_def
      zero_ProfileEngineResult_def zero_engine_result_def stored_ProfileExperiment_def)

lemma read_evidence:
  assumes "storable (enc_evidence is_print enc_experiment e)" "encodable (enc_evidence is_print enc_experiment e)"
    and experiments: "\<And>x. storable (enc_experiment x) \<Longrightarrow> dec_experiment strict (retext 2 (tree_of (enc_experiment x))) zero = Some (f x)"
  shows "dec_evidence zero dec_experiment strict (retext 0 (tree_of (enc_evidence is_print enc_experiment e))) zero_evidence =
    Some (stored_evidence is_print f e)"
proof -
  have x: "\<forall>x\<in>set (ev_Experiments e). storable (enc_experiment x)"
    and env: "encodable (enc_Report is_print (ev_Environment e))"
    and t: "encodable (enc_Time (ev_StartedAt e))" "encodable (enc_Time (ev_CompletedAt e))"
    using assms(1,2) by (simp_all add: enc_evidence_def list_all_iff)
  have "dec_slice zero (dec_experiment strict) (retext 1 (tree_of (VList (map enc_experiment (ev_Experiments e))))) [] =
      Some (map f (ev_Experiments e))"
    using x experiments by (intro read_list) (simp add: numeral_2_eq_2)
  with assms(1) env show ?thesis
    by (simp add: dec_evidence_def enc_evidence_def reading read_Time [OF t(1)] read_Time [OF t(2)] read_Info read_SuiteIdentity
        read_Artifact read_Report zero_evidence_def stored_evidence_def)
qed

lemma read_Capture:
  "storable (enc_Capture is_print c) \<Longrightarrow> encodable (enc_Capture is_print c) \<Longrightarrow>
   dec_Capture strict (retext 0 (tree_of (enc_Capture is_print c))) zero_evidence =
     Some (stored_evidence is_print stored_Experiment c)"
  by (simp add: dec_Capture_def enc_Capture_def read_evidence read_Experiment)

lemma read_ScalarProfileReport:
  "storable (enc_ScalarProfileReport is_print p) \<Longrightarrow> encodable (enc_ScalarProfileReport is_print p) \<Longrightarrow>
   dec_ScalarProfileReport strict (retext 0 (tree_of (enc_ScalarProfileReport is_print p))) zero_evidence =
     Some (stored_evidence is_print stored_ProfileExperiment p)"
  by (simp add: dec_ScalarProfileReport_def enc_ScalarProfileReport_def read_evidence read_ProfileExperiment)

end
