(* ===== verification/AppText.thy ===== *)
theory AppText
  imports Receipts EvidenceText
begin

text \<open>
  The texts that \<open>internal/app/app.go\<close> prints on standard output, as lines or as indented JSON. \<open>App\<close> keeps a
  message as what it reports; here it is rendered. Arguments are \<open>is_print\<close>, the Unicode data behind \<open>%q\<close>, and \<open>format_g17\<close>,
  the \<open>%.17g\<close> of a finite float.
\<close>

definition unlines :: "bytes list \<Rightarrow> bytes" where
  "unlines ls = concat (map (\<lambda>l. l @ [line_feed]) ls)"

definition help_text :: bytes where
  "help_text = unlines
     [''ParaFlow experiment controller'',
      [],
      ''Usage:'',
      ''  labctl run --engine <path> <workload.json>'',
      ''  labctl benchmark --engine <path> --suite <suite.json> --output <capture.json> [--repository-root <path>]'',
      ''  labctl profile --engine <path> --suite <suite.json> --output <report.json> [--repository-root <path>]'',
      ''  labctl verify [--json] [--repository-root <path>] [--engine <path>] <evidence.json>'',
      ''  labctl doctor [--json]'',
      ''  labctl version'',
      ''  labctl help'',
      [],
      ''The run command verifies one workload through the versioned Rust worker.'',
      ''The benchmark command captures the fused scalar baseline. The profile command'',
      ''pairs that unchanged baseline with diagnostic materialized stage passes and'',
      ''persists raw evidence plus integer-only analysis. The verify command replays''] @
     ''all deterministic evidence checks without rerunning a benchmark.''"

definition float_bytes :: "(float64 \<Rightarrow> bytes) \<Rightarrow> float_text \<Rightarrow> bytes" where
  "float_bytes format_g17 f =
     (case f of PlusInf \<Rightarrow> ''+Inf'' | MinusInf \<Rightarrow> ''-Inf'' | NaNText \<Rightarrow> ''NaN'' | Finite v \<Rightarrow> format_g17 v)"

definition u64_text :: "u64 \<Rightarrow> bytes" where
  "u64_text n = decimal (unat n)"

definition run_text :: "(nat \<Rightarrow> bool) \<Rightarrow> (float64 \<Rightarrow> bytes) \<Rightarrow> run_report \<Rightarrow> bytes" where
  "run_text is_print format_g17 r =
     unlines
       [''workload: '' @ go_quote is_print (rr_Workload r),
        ''backend: '' @ rr_Backend r,
        ''accepted_count: '' @ u64_text (rr_AcceptedCount r),
        ''score_sum: '' @ float_bytes format_g17 (rr_ScoreSum r),
        ''score_sum_bits: 0x'' @ format_016x (rr_ScoreSumBits r),
        ''category_histogram: '' @ rr_CategoryHistogram r,
        ''accepted_id_sum: 0x'' @ format_016x (rr_AcceptedIDSum r)] @
     ''accepted_id_xor: 0x'' @ format_016x (rr_AcceptedIDXOR r)"

definition capture_line :: "Experiment \<Rightarrow> bytes" where
  "capture_line e =
     ''- '' @ ex_ScenarioName e @ '': samples='' @ int_text (st_Count (su_EngineTotal (ex_Summary e))) @
     '' generation_median_ns='' @ u64_text (st_MedianNS (su_Generation (ex_Summary e))) @
     '' pipeline_median_ns='' @ u64_text (st_MedianNS (su_Pipeline (ex_Summary e))) @
     '' engine_total_median_ns='' @ u64_text (st_MedianNS (su_EngineTotal (ex_Summary e)))"

definition capture_text :: "(nat \<Rightarrow> bool) \<Rightarrow> run_options \<Rightarrow> Capture \<Rightarrow> bytes" where
  "capture_text is_print options capture =
     unlines
       ([''capture: '' @ App.o_OutputPath options,
         ''suite: '' @ go_quote is_print (si_Name (ev_Suite capture)),
         ''scenarios: '' @ decimal (length (ev_Experiments capture))] @
        map capture_line (ev_Experiments capture)) @
     ''raw samples retained; no speedup claim is implied''"

definition profile_line :: "ProfileExperiment \<Rightarrow> bytes" where
  "profile_line e =
     ''- '' @ px_ScenarioName e @ '': records='' @ u64_text (wi_RecordCount (px_Workload e)) @
     '' fused_pipeline_median_ns='' @ u64_text (st_MedianNS (su_Pipeline (be_Summary (px_Baseline e)))) @
     '' dominant_stage='' @ an_DominantStage (px_Analysis e) @
     '' dominant_pipeline_stage='' @ an_DominantPipelineStage (px_Analysis e) @
     '' stage_pass_to_fused_ratio_milli='' @ u64_text (an_StagePassToFusedRatioMilli (px_Analysis e))"

definition profile_text :: "(nat \<Rightarrow> bool) \<Rightarrow> run_options \<Rightarrow> ScalarProfileReport \<Rightarrow> bytes" where
  "profile_text is_print options report =
     unlines
       ([''report: '' @ App.o_OutputPath options,
         ''suite: '' @ go_quote is_print (si_Name (ev_Suite report)),
         ''scenarios: '' @ decimal (length (ev_Experiments report))] @
        map profile_line (ev_Experiments report)) @
     ''raw fused and stage-pass samples retained; observer ratio is not a speedup claim''"

definition receipt_text :: "(nat \<Rightarrow> bool) \<Rightarrow> EvidenceVerification \<Rightarrow> bytes" where
  "receipt_text is_print r =
     unlines
       [''evidence: '' @ rc_EvidencePath r,
        ''status: '' @ rc_Status r,
        ''schema: '' @ rc_EvidenceSchema r,
        ''suite: '' @ go_quote is_print (rc_SuiteName r),
        ''experiments: '' @ decimal (rc_ExperimentCount r),
        ''retained_samples: '' @ decimal (rc_RetainedSampleCount r),
        ''repository_identities: '' @ decimal (rc_RepositoryIdentitiesVerified r),
        ''engine_artifact: '' @
          (if rc_EngineArtifactVerified r then ''SHA-256 verified'' else ''identity recorded; bytes not supplied'')] @
     ''evidence_sha256: '' @ rc_EvidenceSHA256 r"

definition enc_EvidenceVerification :: "EvidenceVerification \<Rightarrow> val" where
  "enc_EvidenceVerification r = VStruct
     [(''schema_version'', VStr (rc_SchemaVersion r)),
      (''status'', VStr (rc_Status r)),
      (''evidence_path'', VStr (rc_EvidencePath r)),
      (''evidence_sha256'', VStr (rc_EvidenceSHA256 r)),
      (''evidence_schema'', VStr (rc_EvidenceSchema r)),
      (''suite_name'', VStr (rc_SuiteName r)),
      (''experiment_count'', VInt (int (rc_ExperimentCount r))),
      (''retained_sample_count'', VInt (int (rc_RetainedSampleCount r))),
      (''repository_identities_verified'', VInt (int (rc_RepositoryIdentitiesVerified r))),
      (''engine_artifact_verified'', VBool (rc_EngineArtifactVerified r))]"

text \<open>What is sent to standard output, with the line feed of \<open>Fprintln\<close> and of \<open>Encoder.Encode\<close>. A JSON encoder that
  fails prints nothing; the other messages go to standard error.\<close>

definition stdout_text ::
  "(nat \<Rightarrow> bool) \<Rightarrow> (float64 \<Rightarrow> bytes) \<Rightarrow> (verify_error, Capture, ScalarProfileReport, EvidenceVerification) message \<Rightarrow>
     bytes option" where
  "stdout_text is_print format_g17 m =
     map_option (\<lambda>t. t @ [line_feed])
       (case m of
          HelpText \<Rightarrow> Some help_text
        | VersionText t \<Rightarrow> Some t
        | RunText r \<Rightarrow> Some (run_text is_print format_g17 r)
        | CaptureText options capture \<Rightarrow> Some (capture_text is_print options capture)
        | ProfileText options report \<Rightarrow> Some (profile_text is_print options report)
        | ReceiptText receipt \<Rightarrow> Some (receipt_text is_print receipt)
        | DoctorText report \<Rightarrow> Some (Report_String is_print report)
        | ReceiptJSON receipt \<Rightarrow> MarshalIndent (enc_EvidenceVerification receipt)
        | DoctorJSON report \<Rightarrow> MarshalIndent (enc_Report is_print report)
        | _ \<Rightarrow> None)"

end
