(* ===== verification/JsonStable.thy ===== *)
theory JsonStable
  imports JsonValue
begin

text \<open>
  Decoding does not depend on the layout of a document nor on the escapes in its strings, as long as the
  decoder does not keep raw text: a raw message means the same after it has been stored.
\<close>

section \<open>Parsed trees\<close>

text \<open>The raw text of an array or object starts with its bracket.\<close>

fun bracketed :: "json \<Rightarrow> bool" where
  "bracketed (JArr r js) \<longleftrightarrow> (\<exists>s. r = CHR ''['' # s) \<and> list_all bracketed js"
| "bracketed (JObj r ms) \<longleftrightarrow> (\<exists>s. r = CHR ''{'' # s) \<and> list_all (\<lambda>m. bracketed (snd m)) ms"
| "bracketed _ \<longleftrightarrow> True"

lemma text_upto_Cons: "length r \<le> length s \<Longrightarrow> \<exists>t. text_upto (c # s) r = c # t"
  by (simp add: text_upto_def Suc_diff_le)

lemma parse_bracketed:
  "(\<forall>d s j r. parse_value f d s = Parsed j r \<longrightarrow> bracketed j) \<and>
   (\<forall>d s js r. parse_elems f d s = Parsed js r \<longrightarrow> list_all bracketed js) \<and>
   (\<forall>d s ms r. parse_members f d s = Parsed ms r \<longrightarrow> list_all (\<lambda>m. bracketed (snd m)) ms)"
proof (induction f)
  case 0
  show ?case by (simp add: parse_unfold)
next
  case (Suc f)
  then have IHv: "\<And>d s j r. parse_value f d s = Parsed j r \<Longrightarrow> bracketed j"
    and IHe: "\<And>d s js r. parse_elems f d s = Parsed js r \<Longrightarrow> list_all bracketed js"
    and IHm: "\<And>d s ms r. parse_members f d s = Parsed ms r \<Longrightarrow> list_all (\<lambda>m. bracketed (snd m)) ms"
    by blast+
  have less: "length r < length s" if "parse_elems f d s = Parsed js r" for d s js r using parse_less that by blast
  have less': "length r < length s" if "parse_members f d s = Parsed ms r" for d s ms r using parse_less that by blast
  have V: "bracketed j" if "parse_value (Suc f) d s = Parsed j r" for d s j r
    using that
  proof (cases rule: parse_value_cases)
    case (lit c cs)
    then show ?thesis by (auto simp: scan_literal_def split: if_splits)
  next
    case (arr0 cs)
    then show ?thesis using skip_space_Cons [OF arr0(2)] text_upto_Cons [of r cs] by auto
  next
    case (arr f' cs x xs es)
    then show ?thesis using skip_space_Cons [OF arr(3)] less [of "Suc d" "x # xs" es r] text_upto_Cons [of r cs] IHe by auto
  next
    case (obj0 cs)
    then show ?thesis using skip_space_Cons [OF obj0(2)] text_upto_Cons [of r cs] by auto
  next
    case (obj f' cs x xs ms)
    then show ?thesis using skip_space_Cons [OF obj(3)] less' [of "Suc d" "x # xs" ms r] text_upto_Cons [of r cs] IHm by auto
  qed
  have E: "list_all bracketed js" if "parse_elems (Suc f) d s = Parsed js r" for d s js r
    using that by (cases rule: parse_elems_cases) (auto dest: IHv IHe)
  have M: "list_all (\<lambda>m. bracketed (snd m)) ms" if "parse_members (Suc f) d s = Parsed ms r" for d s ms r
    using that by (cases rule: parse_members_cases) (auto dest: IHv IHm)
  from V E M show ?case by blast
qed

text \<open>A parsed value is not nested too deeply.\<close>

lemma parse_nesting:
  "(\<forall>d s j r. parse_value f d s = Parsed j r \<longrightarrow> nesting j = 0 \<or> d + nesting j \<le> max_nesting_depth) \<and>
   (\<forall>d s js r. parse_elems f d s = Parsed js r \<longrightarrow>
      foldr (max \<circ> nesting) js 0 = 0 \<or> d + foldr (max \<circ> nesting) js 0 \<le> max_nesting_depth) \<and>
   (\<forall>d s ms r. parse_members f d s = Parsed ms r \<longrightarrow>
      foldr (\<lambda>m. max (nesting (snd m))) ms 0 = 0 \<or> d + foldr (\<lambda>m. max (nesting (snd m))) ms 0 \<le> max_nesting_depth)"
proof (induction f)
  case 0
  show ?case by (simp add: parse_unfold)
next
  case (Suc f)
  then have IHv: "\<And>d s j r. parse_value f d s = Parsed j r \<Longrightarrow> nesting j = 0 \<or> d + nesting j \<le> max_nesting_depth"
    and IHe: "\<And>d s js r. parse_elems f d s = Parsed js r \<Longrightarrow>
      foldr (max \<circ> nesting) js 0 = 0 \<or> d + foldr (max \<circ> nesting) js 0 \<le> max_nesting_depth"
    and IHm: "\<And>d s ms r. parse_members f d s = Parsed ms r \<Longrightarrow>
      foldr (\<lambda>m. max (nesting (snd m))) ms 0 = 0 \<or> d + foldr (\<lambda>m. max (nesting (snd m))) ms 0 \<le> max_nesting_depth"
    by blast+
  have V: "nesting j = 0 \<or> d + nesting j \<le> max_nesting_depth" if "parse_value (Suc f) d s = Parsed j r" for d s j r
    using that
  proof (cases rule: parse_value_cases)
    case (lit c cs)
    then show ?thesis by (auto simp: scan_literal_def split: if_splits)
  next
    case (arr f' cs x xs es)
    then show ?thesis using IHe [of "Suc d" "x # xs" es r] by auto
  next
    case (obj f' cs x xs ms)
    then show ?thesis using IHm [of "Suc d" "x # xs" ms r] by auto
  qed simp_all
  have E: "foldr (max \<circ> nesting) js 0 = 0 \<or> d + foldr (max \<circ> nesting) js 0 \<le> max_nesting_depth"
    if "parse_elems (Suc f) d s = Parsed js r" for d s js r
    using that
  proof (cases rule: parse_elems_cases)
    case (last f' j r1)
    then show ?thesis using IHv [of d s j r1] by auto
  next
    case (more f' j r1 r2 js')
    then show ?thesis using IHv [of d s j r1] IHe [of d r2 js' r] by (auto simp: max_def)
  qed
  have M: "foldr (\<lambda>m. max (nesting (snd m))) ms 0 = 0 \<or> d + foldr (\<lambda>m. max (nesting (snd m))) ms 0 \<le> max_nesting_depth"
    if "parse_members (Suc f) d s = Parsed ms r" for d s ms r
    using that
  proof (cases rule: parse_members_cases)
    case (last f' cs k r1 r2 j r3)
    then show ?thesis using IHv [of d r2 j r3] by auto
  next
    case (more f' cs k r1 r2 j r3 r4 ms')
    then show ?thesis using IHv [of d r2 j r3] IHm [of d r4 ms' r] by (auto simp: max_def)
  qed
  from V E M show ?case by blast
qed

lemma parse_json_facts:
  assumes "parse_json s = Parsed j r"
  shows "bracketed j" "nesting j \<le> max_nesting_depth" "literals j"
proof -
  have p: "parse_value (2 * length s + 2) 0 s = Parsed j r" using assms by (simp add: parse_json_def)
  show "bracketed j" using p parse_bracketed by blast
  have "nesting j = 0 \<or> 0 + nesting j \<le> max_nesting_depth" using p parse_nesting by blast
  then show "nesting j \<le> max_nesting_depth" by auto
  show "literals j" by (rule parse_json_literals [OF assms])
qed

lemma nesting_escaped [simp]: "nesting (escaped j) = nesting j"
proof (induction j)
  case (JArr r js)
  then have "foldr (max \<circ> nesting) (map escaped js) 0 = foldr (max \<circ> nesting) js 0"
    by (induction js) auto
  then show ?case by simp
next
  case (JObj r ms)
  then have "foldr (\<lambda>m. max (nesting (snd m))) (map (\<lambda>m. (html_escape (fst m), escaped (snd m))) ms) 0 =
      foldr (\<lambda>m. max (nesting (snd m))) ms 0"
    by (induction ms) (auto simp: snds.simps)
  then show ?case by simp
qed simp_all

section \<open>Decoders that do not see the layout\<close>

definition layout_free :: "'a jdec \<Rightarrow> bool" where
  "layout_free d \<longleftrightarrow> (\<forall>j n old. literals j \<and> bracketed j \<longrightarrow> d (retext n (escaped j)) old = d j old)"

lemma layout_free_string: "layout_free dec_string"
  unfolding layout_free_def
proof (intro allI impI)
  fix j n old assume "literals j \<and> bracketed j"
  then show "dec_string (retext n (escaped j)) old = dec_string j old"
    by (cases j) (simp_all add: dec_string_def unquote_html_escape)
qed

text \<open>A method that decodes a string out of the raw text.\<close>

lemma unmarshal_string_body: "body b \<Longrightarrow> unmarshal_string (quote # b @ [quote]) = Some (unquote b)"
  using parse_json_quoted [OF body_scan [of b "[]"]] by (simp add: unmarshal_string_def dec_string_def)

lemma parse_bracket:
  assumes "parse_value f d (c # s) = Parsed j r" "c = CHR ''['' \<or> c = CHR ''{''"
  shows "dec_string j old = None"
proof -
  have "skip_space (c # s) = c # s" using assms(2) by (intro skip_space_head) auto
  with assms show ?thesis by (cases rule: parse_value_cases) (auto simp: dec_string_def)
qed

lemma unmarshal_string_bracket: "c = CHR ''['' \<or> c = CHR ''{'' \<Longrightarrow> unmarshal_string (c # s) = None"
  by (simp add: unmarshal_string_def parse_json_def parse_bracket split: parsed.split)

lemma layout_free_unmarshal: "layout_free (\<lambda>j old. case unmarshal_string (raw_of j) of None \<Rightarrow> None | Some s \<Rightarrow> f s)"
  unfolding layout_free_def
proof (intro allI impI)
  fix j n and old :: 'b assume j: "literals j \<and> bracketed j"
  have "unmarshal_string (raw_of (retext n (escaped j))) = unmarshal_string (raw_of j)"
  proof (cases j)
    case (JStr b)
    with j show ?thesis by (simp add: unmarshal_string_body body_html_escape unquote_html_escape)
  next
    case (JArr r js)
    with j show ?thesis by (auto simp: unmarshal_string_bracket)
  next
    case (JObj r ms)
    with j show ?thesis by (auto simp: unmarshal_string_bracket)
  qed simp_all
  then show "(case unmarshal_string (raw_of (retext n (escaped j))) of None \<Rightarrow> None | Some s \<Rightarrow> f s) =
      (case unmarshal_string (raw_of j) of None \<Rightarrow> None | Some s \<Rightarrow> f s)" by simp
qed

lemma layout_free_ptr: "layout_free d \<Longrightarrow> layout_free (dec_ptr zero d)"
  unfolding layout_free_def
proof (intro allI impI)
  fix j n and old :: "'a option"
  assume d: "\<forall>j n old. literals j \<and> bracketed j \<longrightarrow> d (retext n (escaped j)) old = d j old" and j: "literals j \<and> bracketed j"
  then have "d (retext n (escaped j)) x = d j x" for x by blast
  then show "dec_ptr zero d (retext n (escaped j)) old = dec_ptr zero d j old"
    by (cases j) (simp_all add: dec_ptr_def)
qed

lemma layout_free_elems:
  assumes "layout_free d" "list_all literals js" "list_all bracketed js"
  shows "dec_elems zero d (map (retext n \<circ> escaped) js) old = dec_elems zero d js old"
  using assms(2,3)
proof (induction js arbitrary: old)
  case (Cons j js)
  then have "d (retext n (escaped j)) x = d j x" for x using assms(1) by (simp add: layout_free_def)
  with Cons show ?case by (simp split: option.split)
qed simp

lemma layout_free_slice: "layout_free d \<Longrightarrow> layout_free (dec_slice zero d)"
  unfolding layout_free_def [of "dec_slice zero d"]
proof (intro allI impI)
  fix j n and old :: "'a list" assume "layout_free d" "literals j \<and> bracketed j"
  then show "dec_slice zero d (retext n (escaped j)) old = dec_slice zero d j old"
    using layout_free_elems [of d _ zero "Suc n" old] by (cases j) (simp_all add: dec_slice_def comp_def)
qed

lemma layout_free_on_field: "layout_free d \<Longrightarrow> layout_free (on_field get upd d)"
  by (simp add: layout_free_def on_field_def)

lemma find_field_layout_free: "list_all (\<lambda>(k, d). layout_free d) tags \<Longrightarrow> find_field tags key = Some d \<Longrightarrow> layout_free d"
proof -
  assume "list_all (\<lambda>(k, d). layout_free d) tags" "find_field tags key = Some d"
  moreover from this(2) have "\<exists>k. (k, d) \<in> set tags"
    by (auto simp: find_field_def find_Some_iff dest: map_of_SomeD split: option.splits) (metis nth_mem prod.collapse)
  ultimately show "layout_free d" by (auto simp: list_all_iff)
qed

lemma layout_free_struct:
  assumes "list_all (\<lambda>(k, d). layout_free d) tags"
  shows "layout_free (dec_struct strict tags)"
  unfolding layout_free_def
proof (intro allI impI)
  fix j n and old :: 'a assume j: "literals j \<and> bracketed j"
  have "dec_fields strict tags (map (\<lambda>m. (html_escape (fst m), retext (Suc n) (escaped (snd m)))) ms) s =
      dec_fields strict tags ms s"
    if "list_all (\<lambda>m. body (fst m) \<and> literals (snd m)) ms" "list_all (\<lambda>m. bracketed (snd m)) ms" for ms s
    using that
  proof (induction ms arbitrary: s)
    case (Cons m ms)
    have same: "d (retext (Suc n) (escaped (snd m))) x = d (snd m) x" if "find_field tags key = Some d" for key d x
      using find_field_layout_free [OF assms that] Cons.prems by (simp add: layout_free_def)
    obtain k v where m: "m = (k, v)" by force
    have ih: "dec_fields strict tags (map (\<lambda>m. (html_escape (fst m), retext (Suc n) (escaped (snd m)))) ms) s =
        dec_fields strict tags ms s" for s
      using Cons by simp
    have key: "unquote (html_escape k) = unquote k" using Cons.prems m by (simp add: unquote_html_escape)
    show ?case
    proof (cases "find_field tags (unquote k)")
      case (Some d)
      then show ?thesis using same [OF Some] by (simp add: m ih key split: option.split)
    next
      case None
      then show ?thesis using ih [of s] by (cases strict) (simp_all add: m key)
    qed
  qed simp
  with j show "dec_struct strict tags (retext n (escaped j)) old = dec_struct strict tags j old"
    by (cases j) (simp_all add: dec_struct_def comp_def)
qed

text \<open>A stored message is decoded as the original was.\<close>

lemma Decode_relaid:
  assumes "Decode m d target strict = Inr x" "layout_free (d strict)"
  shows "Decode (pretty n (escaped (raw_tree m))) d target strict = Inr x"
proof -
  from assms(1) obtain j r where m: "utf8_valid m" "parse_json m = Parsed j r" "distinct_keys j" "d strict j target = Some x"
    unfolding Decode_Inr_iff by blast
  note facts = parse_json_facts [OF m(2)]
  have t: "raw_tree m = j" by (simp add: raw_tree_def m(2))
  show ?thesis
    unfolding t
  proof (rule DecodeI)
    show "utf8_valid (pretty n (escaped j))" using raw_tree_valid [OF m(1)] by (simp add: t pretty_valid escaped_valid)
    show "parse_json (pretty n (escaped j)) = Parsed (retext n (escaped j)) []"
      using parse_pretty [of "escaped j" "[]" n] facts by (simp add: literals_escaped)
    show "distinct_keys (retext n (escaped j))" using m(3) facts(3) by (simp add: distinct_keys_escaped)
    show "d strict (retext n (escaped j)) target = Some x" using assms(2) facts m(4) by (simp add: layout_free_def)
  qed simp
qed

end
