(* ===== verification/Stored.thy ===== *)
theory Stored
  imports EvidenceText JsonStable Receipts
begin

text \<open>
  From a capture or a profile run to the verification of the file that it left behind: the evidence that the
  verification decodes from the file differs from the one in memory in the layout of raw results and in
  the form of problems, and it is accepted whenever the one in memory is.
\<close>

section \<open>Raw results\<close>

lemma layout_free_wireResult: "layout_free (dec_wireResult strict)"
proof -
  have hex: "layout_free dec_hexUint64"
    unfolding dec_hexUint64_def hexUint64_UnmarshalJSON_def by (rule layout_free_unmarshal)
  have "layout_free (dec_wireFloat64 strict)"
    unfolding dec_wireFloat64_def by (rule layout_free_struct) (simp add: layout_free_on_field layout_free_string)
  with hex show ?thesis
    unfolding dec_wireResult_def by (intro layout_free_struct) (simp add: layout_free_on_field layout_free_string layout_free_ptr layout_free_slice)
qed

lemma parse_json_empty [simp]: "parse_json [] = Malformed"
  by (simp add: parse_json_def parse_value.simps(2))

lemma Decode_not_empty: "Decode m d target strict = Inr x \<Longrightarrow> m \<noteq> []"
  by (auto simp: Decode_Inr_iff)

lemma DecodeResult_stored: "DecodeResult m w = Inr r \<Longrightarrow> DecodeResult (laid_out n m) w = Inr r"
proof -
  assume "DecodeResult m w = Inr r"
  then obtain wire where d: "Decode m dec_wireResult zero_wireResult True = Inr wire" and v: "validateResult wire w = Inr r"
    unfolding DecodeResult_def bindE_Inr_iff wrapE_Inr_iff by blast
  from Decode_relaid [OF d layout_free_wireResult, of n] Decode_not_empty [OF d]
  have "Decode (laid_out n m) dec_wireResult zero_wireResult True = Inr wire" by (simp add: laid_out_def)
  with v show ?thesis unfolding DecodeResult_def bindE_Inr_iff wrapE_Inr_iff by blast
qed

lemma trim_braces: "trim_space (CHR ''{'' # s @ ''}'') = CHR ''{'' # s @ ''}''"
proof -
  have "decode_last_rune (CHR ''{'' # s @ ''}'') = (125, 1)"
    by (simp add: decode_last_rune_def byte_char)
  then show ?thesis
    by (simp add: trim_space_def trim_right_space.simps [of "CHR ''{'' # s @ ''}''"] byte_char is_space_def)
qed

lemma rawPresent_stored:
  assumes "DecodeResult m w = Inr r"
  shows "rawPresent (laid_out n m)"
proof -
  from assms obtain wire where d: "Decode m dec_wireResult zero_wireResult True = Inr wire" and v: "validateResult wire w = Inr r"
    unfolding DecodeResult_def bindE_Inr_iff wrapE_Inr_iff by blast
  then obtain j s where j: "parse_json m = Parsed j s" "dec_wireResult True j zero_wireResult = Some wire"
    unfolding Decode_Inr_iff by blast
  have "validateResult zero_wireResult w \<noteq> Inr r"
    by (simp add: validateResult_def zero_wireResult_def ResultSchema_def)
  then have "j \<noteq> JNull" using j(2) v by (auto simp: dec_wireResult_def dec_struct_def)
  then obtain raw ms where ms: "j = JObj raw ms"
    using j(2) by (cases j) (auto simp: dec_wireResult_def dec_struct_def)
  have "m \<noteq> []" by (rule Decode_not_empty [OF d])
  then have "laid_out n m = pretty n (JObj [] (map (\<lambda>m. (html_escape (fst m), escaped (snd m))) ms))"
    by (simp add: laid_out_def raw_tree_def j(1) ms)
  moreover have "\<exists>t. pretty n (JObj [] ms') = CHR ''{'' # t @ ''}''" for ms'
    by (cases "ms' = []") auto
  ultimately obtain t where "laid_out n m = CHR ''{'' # t @ ''}''" by metis
  then show ?thesis by (simp add: rawPresent_def trim_braces)
qed

section \<open>Results and experiments\<close>

lemma stored_fields [simp]:
  "er_SchemaVersion (stored_result n r) = er_SchemaVersion r" "er_ExperimentID (stored_result n r) = er_ExperimentID r"
  "er_ScenarioName (stored_result n r) = er_ScenarioName r" "er_WorkloadName (stored_result n r) = er_WorkloadName r"
  "er_Execution (stored_result n r) = er_Execution r" "er_Sampling (stored_result n r) = er_Sampling r"
  "er_Timing (stored_result n r) = er_Timing r" "er_Correctness (stored_result n r) = er_Correctness r"
  "er_EngineBuild (stored_result n r) = er_EngineBuild r" "er_Samples (stored_result n r) = er_Samples r"
  "er_Result (stored_result n r) = laid_out n (er_Result r)"
  by (simp_all add: stored_result_def)

lemma answers_stored:
  "answers_request schema request w r \<Longrightarrow> DecodeResult (er_Result r) w = Inr x \<Longrightarrow> answers_request schema request w (stored_result n r)"
  using rawPresent_stored by (auto simp: answers_request_def)

lemma validate_stored:
  assumes "validateEngineResult r request w = Inr ()"
  shows "validateEngineResult (stored_result n r) request w = Inr ()"
  using assms unfolding validateEngineResult_iff by (auto intro: answers_stored DecodeResult_stored)

lemma validate_stored_profile:
  assumes "validateProfileEngineResult r request w = Inr ()"
  shows "validateProfileEngineResult (stored_result n r) request w = Inr ()"
  using assms unfolding validateProfileEngineResult_iff by (auto intro: answers_stored DecodeResult_stored)

lemma totals_stored [simp]: "benchmark_total (stored_result n r) = benchmark_total r" "profile_total (stored_result n p) = profile_total p"
  by simp_all

lemma analysis_stored:
  assumes "DecodeResult (er_Result b) w = Inr x" "DecodeResult (er_Result p) w = Inr y"
  shows "AnalyzeScenario w (stored_result n b) bs (stored_result k p) ps = AnalyzeScenario w b bs p ps"
  using assms DecodeResult_stored [OF assms(1), of n] DecodeResult_stored [OF assms(2), of k]
  by (simp add: AnalyzeScenario_def)

lemma experiment_stored:
  "experiment_ok sha scenario workloadBytes w e \<Longrightarrow> experiment_ok sha scenario workloadBytes w (stored_Experiment e)"
  by (simp add: experiment_ok_def stored_Experiment_def validate_stored)

lemma profile_experiment_stored:
  assumes "profile_experiment_ok sha scenario workloadBytes w e"
  shows "profile_experiment_ok sha scenario workloadBytes w (stored_ProfileExperiment e)"
proof -
  let ?b = "be_EngineResult (px_Baseline e)" and ?p = "pe_EngineResult (px_StageProfile e)"
  from assms obtain x y where "DecodeResult (er_Result ?b) w = Inr x" "DecodeResult (er_Result ?p) w = Inr y"
    by (auto simp: profile_experiment_ok_def Let_def validateEngineResult_iff validateProfileEngineResult_iff)
  from analysis_stored [OF this] assms show ?thesis
    by (simp add: profile_experiment_ok_def Let_def stored_ProfileExperiment_def validate_stored validate_stored_profile)
qed

section \<open>Verification of stored evidence\<close>

lemma rendered_fields [simp]:
  "rp_SchemaVersion (rendered is_print r) = rp_SchemaVersion r" "rp_Milestone (rendered is_print r) = rp_Milestone r"
  "rp_CapturedAt (rendered is_print r) = rp_CapturedAt r" "rp_OS (rendered is_print r) = rp_OS r"
  "rp_Architecture (rendered is_print r) = rp_Architecture r" "rp_LogicalCPUs (rendered is_print r) = rp_LogicalCPUs r"
  "rp_GoMaxProcs (rendered is_print r) = rp_GoMaxProcs r" "rp_GoVersion (rendered is_print r) = rp_GoVersion r"
  "rp_Source (rendered is_print r) = rp_Source r" "rp_Ready (rendered is_print r) = rp_Ready r"
  "rp_Tools (rendered is_print r) = [] \<longleftrightarrow> rp_Tools r = []"
  by (cases r; simp add: rendered_def)+

lemma stored_evidence_fields [simp]:
  "ev_SchemaVersion (stored_evidence is_print f e) = ev_SchemaVersion e"
  "ev_StartedAt (stored_evidence is_print f e) = ev_StartedAt e"
  "ev_CompletedAt (stored_evidence is_print f e) = ev_CompletedAt e"
  "ev_Suite (stored_evidence is_print f e) = ev_Suite e"
  "ev_Controller (stored_evidence is_print f e) = ev_Controller e"
  "ev_Environment (stored_evidence is_print f e) = rendered is_print (ev_Environment e)"
  "ev_EngineArtifact (stored_evidence is_print f e) = ev_EngineArtifact e"
  "ev_Experiments (stored_evidence is_print f e) = map f (ev_Experiments e)"
  by (simp_all add: stored_evidence_def)

lemma common_ok_stored: "common_ok e \<Longrightarrow> common_ok (stored_evidence is_print f e)"
  by (simp add: common_ok_def Let_def)

lemma stored_Experiment_fields [simp]:
  "ex_EngineResult (stored_Experiment e) = stored_result 4 (ex_EngineResult e)"
  by (simp add: stored_Experiment_def)

lemma stored_ProfileExperiment_fields [simp]:
  "be_EngineResult (px_Baseline (stored_ProfileExperiment e)) = stored_result 5 (be_EngineResult (px_Baseline e))"
  "pe_EngineResult (px_StageProfile (stored_ProfileExperiment e)) = stored_result 5 (pe_EngineResult (px_StageProfile e))"
  by (simp_all add: stored_ProfileExperiment_def)

lemma profile_ids_stored [simp]: "profile_ids (stored_ProfileExperiment e) = profile_ids e"
  by (simp add: profile_ids_def)

text \<open>Both checks accept stored evidence with the same receipt, because what they look at is the same.\<close>

lemma stored_capture_accepted:
  assumes "verifyCapture sha v root capture = Some (Inr receipt)"
  shows "verifyCapture sha v root (stored_evidence is_print stored_Experiment capture) = Some (Inr receipt)"
proof -
  have "capture_accept sha v root controller k scenario (stored_Experiment e)"
    if "capture_accept sha v root controller k scenario e" for controller k scenario e
    using that experiment_stored by (fastforce simp: capture_accept_def)
  with assms show ?thesis
    unfolding verifyCapture_def capture_check.evidence_iff
    by (auto simp: common_ok_stored comp_def)
qed

lemma stored_report_accepted:
  assumes "verifyProfileReport sha v root report = Some (Inr receipt)"
  shows "verifyProfileReport sha v root (stored_evidence is_print stored_ProfileExperiment report) = Some (Inr receipt)"
proof -
  have "profile_accept sha v root controller k scenario (stored_ProfileExperiment e)"
    if "profile_accept sha v root controller k scenario e" for controller k scenario e
    using that profile_experiment_stored by (fastforce simp: profile_accept_def)
  with assms show ?thesis
    unfolding verifyProfileReport_def profile_check.evidence_iff
    by (auto simp: common_ok_stored comp_def)
qed

section \<open>The file\<close>

text \<open>\<open>persistJSONNoOverwrite\<close> is given this for \<open>json.MarshalIndent\<close>; \<open>message\<close> is the text of its error.\<close>

definition marshal_evidence :: "bytes \<Rightarrow> ('x evidence \<Rightarrow> val) \<Rightarrow> 'x evidence \<Rightarrow> bytes + bytes" where
  "marshal_evidence message enc evidence =
     (case MarshalIndent (enc evidence) of None \<Rightarrow> Inl message | Some data \<Rightarrow> Inr data)"

lemma marshal_evidence_Inr: "marshal_evidence message enc e = Inr data \<longleftrightarrow> MarshalIndent (enc e) = Some data"
  by (simp add: marshal_evidence_def split: option.split)

lemma Decode_Capture_file:
  assumes "MarshalIndent (enc_Capture is_print c) = Some data" "storable (enc_Capture is_print c)"
  shows "Decode (data @ [CHR 0x0A]) dec_Capture zero_evidence True = Inr (stored_evidence is_print stored_Experiment c)"
proof -
  have "encodable (enc_Capture is_print c)" using assms(1) by (simp add: MarshalIndent_def split: if_splits)
  then show ?thesis by (intro MarshalIndent_Decode [OF assms] read_Capture assms(2))
qed

lemma Decode_report_file:
  assumes "MarshalIndent (enc_ScalarProfileReport is_print p) = Some data" "storable (enc_ScalarProfileReport is_print p)"
  shows "Decode (data @ [CHR 0x0A]) dec_ScalarProfileReport zero_evidence True =
    Inr (stored_evidence is_print stored_ProfileExperiment p)"
proof -
  have "encodable (enc_ScalarProfileReport is_print p)" using assms(1) by (simp add: MarshalIndent_def split: if_splits)
  then show ?thesis by (intro MarshalIndent_Decode [OF assms] read_ScalarProfileReport assms(2))
qed

end
