(* ===== verification/Storable.thy ===== *)
theory Storable
  imports Stored
begin

text \<open>
  What can be stored. Text that was decoded from JSON is valid UTF-8, so everything in the evidence that the engine
  or a suite supplied can be encoded and read back; conditions remain only on what came from elsewhere.
\<close>

section \<open>Values that fit\<close>

text \<open>A value that is stored at a depth where \<open>n\<close> levels are left.\<close>

definition fits_depth :: "nat \<Rightarrow> val \<Rightarrow> bool" where
  "fits_depth n v \<longleftrightarrow> storable v \<and> encodable v \<and> nesting (tree_of v) \<le> n"

lemma nesting_list_iff: "foldr (max \<circ> nesting) js 0 \<le> n \<longleftrightarrow> (\<forall>j\<in>set js. nesting j \<le> n)"
  by (induction js) auto

lemma nesting_members_iff: "foldr (\<lambda>m. max (nesting (snd m))) ms 0 \<le> n \<longleftrightarrow> (\<forall>m\<in>set ms. nesting (snd m) \<le> n)"
  by (induction ms) auto

lemma fits_simps [simp]:
  "fits_depth n (VBool b)" "fits_depth n (VUint k)" "\<not> fits_depth n VFailed"
  "fits_depth n (VInt i) \<longleftrightarrow> - (2 ^ 63) \<le> i \<and> i < 2 ^ 63"
  "fits_depth n (VStr s) \<longleftrightarrow> utf8_valid s"
  "fits_depth n (VList vs) \<longleftrightarrow> 0 < n \<and> list_all (fits_depth (n - 1)) vs"
  "fits_depth n (VStruct ms) \<longleftrightarrow>
     0 < n \<and> distinct (map fst ms) \<and> list_all (\<lambda>m. utf8_valid (fst m) \<and> fits_depth (n - 1) (snd m)) ms"
  by (cases n; auto simp: fits_depth_def tree_of.simps list_all_iff nesting_list_iff nesting_members_iff)+

lemma fits_MarshalIndent: "fits_depth n v \<Longrightarrow> n \<le> max_nesting_depth \<Longrightarrow> \<exists>data. MarshalIndent v = Some data"
  by (auto simp: fits_depth_def MarshalIndent_def)

lemma fits_quoted: "list_all plain s \<Longrightarrow> fits_depth n (VRaw (quote # s @ [quote]))"
  using parse_json_quoted [OF scan_string_plain [of s "[]"]] tree_of_quoted [of s]
  by (auto simp: fits_depth_def is_json_def raw_tree_def skip_space_def utf8_valid_all_ascii plain_ascii list_all_iff backslash_ascii)

section \<open>Decoded text is valid\<close>

lemma char_of_byte_value: "n < 256 \<Longrightarrow> byte (char_of n) = n"
  by (simp add: byte_def)

lemma encode_rune_valid:
  assumes "r < 0x110000" "\<not> (55296 \<le> r \<and> r < 57344)"
  shows "utf8_valid (encode_rune r)"
proof -
  consider "r < 128" | "128 \<le> r" "r < 2048" | "2048 \<le> r" "r < 65536" | "65536 \<le> r" by linarith
  then show ?thesis
  proof cases
    case 1
    then show ?thesis by (simp add: encode_rune_def char_of_byte_value)
  next
    case 2
    define a b where "a = r div 64" and "b = r mod 64"
    have r: "r = a * 64 + b" "b < 64" by (simp_all add: a_def b_def)
    with 2 have "2 \<le> a" "a < 32" by auto
    with r(2) 2 show ?thesis
      unfolding encode_rune_def a_def [symmetric] b_def [symmetric]
      by (simp add: utf8_valid.simps(2) decode_rune.simps(2) char_of_byte_value cont_byte_def Let_def)
  next
    case 3
    define a b d where "a = r div 4096" and "b = r div 64 mod 64" and "d = r mod 64"
    have r: "r = (a * 64 + b) * 64 + d" "b < 64" "d < 64"
      using div_mult2_eq [of r 64 64] by (simp_all add: a_def b_def d_def)
    with 3 have a: "a < 16" "a = 0 \<Longrightarrow> 32 \<le> b" by auto
    moreover have "a = 13 \<Longrightarrow> b < 32" using r assms(2) by auto
    ultimately show ?thesis
      using r(2,3) 3 unfolding encode_rune_def a_def [symmetric] b_def [symmetric] d_def [symmetric]
      by (auto simp: utf8_valid.simps(2) decode_rune.simps(2) char_of_byte_value cont_byte_def second_of_three_def Let_def)
  next
    case 4
    define a b d e where "a = r div 262144" and "b = r div 4096 mod 64" and "d = r div 64 mod 64" and "e = r mod 64"
    have r: "r = ((a * 64 + b) * 64 + d) * 64 + e" "b < 64" "d < 64" "e < 64"
      using div_mult2_eq [of r 64 64] div_mult2_eq [of r 4096 64] by (simp_all add: a_def b_def d_def e_def)
    with 4 assms(1) have a: "a < 5" "a = 0 \<Longrightarrow> 16 \<le> b" "a = 4 \<Longrightarrow> b < 16" by auto
    with r(2-4) 4 show ?thesis
      unfolding encode_rune_def a_def [symmetric] b_def [symmetric] d_def [symmetric] e_def [symmetric]
      by (auto simp: utf8_valid.simps(2) decode_rune.simps(2) char_of_byte_value cont_byte_def second_of_four_def Let_def)
  qed
qed

lemma escape_letter_ascii: "escape_seq [x] \<Longrightarrow> byte (unescape_char x) < 128"
proof -
  assume "escape_seq [x]"
  then have "scan_escape ([x] @ []) = Some ([x], [])" unfolding escape_seq_def by blast
  then have "x \<in> set ''bfnrt/'' \<or> x = quote \<or> x = backslash"
    unfolding scan_escape_def by (simp split: if_splits)
  moreover have "list_all (\<lambda>x. byte (unescape_char x) < 128) (quote # backslash # ''bfnrt/'')"
    by (simp add: unescape_char_def quote_def backslash_def byte_def)
  ultimately show ?thesis unfolding list_all_iff by fastforce
qed

lemma hex4_bound: "length h = 4 \<Longrightarrow> list_all is_hex h \<Longrightarrow> hex4 h < 65536"
proof -
  assume "length h = 4" "list_all is_hex h"
  then obtain a b c d where h: "h = [a, b, c, d]" "is_hex a" "is_hex b" "is_hex c" "is_hex d"
    by (auto simp: length_Suc_conv numeral_eq_Suc)
  have "\<exists>n<16. digit_val x = Some n" if "is_hex x" for x
    using that by (auto simp: is_hex_def is_digit_def digit_val_def Let_def)
  with h(2-5) obtain i j k l where "digit_val a = Some i" "digit_val b = Some j" "digit_val c = Some k" "digit_val d = Some l"
    "i < 16" "j < 16" "k < 16" "l < 16" by metis
  with h(1) show ?thesis by (simp add: hex4_def)
qed

lemma rune_error_valid: "utf8_valid (encode_rune rune_error)"
  by (rule encode_rune_valid) (simp_all add: rune_error_def)

lemma unquote_valid: "body b \<Longrightarrow> utf8_valid (unquote b)"
proof (induction "length b" arbitrary: b rule: less_induct)
  case less
  from less.prems show ?case
  proof cases
    case (body_byte c b')
    show ?thesis
    proof (cases "byte c < 128")
      case True
      then show ?thesis using less.hyps [of b'] body_byte by (simp add: unquote_byte normal_byte_def)
    next
      case False
      then have high: "unquote b = encode_rune (fst (decode_rune (c # b'))) @ unquote (drop (snd (decode_rune (c # b')) - 1) b')"
        using body_byte by (auto simp: unquote.simps(2) normal_byte_def)
      from False show ?thesis
      proof (cases rule: decode_high [where cs = b'])
        case bad
        then show ?thesis using high less.hyps [of b'] body_byte by (simp add: utf8_valid_append rune_error_valid)
      next
        case (good ts rest r)
        have "body rest" using good(1,3) body_byte(3) body_conts by blast
        moreover have "utf8_valid (c # ts)" using good(2) good(6) [of "[]"] by (simp add: utf8_valid.simps(2))
        ultimately show ?thesis
          using high good less.hyps [of rest] body_byte(1) utf8_valid_append [of "c # ts" "unquote rest"] by simp
      qed
    qed
  next
    case (body_escape e b')
    then have ih: "utf8_valid (unquote b')" using less.hyps by simp
    from body_escape(2) show ?thesis
    proof (cases rule: escape_seq_cases)
      case (letter x)
      then show ?thesis using body_escape ih escape_letter_ascii by (simp add: unquote_letter)
    next
      case (hex h)
      note h = hex(2,3)
      show ?thesis
      proof (cases "55296 \<le> hex4 h \<and> hex4 h < 57344")
        case False
        then have "utf8_valid (encode_rune (hex4 h))" using hex4_bound [OF h] by (intro encode_rune_valid) auto
        then show ?thesis using unquote_u_hex [OF h False] ih body_escape hex by (simp add: utf8_valid_append)
      next
        case True
        have pair: "utf8_valid (encode_rune (65536 + (hex4 h - 55296) * 1024 + (r - 56320)) @ unquote (drop 6 b'))"
          if "get_u4 b' = Some r" "hex4 h < 56320" "56320 \<le> r" "r < 57344" for r
        proof -
          have "\<exists>g b''. b' = backslash # CHR ''u'' # g @ b'' \<and> length g = 4 \<and> body b''"
            using get_u4_html [OF body_escape(3)] that(1) by force
          then have "body (drop 6 b')" by auto
          then have "utf8_valid (unquote (drop 6 b'))" using less.hyps [of "drop 6 b'"] body_escape(1) by simp
          moreover have "utf8_valid (encode_rune (65536 + (hex4 h - 55296) * 1024 + (r - 56320)))"
            using True that by (intro encode_rune_valid) auto
          ultimately show ?thesis by (rule utf8_valid_append [rotated])
        qed
        show ?thesis
          using unquote_surrogate [OF h, of b'] True body_escape hex pair utf8_valid_append [OF rune_error_valid ih]
          by (simp split: option.split)
      qed
    qed
  qed simp
qed

section \<open>Decoders keep properties\<close>

definition preserves :: "('a \<Rightarrow> bool) \<Rightarrow> 'a jdec \<Rightarrow> bool" where
  "preserves P d \<longleftrightarrow> (\<forall>j old v. literals j \<and> P old \<and> d j old = Some v \<longrightarrow> P v)"

lemma preservesD: "preserves P d \<Longrightarrow> d j old = Some v \<Longrightarrow> literals j \<Longrightarrow> P old \<Longrightarrow> P v"
  unfolding preserves_def by blast

lemma preserves_True: "preserves (\<lambda>_. True) d"
  by (simp add: preserves_def)

lemma preserves_string: "preserves utf8_valid dec_string"
  by (auto simp: preserves_def dec_string_def unquote_valid split: json.splits)

lemma preserves_on_field:
  assumes "preserves Q d" "\<And>s. P s \<Longrightarrow> Q (get s)" "\<And>s v. P s \<Longrightarrow> Q v \<Longrightarrow> P (upd (\<lambda>_. v) s)"
  shows "preserves P (on_field get upd d)"
  using assms unfolding preserves_def on_field_def by fastforce

lemma preserves_other_field:
  assumes "\<And>s v. P s \<Longrightarrow> P (upd (\<lambda>_. v) s)"
  shows "preserves P (on_field get upd d)"
  by (rule preserves_on_field [OF preserves_True]) (use assms in auto)

lemma preserves_ptr:
  assumes "preserves P d" "P zero"
  shows "preserves (\<lambda>x. \<forall>v. x = Some v \<longrightarrow> P v) (dec_ptr zero d)"
  unfolding preserves_def
proof (intro allI impI)
  fix j old v v' assume a: "literals j \<and> (\<forall>v. old = Some v \<longrightarrow> P v) \<and> dec_ptr zero d j old = Some v" and v: "v = Some v'"
  then have "d j (case old of None \<Rightarrow> zero | Some x \<Rightarrow> x) = Some v'" by (cases j) (auto simp: dec_ptr_def)
  moreover have "P (case old of None \<Rightarrow> zero | Some x \<Rightarrow> x)" using a assms(2) by (auto split: option.split)
  ultimately show "P v'" using a preservesD [OF assms(1)] by blast
qed

lemma preserves_slice:
  assumes "preserves P d" "P zero"
  shows "preserves (list_all P) (dec_slice zero d)"
proof -
  have "list_all P vs" if "dec_elems zero d js old = Some vs" "list_all literals js" "list_all P old" for js old vs
    using that
  proof (induction js arbitrary: old vs)
    case (Cons j js)
    then obtain v vs' where v: "d j (case old of [] \<Rightarrow> zero | x # _ \<Rightarrow> x) = Some v" "dec_elems zero d js (tl old) = Some vs'"
      "vs = v # vs'"
      by (auto split: option.splits)
    have "P (case old of [] \<Rightarrow> zero | x # _ \<Rightarrow> x)" "list_all P (tl old)"
      using Cons.prems(3) assms(2) by (cases old; simp)+
    then show ?case using preservesD [OF assms(1) v(1)] Cons.IH [OF v(2)] Cons.prems(2) v(3) by simp
  qed simp
  then show ?thesis by (auto simp: preserves_def dec_slice_def split: json.splits)
qed

lemma find_field_member: "find_field tags key = Some d \<Longrightarrow> \<exists>k. (k, d) \<in> set tags"
  by (auto simp: find_field_def find_Some_iff dest: map_of_SomeD split: option.splits) (metis nth_mem prod.collapse)

lemma preserves_struct:
  assumes "list_all (\<lambda>(k, d). preserves P d) tags"
  shows "preserves P (dec_struct strict tags)"
proof -
  have tag: "preserves P d" if "find_field tags key = Some d" for key d
    using find_field_member [OF that] assms by (auto simp: list_all_iff)
  have "P v" if "dec_fields strict tags ms s = Some v" "list_all (\<lambda>m. literals (snd m)) ms" "P s" for ms s v
    using that
  proof (induction ms arbitrary: s)
    case (Cons m ms)
    obtain k j where m: "m = (k, j)" by force
    from Cons.prems(1) consider "dec_fields strict tags ms s = Some v"
      | d s' where "find_field tags (unquote k) = Some d" "d j s = Some s'" "dec_fields strict tags ms s' = Some v"
      by (auto simp: m split: option.splits if_splits)
    then show ?case
    proof cases
      case 1
      then show ?thesis using Cons by simp
    next
      case (2 d s')
      then have "P s'" using preservesD [OF tag [OF 2(1)] 2(2)] Cons.prems m by simp
      then show ?thesis using Cons 2(3) by simp
    qed
  qed simp
  then show ?thesis by (auto simp: preserves_def dec_struct_def list_all_iff split: json.splits)
qed

section \<open>Strict decoders see shallow values\<close>

definition shallow :: "nat \<Rightarrow> 'a jdec \<Rightarrow> bool" where
  "shallow n d \<longleftrightarrow> (\<forall>j old v. bracketed j \<and> d j old = Some v \<longrightarrow> nesting j \<le> n)"

lemma shallowD: "shallow n d \<Longrightarrow> d j old = Some v \<Longrightarrow> bracketed j \<Longrightarrow> nesting j \<le> n"
  unfolding shallow_def by blast

lemma shallowI: "(\<And>j old v. bracketed j \<Longrightarrow> d j old = Some v \<Longrightarrow> nesting j \<le> n) \<Longrightarrow> shallow n d"
  unfolding shallow_def by blast

lemma shallow_string: "shallow n dec_string"
proof (rule shallowI)
  show "nesting j \<le> n" if "dec_string j old = Some v" for j old v
    using that by (cases j) (simp_all add: dec_string_def)
qed

lemma shallow_hexUint64: "shallow n dec_hexUint64"
  unfolding shallow_def dec_hexUint64_def hexUint64_UnmarshalJSON_def
proof (intro allI impI, elim conjE)
  fix j v assume "bracketed j" and d: "(case unmarshal_string (raw_of j) of None \<Rightarrow> None | Some encoded \<Rightarrow>
      if length encoded \<noteq> 18 \<or> take 2 encoded \<noteq> ''0x'' then None
      else if \<not> list_all lower_hex_rune (runes (drop 2 encoded)) then None
      else map_option of_nat (parse_uint 16 64 (drop 2 encoded))) = Some (v :: u64)"
  have "unmarshal_string (raw_of j) \<noteq> None" using d by (metis option.case(1) option.distinct(1))
  then show "nesting j \<le> n" using \<open>bracketed j\<close> by (cases j) (auto simp: unmarshal_string_bracket)
qed

lemma shallow_on_field: "shallow n d \<Longrightarrow> shallow n (on_field get upd d)"
  by (auto simp: shallow_def on_field_def)

lemma shallow_ptr: "shallow n d \<Longrightarrow> shallow n (dec_ptr zero d)"
proof (rule shallowI)
  fix j old v assume d: "shallow n d" and j: "bracketed j" "dec_ptr zero d j old = Some v"
  then consider "j = JNull" | x where "d j (case old of None \<Rightarrow> zero | Some x \<Rightarrow> x) = Some x"
    by (cases j) (auto simp: dec_ptr_def)
  then show "nesting j \<le> n" using shallowD [OF d _ j(1)] by cases auto
qed

lemma shallow_slice:
  assumes "shallow n d"
  shows "shallow (Suc n) (dec_slice zero d)"
proof -
  have "list_all (\<lambda>j. nesting j \<le> n) js" if "dec_elems zero d js old = Some vs" "list_all bracketed js" for js old vs
    using that
  proof (induction js arbitrary: old vs)
    case (Cons j js)
    then show ?case using shallowD [OF assms] by (auto split: option.splits)
  qed simp
  then show ?thesis
    unfolding shallow_def dec_slice_def
    by (auto simp: list_all_iff nesting_list_iff split: json.split_asm)
qed

lemma shallow_struct:
  assumes "list_all (\<lambda>(k, d). shallow n d) tags"
  shows "shallow (Suc n) (dec_struct True tags)"
proof -
  have tag: "shallow n d" if "find_field tags key = Some d" for key d
    using find_field_member [OF that] assms by (auto simp: list_all_iff)
  have "list_all (\<lambda>m. nesting (snd m) \<le> n) ms"
    if "dec_fields True tags ms s = Some v" "list_all (\<lambda>m. bracketed (snd m)) ms" for ms s v
    using that
  proof (induction ms arbitrary: s)
    case (Cons m ms)
    then show ?case using shallowD [OF tag] by (cases m) (auto split: option.splits)
  qed simp
  then show ?thesis
    unfolding shallow_def dec_struct_def
    by (auto simp: list_all_iff nesting_members_iff split: json.split_asm)
qed

section \<open>Results of the engine\<close>

lemma shallow_wireResult: "shallow 2 (dec_wireResult True)"
proof -
  have "shallow (Suc 0) (dec_wireFloat64 True)"
    unfolding dec_wireFloat64_def by (rule shallow_struct) (simp add: shallow_on_field shallow_string)
  then show ?thesis
    unfolding dec_wireResult_def numeral_2_eq_2
    by (intro shallow_struct)
      (simp add: shallow_on_field shallow_string shallow_ptr shallow_hexUint64 shallow_slice)
qed

lemma fits_Result:
  assumes "DecodeResult m w = Inr r"
  shows "fits_depth 2 (enc_RawMessage m)"
proof -
  from assms obtain wire where d: "Decode m dec_wireResult zero_wireResult True = Inr wire"
    unfolding DecodeResult_def bindE_Inr_iff wrapE_Inr_iff by blast
  then obtain j s where j: "utf8_valid m" "parse_json m = Parsed j s" "skip_space s = []" "distinct_keys j"
    "dec_wireResult True j zero_wireResult = Some wire"
    unfolding Decode_Inr_iff by blast
  have "nesting j \<le> 2" using shallowD [OF shallow_wireResult j(5)] parse_json_facts(1) [OF j(2)] by simp
  with j Decode_not_empty [OF d] show ?thesis
    by (simp add: enc_RawMessage_def fits_depth_def is_json_def raw_tree_def tree_of.simps)
qed

lemma Decode_preserves:
  assumes "Decode m d target strict = Inr x" "preserves P (d strict)" "P target"
  shows "P x"
proof -
  from assms(1) obtain j r where "parse_json m = Parsed j r" "d strict j target = Some x"
    unfolding Decode_Inr_iff by blast
  then show ?thesis using preservesD [OF assms(2)] parse_json_facts(3) assms(3) by metis
qed

text \<open>Of the texts of a result only the identity of the build is not determined by the request.\<close>

lemma preserves_EngineBuild: "preserves (\<lambda>b. storable (enc_EngineBuild b)) (dec_EngineBuild strict)"
  unfolding dec_EngineBuild_def
  by (rule preserves_struct)
    (auto simp: enc_EngineBuild_def intro!: preserves_on_field [where Q = utf8_valid] preserves_string)

lemma preserves_engine_result:
  "preserves (\<lambda>r. storable (enc_EngineBuild (er_EngineBuild r))) (dec_engine_result strict dec_timing zero dec_sample)"
  unfolding dec_engine_result_def
  by (rule preserves_struct, simp, intro conjI; fastforce intro: preserves_other_field preserves_on_field [OF preserves_EngineBuild])

section \<open>Records that fit\<close>

lemma utf8_char: "byte (Char b0 b1 b2 b3 b4 b5 b6 b7) < 128 \<Longrightarrow>
    utf8_valid (Char b0 b1 b2 b3 b4 b5 b6 b7 # s) = utf8_valid s"
  by simp

lemmas fitting = utf8_char byte_char

lemma fits_Nanoseconds [simp]: "fits_depth n (enc_Nanoseconds v)"
  using fits_quoted [OF plain_hex [of v]] by (simp add: enc_Nanoseconds_def Nanoseconds_MarshalJSON_def)

lemma fits_Time:
  "fits_depth n (enc_Time t) \<longleftrightarrow> date_time 0 1 1 0 0 0 0 \<le> t \<and> t < date_time 10000 1 1 0 0 0 0"
  using fits_quoted [OF plain_nano [of t]] by (simp add: enc_Time_def)

lemma fits_EngineBuild: "fits_depth (Suc n) (enc_EngineBuild b) \<longleftrightarrow> storable (enc_EngineBuild b)"
  by (simp add: enc_EngineBuild_def fitting)

lemma fits_Sample [simp]: "fits_depth (Suc n) (enc_Sample s)"
  by (simp add: enc_Sample_def fitting)

lemma fits_ProfileSample [simp]: "fits_depth (Suc n) (enc_ProfileSample s)"
  by (simp add: enc_ProfileSample_def fitting)

lemma fits_Statistics: "fits_depth (Suc n) (enc_Statistics s) \<longleftrightarrow> - (2 ^ 63) \<le> st_Count s \<and> st_Count s < 2 ^ 63"
  by (simp add: enc_Statistics_def fitting)

lemma fits_mono: "fits_depth m v \<Longrightarrow> m \<le> n \<Longrightarrow> fits_depth n v"
  by (auto simp: fits_depth_def)

lemma fits_answer:
  assumes "answers_request schema request w r" "DecodeResult (er_Result r) w = Inr x"
    and "storable (enc_EngineBuild (er_EngineBuild r))" "utf8_valid schema"
    and "utf8_valid (rq_ExperimentID request)" "utf8_valid (rq_ScenarioName request)" "utf8_valid (be_Backend (rq_Execution request))"
    and "utf8_valid (wp_Name w)"
    and "fits_depth 2 (enc_timing (er_Timing r))" "\<And>s. fits_depth 1 (enc_sample s)"
  shows "fits_depth 3 (enc_engine_result enc_timing enc_sample r)"
proof -
  have r: "er_SchemaVersion r = schema" "er_ExperimentID r = rq_ExperimentID request" "er_ScenarioName r = rq_ScenarioName request"
    "er_WorkloadName r = wp_Name w" "er_Execution r = rq_Execution request"
    "er_Correctness r = \<lparr>co_Status = ''passed'', co_Oracle = BenchmarkOracle, co_Comparison = BenchmarkComparison\<rparr>"
    using assms(1) by (simp_all add: answers_request_def)
  have "fits_depth 2 (enc_EngineBuild (er_EngineBuild r))" using assms(3) fits_EngineBuild [of 1] by (simp add: numeral_2_eq_2)
  with assms(4-10) fits_Result [OF assms(2)] show ?thesis
    by (simp add: enc_engine_result_def r enc_Execution_def enc_Sampling_def enc_Correctness_def BenchmarkOracle_def
        BenchmarkComparison_def list_all_iff fitting)
qed

lemma fits_EngineResult:
  assumes "validateEngineResult r request w = Inr ()" "storable (enc_EngineBuild (er_EngineBuild r))"
    and "utf8_valid (rq_ExperimentID request)" "utf8_valid (rq_ScenarioName request)" "utf8_valid (be_Backend (rq_Execution request))"
    and "utf8_valid (wp_Name w)"
  shows "fits_depth 3 (enc_EngineResult r)"
proof -
  from assms(1) obtain x where a: "answers_request EngineResultSchema request w r" "DecodeResult (er_Result r) w = Inr x"
    unfolding validateEngineResult_iff by blast
  have "fits_depth 2 (enc_Timing (er_Timing r))"
    using a(1) by (simp add: answers_request_def enc_Timing_def BenchmarkClock_def BenchmarkTimeUnit_def fitting)
  then show ?thesis
    unfolding enc_EngineResult_def
    by (intro fits_answer [OF a assms(2) _ assms(3-6)]) (simp_all add: EngineResultSchema_def fitting fits_Sample [of 0, simplified])
qed

lemma fits_ProfileEngineResult:
  assumes "validateProfileEngineResult r request w = Inr ()" "storable (enc_EngineBuild (er_EngineBuild r))"
    and "utf8_valid (rq_ExperimentID request)" "utf8_valid (rq_ScenarioName request)" "utf8_valid (be_Backend (rq_Execution request))"
    and "utf8_valid (wp_Name w)"
  shows "fits_depth 3 (enc_ProfileEngineResult r)"
proof -
  from assms(1) obtain x where a: "answers_request ProfileEngineResultSchema request w r" "DecodeResult (er_Result r) w = Inr x"
    and t: "ti_Topology (er_Timing r) = ProfileTopology" "ti_Observer (er_Timing r) = ProfileObserver"
    unfolding validateProfileEngineResult_iff by blast
  have "fits_depth 2 (enc_ProfileTiming (er_Timing r))"
    using a(1) t
    by (simp add: answers_request_def enc_ProfileTiming_def BenchmarkClock_def BenchmarkTimeUnit_def ProfileTopology_def
        ProfileObserver_def fitting)
  then show ?thesis
    unfolding enc_ProfileEngineResult_def
    by (intro fits_answer [OF a assms(2) _ assms(3-6)])
      (simp_all add: ProfileEngineResultSchema_def fitting fits_ProfileSample [of 0, simplified])
qed

section \<open>Experiments that fit\<close>

lemma summary_count: "summarizeValues vs = Some s \<Longrightarrow> vs \<noteq> [] \<Longrightarrow> st_Count s = int (length vs)"
  using summarizeValues_Some [of vs] by (metis option.inject)

lemma fits_counted:
  "summarizeValues vs = Some s \<Longrightarrow> vs \<noteq> [] \<Longrightarrow> length vs \<le> 10000 \<Longrightarrow> fits_depth (Suc 0) (enc_Statistics s)"
  using fits_Statistics [of 0 s] summary_count [of vs s] by simp

lemma fits_Summary:
  assumes "Summarize samples = Some (Inr s)" "length samples \<le> 10000"
  shows "fits_depth 2 (enc_Summary s)"
proof -
  have ne: "samples \<noteq> []" using assms(1) by (auto simp: Summarize_total)
  then have "summarizeValues (map s_GenerationNS samples) = Some (su_Generation s)"
    "summarizeValues (map s_PipelineNS samples) = Some (su_Pipeline s)"
    "summarizeValues (map s_EngineTotalNS samples) = Some (su_EngineTotal s)"
    using assms(1) by (auto simp: Summarize_def bind_eq_Some_conv)
  with ne assms(2) show ?thesis by (auto simp: enc_Summary_def fitting intro: fits_counted)
qed

lemma fits_ProfileSummary:
  assumes "SummarizeProfile samples = Some (Inr s)" "length samples \<le> 10000"
  shows "fits_depth 2 (enc_ProfileSummary s)"
proof -
  have ne: "samples \<noteq> []" using assms(1) by (auto simp: SummarizeProfile_def)
  then obtain ps where ps: "pipeline_sums 0 samples = Inr ps"
    using assms(1) by (auto simp: SummarizeProfile_def split: sum.splits)
  then have len: "length ps = length samples" by (rule pipeline_sums_length)
  with ne have "ps \<noteq> []" by auto
  moreover have "summarizeValues (map ps_GenerationNS samples) = Some (pf_Generation s)"
    "summarizeValues (map ps_NormalizeNS samples) = Some (pf_Normalize s)"
    "summarizeValues (map ps_ScoreNS samples) = Some (pf_Score s)"
    "summarizeValues (map ps_FilterNS samples) = Some (pf_Filter s)"
    "summarizeValues (map ps_AggregateNS samples) = Some (pf_Aggregate s)"
    "summarizeValues (map ps_StageSumNS samples) = Some (pf_StageSum s)"
    "summarizeValues ps = Some (pf_PipelineStages s)"
    "summarizeValues (map ps_ProfileTotalNS samples) = Some (pf_ProfileTotal s)"
    using assms(1) ne ps by (auto simp: SummarizeProfile_def bind_eq_Some_conv)
  ultimately show ?thesis
    using ne assms(2) len by (auto simp: enc_ProfileSummary_def fitting intro: fits_counted)
qed

lemma fits_Analysis:
  assumes "AnalyzeScenario w b bs p ps = Some (Inr a)"
  shows "fits_depth 2 (enc_ScenarioProfileAnalysis a)"
proof -
  from AnalyzeScenario_Inr [OF assms] obtain r where "analysis_exact w bs ps r a" by blast
  then obtain i j where "an_DominantStage a = stageNames ! i" "an_DominantPipelineStage a = drop 1 stageNames ! j"
      "i < 5" "j < 4"
    by (auto simp: analysis_exact_def Let_def first_maximum_def stage_medians_def)
  moreover have "list_all utf8_valid stageNames" "length stageNames = 5" by (simp_all add: stageNames_def fitting)
  ultimately have "utf8_valid (an_DominantStage a)" "utf8_valid (an_DominantPipelineStage a)"
    by (simp_all add: list_all_length)
  then show ?thesis
    by (simp add: enc_ScenarioProfileAnalysis_def enc_StageSharesBPS_def fitting)
qed

lemma hashBytes_text: "utf8_valid (hashBytes sha data)"
proof -
  have "byte c < 128" if "c \<in> set (hex_digits k n)" for c k n
    using hex_digits_ascii [of k n] that by (simp add: list_all_iff)
  then show ?thesis by (intro utf8_valid_all_ascii) (auto simp: hashBytes_def list_all_iff)
qed

lemma numbered_text: "utf8_valid label \<Longrightarrow> utf8_valid (numbered label k)"
  unfolding numbered_def format_016x_def
  by (rule utf8_valid_append) (simp_all add: utf8_valid_all_ascii hex_digits_ascii)

text \<open>The texts that a scenario and the projection of its workload bring in.\<close>

definition texts_ok :: "Scenario \<Rightarrow> WorkloadProjection \<Rightarrow> bool" where
  "texts_ok scenario w \<longleftrightarrow>
     utf8_valid (sc_Name scenario) \<and> utf8_valid (sc_Workload scenario) \<and> utf8_valid (wp_Name w) \<and>
     wp_SchemaVersion w = WorkloadSchema"

lemma fits_Experiment:
  assumes "experiment_ok sha scenario workloadBytes w e" "scenario_ok scenario" "texts_ok scenario w"
    and "storable (enc_EngineBuild (er_EngineBuild (ex_EngineResult e)))" "utf8_valid (er_ExperimentID (ex_EngineResult e))"
  shows "fits_depth 4 (enc_Experiment e)"
proof -
  let ?r = "ex_EngineResult e"
  from assms(1) have e: "ex_ScenarioName e = sc_Name scenario" "ex_Workload e = workload_identity sha (sc_Workload scenario) workloadBytes w"
    and v: "validateEngineResult ?r (request_for RequestSchema (er_ExperimentID ?r) scenario workloadBytes) w = Inr ()"
    and s: "Summarize (er_Samples ?r) = Some (Inr (ex_Summary e))"
    by (simp_all add: experiment_ok_def)
  have "fits_depth 3 (enc_EngineResult ?r)"
    by (rule fits_EngineResult [OF v assms(4)])
      (use assms(2,3,5) in \<open>simp_all add: request_for_def texts_ok_def scenario_ok_def fitting\<close>)
  moreover have "fits_depth 3 (enc_Summary (ex_Summary e))"
    using v assms(2) by (intro fits_mono [OF fits_Summary [OF s]])
      (simp_all add: validateEngineResult_iff answers_request_def request_for_def scenario_ok_def)
  ultimately show ?thesis
    using assms(3)
    by (simp add: enc_Experiment_def e enc_WorkloadIdentity_def workload_identity_def texts_ok_def hashBytes_text
        WorkloadSchema_def fitting)
qed

lemma fits_ProfileExperiment:
  assumes "profile_experiment_ok sha scenario workloadBytes w e" "scenario_ok scenario" "texts_ok scenario w"
    and "storable (enc_EngineBuild (er_EngineBuild (be_EngineResult (px_Baseline e))))" "list_all utf8_valid (profile_ids e)"
    and "utf8_valid (wp_Distribution w)"
  shows "fits_depth 5 (enc_ProfileExperiment e)"
proof -
  let ?b = "be_EngineResult (px_Baseline e)" and ?p = "pe_EngineResult (px_StageProfile e)"
  from assms(1) have e: "px_ScenarioName e = sc_Name scenario"
      "px_Workload e = profile_workload_identity sha (sc_Workload scenario) workloadBytes w"
    and v: "validateEngineResult ?b (request_for RequestSchema (er_ExperimentID ?b) scenario workloadBytes) w = Inr ()"
      "validateProfileEngineResult ?p (request_for ProfileRequestSchema (er_ExperimentID ?p) scenario workloadBytes) w = Inr ()"
      "er_EngineBuild ?p = er_EngineBuild ?b"
    and s: "Summarize (er_Samples ?b) = Some (Inr (be_Summary (px_Baseline e)))"
      "SummarizeProfile (er_Samples ?p) = Some (Inr (pe_Summary (px_StageProfile e)))"
    and a: "AnalyzeScenario w ?b (be_Summary (px_Baseline e)) ?p (pe_Summary (px_StageProfile e)) = Some (Inr (px_Analysis e))"
    by (simp_all add: profile_experiment_ok_def Let_def)
  note texts = request_for_def texts_ok_def scenario_ok_def profile_ids_def
  have "fits_depth 3 (enc_EngineResult ?b)"
    by (rule fits_EngineResult [OF v(1) assms(4)]) (use assms(2,3,5) in \<open>simp_all add: texts fitting\<close>)
  moreover have "fits_depth 3 (enc_ProfileEngineResult ?p)"
    by (rule fits_ProfileEngineResult [OF v(2)]) (use assms(2-5) v(3) in \<open>simp_all add: texts fitting\<close>)
  moreover have "fits_depth 3 (enc_Summary (be_Summary (px_Baseline e)))"
    using v assms(2) by (intro fits_mono [OF fits_Summary [OF s(1)]])
      (simp_all add: validateEngineResult_iff answers_request_def texts)
  moreover have "fits_depth 3 (enc_ProfileSummary (pe_Summary (px_StageProfile e)))"
    using v assms(2) by (intro fits_mono [OF fits_ProfileSummary [OF s(2)]])
      (simp_all add: validateProfileEngineResult_iff answers_request_def texts)
  moreover have "fits_depth 4 (enc_ScenarioProfileAnalysis (px_Analysis e))"
    by (rule fits_mono [OF fits_Analysis [OF a]]) simp
  ultimately show ?thesis
    using assms(3,6)
    by (simp add: enc_ProfileExperiment_def e enc_ProfileWorkloadIdentity_def profile_workload_identity_def texts_ok_def
        hashBytes_text WorkloadSchema_def enc_BaselineEvidence_def enc_StageProfileEvidence_def fitting)
qed

section \<open>Texts of a run\<close>

lemma preserves_Suite:
  "preserves (\<lambda>s. utf8_valid (bs_Name s) \<and> list_all (\<lambda>c. utf8_valid (sc_Name c) \<and> utf8_valid (sc_Workload c)) (bs_Scenarios s))
     (dec_Suite strict)"
proof -
  let ?P = "\<lambda>c. utf8_valid (sc_Name c) \<and> utf8_valid (sc_Workload c)"
  have "preserves ?P (dec_Scenario strict)"
    unfolding dec_Scenario_def
    by (rule preserves_struct, simp, intro conjI; fastforce intro: preserves_other_field preserves_on_field [OF preserves_string])
  then have "preserves (list_all ?P) (dec_slice zero_Scenario (dec_Scenario strict))"
    by (rule preserves_slice) (simp add: zero_Scenario_def)
  then show ?thesis
    unfolding dec_Suite_def
    by (intro preserves_struct, simp, intro conjI;
        fastforce intro: preserves_other_field preserves_on_field [OF preserves_string] preserves_on_field [where Q = "list_all ?P"])
qed

lemma suite_texts:
  assumes "Decode data dec_Suite zero_Suite True = Inr suite"
  shows "utf8_valid (bs_Name suite) \<and>
    list_all (\<lambda>c. utf8_valid (sc_Name c) \<and> utf8_valid (sc_Workload c)) (bs_Scenarios suite)"
  by (rule Decode_preserves [OF assms preserves_Suite]) (simp add: zero_Suite_def)

lemma workload_text:
  assumes "ProjectWorkload raw = Inr w"
  shows "utf8_valid (wp_Name w)"
proof -
  obtain v where d: "Decode raw dec_wl_value zero_wl_value False = Inr v" and w: "(case wv_SchemaVersion v of
      None \<Rightarrow> Inl WorkloadSchemaRequired
    | Some schema \<Rightarrow> (case wv_Name v of
        None \<Rightarrow> Inl WorkloadNameRequired
      | Some name \<Rightarrow> (case wv_Dataset v of
          None \<Rightarrow> Inl WorkloadDatasetRequired
        | Some ds \<Rightarrow> (case ds_RecordCount ds of
            None \<Rightarrow> Inl WorkloadRecordCountRequired
          | Some records \<Rightarrow> (case ds_CategoryCount ds of
              None \<Rightarrow> Inl WorkloadCategoryCountRequired
            | Some categories \<Rightarrow> Inr \<lparr>wp_SchemaVersion = schema, wp_Name = name, wp_RecordCount = records,
                wp_CategoryCount = categories, wp_Distribution = projected_distribution ds\<rparr>))))) = Inr w"
    using assms unfolding ProjectWorkload_def bindE_Inr_iff wrapE_Inr_iff by blast
  from w have n: "wv_Name v = Some (wp_Name w)" by (auto split: option.split_asm)
  have "preserves (\<lambda>v. \<forall>n. wv_Name v = Some n \<longrightarrow> utf8_valid n) (dec_wl_value False)"
    unfolding dec_wl_value_def
    by (rule preserves_struct, simp, intro conjI; fastforce intro: preserves_other_field preserves_on_field [OF preserves_ptr [OF preserves_string]])
  then have "\<forall>n. wv_Name v = Some n \<longrightarrow> utf8_valid n"
    by (rule Decode_preserves [OF d]) (simp add: zero_wl_value_def)
  with n show ?thesis by blast
qed

lemma workload_texts:
  assumes "read_workload x readFile root k scenario = Inr (workloadBytes, w)"
    and "utf8_valid (sc_Name scenario) \<and> utf8_valid (sc_Workload scenario)"
  shows "texts_ok scenario w"
  using assms workload_text by (auto simp: read_workload_def texts_ok_def result_simps split: if_splits)

lemma zero_build: "storable (enc_EngineBuild (er_EngineBuild (zero_engine_result t)))"
  by (simp add: zero_engine_result_def enc_EngineBuild_def fitting)

lemma engine_build_text:
  "RunEngine cancelled host elapsed path request w = Inr (r, t) \<Longrightarrow> storable (enc_EngineBuild (er_EngineBuild r))"
  "RunProfileEngine cancelled host elapsed path request w = Inr (p, t) \<Longrightarrow> storable (enc_EngineBuild (er_EngineBuild p))"
proof -
  assume "RunEngine cancelled host elapsed path request w = Inr (r, t)"
  then obtain raw where d: "Decode raw dec_EngineResult zero_EngineResult True = Inr r" unfolding RunEngine_Inr_iff by blast
  show "storable (enc_EngineBuild (er_EngineBuild r))"
    by (rule Decode_preserves [OF d, where P = "\<lambda>r. storable (enc_EngineBuild (er_EngineBuild r))"])
      (simp_all add: dec_EngineResult_def preserves_engine_result zero_EngineResult_def zero_build)
next
  assume "RunProfileEngine cancelled host elapsed path request w = Inr (p, t)"
  then obtain raw where d: "Decode raw dec_ProfileEngineResult zero_ProfileEngineResult True = Inr p"
    unfolding RunProfileEngine_Inr_iff by blast
  show "storable (enc_EngineBuild (er_EngineBuild p))"
    by (rule Decode_preserves [OF d, where P = "\<lambda>r. storable (enc_EngineBuild (er_EngineBuild r))"])
      (simp_all add: dec_ProfileEngineResult_def preserves_engine_result zero_ProfileEngineResult_def zero_build)
qed

text \<open>What the encoding depends on beyond the engine and the suite: the paths as recorded, the report of the
  environment, which holds the build, and the times.\<close>

definition recordable :: "(nat \<Rightarrow> bool) \<Rightarrow> 'x evidence \<Rightarrow> bool" where
  "recordable is_print e \<longleftrightarrow>
     utf8_valid (si_Path (ev_Suite e)) \<and> utf8_valid (ar_Path (ev_EngineArtifact e)) \<and>
     storable (enc_Report is_print (ev_Environment e)) \<and> encodable (enc_Report is_print (ev_Environment e)) \<and>
     encodable (enc_Time (ev_StartedAt e)) \<and> encodable (enc_Time (ev_CompletedAt e))"

lemma nesting_Time: "nesting (tree_of (enc_Time t)) = 0"
  using tree_of_quoted [OF plain_nano [of t]] by (simp add: enc_Time_def tree_of.simps(6))

lemma nesting_ToolResult: "nesting (tree_of (enc_ToolResult is_print r)) = 1"
  by (simp add: enc_ToolResult_def omitempty_def tree_of.simps)

lemma fits_Report:
  assumes "storable (enc_Report is_print r)" "encodable (enc_Report is_print r)"
  shows "fits_depth 3 (enc_Report is_print r)"
proof -
  have "foldr (max \<circ> nesting) (map (tree_of \<circ> enc_ToolResult is_print) ts) 0 \<le> 1" for ts
    by (simp add: nesting_list_iff nesting_ToolResult)
  then have "nesting (tree_of (enc_Report is_print r)) \<le> 3"
    by (simp add: enc_Report_def enc_Info_def nesting_Time tree_of.simps comp_def)
  with assms show ?thesis by (simp add: fits_depth_def)
qed

lemma fits_encodable_Time: "encodable (enc_Time t) \<Longrightarrow> fits_depth n (enc_Time t)"
  unfolding fits_Time by (simp add: enc_Time_def split: if_splits)

text \<open>The evidence of a run that recorded its suite and its experiments in this way.\<close>

lemma fits_evidence:
  assumes "recordable is_print e" "gather sha x options schema perform = Some (Inr e)" "utf8_valid schema"
    and "utf8_valid (si_Name (ev_Suite e))" "list_all (fits_depth 5) (map enc_experiment (ev_Experiments e))"
  shows "fits_depth 7 (enc_evidence is_print enc_experiment e)"
proof -
  have "fits_depth 6 (enc_Report is_print (ev_Environment e))"
    using assms(1) by (intro fits_mono [OF fits_Report]) (simp_all add: recordable_def)
  moreover have "rp_Source (ev_Environment e) = ev_Controller e" "ev_SchemaVersion e = schema"
    by (rule gather_ok [OF assms(2)], simp add: Check_def split: prod.split)+
  moreover have "utf8_valid (si_SHA256 (ev_Suite e))" "si_SchemaVersion (ev_Suite e) = SuiteSchema"
    by (rule gather_scenarios [OF assms(2)], simp add: hashBytes_text)+
  moreover have "utf8_valid (ar_SHA256 (ev_EngineArtifact e))"
  proof (rule gather_ok [OF assms(2)])
    fix root engineHash
    assume "hashFile sha (x_EngineFile x 0 (common_options.o_EnginePath options)) = Inr engineHash"
      "ev_EngineArtifact e = \<lparr>ar_Path = identityPath (x_Wd x) root (common_options.o_EnginePath options), ar_SHA256 = engineHash\<rparr>"
    then show ?thesis by (auto simp: hashFile_def bindE_Inr_iff hashBytes_text)
  qed
  moreover have "storable (enc_Info (rp_Source (ev_Environment e)))"
    using assms(1) by (simp add: recordable_def enc_Report_def)
  ultimately show ?thesis
    using assms(1,3-5)
    by (simp add: enc_evidence_def fitting recordable_def fits_encodable_Time enc_SuiteIdentity_def enc_Artifact_def
        enc_Info_def SuiteSchema_def)
qed

lemma run_scenario_build:
  assumes "run_scenario sha x readFile (default_runner y) options root k scenario = Some (Inr e)"
  shows "storable (enc_EngineBuild (er_EngineBuild (ex_EngineResult e)))"
  using assms by (auto simp: run_scenario_def result_simps Let_def default_runner_def dest: engine_build_text(1))

lemma run_profile_scenario_build:
  assumes "run_profile_scenario sha x readFile (default_baseline y) staged options root k scenario = Some (Inr e)"
  shows "storable (enc_EngineBuild (er_EngineBuild (be_EngineResult (px_Baseline e))))"
proof -
  have guard: "(if c then Some (Inl x) else m) = Some (Inr y) \<longleftrightarrow> \<not> c \<and> m = Some (Inr y)"
    for c and x :: scenario_error and m and y :: ProfileExperiment by simp
  show ?thesis
    using assms
    by (auto simp: run_profile_scenario_def result_simps guard default_baseline_def dest: engine_build_text(1))
qed

lemma capture_fits:
  assumes "gather sha x options CaptureSchema (run_scenario sha x readFile (default_runner y) options) = Some (Inr capture)"
    and "recordable is_print capture"
  shows "fits_depth 7 (enc_Capture is_print capture)"
proof (rule gather_scenarios [OF assms(1)])
  fix suiteBytes suite root
  assume suite: "Decode suiteBytes dec_Suite zero_Suite True = Inr suite" "suite_ok suite"
    and id: "ev_Suite capture = \<lparr>si_Path = identityPath (x_Wd x) root (common_options.o_SuitePath options),
       si_SHA256 = hashBytes sha suiteBytes, si_SchemaVersion = SuiteSchema, si_Name = bs_Name suite\<rparr>"
    and len: "length (ev_Experiments capture) = length (bs_Scenarios suite)"
    and run: "\<And>k. k < length (bs_Scenarios suite) \<Longrightarrow> \<not> x_Cancelled x (Suc k) \<and>
       run_scenario sha x readFile (default_runner y) options root k (bs_Scenarios suite ! k) =
         Some (Inr (ev_Experiments capture ! k))"
  note texts = suite_texts [OF suite(1)]
  have "fits_depth 5 (enc_Experiment (ev_Experiments capture ! k))" if k: "k < length (bs_Scenarios suite)" for k
  proof -
    let ?s = "bs_Scenarios suite ! k" and ?e = "ev_Experiments capture ! k"
    have r: "run_scenario sha x readFile (default_runner y) options root k ?s = Some (Inr ?e)" using run [OF k] by blast
    have s: "scenario_ok ?s" "utf8_valid (sc_Name ?s) \<and> utf8_valid (sc_Workload ?s)"
      using suite(2) texts k by (simp_all add: suite_ok_def list_all_length)
    from r show ?thesis
    proof (rule benchmark_engine.run_scenario_ok)
      fix workloadBytes w
      assume w: "read_workload x readFile root k ?s = Inr (workloadBytes, w)" and "experiment_ok sha ?s workloadBytes w ?e"
        "er_ExperimentID (ex_EngineResult ?e) = numbered ''day05:'' k"
      moreover have "texts_ok ?s w" by (rule workload_texts [OF w s(2)])
      ultimately have "fits_depth 4 (enc_Experiment ?e)"
        using s(1) run_scenario_build [OF r] by (intro fits_Experiment [of sha ?s workloadBytes w]) (simp_all add: numbered_text fitting)
      then show ?thesis by (rule fits_mono) simp
    qed
  qed
  with len have "list_all (fits_depth 5) (map enc_Experiment (ev_Experiments capture))" by (simp add: list_all_length)
  then show ?thesis
    unfolding enc_Capture_def using texts
    by (intro fits_evidence [OF assms(2,1)]) (simp_all add: CaptureSchema_def fitting id)
qed

lemma report_fits:
  assumes "gather sha x options ScalarProfileReportSchema
      (run_profile_scenario sha x readFile (default_baseline y) (default_profile y) options) = Some (Inr report)"
    and "recordable is_print report"
  shows "fits_depth 7 (enc_ScalarProfileReport is_print report)"
proof (rule gather_scenarios [OF assms(1)])
  fix suiteBytes suite root
  assume suite: "Decode suiteBytes dec_Suite zero_Suite True = Inr suite" "suite_ok suite"
    and id: "ev_Suite report = \<lparr>si_Path = identityPath (x_Wd x) root (common_options.o_SuitePath options),
       si_SHA256 = hashBytes sha suiteBytes, si_SchemaVersion = SuiteSchema, si_Name = bs_Name suite\<rparr>"
    and len: "length (ev_Experiments report) = length (bs_Scenarios suite)"
    and run: "\<And>k. k < length (bs_Scenarios suite) \<Longrightarrow> \<not> x_Cancelled x (Suc k) \<and>
       run_profile_scenario sha x readFile (default_baseline y) (default_profile y) options root k (bs_Scenarios suite ! k) =
         Some (Inr (ev_Experiments report ! k))"
  note texts = suite_texts [OF suite(1)]
  have "fits_depth 5 (enc_ProfileExperiment (ev_Experiments report ! k))" if k: "k < length (bs_Scenarios suite)" for k
  proof -
    let ?s = "bs_Scenarios suite ! k" and ?e = "ev_Experiments report ! k"
    have r: "run_profile_scenario sha x readFile (default_baseline y) (default_profile y) options root k ?s = Some (Inr ?e)"
      using run [OF k] by blast
    have s: "scenario_ok ?s" "utf8_valid (sc_Name ?s) \<and> utf8_valid (sc_Workload ?s)"
      using suite(2) texts k by (simp_all add: suite_ok_def list_all_length)
    from r show ?thesis
    proof (rule profile_engines.run_profile_scenario_ok)
      fix workloadBytes w
      assume w: "read_workload x readFile root k ?s = Inr (workloadBytes, w)"
        and "profile_experiment_ok sha ?s workloadBytes w ?e" "wp_Distribution w \<in> {''uniform'', ''hotspot''}"
        "profile_ids ?e = [numbered ''day06:baseline:'' k, numbered ''day06:profile:'' k]"
      then show ?thesis
        using s run_profile_scenario_build [OF r]
        by (intro fits_ProfileExperiment) (auto simp: workload_texts [OF w s(2)] numbered_text fitting)
    qed
  qed
  with len have "list_all (fits_depth 5) (map enc_ProfileExperiment (ev_Experiments report))" by (simp add: list_all_length)
  then show ?thesis
    unfolding enc_ScalarProfileReport_def using texts
    by (intro fits_evidence [OF assms(2,1)]) (simp_all add: ScalarProfileReportSchema_def fitting id)
qed

end
