(* ===== verification/EvidenceFile.thy ===== *)
theory EvidenceFile
  imports Storable
begin

text \<open>
  The two commands end to end, over the bytes on the disk: what \<open>Execute\<close> and \<open>ExecuteProfile\<close> published is
  what \<open>VerifyEvidence\<close> reads, decodes and accepts.
\<close>

section \<open>What is at a path\<close>

definition file_at :: "disk \<Rightarrow> bytes \<Rightarrow> bytes" where
  "file_at d path = contents d (the (links d path))"

lemma published_file: "published path data d \<Longrightarrow> file_at d path = data"
  by (auto simp: published_def file_at_def)

text \<open>A successful run with the default persisting left the whole encoded evidence at the output path.\<close>

lemma suite_file:
  assumes "execute_suite sha (marshal_evidence message enc) x options schema perform d = Some (Inr evidence, d')"
    and "o_Persist options = None" "exclusive_temp (x_Os x) (common_options.o_OutputPath options) (x_Elsewhere x d)"
  obtains data where "MarshalIndent (enc evidence) = Some data"
    "published (common_options.o_OutputPath options) (data @ [CHR 0x0A]) d'"
proof -
  have "persistJSONNoOverwrite (x_Os x) (common_options.o_OutputPath options) (marshal_evidence message enc evidence) (x_Elsewhere x d) =
      (Inr (), d')"
    using execute_suite_ok [OF assms(1)] assms(2) by (simp add: injected_def persist_evidence_def)
  from persist_success [OF assms(3) this] show thesis
    using that by (auto simp: marshal_evidence_Inr)
qed

section \<open>The two operations of persist.go\<close>

definition PersistCapture ::
  "bytes \<Rightarrow> (nat \<Rightarrow> bool) \<Rightarrow> os \<Rightarrow> bytes \<Rightarrow> Capture \<Rightarrow> disk \<Rightarrow> (persist_error + unit) \<times> disk" where
  "PersistCapture message is_print s path capture d =
     persistJSONNoOverwrite s path (marshal_evidence message (enc_Capture is_print) capture) d"

definition PersistScalarProfileReport ::
  "bytes \<Rightarrow> (nat \<Rightarrow> bool) \<Rightarrow> os \<Rightarrow> bytes \<Rightarrow> ScalarProfileReport \<Rightarrow> disk \<Rightarrow> (persist_error + unit) \<times> disk" where
  "PersistScalarProfileReport message is_print s path report d =
     persistJSONNoOverwrite s path (marshal_evidence message (enc_ScalarProfileReport is_print) report) d"

text \<open>They are what \<open>Execute\<close> and \<open>ExecuteProfile\<close> fall back to when no other function is injected.\<close>

lemma default_persist:
  "persist_evidence (marshal_evidence message (enc_Capture is_print)) = PersistCapture message is_print"
  "persist_evidence (marshal_evidence message (enc_ScalarProfileReport is_print)) =
     PersistScalarProfileReport message is_print"
  by (intro ext, simp add: persist_evidence_def PersistCapture_def PersistScalarProfileReport_def)+

section \<open>Acceptance of a file\<close>

text \<open>The request names the file and a root, and the engine binary, if it names one, is the recorded one.\<close>

definition names_file :: "(bytes \<Rightarrow> bytes) \<Rightarrow> repository \<Rightarrow> verify_options \<Rightarrow> bytes \<Rightarrow> bytes \<Rightarrow> Artifact \<Rightarrow> bool" where
  "names_file sha v request root data artifact \<longleftrightarrow>
     trim_space (v_EvidencePath request) \<noteq> [] \<and> trim_space (v_RepositoryRoot request) \<noteq> [] \<and>
     filepath_Abs (v_Wd v) (v_RepositoryRoot request) = Inr root \<and>
     v_ReadFile v 0 (v_EvidencePath request) = Inr data \<and>
     (v_EnginePath request = [] \<or> hashFile sha (v_EngineFile v (v_EnginePath request)) = Inr (ar_SHA256 artifact))"

text \<open>The receipt that \<open>VerifyEvidence\<close> makes of the one of the check.\<close>

definition file_receipt ::
  "(bytes \<Rightarrow> bytes) \<Rightarrow> repository \<Rightarrow> verify_options \<Rightarrow> bytes \<Rightarrow> bytes \<Rightarrow> bytes \<Rightarrow> EvidenceVerification \<Rightarrow> EvidenceVerification" where
  "file_receipt sha v request root data schema verified =
     verified\<lparr>rc_SchemaVersion := EvidenceVerificationSchema, rc_Status := ''passed'',
       rc_EvidencePath := identityPath (v_Wd v) root (v_EvidencePath request), rc_EvidenceSHA256 := hashBytes sha data,
       rc_EvidenceSchema := schema, rc_EngineArtifactVerified := v_EnginePath request \<noteq> []\<rparr>"

lemma accepted_file:
  "names_file sha v request root data artifact \<Longrightarrow> checked sha v root data schema artifact verified \<Longrightarrow>
   Receipts.VerifyEvidence sha v request = Some (Inr (file_receipt sha v request root data schema verified))"
  unfolding VerifyEvidence_iff names_file_def file_receipt_def by blast

lemma capture_file_checked:
  assumes "MarshalIndent (enc_Capture is_print capture) = Some data" "storable (enc_Capture is_print capture)"
    and "verifyCapture sha v root capture = Some (Inr verified)"
  shows "checked sha v root (data @ [CHR 0x0A]) CaptureSchema (ev_EngineArtifact capture) verified"
  using Decode_Capture_file [OF assms(1,2)] stored_capture_accepted [OF assms(3)]
  by (simp add: checked_def)

lemma report_file_checked:
  assumes "MarshalIndent (enc_ScalarProfileReport is_print report) = Some data"
    and "storable (enc_ScalarProfileReport is_print report)"
    and "verifyProfileReport sha v root report = Some (Inr verified)"
  shows "checked sha v root (data @ [CHR 0x0A]) ScalarProfileReportSchema (ev_EngineArtifact report) verified"
  using Decode_report_file [OF assms(1,2)] stored_report_accepted [OF assms(3)]
  by (simp add: checked_def)

section \<open>A sample file\<close>

text \<open>The sample run on a system that takes the whole text, and the sample repository with the file in it.\<close>

definition storing :: "bytes \<Rightarrow> surroundings \<Rightarrow> surroundings" where
  "storing data x = x\<lparr>x_Os := (sample_os id None)\<lparr>os_write := (Suc (length data), None)\<rparr>\<rparr>"

definition holding :: "bytes \<Rightarrow> repository" where
  "holding data = sample_repository\<lparr>v_ReadFile := (\<lambda>n path. if n = 0 then Inr data else sample_files (n - 1) path)\<rparr>"

definition sample_request_for_file :: verify_options where
  "sample_request_for_file = \<lparr>v_RepositoryRoot = ''/repo'', v_EnginePath = ''engine'', v_EvidencePath = ''p''\<rparr>"

lemma storing_fields [simp]:
  "x_Wd (storing data x) = x_Wd x" "x_Cancelled (storing data x) = x_Cancelled x"
  "x_ReadFile (storing data x) = x_ReadFile x" "x_EngineFile (storing data x) = x_EngineFile x"
  "x_Now (storing data x) = x_Now x" "x_Host (storing data x) = x_Host x" "x_Tools (storing data x) = x_Tools x"
  "x_StatOutput (storing data x) = x_StatOutput x" "x_Elsewhere (storing data x) = x_Elsewhere x"
  "x_Stop (storing data x) = x_Stop x" "x_Engine (storing data x) = x_Engine x" "x_Elapsed (storing data x) = x_Elapsed x"
  "x_Os (storing data x) = (sample_os id None)\<lparr>os_write := (Suc (length data), None)\<rparr>"
  by (simp_all add: storing_def)

lemma gather_storing [simp]: "gather sha (storing data x) options schema perform = gather sha x options schema perform"
  unfolding gather_def storing_fields ..

lemma run_storing [simp]:
  "default_runner (storing data x) = default_runner x" "default_baseline (storing data x) = default_baseline x"
  "default_profile (storing data x) = default_profile x" "run_scenario sha (storing data x) = run_scenario sha x"
  "run_profile_scenario sha (storing data x) = run_profile_scenario sha x"
  by (intro ext, simp add: default_runner_def default_baseline_def default_profile_def run_scenario_def
      run_profile_scenario_def read_workload_def)+

lemma suite_storing:
  assumes "execute_suite sha marshal x options schema perform d = Some (Inr evidence, d0)"
    and "o_Persist options = None" "x_StatOutput x = None" "x_Elsewhere x = id" "common_options.o_OutputPath options = ''p''"
    and "marshal' evidence = Inr data"
  shows "\<exists>d'. execute_suite sha marshal' (storing data x) options schema perform empty_disk = Some (Inr evidence, d')"
proof -
  have "\<exists>d'. persistJSONNoOverwrite (x_Os (storing data x)) ''p'' (Inr data) empty_disk = (Inr (), d')"
    by (simp add: persist_eval)
  moreover have "\<not> x_Cancelled x 0" using assms(1) by (auto simp: execute_suite_def split: sum.splits if_splits)
  moreover have "requireAbsent ((x_Os (storing data x))\<lparr>os_stat := x_StatOutput x\<rparr>) ''p'' empty_disk = Inr ()"
    using assms(3) by (simp add: persist_eval)
  ultimately show ?thesis
    using execute_suite_ok [OF assms(1)] assms(2,4-6)
    by (auto simp: execute_suite_def injected_def persist_evidence_def Let_def)
qed

lemma sample_exclusive: "exclusive_temp (x_Os (storing data x)) ''p'' empty_disk"
  by (simp add: exclusive_temp_def sample_os_def empty_disk_def)

lemma sample_names_file:
  "names_file sample_sha (holding data) sample_request_for_file ''/repo'' data (ev_EngineArtifact (sample_capture ver))"
  by (simp add: names_file_def holding_def sample_request_for_file_def sample_repository_def sample_root(1) hashFile_def
      sample_capture_def trim_space_Nil_iff byte_def is_space_def)

lemma sample_unchanged:
  assumes "x_Wd x = Inr ''/''" "x_ReadFile x = sample_files" "o_ReadFile options = None"
    "common_options.o_SuitePath options = ''/repo/s.json''"
  shows "unchanged (holding data) x options ''/repo'' ''s.json'' [''w/a.json'']"
proof -
  have "resolveVerifiedRepositoryFile (holding data) root path = resolveVerifiedRepositoryFile sample_repository root path"
    for root path
    by (simp add: resolveVerifiedRepositoryFile_def holding_def)
  then show ?thesis
    using sample_resolve assms by (simp add: unchanged_def injected_def holding_def)
qed

text \<open>The sample evidence can be stored.\<close>

lemma sample_assess:
  "want \<in> set tools \<Longrightarrow>
   assess want (sample_probe want) = (stamp want (sample_probe want))\<lparr>r_Usable := t_Command want \<noteq> ''nvcc''\<rparr>"
  by (auto simp: assess_def stamp_def tools_def tool_def sample_probe_def has_problem_def trim_space_Nil_iff byte_def
      is_space_def sample_versions lessThan_def)

lemma sample_times: "encodable (enc_Time 63900000000000000000)" "encodable (enc_Time 63900000000000000001)"
proof -
  have "fits_depth 0 (enc_Time 63900000000000000000)" "fits_depth 0 (enc_Time 63900000000000000001)"
    unfolding fits_Time by (simp_all add: date_time_def days_before_year_def)
  then show "encodable (enc_Time 63900000000000000000)" "encodable (enc_Time 63900000000000000001)"
    by (simp_all add: fits_depth_def)
qed

lemma sample_report_fits:
  assumes "utf8_valid ver"
  shows "fits_depth 3 (enc_Report is_print (Check sample_host sample_probe (sample_build ver)))"
proof -
  let ?r = "Check sample_host sample_probe (sample_build ver)"
  have "fits_depth 1 (enc_ToolResult is_print (assess want (sample_probe want)))" if "want \<in> set tools" for want
    using that unfolding sample_assess [OF that]
    by (auto simp: tools_def tool_def stamp_def sample_probe_def enc_ToolResult_def omitempty_def problem_text_def fitting)
  then have "list_all (fits_depth 1) (map (enc_ToolResult is_print) (rp_Tools ?r))"
    by (simp add: Check_def check_tools_exact list_all_iff)
  then show ?thesis
    using assms
    by (simp add: enc_Report_def Check_def check_tools_exact sample_host_def enc_Info_def sample_build_def reportSchema_def
        currentMilestone_def captureKernelVersion_def captureCPUModel_def capturePhysicalCores_def
        unavailablePlatformValue_def         fits_encodable_Time [OF sample_times(1)] fitting)
qed

lemma sample_recordable:
  "recordable is_print (sample_capture ''1'')" "recordable is_print (sample_report a)"
proof -
  have "utf8_valid ''1''" by (simp add: fitting)
  from sample_report_fits [OF this, of is_print] show "recordable is_print (sample_capture ''1'')"
    "recordable is_print (sample_report a)"
    by (simp_all add: recordable_def sample_capture_def sample_report_def fits_depth_def sample_times fitting)
qed

section \<open>Properties\<close>

text \<open>
  Claim C21. The bytes that a capture run left on the disk are accepted by the verification of the same
  repository. The file decodes to the capture in memory, its problems rendered and its raw results laid out;
  verification of that path returns a receipt that says passed, with the digest of the file, the number of scenarios of
  the suite and of all retained samples. The conditions: the files of the repository have not changed, the suite is a \<open>.json\<close> file of
  the repository, host and engine path are identified, every experiment came from one engine
  build with the controller's version (these are not checked when the capture is taken), all texts of the capture are valid
  UTF-8, and nobody else used the temporary file.
\<close>

theorem capture_file_verifies:
  assumes "Execute.Execute sha (marshal_evidence message (enc_Capture is_print)) x options d = Some (Inr capture, d')"
    and "o_Runner options = None" and "o_Persist options = None"
    and "exclusive_temp (x_Os x) (common_options.o_OutputPath options) (x_Elsewhere x d)"
    and "recordable is_print capture"
    and "filepath_Abs (x_Wd x) (common_options.o_RepositoryRoot options) = Inr root"
    and "unchanged v x options root (si_Path (ev_Suite capture)) (map (wi_Path \<circ> ex_Workload) (ev_Experiments capture))"
    and "validRepositoryJSONPath (si_Path (ev_Suite capture))" and "host_identified (x_Host x)"
    and "trim_space (ar_Path (ev_EngineArtifact capture)) \<noteq> []" and "0 < ev_StartedAt capture"
    and "\<And>data. length (sha data) = 32"
    and "list_all (\<lambda>e. er_EngineBuild (ex_EngineResult e) = build) (ev_Experiments capture)"
    and "eb_Version build = Version (o_Build options)"
    and "names_file sha v request root (file_at d' (common_options.o_OutputPath options)) (ev_EngineArtifact capture)"
  shows "\<exists>suite. suite_ok suite \<and> length (ev_Experiments capture) = length (bs_Scenarios suite) \<and>
    Decode (file_at d' (common_options.o_OutputPath options)) dec_Capture zero_evidence True =
      Inr (stored_evidence is_print stored_Experiment capture) \<and>
    Receipts.VerifyEvidence sha v request = Some (Inr (file_receipt sha v request root (file_at d' (common_options.o_OutputPath options))
      CaptureSchema (receipt_for suite (length (ev_Experiments capture))
        (\<Sum>e\<leftarrow>ev_Experiments capture. length (er_Samples (ex_EngineResult e))))))"
proof -
  obtain data where data: "MarshalIndent (enc_Capture is_print capture) = Some data"
    "published (common_options.o_OutputPath options) (data @ [CHR 0x0A]) d'"
    using suite_file [OF assms(1) [unfolded Execute.Execute_def] assms(3,4)] .
  have "gather sha x options CaptureSchema
      (run_scenario sha x (injected (o_ReadFile options) (x_ReadFile x)) (default_runner x) options) = Some (Inr capture)"
    using execute_suite_ok [OF assms(1) [unfolded Execute.Execute_def]] assms(2) by (simp add: injected_def [of None])
  from capture_fits [OF this assms(5)] have fits: "storable (enc_Capture is_print capture)" by (simp add: fits_depth_def)
  obtain suite where suite: "suite_ok suite" "length (ev_Experiments capture) = length (bs_Scenarios suite)"
    "verifyCapture sha v root capture = Some (Inr (receipt_for suite (length (ev_Experiments capture))
      (\<Sum>e\<leftarrow>ev_Experiments capture. length (er_Samples (ex_EngineResult e)))))"
    using Execute_verifies [OF assms(1,2,6-14)] by blast
  have "Decode (data @ [CHR 0x0A]) dec_Capture zero_evidence True = Inr (stored_evidence is_print stored_Experiment capture)"
    by (rule Decode_Capture_file [OF data(1) fits])
  with suite accepted_file [OF assms(15)] capture_file_checked [OF data(1) fits suite(3)] show ?thesis
    unfolding published_file [OF data(2)] by blast
qed

theorem capture_file_verifies_witness:
  "\<exists>data d' receipt. Execute.Execute sample_sha (marshal_evidence [] (enc_Capture (\<lambda>_. False)))
       (storing data sample_surroundings) (sample_options ''1'') empty_disk = Some (Inr (sample_capture ''1''), d') \<and>
     Receipts.VerifyEvidence sample_sha (holding (file_at d' ''p'')) sample_request_for_file = Some (Inr receipt) \<and>
     rc_Status receipt = ''passed'' \<and> rc_RetainedSampleCount receipt = 1"
proof -
  let ?c = "sample_capture ''1''" and ?o = "sample_options ''1''" and ?m = "marshal_evidence [] (enc_Capture (\<lambda>_. False))"
  obtain d0 where run0: "Execute.Execute sample_sha (\<lambda>_. Inr ''{}'') sample_surroundings ?o empty_disk = Some (Inr ?c, d0)"
    using sample_Execute sample_one(1) by blast
  have "gather sample_sha sample_surroundings ?o CaptureSchema (run_scenario sample_sha sample_surroundings sample_files
      (default_runner sample_surroundings) ?o) = Some (Inr ?c)" by (rule sample_gather)
  from capture_fits [OF this sample_recordable(1)] obtain data where data: "?m ?c = Inr data"
    using fits_MarshalIndent by (fastforce simp: marshal_evidence_Inr max_nesting_depth_def)
  let ?x = "storing data sample_surroundings"
  obtain d' where run: "Execute.Execute sample_sha ?m ?x ?o empty_disk = Some (Inr ?c, d')"
    using suite_storing [OF run0 [unfolded Execute.Execute_def], of ?m data] data
    by (auto simp: Execute.Execute_def sample_fields)
  let ?file = "file_at d' (common_options.o_OutputPath ?o)"
  have "\<exists>suite. suite_ok suite \<and> length (ev_Experiments ?c) = length (bs_Scenarios suite) \<and>
    Decode ?file dec_Capture zero_evidence True = Inr (stored_evidence (\<lambda>_. False) stored_Experiment ?c) \<and>
    Receipts.VerifyEvidence sample_sha (holding ?file) sample_request_for_file = Some (Inr (file_receipt sample_sha (holding ?file)
      sample_request_for_file ''/repo'' ?file CaptureSchema (receipt_for suite (length (ev_Experiments ?c))
        (\<Sum>e\<leftarrow>ev_Experiments ?c. length (er_Samples (ex_EngineResult e))))))"
  proof (rule capture_file_verifies [OF run])
    show "o_Runner ?o = None" "o_Persist ?o = None" by (simp_all add: sample_fields)
    show "exclusive_temp (x_Os ?x) (common_options.o_OutputPath ?o) (x_Elsewhere ?x empty_disk)"
      using sample_exclusive [of data sample_surroundings] by (simp add: sample_fields)
    show "recordable (\<lambda>_. False) ?c" by (rule sample_recordable)
    show "filepath_Abs (x_Wd ?x) (common_options.o_RepositoryRoot ?o) = Inr ''/repo''"
      by (simp add: sample_fields sample_root(1))
    show "unchanged (holding ?file) ?x ?o ''/repo'' (si_Path (ev_Suite ?c)) (map (wi_Path \<circ> ex_Workload) (ev_Experiments ?c))"
      using sample_unchanged [of ?x ?o ?file] by (simp add: sample_fields sample_capture_def workload_identity_def)
    show "validRepositoryJSONPath (si_Path (ev_Suite ?c))" using sample_suite_path by (simp add: sample_capture_def)
    show "host_identified (x_Host ?x)"
      by (simp add: host_identified_def sample_fields sample_host_def trim_space_Nil_iff byte_def is_space_def)
    show "trim_space (ar_Path (ev_EngineArtifact ?c)) \<noteq> []" "0 < ev_StartedAt ?c"
      by (simp_all add: sample_capture_def trim_space_Nil_iff byte_def is_space_def)
    show "length (sample_sha bytes) = 32" for bytes by (simp add: sample_sha_def)
    show "list_all (\<lambda>e. er_EngineBuild (ex_EngineResult e) = er_EngineBuild (sample_engine_result sample_id)) (ev_Experiments ?c)"
      by (simp add: sample_capture_def)
    show "eb_Version (er_EngineBuild (sample_engine_result sample_id)) = Version (o_Build ?o)"
      by (simp add: sample_engine_result_def sample_fields sample_build_def)
    show "names_file sample_sha (holding ?file) sample_request_for_file ''/repo'' ?file (ev_EngineArtifact ?c)"
      by (rule sample_names_file)
  qed
  then obtain receipt where "Receipts.VerifyEvidence sample_sha (holding ?file) sample_request_for_file = Some (Inr receipt)"
    "rc_Status receipt = ''passed''" "rc_RetainedSampleCount receipt = 1"
    by (auto simp: file_receipt_def receipt_for_def sample_capture_def sample_engine_result_def)
  with run show ?thesis by (auto simp: sample_fields)
qed

text \<open>
  Claim C22. The same holds for a profile run: the report that it left on the disk decodes to the report in memory and is
  accepted, with the fused and the staged samples of all experiments in the count.
\<close>

theorem profile_file_verifies:
  assumes "ExecuteProfile sha (marshal_evidence message (enc_ScalarProfileReport is_print)) x options d =
      Some (Inr report, d')"
    and "o_BaselineRunner options = None" and "o_ProfileRunner options = None" and "o_Persist options = None"
    and "exclusive_temp (x_Os x) (common_options.o_OutputPath options) (x_Elsewhere x d)"
    and "recordable is_print report"
    and "filepath_Abs (x_Wd x) (common_options.o_RepositoryRoot options) = Inr root"
    and "unchanged v x options root (si_Path (ev_Suite report)) (map (wi_Path \<circ> px_Workload) (ev_Experiments report))"
    and "validRepositoryJSONPath (si_Path (ev_Suite report))" and "host_identified (x_Host x)"
    and "trim_space (ar_Path (ev_EngineArtifact report)) \<noteq> []" and "0 < ev_StartedAt report"
    and "\<And>data. length (sha data) = 32"
    and "list_all (\<lambda>e. er_EngineBuild (be_EngineResult (px_Baseline e)) = build) (ev_Experiments report)"
    and "eb_Version build = Version (o_Build options)"
    and "names_file sha v request root (file_at d' (common_options.o_OutputPath options)) (ev_EngineArtifact report)"
  shows "\<exists>suite. suite_ok suite \<and> length (ev_Experiments report) = length (bs_Scenarios suite) \<and>
    Decode (file_at d' (common_options.o_OutputPath options)) dec_ScalarProfileReport zero_evidence True =
      Inr (stored_evidence is_print stored_ProfileExperiment report) \<and>
    Receipts.VerifyEvidence sha v request = Some (Inr (file_receipt sha v request root (file_at d' (common_options.o_OutputPath options))
      ScalarProfileReportSchema (receipt_for suite (length (ev_Experiments report))
        (sum_list (map retained_samples (ev_Experiments report))))))"
proof -
  obtain data where data: "MarshalIndent (enc_ScalarProfileReport is_print report) = Some data"
    "published (common_options.o_OutputPath options) (data @ [CHR 0x0A]) d'"
    using suite_file [OF assms(1) [unfolded ExecuteProfile_def] assms(4,5)] .
  have "gather sha x options ScalarProfileReportSchema (run_profile_scenario sha x (injected (o_ReadFile options) (x_ReadFile x))
      (default_baseline x) (default_profile x) options) = Some (Inr report)"
    using execute_suite_ok [OF assms(1) [unfolded ExecuteProfile_def]] assms(2,3) by (simp add: injected_def [of None])
  from report_fits [OF this assms(6)] have fits: "storable (enc_ScalarProfileReport is_print report)"
    by (simp add: fits_depth_def)
  obtain suite where suite: "suite_ok suite" "length (ev_Experiments report) = length (bs_Scenarios suite)"
    "verifyProfileReport sha v root report = Some (Inr (receipt_for suite (length (ev_Experiments report))
      (sum_list (map retained_samples (ev_Experiments report)))))"
    using ExecuteProfile_verifies [OF assms(1-3,7-15)] by blast
  have "Decode (data @ [CHR 0x0A]) dec_ScalarProfileReport zero_evidence True =
      Inr (stored_evidence is_print stored_ProfileExperiment report)"
    by (rule Decode_report_file [OF data(1) fits])
  with suite accepted_file [OF assms(16)] report_file_checked [OF data(1) fits suite(3)] show ?thesis
    unfolding published_file [OF data(2)] by blast
qed

theorem profile_file_verifies_witness:
  "\<exists>a data d' receipt. ExecuteProfile sample_sha (marshal_evidence [] (enc_ScalarProfileReport (\<lambda>_. False)))
       (storing data profile_surroundings) profile_options empty_disk = Some (Inr (sample_report a), d') \<and>
     Receipts.VerifyEvidence sample_sha (holding (file_at d' ''p'')) sample_request_for_file = Some (Inr receipt) \<and>
     rc_Status receipt = ''passed'' \<and> rc_RetainedSampleCount receipt = 2"
proof -
  obtain a where a: "sample_analysis a" using sample_analysed by blast
  let ?r = "sample_report a" and ?o = profile_options and ?m = "marshal_evidence [] (enc_ScalarProfileReport (\<lambda>_. False))"
  obtain d0 where run0: "ExecuteProfile sample_sha (\<lambda>_. Inr ''{}'') profile_surroundings ?o empty_disk = Some (Inr ?r, d0)"
    using sample_ExecuteProfile [OF a] by blast
  from report_fits [OF sample_profile_gather [OF a] sample_recordable(2)] obtain data where data: "?m ?r = Inr data"
    using fits_MarshalIndent by (fastforce simp: marshal_evidence_Inr max_nesting_depth_def)
  let ?x = "storing data profile_surroundings"
  obtain d' where run: "ExecuteProfile sample_sha ?m ?x ?o empty_disk = Some (Inr ?r, d')"
    using suite_storing [OF run0 [unfolded ExecuteProfile_def], of ?m data] data
    by (auto simp: ExecuteProfile_def profile_fields)
  let ?file = "file_at d' (common_options.o_OutputPath ?o)"
  have "\<exists>suite. suite_ok suite \<and> length (ev_Experiments ?r) = length (bs_Scenarios suite) \<and>
    Decode ?file dec_ScalarProfileReport zero_evidence True = Inr (stored_evidence (\<lambda>_. False) stored_ProfileExperiment ?r) \<and>
    Receipts.VerifyEvidence sample_sha (holding ?file) sample_request_for_file = Some (Inr (file_receipt sample_sha (holding ?file)
      sample_request_for_file ''/repo'' ?file ScalarProfileReportSchema (receipt_for suite (length (ev_Experiments ?r))
        (sum_list (map retained_samples (ev_Experiments ?r))))))"
  proof (rule profile_file_verifies [OF run])
    show "o_BaselineRunner ?o = None" "o_ProfileRunner ?o = None" "o_Persist ?o = None" by (simp_all add: profile_fields)
    show "exclusive_temp (x_Os ?x) (common_options.o_OutputPath ?o) (x_Elsewhere ?x empty_disk)"
      using sample_exclusive [of data profile_surroundings] by (simp add: profile_fields)
    show "recordable (\<lambda>_. False) ?r" by (rule sample_recordable)
    show "filepath_Abs (x_Wd ?x) (common_options.o_RepositoryRoot ?o) = Inr ''/repo''"
      by (simp add: profile_fields sample_root(1))
    show "unchanged (holding ?file) ?x ?o ''/repo'' (si_Path (ev_Suite ?r)) (map (wi_Path \<circ> px_Workload) (ev_Experiments ?r))"
      using sample_unchanged [of ?x ?o ?file]
      by (simp add: profile_fields sample_report_def sample_paired_def sample_capture_def profile_workload_identity_def)
    show "validRepositoryJSONPath (si_Path (ev_Suite ?r))"
      using sample_suite_path by (simp add: sample_report_def sample_capture_def)
    show "host_identified (x_Host ?x)"
      by (simp add: host_identified_def profile_fields sample_host_def trim_space_Nil_iff byte_def is_space_def)
    show "trim_space (ar_Path (ev_EngineArtifact ?r)) \<noteq> []" "0 < ev_StartedAt ?r"
      by (simp_all add: sample_report_def sample_capture_def trim_space_Nil_iff byte_def is_space_def)
    show "length (sample_sha bytes) = 32" for bytes by (simp add: sample_sha_def)
    show "list_all (\<lambda>e. er_EngineBuild (be_EngineResult (px_Baseline e)) = er_EngineBuild (sample_engine_result baseline_id))
        (ev_Experiments ?r)"
      by (simp add: sample_report_def sample_paired_def)
    show "eb_Version (er_EngineBuild (sample_engine_result baseline_id)) = Version (o_Build ?o)"
      by (simp add: sample_engine_result_def profile_fields sample_build_def)
    show "names_file sample_sha (holding ?file) sample_request_for_file ''/repo'' ?file (ev_EngineArtifact ?r)"
      using sample_names_file [of ?file] by (simp add: sample_report_def)
  qed
  then obtain receipt where "Receipts.VerifyEvidence sample_sha (holding ?file) sample_request_for_file = Some (Inr receipt)"
    "rc_Status receipt = ''passed''" "rc_RetainedSampleCount receipt = 2"
    by (auto simp: file_receipt_def receipt_for_def sample_report_def sample_paired_def sample_engine_result_def
        sample_profile_result_def numeral_2_eq_2)
  with run show ?thesis by (auto simp: profile_fields)
qed

text \<open>
  Claim C37. Evidence can always be stored and read back. Whatever the engines, the suite and the
  workloads were, a capture or a report that was gathered is encoded without an error, and its file is decoded strictly to the same
  evidence, with problems rendered and raw results laid out; the only conditions are that the
  texts of the environment and of the two recorded paths are valid UTF-8, its numbers are those of a 64-bit host and its times
  have a year of four digits.
\<close>

theorem evidence_roundtrip:
  "(\<forall>capture. gather sha x options CaptureSchema (run_scenario sha x readFile (default_runner x) options) = Some (Inr capture) \<and>
      recordable is_print capture \<longrightarrow>
      (\<exists>data. MarshalIndent (enc_Capture is_print capture) = Some data \<and>
         Decode (data @ [CHR 0x0A]) dec_Capture zero_evidence True =
           Inr (stored_evidence is_print stored_Experiment capture))) \<and>
   (\<forall>report. gather sha x profile ScalarProfileReportSchema
        (run_profile_scenario sha x readFile (default_baseline x) (default_profile x) profile) = Some (Inr report) \<and>
      recordable is_print report \<longrightarrow>
      (\<exists>data. MarshalIndent (enc_ScalarProfileReport is_print report) = Some data \<and>
         Decode (data @ [CHR 0x0A]) dec_ScalarProfileReport zero_evidence True =
           Inr (stored_evidence is_print stored_ProfileExperiment report)))"
proof (intro conjI allI impI, elim conjE)
  fix capture
  assume "gather sha x options CaptureSchema (run_scenario sha x readFile (default_runner x) options) = Some (Inr capture)"
    "recordable is_print capture"
  then have "fits_depth 7 (enc_Capture is_print capture)" by (rule capture_fits)
  then show "\<exists>data. MarshalIndent (enc_Capture is_print capture) = Some data \<and>
      Decode (data @ [CHR 0x0A]) dec_Capture zero_evidence True = Inr (stored_evidence is_print stored_Experiment capture)"
    using fits_MarshalIndent Decode_Capture_file by (fastforce simp: fits_depth_def max_nesting_depth_def)
next
  fix report
  assume "gather sha x profile ScalarProfileReportSchema
      (run_profile_scenario sha x readFile (default_baseline x) (default_profile x) profile) = Some (Inr report) \<and>
    recordable is_print report"
  then have "fits_depth 7 (enc_ScalarProfileReport is_print report)" using report_fits by blast
  then show "\<exists>data. MarshalIndent (enc_ScalarProfileReport is_print report) = Some data \<and>
      Decode (data @ [CHR 0x0A]) dec_ScalarProfileReport zero_evidence True =
        Inr (stored_evidence is_print stored_ProfileExperiment report)"
    using fits_MarshalIndent Decode_report_file by (fastforce simp: fits_depth_def max_nesting_depth_def)
qed

theorem evidence_roundtrip_witness:
  "\<exists>data. MarshalIndent (enc_Capture (\<lambda>_. False) (sample_capture ''1'')) = Some data \<and>
     Decode (data @ [CHR 0x0A]) dec_Capture zero_evidence True =
       Inr (stored_evidence (\<lambda>_. False) stored_Experiment (sample_capture ''1''))"
proof -
  have "gather sample_sha sample_surroundings (sample_options ''1'') CaptureSchema (run_scenario sample_sha sample_surroundings
      sample_files (default_runner sample_surroundings) (sample_options ''1'')) = Some (Inr (sample_capture ''1''))"
    by (rule sample_gather)
  with evidence_roundtrip [THEN conjunct1, THEN spec [of _ "sample_capture ''1''"], THEN mp] sample_recordable(1)
  show ?thesis by blast
qed

end
