(* ===== verification/Unverifiable.thy ===== *)
theory Unverifiable
  imports Verify
begin

text \<open>
  Captures that \<open>labctl benchmark\<close> publishes and \<open>labctl verify\<close> rejects. The runs are complete ones of the
  command of \<open>execute.go\<close>, with the runner it uses by default: one with a controller of another version,
  one of a suite outside of the repository, and one of two scenarios during which the engine's build changes.
\<close>

section \<open>From the gathered evidence to the published capture\<close>

lemma sample_options_valid:
  assumes "trim_space ver \<noteq> []"
  shows "validateOptions (sample_options ver) = Inr ()"
    and "validateOptions ((sample_options ver)\<lparr>o_SuitePath := ''/s.json''\<rparr>) = Inr ()"
  using assms
  by (simp_all add: validateOptions_def sample_fields sample_build_def validSourceState_def trim_space_Nil_iff byte_def
      is_space_def)

lemma produced:
  assumes "gather sample_sha x options CaptureSchema
      (run_scenario sample_sha x (x_ReadFile x) (default_runner x) options) = Some (Inr capture)"
    and "validateOptions options = Inr ()" "o_ReadFile options = None" "o_Runner options = None"
    and "o_Persist options = None" "o_OutputPath options = ''p''" "x_Cancelled x = (\<lambda>_. False)" "x_StatOutput x = None"
    and "x_Elsewhere x = id" "x_Os x = sample_os id None"
  shows "\<exists>d'. Execute sample_sha (\<lambda>_. Inr ''{}'') x options empty_disk = Some (Inr capture, d')"
proof -
  have "requireAbsent (sample_os id None) ''p'' empty_disk = Inr ()" by (simp add: persist_eval)
  moreover have "(sample_os id None)\<lparr>os_stat := None\<rparr> = sample_os id None" by (simp add: sample_os_def)
  ultimately show ?thesis
    using assms sample_persist
    by (auto simp: Execute_def execute_suite_def injected_def persist_evidence_def Let_def)
qed

section \<open>A suite outside of the repository\<close>

definition outside_surroundings :: surroundings where
  "outside_surroundings = sample_surroundings\<lparr>x_ReadFile := (\<lambda>n path.
     if path = ''/s.json'' then Inr (render sample_suite_doc) else sample_files n path)\<rparr>"

definition outside_options :: Options where
  "outside_options = (sample_options ''1'')\<lparr>o_SuitePath := ''/s.json''\<rparr>"

definition outside_capture :: Capture where
  "outside_capture = (sample_capture ''1'')\<lparr>ev_Suite := (ev_Suite (sample_capture ''1''))\<lparr>si_Path := ''/s.json''\<rparr>\<rparr>"

lemma outside_identity: "identityPath (Inr ''/'') ''/repo'' ''/s.json'' = ''/s.json''"
  by (simp add: identityPath_def filepath_Abs_def is_abs_def slash_def path_Clean_def clean_step_def
      filepath_Rel_def components_def climbs_def)

lemma outside_path: "\<not> validRepositoryJSONPath ''/s.json''"
  by (simp add: validRepositoryJSONPath_def is_abs_def slash_def)

lemma outside_run_scenario:
  "run_scenario sample_sha outside_surroundings (x_ReadFile outside_surroundings) (default_runner outside_surroundings)
     outside_options ''/repo'' 0 sample_scenario = Some (Inr (hd (ev_Experiments (sample_capture ''1''))))"
proof -
  have "read_workload outside_surroundings (x_ReadFile outside_surroundings) ''/repo'' 0 sample_scenario =
      read_workload sample_surroundings sample_files ''/repo'' 0 sample_scenario"
    using sample_resolve(3)
    by (simp add: read_workload_def outside_surroundings_def sample_fields sample_scenario_def)
  then show ?thesis
    using sample_run_scenario [of "''1''"]
    by (simp add: run_scenario_def outside_surroundings_def outside_options_def default_runner_def)
qed

lemma outside_Execute:
  "\<exists>d'. Execute sample_sha (\<lambda>_. Inr ''{}'') outside_surroundings outside_options empty_disk = Some (Inr outside_capture, d')"
proof (rule produced)
  have "Suite_Validate sample_suite = Inr ()" using sample_suite_ok by (simp add: Suite_Validate_iff)
  then have "read_suite (x_ReadFile outside_surroundings) ''/s.json'' = Inr (render sample_suite_doc, sample_suite)"
    by (simp add: read_suite_def outside_surroundings_def sample_suite_Decode)
  then show "gather sample_sha outside_surroundings outside_options CaptureSchema (run_scenario sample_sha outside_surroundings
      (x_ReadFile outside_surroundings) (default_runner outside_surroundings) outside_options) = Some (Inr outside_capture)"
    using sample_ready [of "''1''"] outside_run_scenario
    by (simp add: gather_def injected_def tryP_def outside_surroundings_def outside_options_def sample_fields sample_root(1)
        hashFile_def sample_identity outside_identity sample_suite_def)
      (simp add: outside_capture_def sample_capture_def)
qed (simp_all add: outside_surroundings_def outside_options_def sample_fields sample_options_valid sample_one)

section \<open>A build that changes between two scenarios\<close>

definition second_id :: bytes where "second_id = ''day05:0000000000000002''"

definition second_scenario :: Scenario where
  "second_scenario = sample_scenario\<lparr>sc_Name := ''z''\<rparr>"

definition two_suite :: Suite where
  "two_suite = sample_suite\<lparr>bs_Scenarios := [sample_scenario, second_scenario]\<rparr>"

definition scenario_doc :: "bytes \<Rightarrow> doc" where
  "scenario_doc name = DObj [(''name'', DStr name), (''workload'', DStr ''w/a.json''),
     (''execution'', DObj [(''backend'', DStr ''scalar'')]),
     (''sampling'', DObj [(''warmup_iterations'', DNum 0), (''sample_iterations'', DNum 1)])]"

definition two_suite_doc :: doc where
  "two_suite_doc = DObj
     [(''schema_version'', DStr ''paraflow.benchmark-suite/v1''), (''name'', DStr ''n''),
      (''scenarios'', DArr [scenario_doc ''s'', scenario_doc ''z''])]"

lemma two_suite_Decode: "Decode (render two_suite_doc) dec_Suite zero_Suite True = Inr two_suite"
proof (rule Decode_render)
  show "plain_doc two_suite_doc" "distinct_doc two_suite_doc" "depth two_suite_doc \<le> max_nesting_depth"
    by (simp_all add: two_suite_doc_def scenario_doc_def max_nesting_depth_def doc_eval)
  show "dec_Suite True (tree two_suite_doc) zero_Suite = Some two_suite"
    by (simp add: two_suite_doc_def scenario_doc_def two_suite_def second_scenario_def sample_suite_def sample_scenario_def
        dec_Suite_def dec_Scenario_def zero_Suite_def zero_Scenario_def dec_Execution_def dec_Sampling_def SuiteSchema_def
        doc_eval)
qed

lemma two_suite_ok: "suite_ok two_suite"
proof -
  have "scenario_ok second_scenario"
    using sample_scenario_ok
    by (simp add: scenario_ok_def second_scenario_def validName_def rune_count_def maxNameRunes_def
        trim_space_Nil_iff byte_def is_space_def)
  then show ?thesis
    using sample_suite_ok by (simp add: suite_ok_def two_suite_def sample_suite_def second_scenario_def sample_scenario_def)
qed

text \<open>The engine of the second scenario was built by another compiler.\<close>

definition second_doc :: doc where
  "second_doc = DObj
     [(''schema_version'', DStr ''paraflow.benchmark-engine-result/v1''), (''experiment_id'', DStr second_id),
      (''scenario_name'', DStr ''z''), (''workload_name'', DStr ''w''),
      (''execution'', DObj [(''backend'', DStr ''scalar'')]),
      (''sampling'', DObj [(''warmup_iterations'', DNum 0), (''sample_iterations'', DNum 1)]),
      (''timing'', DObj [(''clock'', DStr ''std::time::Instant''), (''unit'', DStr ''nanoseconds''),
         (''process_start_in_samples'', DBool False), (''experiment_total_ns'', hex_doc 16)]),
      (''correctness'', DObj [(''status'', DStr ''passed''), (''oracle'', DStr ''rust-scalar-v1''),
         (''comparison'', DStr ''exact'')]),
      (''engine_build'', DObj [(''version'', DStr ''1''), (''profile'', DStr ''release''), (''target'', DStr ''t''),
         (''rustc'', DStr ''q''), (''source_commit'', DStr ''c''), (''source_state'', DStr ''clean'')]),
      (''samples'', DArr [DObj [(''ordinal'', DNum 0), (''generation_ns'', hex_doc 1), (''pipeline_ns'', hex_doc 2),
        (''engine_total_ns'', hex_doc 3)]]),
      (''result'', sample_result_doc)]"

definition second_result :: EngineResult where
  "second_result = (sample_engine_result second_id)\<lparr>er_ScenarioName := ''z'',
     er_EngineBuild := (er_EngineBuild (sample_engine_result second_id))\<lparr>eb_Rustc := ''q''\<rparr>\<rparr>"

definition second_request :: Request where
  "second_request = (sample_request RequestSchema second_id)\<lparr>rq_ScenarioName := ''z''\<rparr>"

lemma plain_second_id: "list_all plain second_id" "length second_id = 22"
  by (simp_all add: second_id_def plain_def quote_def backslash_def byte_def)

lemma second_Decode: "Decode (render second_doc) dec_EngineResult zero_EngineResult True = Inr second_result"
proof (rule Decode_render)
  show "plain_doc second_doc" "distinct_doc second_doc" "depth second_doc \<le> max_nesting_depth"
    using plain_second_id
    by (simp_all add: second_doc_def sample_result_doc_def max_nesting_depth_def plain_hex_doc doc_eval)
  show "dec_EngineResult True (tree second_doc) zero_EngineResult = Some second_result"
    using plain_second_id
    by (simp add: second_doc_def second_result_def sample_engine_result_def dec_EngineResult_def dec_engine_result_def
        zero_EngineResult_def zero_engine_result_def dec_Execution_def dec_Sampling_def dec_Timing_def
        dec_Correctness_def dec_EngineBuild_def dec_Sample_def zero_Sample_def dec_hex_doc doc_eval
        EngineResultSchema_def BenchmarkClock_def BenchmarkTimeUnit_def BenchmarkOracle_def BenchmarkComparison_def)
qed

lemma second_valid: "validateEngineResult second_result second_request sample_workload = Inr ()"
  using sample_valid [of second_id RequestSchema]
  by (simp add: validateEngineResult_iff answers_request_def second_result_def second_request_def sample_engine_result_def
      sample_request_def trim_space_Nil_iff byte_def is_space_def)

lemma second_marshal: "\<exists>payload. marshal_Request second_request = Some payload \<and> length payload \<le> MaxFrameBytes"
proof -
  have "length (compact sample_workload_tree) = 134"
    by (simp add: sample_workload_tree_def byte_def quote_def)
  moreover have "sample_workload_text \<noteq> []" by (simp add: sample_workload_text_def quoted_def)
  moreover have "list_all plain ''z''" "list_all plain ''scalar''"
    by (simp_all add: plain_def quote_def backslash_def byte_def)
  ultimately show ?thesis
    using plain_second_id short_schemas(1)
    by (simp add: short_def marshal_Request_def second_request_def sample_request_def marshal_raw_def sample_workload_parse
        marshal_object_def marshal_string_plain decimal_0 decimal_1 MaxFrameBytes_def)
qed

lemma second_RunEngine:
  "RunEngine False (sample_engine_host second_doc) 100 ''engine'' second_request sample_workload = Inr (second_result, 100)"
proof -
  obtain ms where ms: "second_doc = DObj ms" by (simp add: second_doc_def)
  obtain cs where cs: "render second_doc = CHR ''{'' # cs @ ''}''" using render_object [of ms] ms by metis
  have "trim_space (render second_doc) \<noteq> []" using trim_brace [of "cs @ ''}''"] cs by auto
  moreover have "last (render second_doc) = CHR ''}''" by (simp add: cs)
  moreover have "length (render second_doc) \<le> MaxFrameBytes"
    using plain_second_id(2)
    by (simp add: second_doc_def sample_result_doc_def hex_doc_def decimal_0 decimal_1 MaxFrameBytes_def)
  ultimately have "one_response (sample_engine_host second_doc) ''engine'' ''benchmark'' second_request (render second_doc)"
    using second_marshal
    by (simp add: one_response_def sample_engine_host_def newline_def carriage_return_def)
  then show ?thesis
    using second_Decode second_valid engine_not_blank unfolding RunEngine_Inr_iff
    by (simp add: second_result_def sample_engine_result_def durationNanoseconds_def) blast
qed

definition two_surroundings :: surroundings where
  "two_surroundings = sample_surroundings\<lparr>
     x_ReadFile := (\<lambda>n path. if path = ''/repo/s.json'' then Inr (render two_suite_doc) else sample_files n path),
     x_Engine := (\<lambda>n. if n = 0 then sample_engine_host (sample_response_doc sample_id) else sample_engine_host second_doc)\<rparr>"

definition second_experiment :: Experiment where
  "second_experiment = (hd (ev_Experiments (sample_capture ''1'')))\<lparr>ex_ScenarioName := ''z'',
     ex_EngineResult := second_result\<rparr>"

definition two_capture :: Capture where
  "two_capture = (sample_capture ''1'')\<lparr>
     ev_Suite := (ev_Suite (sample_capture ''1''))\<lparr>si_SHA256 := hashBytes sample_sha (render two_suite_doc)\<rparr>,
     ev_Experiments := ev_Experiments (sample_capture ''1'') @ [second_experiment]\<rparr>"

lemma two_read_workload:
  "read_workload two_surroundings (x_ReadFile two_surroundings) ''/repo'' k scenario =
     (if sc_Workload scenario = ''w/a.json'' then Inr (sample_workload_text, sample_workload)
      else read_workload two_surroundings (x_ReadFile two_surroundings) ''/repo'' k scenario)"
  using sample_resolve(3)
  by (simp add: read_workload_def two_surroundings_def sample_fields sample_files_def sample_ProjectWorkload
      WorkloadSchema_def) (simp add: sample_workload_def)

lemma two_run_scenarios:
  "run_scenario sample_sha two_surroundings (x_ReadFile two_surroundings) (default_runner two_surroundings)
     (sample_options ''1'') ''/repo'' 0 sample_scenario = Some (Inr (hd (ev_Experiments (sample_capture ''1''))))"
  "run_scenario sample_sha two_surroundings (x_ReadFile two_surroundings) (default_runner two_surroundings)
     (sample_options ''1'') ''/repo'' (Suc 0) second_scenario = Some (Inr second_experiment)"
proof -
  have "sc_Workload sample_scenario = ''w/a.json''" "sc_Workload second_scenario = ''w/a.json''"
    by (simp_all add: sample_scenario_def second_scenario_def)
  then have w: "read_workload two_surroundings (x_ReadFile two_surroundings) ''/repo'' 0 sample_scenario =
      Inr (sample_workload_text, sample_workload)"
    "read_workload two_surroundings (x_ReadFile two_surroundings) ''/repo'' (Suc 0) second_scenario =
      Inr (sample_workload_text, sample_workload)"
    by (simp_all add: two_read_workload)
  show "run_scenario sample_sha two_surroundings (x_ReadFile two_surroundings) (default_runner two_surroundings)
     (sample_options ''1'') ''/repo'' 0 sample_scenario = Some (Inr (hd (ev_Experiments (sample_capture ''1''))))"
    using sample_run_scenario [of "''1''"] w(1)
    by (simp add: run_scenario_def sample_read_workload two_surroundings_def default_runner_def sample_fields)
      (simp add: sample_surroundings_def)
  have r: "request_for RequestSchema (numbered ''day05:'' (Suc 0)) second_scenario sample_workload_text = second_request"
    by (simp add: request_for_def numbered_def second_scenario_def sample_scenario_def second_request_def sample_request_def
        format_016x_def hex_digits_numeral hex_digit_def second_id_def)
  have e: "default_runner two_surroundings (Suc 0) ''engine'' second_request sample_workload = Inr (second_result, 100)"
    using second_RunEngine by (simp add: default_runner_def two_surroundings_def sample_surroundings_def)
  have a: "validateSourceAlignment (er_EngineBuild second_result) (sample_build ''1'') = Inr ()"
    by (simp add: aligned_iff second_result_def sample_engine_result_def sample_build_def)
  have "er_Samples second_result = er_Samples (sample_engine_result sample_id)"
    by (simp add: second_result_def sample_engine_result_def)
  then show "run_scenario sample_sha two_surroundings (x_ReadFile two_surroundings) (default_runner two_surroundings)
     (sample_options ''1'') ''/repo'' (Suc 0) second_scenario = Some (Inr second_experiment)"
    using w(2) e a sample_summary
    by (simp add: run_scenario_def r tryP_def sample_fields)
      (simp add: second_experiment_def sample_capture_def second_scenario_def sample_scenario_def)
qed

lemma two_Execute:
  "\<exists>d'. Execute sample_sha (\<lambda>_. Inr ''{}'') two_surroundings (sample_options ''1'') empty_disk = Some (Inr two_capture, d')"
proof (rule produced)
  have "Suite_Validate two_suite = Inr ()" using two_suite_ok by (simp add: Suite_Validate_iff)
  then have "read_suite (x_ReadFile two_surroundings) ''/repo/s.json'' = Inr (render two_suite_doc, two_suite)"
    by (simp add: read_suite_def two_surroundings_def two_suite_Decode)
  moreover have "run_scenarios (\<lambda>_. False) (run_scenario sample_sha two_surroundings (x_ReadFile two_surroundings)
      (default_runner two_surroundings) (sample_options ''1'') ''/repo'') 0 (bs_Scenarios two_suite) [] =
      Some (Inr (ev_Experiments two_capture))"
    using two_run_scenarios by (simp add: two_suite_def tryP_def two_capture_def sample_capture_def)
  ultimately show "gather sample_sha two_surroundings (sample_options ''1'') CaptureSchema (run_scenario sample_sha
      two_surroundings (x_ReadFile two_surroundings) (default_runner two_surroundings) (sample_options ''1'')) =
      Some (Inr two_capture)"
    using sample_ready [of "''1''"]
    by (simp add: gather_def injected_def tryP_def two_surroundings_def sample_fields sample_root(1) hashFile_def
        sample_identity)
      (simp add: two_capture_def sample_capture_def two_suite_def sample_suite_def)
qed (simp_all add: two_surroundings_def sample_fields sample_options_valid sample_one)

section \<open>What the command does not check\<close>

definition other_version :: "Capture \<Rightarrow> bool" where
  "other_version capture \<longleftrightarrow>
     (\<exists>e\<in>set (ev_Experiments capture). eb_Version (er_EngineBuild (ex_EngineResult e)) \<noteq> Version (ev_Controller capture))"

definition changed_build :: "Capture \<Rightarrow> bool" where
  "changed_build capture \<longleftrightarrow>
     (\<exists>e\<in>set (ev_Experiments capture). \<exists>e'\<in>set (ev_Experiments capture).
        er_EngineBuild (ex_EngineResult e) \<noteq> er_EngineBuild (ex_EngineResult e'))"

definition outside_suite :: "Capture \<Rightarrow> bool" where
  "outside_suite capture \<longleftrightarrow> \<not> validRepositoryJSONPath (si_Path (ev_Suite capture))"

lemmas unchecked_defs = other_version_def changed_build_def outside_suite_def

text \<open>The three conditions on a capture, given the list of its engine builds.\<close>

definition builds :: "Capture \<Rightarrow> EngineBuild list" where
  "builds capture = map (er_EngineBuild \<circ> ex_EngineResult) (ev_Experiments capture)"

lemma unchecked_builds:
  "other_version capture \<longleftrightarrow> (\<exists>b\<in>set (builds capture). eb_Version b \<noteq> Version (ev_Controller capture))"
  "changed_build capture \<longleftrightarrow> (\<exists>b\<in>set (builds capture). \<exists>b'\<in>set (builds capture). b \<noteq> b')"
  by (simp_all add: unchecked_defs builds_def)

lemma sample_checked:
  "other_version (sample_capture ver) \<longleftrightarrow> ver \<noteq> ''1''" "\<not> changed_build (sample_capture ver)"
  "\<not> outside_suite (sample_capture ver)"
proof -
  have "builds (sample_capture ver) = [er_EngineBuild (sample_engine_result sample_id)]"
    by (simp add: builds_def sample_capture_def)
  then show "other_version (sample_capture ver) \<longleftrightarrow> ver \<noteq> ''1''" "\<not> changed_build (sample_capture ver)"
    by (auto simp: unchecked_builds sample_capture_def sample_build_def sample_engine_result_def)
  show "\<not> outside_suite (sample_capture ver)"
    using sample_suite_path by (simp add: outside_suite_def sample_capture_def)
qed

lemma two_checked: "\<not> other_version two_capture" "changed_build two_capture" "\<not> outside_suite two_capture"
proof -
  let ?a = "er_EngineBuild (sample_engine_result sample_id)" and ?b = "er_EngineBuild second_result"
  have "builds two_capture = [?a, ?b]"
    by (simp add: builds_def two_capture_def second_experiment_def sample_capture_def)
  moreover have "eb_Version ?a = ''1''" "eb_Version ?b = ''1''" "eb_Rustc ?a \<noteq> eb_Rustc ?b"
    by (simp_all add: second_result_def sample_engine_result_def)
  moreover have "Version (ev_Controller two_capture) = ''1''"
    by (simp add: two_capture_def sample_capture_def sample_build_def)
  ultimately show "\<not> other_version two_capture" "changed_build two_capture"
    by (auto simp: unchecked_builds)
  show "\<not> outside_suite two_capture"
    using sample_suite_path by (simp add: outside_suite_def two_capture_def sample_capture_def)
qed

lemma outside_checked: "\<not> other_version outside_capture" "\<not> changed_build outside_capture" "outside_suite outside_capture"
proof -
  have "builds outside_capture = builds (sample_capture ''1'')" "ev_Controller outside_capture = ev_Controller (sample_capture ''1'')"
    by (simp_all add: builds_def outside_capture_def)
  with sample_checked [of "''1''"] show "\<not> other_version outside_capture" "\<not> changed_build outside_capture"
    by (simp_all add: unchecked_builds)
  show "outside_suite outside_capture"
    using outside_path by (simp add: outside_suite_def outside_capture_def)
qed

lemma accepted_checked:
  assumes "verifyCapture sha v root capture = Some (Inr receipt)"
  shows "\<not> other_version capture \<and> \<not> changed_build capture \<and> \<not> outside_suite capture"
proof -
  let ?es = "ev_Experiments capture"
  have ok: "common_ok capture" "\<forall>k<length ?es. \<exists>s. capture_accept sha v root (ev_Controller capture) k s (?es ! k)"
    "\<exists>b. \<forall>e\<in>set ?es. er_EngineBuild (ex_EngineResult e) = b"
    using assms unfolding verifyCapture_def capture_check.evidence_iff by blast+
  have "eb_Version (er_EngineBuild (ex_EngineResult e)) = Version (ev_Controller capture)" if "e \<in> set ?es" for e
    using that ok(2) by (fastforce simp: in_set_conv_nth capture_accept_def engine_matches_def)
  with ok(1,3) show ?thesis by (auto simp: unchecked_defs common_ok_def Let_def)
qed

lemma rejected:
  assumes "other_version capture \<or> changed_build capture \<or> outside_suite capture"
  shows "\<exists>error. verifyCapture sha v root capture = Some (Inl error)"
proof -
  have "verifyCapture sha v root capture \<noteq> Some (Inr receipt)" for receipt
    using accepted_checked [of sha v root capture receipt] assms by blast
  then show ?thesis
    using capture_check.evidence_returns [of sha v root CaptureSchema sha v root "ev_Controller capture" capture]
    unfolding verifyCapture_def by (metis not_Inl_iff not_None_eq)
qed

lemma capture_controller:
  assumes "Execute sha marshal x options d = Some (Inr capture, d')"
  shows "ev_Controller capture = o_Build options"
proof -
  let ?run = "run_scenario sha x (injected (o_ReadFile options) (x_ReadFile x))
      (injected (o_Runner options) (default_runner x)) options"
  have "gather sha x options CaptureSchema ?run = Some (Inr capture)"
    using assms execute_suite_ok [of sha marshal x options CaptureSchema ?run d capture d'] by (simp add: Execute_def)
  then show ?thesis by (rule gather_ok) simp
qed

lemma checked_accepted:
  assumes "Execute sha marshal x options d = Some (Inr capture, d')" and "o_Runner options = None"
    and "filepath_Abs (x_Wd x) (o_RepositoryRoot options) = Inr root"
    and "unchanged v x options root (si_Path (ev_Suite capture)) (map (wi_Path \<circ> ex_Workload) (ev_Experiments capture))"
    and "host_identified (x_Host x)" "trim_space (ar_Path (ev_EngineArtifact capture)) \<noteq> []" "0 < ev_StartedAt capture"
    and "\<And>data. length (sha data) = 32"
    and checked: "\<not> other_version capture" "\<not> changed_build capture" "\<not> outside_suite capture"
  shows "\<exists>receipt. verifyCapture sha v root capture = Some (Inr receipt)"
proof -
  have "\<exists>build. list_all (\<lambda>e. er_EngineBuild (ex_EngineResult e) = build) (ev_Experiments capture) \<and>
      eb_Version build = Version (o_Build options)"
  proof (cases "ev_Experiments capture")
    case Nil
    then show ?thesis by (auto intro: exI [of _ "\<lparr>eb_Version = Version (o_Build options), eb_Profile = [], eb_Target = [],
        eb_Rustc = [], eb_SourceCommit = [], eb_SourceState = []\<rparr>"])
  next
    case (Cons e es)
    then have e: "e \<in> set (ev_Experiments capture)" by simp
    have "er_EngineBuild (ex_EngineResult e') = er_EngineBuild (ex_EngineResult e)" if "e' \<in> set (ev_Experiments capture)" for e'
      using checked(2) e that unfolding changed_build_def by blast
    moreover have "eb_Version (er_EngineBuild (ex_EngineResult e)) = Version (o_Build options)"
      using checked(1) e capture_controller [OF assms(1)] unfolding other_version_def by fastforce
    ultimately show ?thesis unfolding list_all_iff by blast
  qed
  then obtain build where build: "list_all (\<lambda>e. er_EngineBuild (ex_EngineResult e) = build) (ev_Experiments capture)"
      "eb_Version build = Version (o_Build options)" by blast
  have "validRepositoryJSONPath (si_Path (ev_Suite capture))" using checked(3) by (simp add: outside_suite_def)
  from Execute_verifies [OF assms(1-4) this assms(5-8) build] show ?thesis by blast
qed

section \<open>Properties\<close>

text \<open>
  Claim C30. The command that captures and the command that verifies do not agree on what a capture must satisfy.
  A capture from an engine whose version is not the controller's, or whose build changed between
  scenarios, or of a suite that is not a \<open>.json\<close> file of the repository, is never accepted, whatever the
  repository. For what a run of the capture command published, with the files unchanged, the host and the
  engine path identified, these three are the only obstacles: it verifies if and only if none of
  them holds. And the command publishes captures of each kind: there is a complete run for each of
  the three in which exactly that one holds.
\<close>

theorem unverifiable_captures:
  assumes "Execute sha marshal x options d = Some (Inr capture, d')" and "o_Runner options = None"
    and "filepath_Abs (x_Wd x) (o_RepositoryRoot options) = Inr root"
    and "unchanged v x options root (si_Path (ev_Suite capture)) (map (wi_Path \<circ> ex_Workload) (ev_Experiments capture))"
    and "host_identified (x_Host x)" "trim_space (ar_Path (ev_EngineArtifact capture)) \<noteq> []" "0 < ev_StartedAt capture"
    and "\<And>data. length (sha data) = 32"
  shows "(\<forall>c v' root'. other_version c \<or> changed_build c \<or> outside_suite c \<longrightarrow>
        (\<exists>error. verifyCapture sha v' root' c = Some (Inl error))) \<and>
     ((\<exists>receipt. verifyCapture sha v root capture = Some (Inr receipt)) \<longleftrightarrow>
        \<not> other_version capture \<and> \<not> changed_build capture \<and> \<not> outside_suite capture) \<and>
     (\<exists>c d'. Execute sample_sha (\<lambda>_. Inr ''{}'') sample_surroundings (sample_options ''2'') empty_disk = Some (Inr c, d') \<and>
        other_version c \<and> \<not> changed_build c \<and> \<not> outside_suite c) \<and>
     (\<exists>c d'. Execute sample_sha (\<lambda>_. Inr ''{}'') two_surroundings (sample_options ''1'') empty_disk = Some (Inr c, d') \<and>
        \<not> other_version c \<and> changed_build c \<and> \<not> outside_suite c) \<and>
     (\<exists>c d'. Execute sample_sha (\<lambda>_. Inr ''{}'') outside_surroundings outside_options empty_disk = Some (Inr c, d') \<and>
        \<not> other_version c \<and> \<not> changed_build c \<and> outside_suite c)"
proof -
  have all: "\<forall>c v' root'. other_version c \<or> changed_build c \<or> outside_suite c \<longrightarrow>
      (\<exists>error. verifyCapture sha v' root' c = Some (Inl error))"
    using rejected by blast
  have gap: "(\<exists>receipt. verifyCapture sha v root capture = Some (Inr receipt)) \<longleftrightarrow>
      \<not> other_version capture \<and> \<not> changed_build capture \<and> \<not> outside_suite capture"
    using accepted_checked [of sha v root capture] checked_accepted [OF assms] by blast
  obtain d1 d2 d3 where
    runs: "Execute sample_sha (\<lambda>_. Inr ''{}'') sample_surroundings (sample_options ''2'') empty_disk =
        Some (Inr (sample_capture ''2''), d1)"
      "Execute sample_sha (\<lambda>_. Inr ''{}'') two_surroundings (sample_options ''1'') empty_disk = Some (Inr two_capture, d2)"
      "Execute sample_sha (\<lambda>_. Inr ''{}'') outside_surroundings outside_options empty_disk = Some (Inr outside_capture, d3)"
    using sample_Execute [OF sample_one(2)] two_Execute outside_Execute by (elim exE) rule
  have "other_version (sample_capture ''2'')" by (simp add: sample_checked)
  then show ?thesis
    by (intro conjI all gap exI) (rule runs | assumption | rule sample_checked two_checked outside_checked)+
qed

theorem unverifiable_captures_witness:
  "(\<exists>receipt. verifyCapture sample_sha sample_repository ''/repo'' (sample_capture ''1'') = Some (Inr receipt)) \<and>
   (\<exists>error. verifyCapture sample_sha sample_repository ''/repo'' two_capture = Some (Inl error))"
proof -
  let ?c = "sample_capture ''1''" and ?o = "sample_options ''1''"
  obtain d' where run: "Execute sample_sha (\<lambda>_. Inr ''{}'') sample_surroundings ?o empty_disk = Some (Inr ?c, d')"
    using sample_Execute [OF sample_one(1)] by blast
  have u: "unchanged sample_repository sample_surroundings ?o ''/repo'' (si_Path (ev_Suite ?c))
      (map (wi_Path \<circ> ex_Workload) (ev_Experiments ?c))"
    using sample_resolve
    by (simp add: unchanged_def injected_def sample_fields sample_capture_def workload_identity_def sample_repository_def
        sample_files_def)
  have side: "filepath_Abs (x_Wd sample_surroundings) (o_RepositoryRoot ?o) = Inr ''/repo''" "o_Runner ?o = None"
    "host_identified (x_Host sample_surroundings)" "trim_space (ar_Path (ev_EngineArtifact ?c)) \<noteq> []" "0 < ev_StartedAt ?c"
    "\<And>data. length (sample_sha data) = 32"
    by (simp_all add: sample_fields sample_root(1) host_identified_def sample_host_def sample_capture_def
        trim_space_Nil_iff byte_def is_space_def sample_sha_def)
  note result = unverifiable_captures [OF run side(2,1) u side(3-6)]
  have "\<not> other_version ?c \<and> \<not> changed_build ?c \<and> \<not> outside_suite ?c" by (simp add: sample_checked)
  with result [THEN conjunct2, THEN conjunct1] two_checked(2) result [THEN conjunct1] show ?thesis by blast
qed

end
