(* ===== verification/Spec2Isabelle.thy ===== *)
theory Spec2Isabelle
  imports SessionProps AppText EvidenceFile Unverifiable
begin

text \<open>
  \<^bold>\<open>The program.\<close> \<open>labctl\<close> (\<open>src/labctl-go\<close>) is the Go controller of the paraflow laboratory. It
  starts an engine process (written in Rust, \<open>src/engine-rs\<close>), sends it workloads as one-line JSON
  frames on its standard input, reads one-line JSON responses from its standard output, keeps the
  last 64 KiB of its diagnostics, and reports validated results; it also inspects the host, and
  captures and verifies benchmark evidence. Bytes are \<^typ>\<open>char\<close>, Go strings and byte slices are
  lists of them, \<open>uint64\<close> is \<^typ>\<open>u64\<close>, a float is its bit pattern; every Go error is a constructor
  that keeps the data of the message, in a sum whose left side is the error.

  \<^bold>\<open>Theories, in the order the code calls them.\<close>

  \<^item> \<open>Prelude\<close>: the type synonyms, the error monad (\<open>bindE\<close>, \<open>wrapE\<close>), words and lists.
  \<^item> \<open>GoText\<close>: what the source uses of \<open>unicode/utf8\<close>, \<open>strings\<close> and \<open>strconv\<close>.
  \<^item> \<open>Json\<close>: what it uses of \<open>encoding/json\<close>: the syntax, the decoding of values into struct
    fields (case folding, \<open>DisallowUnknownFields\<close>, \<open>null\<close>), and \<open>Marshal\<close>.
  \<^item> \<open>Jsoncheck\<close>: \<open>internal/jsoncheck/jsoncheck.go\<close>. The duplicate-key scan works on the token
    stream; it is shown to be the check on the parse tree, so \<open>Decode\<close> has an exact description.
  \<^item> \<open>Protocol\<close>: \<open>internal/protocol/protocol.go\<close>. Request frames, workload projection, decoding of
    the three kinds of response, and validation of results. An accepted result is
    \<open>consistent_result\<close> with the workload, whatever the engine sent.
  \<^item> \<open>Sinks\<close>: the interface of writers that keep a window of what they were given.
  \<^item> \<open>Frame\<close>: \<open>internal/worker/frame.go\<close>. \<open>readFrame\<close> over \<open>bufio.Reader\<close> and the bounded tail.
    The reader's buffer is invisible: \<open>readFrame\<close> is \<open>frame_spec\<close> for every buffer size.
  \<^item> \<open>Session\<close>: \<open>internal/worker/session.go\<close>. The fields of the Go struct are the record \<open>session\<close>
    (the token channel is a counter, a closed channel a flag, a \<open>sync.Once\<close> a flag); each goroutine
    inside \<open>Execute\<close>, \<open>Shutdown\<close> or \<open>Close\<close> is a \<open>thread\<close> whose program counter names the next
    synchronisation point, \<open>thread_step\<close> is one step of it with its choice of \<open>select\<close>
    alternative, \<open>env_step\<close> what the child and the background goroutines do, and \<open>reachable\<close> the
    worlds of every interleaving. \<open>Start\<close> and the clean-up of its failing paths are a function of
    what the operating system answers.
  \<^item> \<open>WorkerInterface\<close>: the locale that states what a client may rely on.
  \<^item> \<open>SessionSafety\<close>: the invariants, each an instance of one locale of thread assertions (life
    cycle, attribution of answers to requests), and the counts of tokens and identifiers; the
    model of the session is an instance of \<open>worker_session\<close>.
  \<^item> \<open>SessionTrace\<close>: the history of a run. What is unread of the child's output is a piece of the bytes it
    wrote, and every answer a call returns goes back to the step of that call that read its frame.
  \<^item> \<open>SessionLive\<close>: a rank that every step of a call decreases, and the steps that are possible once the
    child is gone, so that every schedule returns.
  \<^item> \<open>SessionProps\<close>: the properties of the session, with concrete runs.
  \<^item> \<open>Platform\<close>, \<open>Doctor\<close>: \<open>internal/doctor\<close>. Host facts, tool probes, versions, readiness.
  \<^item> \<open>DoctorText\<close>: the sentences of tool problems and \<open>Report.String\<close>, with \<open>%q\<close> and the printing of
    times, which read back to the second (\<open>format_roundtrip\<close>) or, with a fraction, to the
    nanosecond (\<open>nano_roundtrip\<close>).
  \<^item> \<open>Buildinfo\<close>: \<open>internal/buildinfo/buildinfo.go\<close>.
  \<^item> \<open>Stats\<close>: \<open>internal/benchmark/stats.go\<close>.
  \<^item> \<open>Ratios\<close>: the overflow-checked arithmetic of \<open>internal/benchmark\<close> and the apportionment of
    basis points, shown to be the method of largest remainders.
  \<^item> \<open>Evidence\<close>: the records of \<open>types.go\<close> and \<open>profile_types.go\<close> and their JSON.
  \<^item> \<open>JsonDoc\<close>: compact documents; parsing a rendered document gives its tree back, which lets
    concrete documents be followed through the decoders.
  \<^item> \<open>Engine\<close>: \<open>engine.go\<close> and \<open>profile_engine.go\<close>. One process per experiment; the validators'
    loops are instances of one locale, the ledger of retained samples.
  \<^item> \<open>ProfileStats\<close>: \<open>profile_stats.go\<close>.
  \<^item> \<open>Persist\<close>: \<open>persist.go\<close> over a disk of links and inodes.
  \<^item> \<open>Paths\<close>: what \<open>execute.go\<close> uses of \<open>path\<close> and \<open>path/filepath\<close>, by components, and the two
    functions built on it, \<open>identityPath\<close> and \<open>resolveRepositoryPath\<close>. A clean absolute path is
    \<open>rooted\<close> over \<open>proper\<close> components, so containment is a prefix of component lists.
  \<^item> \<open>Suite\<close>: the suites of \<open>types.go\<close> and their validation, shown to be \<open>suite_ok\<close>.
  \<^item> \<open>Execute\<close>, \<open>ProfileExecute\<close>: \<open>execute.go\<close> and \<open>profile_execute.go\<close>. Both run a suite the same
    way (\<open>gather\<close>, \<open>execute_suite\<close>) around their own scenario. What the loop relies on is the
    locale \<open>engine_runner\<close>, which the engine runs of \<open>Engine\<close> satisfy; \<open>experiment_ok\<close> and
    \<open>profile_experiment_ok\<close> say what an experiment records.
  \<^item> \<open>Verify\<close>, \<open>ProfileVerify\<close>: \<open>verify.go\<close>. Both checks are one loop around their own experiment; what
    it needs is the locale \<open>experiment_check\<close>. Acceptance is described exactly, and evidence that
    was captured is accepted as long as the repository has not changed.
  \<^item> \<open>Unverifiable\<close>: the three conditions of \<open>verify.go\<close> that \<open>execute.go\<close> does not check, with a
    published capture that violates each.
  \<^item> \<open>GoTime\<close>: decoding of a \<open>time.Time\<close>, with the calendar and the leniency of \<open>time.Parse\<close>.
  \<^item> \<open>EvidenceJson\<close>: the decoders of stored evidence, and the agreement of a lenient reading of one field
    with the strict reading of all.
  \<^item> \<open>Receipts\<close>: \<open>VerifyEvidence\<close> of \<open>verify.go\<close>, from the stored file to the receipt.
  \<^item> \<open>JsonText\<close>, \<open>JsonLayout\<close>, \<open>JsonValue\<close>: \<open>json.MarshalIndent\<close>. The quoting and escaping of text and what
    unquoting makes of it, the layout of a tree and its parsing back to that tree, and the encoding of a Go
    value, a \<open>val\<close>; what \<open>storable\<close> values are encoded to is decoded to what the decoder makes
    of the tree (\<open>MarshalIndent_Decode\<close>).
  \<^item> \<open>EvidenceText\<close>: the struct tags of the evidence read as encoders, and the round trip of each record.
  \<^item> \<open>JsonStable\<close>, \<open>Stored\<close>: a raw result is stored in the layout of the file; decoding does not see the
    layout, so stored evidence is accepted whenever the evidence in memory is.
  \<^item> \<open>Storable\<close>: text that was decoded is valid UTF-8 and validated results are shallow, so gathered
    evidence can be stored under conditions on the environment and on the recorded paths only (\<open>recordable\<close>).
  \<^item> \<open>EvidenceFile\<close>: from the command to the receipt over the bytes on the disk.
  \<^item> \<open>App\<close>: \<open>internal/app/app.go\<close> and \<open>cmd/labctl/main.go\<close>. The injected dependencies are a record;
    a command is its exit code and the effects it had, in order. The two flag parsers are
    instances of one locale.
  \<^item> \<open>AppText\<close>: the texts and the JSON that the commands print on standard output.
  \<^item> This theory: what the command line reports about a workload, over the session, and about stored
    evidence, over its verification.

  \<^bold>\<open>Interaction.\<close> \<open>labctl run\<close> projects the workload file (\<open>Protocol\<close>), starts a session
  (\<open>Session\<close>), whose transaction encodes the request, reads a frame (\<open>Frame\<close>) and decodes it
  (\<open>Protocol\<close>, \<open>Jsoncheck\<close>, \<open>Json\<close>), and prints the result. \<open>App\<close> uses the session only through the
  locale \<open>worker_session\<close>, which the interleaving model satisfies for every schedule. \<open>labctl benchmark\<close>
  and \<open>labctl profile\<close> read a suite (\<open>Suite\<close>), check the host (\<open>Doctor\<close>), run one engine process
  per experiment (\<open>Engine\<close>) on workloads below the root (\<open>Paths\<close>), summarise and analyse the samples
  (\<open>Stats\<close>, \<open>ProfileStats\<close>), encode the evidence (\<open>EvidenceText\<close>) and publish it (\<open>Persist\<close>); \<open>labctl verify\<close>
  decodes it and repeats every check from the retained samples (\<open>Receipts\<close>). \<open>capture_file_verifies\<close> and
  \<open>profile_file_verifies\<close> follow the bytes all the way.

  \<^bold>\<open>Bounds and fuel.\<close> The JSON parser and the duplicate-key scan recurse with fuel taken from the
  length of the input, and every recursive call that returns consumes a byte, so the fuel is always enough
  (\<open>parse_json_total\<close>, \<open>scanJSONValue_returns\<close>);
  the nesting limit of \<open>encoding/json\<close> is part of the parser. A call takes at most 25 steps
  in any schedule, and once the child is gone it is never stuck before it has returned (\<open>calls_return\<close>). All other recursion is
  structural or has a measure.

  \<^bold>\<open>Parameters.\<close> Files, processes, the operating system's answers to \<open>pipe\<close>, \<open>close\<close>, \<open>start\<close> and
  \<open>write\<close>, \<open>debug.ReadBuildInfo\<close>, \<open>exec.LookPath\<close> and the results of commands are arguments. No law is
  assumed of them beyond the types, except that a write never reports more bytes than it
  was offered, that SHA-256 gives 32 bytes, and that \<open>os.CreateTemp\<close> picks a name that is not in use, which other
  processes then leave alone, the name as well as the file (\<open>exclusive_temp\<close>).

  \<^bold>\<open>Not modelled.\<close> SHA-256 and the resolution of symbolic links are
  arguments, as are \<open>%.17g\<close>, the Unicode table of printable runes and the text of an error of \<open>encoding/json\<close>;
  an encoded \<open>time.Time\<close> is in UTC, as all recorded times are; the Rust engine is a separate program; the texts
  on standard error stay error values; of the passage of time and of signals only the readings of the
  clock and the cancelled context remain. \<open>App\<close> takes the benchmark, profile and verify operations as
  injected dependencies, as the code does.
\<close>

text \<open>
  Claim C31. What \<open>labctl run\<close> reports on success is consistent with the workload it was given, for every
  interleaving of the session that executes it: the file was read, projects to a workload, and
  the reported accepted count, histogram and sums are those of a result that the protocol
  validated against that workload.
\<close>

theorem run_reports_consistent_result:
  assumes "d_Execute d = execute_under schedule" "fst (runWorkload d args) = 0"
  shows "\<exists>source projection result report.
     d_ReadFile d (args ! 2) = Inr source \<and> ProjectWorkload source = Inr projection \<and>
     consistent_result projection result \<and> Stdout (RunText report) \<in> set (snd (runWorkload d args)) \<and>
     rr_Workload report = wp_Name projection \<and> rr_AcceptedCount report = AcceptedCount result \<and>
     rr_CategoryHistogram report = marshal_histogram (CategoryHistogram result) \<and>
     rr_ScoreSumBits report = ScoreSum result"
  using session.run_report_consistent [OF assms]
  by (fastforce simp: writeRunResult_def write_out_def)

theorem run_reports_consistent_result_witness:
  "\<exists>schedule report.
     Stdout (RunText report) \<in> set (snd (runWorkload
       (sample_dependencies\<lparr>d_Execute := execute_under schedule\<rparr>) [''--engine'', ''e'', ''w.json''])) \<and>
     rr_AcceptedCount report = 3"
proof -
  obtain n w where w: "run (sample_execute_run n) start_world = Some w"
    and t: "w_threads w 0 = Some \<lparr>th_call = call.Execute sample_workload_text, th_cancelled = False,
        th_id = Some (FormatRequestID 1), th_pc = Returned (Completed sample_result)\<rparr>"
    using sample_execute by blast
  let ?schedule = "List.tl (sample_execute_run n)"
  let ?d = "sample_dependencies\<lparr>d_Execute := execute_under ?schedule\<rparr>"
  let ?args = "[''--engine'', ''e'', ''w.json'']"
  have "Begin 0 (call.Execute sample_workload_text) # ?schedule = sample_execute_run n"
    by (simp add: sample_execute_run_def)
  with w t have e: "execute_under ?schedule sample_workload_text = Inr sample_result"
    by (simp only: execute_under_def) simp
  then have "fst (runWorkload ?d ?args) = 0"
    by (simp add: runWorkload_def sample_dependencies_def sample_ProjectWorkload before_def deferred_def
        writeRunResult_def write_out_def)
  from run_reports_consistent_result [OF _ this, of ?schedule] e
  show ?thesis
    by (intro exI [of _ ?schedule]) (auto simp: runWorkload_def sample_dependencies_def sample_ProjectWorkload before_def deferred_def
        writeRunResult_def write_out_def sample_result_def)
qed

section \<open>labctl verify over stored evidence\<close>

text \<open>What the command line falls back on when no verification is injected.\<close>

definition verifier :: "(bytes \<Rightarrow> bytes) \<Rightarrow> repository \<Rightarrow> verify_options \<Rightarrow> verify_error + EvidenceVerification" where
  "verifier sha v options = the (Receipts.VerifyEvidence sha v options)"

text \<open>
  Claim C28. \<open>labctl verify\<close> exits with 0 exactly when its arguments are well formed, the verification of the named
  evidence issues a receipt and the receipt can be written. A receipt is printed only then, it is the one of the
  verification, and it is printed as JSON exactly when \<open>--json\<close> was given. A malformed command
  line is the only reason for exit code 2, and then nothing has been read.
\<close>

theorem verify_command_exact:
  fixes d :: "(verify_error, 'c, 'p, EvidenceVerification) dependencies"
  shows "let r = runVerify (d\<lparr>d_VerifyEvidence := verifier sha v\<rparr>) args;
      accepted = (\<lambda>json receipt. \<exists>options. parseVerifyOptions args = Inr (options, json) \<and>
        Receipts.VerifyEvidence sha v options = Some (Inr receipt)) in
    (fst r = 0 \<longleftrightarrow> d_StdoutOk d \<and> (\<exists>json receipt. accepted json receipt)) \<and>
    (Stdout (ReceiptJSON receipt) \<in> set (snd r) \<longleftrightarrow> accepted True receipt) \<and>
    (Stdout (ReceiptText receipt) \<in> set (snd r) \<longleftrightarrow> accepted False receipt) \<and>
    (fst r = 2 \<longleftrightarrow> d_StderrOk d \<and> (\<exists>e. parseVerifyOptions args = Inl e \<and> snd r = [Stderr (Usage (BadOptions e))]))"
proof (cases "parseVerifyOptions args")
  case (Inl e)
  then show ?thesis by (simp add: runVerify_def usageError_def)
next
  case (Inr parsed)
  obtain options json where p: "parsed = (options, json)" by force
  obtain r where r: "Receipts.VerifyEvidence sha v options = Some r"
    using VerifyEvidence_returns [of sha v options] by auto
  show ?thesis
    using Inr p r
    by (cases r; cases json)
      (auto simp: runVerify_def verifier_def before_def commandError_def write_out_def)
qed

end
